(* ===== verification/Prelude.thy ===== *)
theory Prelude
  imports Main
begin

text \<open>
  Shared vocabulary of the development: the collections of rewrite rules the component
  theories extend, the signed machine integers of Go written out as wrap-around on
  \<open>int\<close>, generic facts about lists and maps, and the one contract every component
  with state shares, a machine whose operations keep an invariant.
\<close>

named_theorems model_defs "defining equations of small wrappers, unfolded by proofs"
named_theorems keeps "an operation keeps a part of the state"

subsection \<open>Signed integers of fixed width\<close>

text \<open>
  Go's \<open>int32\<close>, \<open>int64\<close> and \<open>time.Duration\<close> wrap around. The model keeps
  the value as an \<open>int\<close> and writes the wrap-around wherever the source computes.
\<close>

definition i32 :: "int \<Rightarrow> int" where
  "i32 x = (x + 2147483648) mod 4294967296 - 2147483648"

definition i64 :: "int \<Rightarrow> int" where
  "i64 x = (x + 9223372036854775808) mod 18446744073709551616 - 9223372036854775808"

abbreviation (input) min_i64 :: int where "min_i64 \<equiv> -9223372036854775808"
abbreviation (input) max_i64 :: int where "max_i64 \<equiv> 9223372036854775807"
abbreviation (input) min_i32 :: int where "min_i32 \<equiv> -2147483648"
abbreviation (input) max_i32 :: int where "max_i32 \<equiv> 2147483647"

definition in_i32 :: "int \<Rightarrow> bool" where
  "in_i32 x \<longleftrightarrow> min_i32 \<le> x \<and> x \<le> max_i32"

definition in_i64 :: "int \<Rightarrow> bool" where
  "in_i64 x \<longleftrightarrow> min_i64 \<le> x \<and> x \<le> max_i64"

lemma i32_id [simp]: "in_i32 x \<Longrightarrow> i32 x = x"
  by (simp add: in_i32_def i32_def)

lemma i64_id [simp]: "in_i64 x \<Longrightarrow> i64 x = x"
  by (simp add: in_i64_def i64_def)

lemma i32_range: "in_i32 (i32 x)"
  unfolding in_i32_def i32_def
  using pos_mod_bound [of 4294967296 "x + 2147483648"] pos_mod_sign [of 4294967296 "x + 2147483648"]
  by linarith

lemma i64_range: "in_i64 (i64 x)"
  unfolding in_i64_def i64_def
  using pos_mod_bound [of 18446744073709551616 "x + 9223372036854775808"]
    pos_mod_sign [of 18446744073709551616 "x + 9223372036854775808"]
  by linarith

lemma i32_bounds: "min_i32 \<le> i32 x" "i32 x \<le> max_i32"
  using i32_range [of x] by (simp_all add: in_i32_def)

lemma i64_bounds: "min_i64 \<le> i64 x" "i64 x \<le> max_i64"
  using i64_range [of x] by (simp_all add: in_i64_def)

subsection \<open>Lists\<close>

lemma find_SomeD: "find P xs = Some x \<Longrightarrow> x \<in> set xs \<and> P x"
  by (induction xs) (auto split: if_splits)

lemma find_Some_iff_ex: "(\<exists>x. find P xs = Some x) \<longleftrightarrow> (\<exists>x\<in>set xs. P x)"
  by (induction xs) auto

lemma filter_id_conv': "(\<And>x. x \<in> set xs \<Longrightarrow> P x) \<Longrightarrow> filter P xs = xs"
  by (induction xs) auto

lemma list_all_ex_conv: "\<not> list_ex P xs \<longleftrightarrow> list_all (\<lambda>x. \<not> P x) xs"
  by (induction xs) auto

lemma list_ex_find: "list_ex P xs \<longleftrightarrow> (\<exists>x. find P xs = Some x)"
  by (induction xs) auto

lemma list_ex_filter: "list_ex P xs \<longleftrightarrow> filter P xs \<noteq> []"
  by (induction xs) auto

lemma sorted_wrt_nth_adjacent:
  assumes "transp R" and "\<And>i. Suc i < length xs \<Longrightarrow> R (xs ! i) (xs ! Suc i)"
  shows "sorted_wrt R xs"
  using assms sorted_wrt_iff_nth_Suc_transp by blast

subsection \<open>Machines that keep an invariant\<close>

text \<open>
  A component with state is a step function over the events its callers may trigger. Its
  contract: every step keeps the invariant. What the client gets: any run keeps it, and so
  do all the states the run passes through.
\<close>

locale invariant_machine =
  fixes step :: "'s \<Rightarrow> 'e \<Rightarrow> 's"
    and inv :: "'s \<Rightarrow> bool"
  assumes step_inv: "inv s \<Longrightarrow> inv (step s e)"
begin

lemma run_inv: "inv s \<Longrightarrow> inv (foldl step s es)"
  by (induction es arbitrary: s) (auto intro: step_inv)

lemma prefix_inv: "inv s \<Longrightarrow> inv (foldl step s (take n es))"
  by (rule run_inv)

end

text \<open>
  A latch is a machine with a set of final states no step leaves and an observation no step
  changes once the machine is final: the contract of terminal job states.
\<close>

locale latch_machine =
  fixes step :: "'s \<Rightarrow> 'e \<Rightarrow> 's"
    and final :: "'s \<Rightarrow> bool"
    and obs :: "'s \<Rightarrow> 'o"
  assumes step_final: "final s \<Longrightarrow> final (step s e)"
    and step_obs: "final s \<Longrightarrow> obs (step s e) = obs s"
begin

lemma run_final: "final s \<Longrightarrow> final (foldl step s es)"
  by (induction es arbitrary: s) (auto intro: step_final)

lemma run_obs: "final s \<Longrightarrow> obs (foldl step s es) = obs s"
  by (induction es arbitrary: s) (auto simp: step_obs step_final)

end

sublocale latch_machine \<subseteq> final_inv: invariant_machine step final
  by unfold_locales (rule step_final)

end
