(* ===== verification/GoStd.thy ===== *)
theory GoStd
  imports Prelude Complex_Main "HOL-Library.Char_ord" "HOL-Library.List_Lexorder"
begin

text \<open>
  The parts of Go's standard library the program uses: decimal formatting and parsing
  (\<open>fmt\<close>, \<open>strconv\<close>), splitting and trimming (\<open>strings\<close>), durations and
  instants (\<open>time\<close>), and the \<open>float64\<close> division the pool controllers compare with
  their thresholds. A Go string is the list of its bytes.
\<close>

subsection \<open>strings\<close>

definition HasPrefix :: "string \<Rightarrow> string \<Rightarrow> bool" where
  "HasPrefix s p \<longleftrightarrow> take (length p) s = p"

definition HasSuffix :: "string \<Rightarrow> string \<Rightarrow> bool" where
  "HasSuffix s p \<longleftrightarrow> length p \<le> length s \<and> drop (length s - length p) s = p"

definition TrimPrefix :: "string \<Rightarrow> string \<Rightarrow> string" where
  "TrimPrefix s p = (if HasPrefix s p then drop (length p) s else s)"

definition TrimSuffix :: "string \<Rightarrow> string \<Rightarrow> string" where
  "TrimSuffix s p = (if HasSuffix s p then take (length s - length p) s else s)"

text \<open>\<open>strings.TrimSpace\<close> on ASCII text.\<close>

definition is_space :: "char \<Rightarrow> bool" where
  "is_space c \<longleftrightarrow> c \<in> {CHR '' '', CHR 0x09, CHR 0x0A, CHR 0x0B, CHR 0x0C, CHR 0x0D}"

definition TrimSpace :: "string \<Rightarrow> string" where
  "TrimSpace s = rev (dropWhile is_space (rev (dropWhile is_space s)))"

text \<open>\<open>strings.ToLower\<close>, character by character, on ASCII text.\<close>

definition lower_char :: "char \<Rightarrow> char" where
  "lower_char c = (let n = of_char c :: nat in if 65 \<le> n \<and> n \<le> 90 then char_of (n + 32) else c)"

text \<open>\<open>strings.Cut\<close>: the text before and after the first separator, if there is one.\<close>

fun cut :: "char \<Rightarrow> string \<Rightarrow> (string \<times> string) option" where
  "cut c [] = None"
| "cut c (x # xs) =
     (if x = c then Some ([], xs)
      else (case cut c xs of None \<Rightarrow> None | Some (a, b) \<Rightarrow> Some (x # a, b)))"

text \<open>\<open>strings.SplitN(s, c, n)\<close>: at most \<open>n\<close> pieces, the last one unsplit.\<close>

fun SplitN :: "string \<Rightarrow> char \<Rightarrow> nat \<Rightarrow> string list" where
  "SplitN s c 0 = []"
| "SplitN s c (Suc 0) = [s]"
| "SplitN s c (Suc (Suc n)) =
     (case cut c s of None \<Rightarrow> [s] | Some (a, b) \<Rightarrow> a # SplitN b c (Suc n))"

lemma cut_length: "cut c s = Some (a, b) \<Longrightarrow> length b < length s"
  by (induction s arbitrary: a b) (auto split: if_splits option.splits prod.splits)

text \<open>\<open>strings.Split(s, c)\<close>: all the pieces.\<close>

function Split :: "string \<Rightarrow> char \<Rightarrow> string list" where
  "Split s c = (case cut c s of None \<Rightarrow> [s] | Some (a, b) \<Rightarrow> a # Split b c)"
  by pat_completeness auto
termination
  by (relation "measure (\<lambda>(s, c). length s)") (auto dest: cut_length)

declare Split.simps [simp del]

lemma HasPrefix_append [simp]: "HasPrefix (p @ s) p"
  by (simp add: HasPrefix_def)

lemma HasPrefix_iff: "HasPrefix s p \<longleftrightarrow> (\<exists>t. s = p @ t)"
  unfolding HasPrefix_def by (metis append_eq_conv_conj append_take_drop_id)

lemma TrimPrefix_append [simp]: "TrimPrefix (p @ s) p = s"
  by (simp add: TrimPrefix_def)

lemma TrimSuffix_append [simp]: "TrimSuffix (s @ p) p = s"
  by (simp add: TrimSuffix_def HasSuffix_def)

lemma cut_append: "c \<notin> set a \<Longrightarrow> cut c (a @ c # b) = Some (a, b)"
  by (induction a) auto

lemma cut_None: "cut c s = None \<longleftrightarrow> c \<notin> set s"
  by (induction s) (auto split: option.splits prod.splits)

lemma cut_SomeD: "cut c s = Some (a, b) \<Longrightarrow> s = a @ c # b \<and> c \<notin> set a"
  by (induction s arbitrary: a b) (auto split: if_splits option.splits prod.splits)

lemma Split_no_sep: "p \<in> set (Split s c) \<Longrightarrow> c \<notin> set p"
proof (induction s c rule: Split.induct)
  case (1 s c)
  show ?case
  proof (cases "cut c s")
    case None
    with "1.prems" show ?thesis by (simp add: Split.simps [of s] cut_None)
  next
    case (Some ab)
    obtain a b where ab: "ab = (a, b)" by (cases ab)
    with "1.prems" Some have "p = a \<or> p \<in> set (Split b c)"
      by (simp add: Split.simps [of s])
    with "1.IH" [OF Some] ab Some show ?thesis by (auto dest: cut_SomeD)
  qed
qed

subsection \<open>Decimal numbers\<close>

definition digit :: "nat \<Rightarrow> char" where
  "digit d = ''0123456789'' ! d"

definition digit_value :: "char \<Rightarrow> nat option" where
  "digit_value c = (let n = of_char c :: nat in if 48 \<le> n \<and> n \<le> 57 then Some (n - 48) else None)"

fun show_nat :: "nat \<Rightarrow> string" where
  "show_nat n = (if n < 10 then [digit n] else show_nat (n div 10) @ [digit (n mod 10)])"

declare show_nat.simps [simp del]

text \<open>\<open>%d\<close> of a signed integer.\<close>

definition show_int :: "int \<Rightarrow> string" where
  "show_int i = (if i < 0 then CHR ''-'' # show_nat (nat (- i)) else show_nat (nat i))"

fun digits_value :: "nat \<Rightarrow> string \<Rightarrow> nat option" where
  "digits_value acc [] = Some acc"
| "digits_value acc (c # cs) =
     (case digit_value c of None \<Rightarrow> None | Some d \<Rightarrow> digits_value (10 * acc + d) cs)"

text \<open>
  \<open>strconv.ParseInt(s, 10, bits)\<close>: an optional sign, at least one digit, and a value
  within the range of the width; \<open>strconv.Atoi\<close> is the 64-bit case.
\<close>

definition unsigned_value :: "string \<Rightarrow> nat option" where
  "unsigned_value s = (if s = [] then None else digits_value 0 s)"

definition ParseInt :: "nat \<Rightarrow> string \<Rightarrow> int option" where
  "ParseInt bits s =
     (let neg = (case s of c # _ \<Rightarrow> c = CHR ''-'' | [] \<Rightarrow> False);
          body = (case s of c # cs \<Rightarrow> if c = CHR ''-'' \<or> c = CHR ''+'' then cs else s | [] \<Rightarrow> s)
      in case unsigned_value body of
           None \<Rightarrow> None
         | Some n \<Rightarrow>
             (let v = (if neg then - int n else int n)
              in if - (2 ^ (bits - 1)) \<le> v \<and> v < 2 ^ (bits - 1) then Some v else None))"

definition Atoi :: "string \<Rightarrow> int option" where
  "Atoi s = ParseInt 64 s"

lemma digit_value_digit [simp]: "d < 10 \<Longrightarrow> digit_value (digit d) = Some d"
  by (auto simp: digit_def digit_value_def less_Suc_eq numeral_eq_Suc nth_Cons')

lemma digits_value_append:
  "digits_value acc (xs @ ys) =
     (case digits_value acc xs of None \<Rightarrow> None | Some a \<Rightarrow> digits_value a ys)"
  by (induction xs arbitrary: acc) (auto split: option.splits)

lemma digits_value_show_nat: "digits_value 0 (show_nat n) = Some n"
proof (induction n rule: show_nat.induct)
  case (1 n)
  show ?case
  proof (cases "n < 10")
    case True
    then show ?thesis by (simp add: show_nat.simps)
  next
    case False
    with "1.IH" have "digits_value 0 (show_nat (n div 10)) = Some (n div 10)" by simp
    with False show ?thesis by (simp add: show_nat.simps [of n] digits_value_append)
  qed
qed

lemma show_nat_not_Nil [simp]: "show_nat n \<noteq> []"
  by (simp add: show_nat.simps)

lemma unsigned_value_show_nat [simp]: "unsigned_value (show_nat n) = Some n"
  by (simp add: unsigned_value_def digits_value_show_nat)

lemma digit_neq: "d < 10 \<Longrightarrow> digit d \<in> set ''0123456789''"
  by (auto simp: digit_def less_Suc_eq numeral_eq_Suc nth_Cons')

lemma set_show_nat: "set (show_nat n) \<subseteq> set ''0123456789''"
proof (induction n rule: show_nat.induct)
  case (1 n)
  show ?case
  proof (cases "n < 10")
    case True
    with digit_neq [of n] show ?thesis by (simp add: show_nat.simps [of n])
  next
    case False
    with 1 digit_neq [of "n mod 10"] show ?thesis by (simp add: show_nat.simps [of n])
  qed
qed

lemma show_nat_head:
  "show_nat n = c # cs \<Longrightarrow> c \<noteq> CHR ''-'' \<and> c \<noteq> CHR ''+'' \<and> c \<noteq> CHR ''/''"
  using set_show_nat [of n] by auto

lemma slash_notin_show_nat [simp]: "CHR ''/'' \<notin> set (show_nat n)"
  using set_show_nat [of n] by auto

lemma slash_notin_show_int [simp]: "CHR ''/'' \<notin> set (show_int i)"
  by (simp add: show_int_def)

lemma ParseInt_show_int:
  assumes "- (2 ^ (bits - 1)) \<le> i" and "i < 2 ^ (bits - 1)"
  shows "ParseInt bits (show_int i) = Some i"
proof (cases "i < 0")
  case True
  with assms show ?thesis by (simp add: ParseInt_def show_int_def)
next
  case False
  obtain c cs where c: "show_nat (nat i) = c # cs" by (cases "show_nat (nat i)") auto
  then have "unsigned_value (c # cs) = Some (nat i)" using unsigned_value_show_nat [of "nat i"] by simp
  with c show_nat_head [OF c] False assms show ?thesis by (simp add: ParseInt_def show_int_def)
qed

lemma ParseInt_show_int_enough:
  assumes "nat \<bar>i\<bar> < b"
  shows "ParseInt (Suc b) (show_int i) = Some i"
proof -
  have "int b < 2 ^ b" by (metis less_exp of_nat_less_iff of_nat_numeral of_nat_power)
  with assms have "\<bar>i\<bar> < 2 ^ b" by linarith
  then show ?thesis by (intro ParseInt_show_int) simp_all
qed

lemma show_int_inject [simp]: "show_int i = show_int j \<longleftrightarrow> i = j"
proof
  assume eq: "show_int i = show_int j"
  define b where "b = Suc (nat \<bar>i\<bar> + nat \<bar>j\<bar>)"
  have "ParseInt (Suc b) (show_int i) = Some i"
    by (rule ParseInt_show_int_enough) (simp add: b_def)
  moreover have "ParseInt (Suc b) (show_int j) = Some j"
    by (rule ParseInt_show_int_enough) (simp add: b_def)
  ultimately show "i = j" using eq by (metis option.inject)
qed simp

subsection \<open>time\<close>

text \<open>
  A \<open>time.Duration\<close> is a signed 64-bit number of nanoseconds; an instant is the number
  of nanoseconds since some epoch. \<open>time.Duration(n) * time.Second\<close> wraps around;
  \<open>t.Sub(u)\<close> saturates.
\<close>

type_synonym instant = int
type_synonym duration = int

definition second :: duration where "second = 1000000000"
definition minute :: duration where "minute = 60000000000"

definition seconds :: "int \<Rightarrow> duration" where
  "seconds n = i64 (n * second)"

definition time_add :: "instant \<Rightarrow> duration \<Rightarrow> instant" where
  "time_add t d = t + d"

definition time_sub :: "instant \<Rightarrow> instant \<Rightarrow> duration" where
  "time_sub t u = max min_i64 (min max_i64 (t - u))"

definition time_after :: "instant \<Rightarrow> instant \<Rightarrow> bool" where
  "time_after t u \<longleftrightarrow> u < t"

lemma seconds_exact: "\<bar>n\<bar> \<le> 9223372036 \<Longrightarrow> seconds n = n * second"
  unfolding seconds_def by (rule i64_id) (auto simp: second_def in_i64_def)

subsection \<open>float64 division\<close>

text \<open>
  The quotient of two counts as a \<open>float64\<close>: the rational is scaled by a power of two
  until it has 53 significant bits, and rounded to the nearest integer, ties to even.
  The result is the exact rational value of the double. Counts are below \<open>2 ^ 53\<close>, so
  their own conversions to \<open>float64\<close> are exact.
\<close>

function scale_up :: "nat \<Rightarrow> nat \<Rightarrow> nat \<Rightarrow> nat" where
  "scale_up a b k = (if 0 < a \<and> a < 4503599627370496 * b then scale_up (2 * a) b (Suc k) else k)"
  by pat_completeness auto
termination
  by (relation "measure (\<lambda>(a, b, k). 4503599627370496 * b - a)") auto

declare scale_up.simps [simp del]

definition round_half_even :: "nat \<Rightarrow> nat \<Rightarrow> nat" where
  "round_half_even a b =
     (let q = a div b; r = a mod b
      in if 2 * r < b then q else if b < 2 * r then Suc q else if even q then q else Suc q)"

definition fdiv64 :: "nat \<Rightarrow> nat \<Rightarrow> rat" where
  "fdiv64 a b =
     (let k = scale_up a b 0 in of_nat (round_half_even (2 ^ k * a) b) / 2 ^ k)"

lemma fdiv64_0 [simp]: "fdiv64 0 b = 0"
  by (simp add: fdiv64_def scale_up.simps round_half_even_def)

lemma fdiv64_nonneg: "0 \<le> fdiv64 a b"
  by (simp add: fdiv64_def Let_def)

lemma round_half_even_pos: "b \<le> a \<Longrightarrow> 0 < b \<Longrightarrow> 0 < round_half_even a b"
  by (auto simp: round_half_even_def Let_def div_greater_zero_iff)

lemma scale_up_reaches:
  "0 < a \<Longrightarrow> 4503599627370496 * b \<le> 2 ^ (scale_up a b k - k) * a \<and> k \<le> scale_up a b k"
proof (induction a b k rule: scale_up.induct)
  case (1 a b k)
  show ?case
  proof (cases "a < 4503599627370496 * b")
    case True
    with 1 have IH: "4503599627370496 * b \<le> 2 ^ (scale_up (2 * a) b (Suc k) - Suc k) * (2 * a)"
      and le: "Suc k \<le> scale_up (2 * a) b (Suc k)" by auto
    from le have "2 ^ (scale_up (2 * a) b (Suc k) - k) = (2::nat) * 2 ^ (scale_up (2 * a) b (Suc k) - Suc k)"
      by (metis Suc_diff_Suc Suc_le_lessD power_Suc)
    with IH le True "1.prems" show ?thesis by (simp add: scale_up.simps [of a] mult.assoc mult.left_commute)
  next
    case False
    then show ?thesis by (simp add: scale_up.simps [of a])
  qed
qed

lemma fdiv64_pos:
  assumes "0 < a" and "0 < b"
  shows "0 < fdiv64 a b"
proof -
  have "b \<le> 4503599627370496 * b" by simp
  also have "\<dots> \<le> 2 ^ scale_up a b 0 * a" using scale_up_reaches [of a b 0] assms(1) by simp
  finally have "0 < round_half_even (2 ^ scale_up a b 0 * a) b"
    using assms(2) by (rule round_half_even_pos)
  then show ?thesis by (simp add: fdiv64_def Let_def)
qed

lemma scale_up_self: "0 < a \<Longrightarrow> scale_up a a 0 = 52"
  by (simp add: scale_up.simps)

lemma fdiv64_self [simp]: "0 < a \<Longrightarrow> fdiv64 a a = 1"
  by (simp add: fdiv64_def scale_up_self round_half_even_def)

end
