(* ===== verification/ApiTypes.thy ===== *)
theory ApiTypes
  imports GoStd
begin

text \<open>
  The Kubernetes API types of the operator (\<open>api/v1alpha1\<close>): AgentJob, AgentAttempt and
  their parts, with the defaulting, validation and phase functions the package defines on
  them. Objects of Kubernetes itself (object metadata, conditions, Pods) appear with the
  fields the operator reads or writes. Optional pointers are \<open>option\<close> values, Go strings
  that act as enumerations stay strings with the source's constants.
\<close>

type_synonym uid = string

subsection \<open>Objects of Kubernetes the operator reads\<close>

datatype cstatus = CTrue | CFalse | CUnknown

record condition =
  c_type :: string
  c_status :: cstatus
  c_reason :: string
  c_message :: string
  c_time :: instant

record owner_ref =
  ow_name :: string
  ow_uid :: uid

record object_meta =
  om_name :: string
  om_generate_name :: string
  om_namespace :: string
  om_uid :: uid
  om_labels :: "string \<rightharpoonup> string"
  om_annotations :: "string \<rightharpoonup> string"
  om_owners :: "owner_ref list"
  om_finalizers :: "string list"
  om_deletion :: "instant option"

text \<open>Indexing a Go map with a missing key yields the zero value.\<close>

definition map_get :: "(string \<rightharpoonup> string) \<Rightarrow> string \<Rightarrow> string" where
  "map_get m k = (case m k of None \<Rightarrow> [] | Some v \<Rightarrow> v)"

record env_var =
  ev_name :: string
  ev_value :: string

record resource_reqs =
  rr_requests :: "string \<rightharpoonup> string"
  rr_limits :: "string \<rightharpoonup> string"

subsection \<open>common_types.go\<close>

record ObjectRef =
  or_name :: string
  or_namespace :: string
  or_uid :: uid

record ArtifactRef =
  af_bucket :: string
  af_key :: string

type_synonym ErrorCategory = string

definition ErrorCategoryInfra :: ErrorCategory where "ErrorCategoryInfra = ''Infra''"
definition ErrorCategoryUser :: ErrorCategory where "ErrorCategoryUser = ''User''"
definition ErrorCategoryTimeout :: ErrorCategory where "ErrorCategoryTimeout = ''Timeout''"
definition ErrorCategoryOOM :: ErrorCategory where "ErrorCategoryOOM = ''OOM''"
definition ErrorCategoryUnknown :: ErrorCategory where "ErrorCategoryUnknown = ''Unknown''"

lemmas category_defs =
  ErrorCategoryInfra_def ErrorCategoryUser_def ErrorCategoryTimeout_def
  ErrorCategoryOOM_def ErrorCategoryUnknown_def

lemma category_neq [simp]:
  "ErrorCategoryInfra \<noteq> []" "ErrorCategoryUser \<noteq> []" "ErrorCategoryTimeout \<noteq> []"
  "ErrorCategoryOOM \<noteq> []" "ErrorCategoryUnknown \<noteq> []"
  "[] \<noteq> ErrorCategoryInfra" "[] \<noteq> ErrorCategoryUser" "[] \<noteq> ErrorCategoryTimeout"
  "[] \<noteq> ErrorCategoryOOM" "[] \<noteq> ErrorCategoryUnknown"
  "ErrorCategoryInfra \<noteq> ErrorCategoryUser" "ErrorCategoryInfra \<noteq> ErrorCategoryTimeout"
  "ErrorCategoryInfra \<noteq> ErrorCategoryOOM" "ErrorCategoryInfra \<noteq> ErrorCategoryUnknown"
  "ErrorCategoryUser \<noteq> ErrorCategoryInfra" "ErrorCategoryUser \<noteq> ErrorCategoryTimeout"
  "ErrorCategoryUser \<noteq> ErrorCategoryOOM" "ErrorCategoryUser \<noteq> ErrorCategoryUnknown"
  "ErrorCategoryTimeout \<noteq> ErrorCategoryInfra" "ErrorCategoryTimeout \<noteq> ErrorCategoryUser"
  "ErrorCategoryTimeout \<noteq> ErrorCategoryOOM" "ErrorCategoryTimeout \<noteq> ErrorCategoryUnknown"
  "ErrorCategoryOOM \<noteq> ErrorCategoryInfra" "ErrorCategoryOOM \<noteq> ErrorCategoryUser"
  "ErrorCategoryOOM \<noteq> ErrorCategoryTimeout" "ErrorCategoryOOM \<noteq> ErrorCategoryUnknown"
  "ErrorCategoryUnknown \<noteq> ErrorCategoryInfra" "ErrorCategoryUnknown \<noteq> ErrorCategoryUser"
  "ErrorCategoryUnknown \<noteq> ErrorCategoryTimeout" "ErrorCategoryUnknown \<noteq> ErrorCategoryOOM"
  by (simp_all add: category_defs)

datatype IsolationLevel = L0Process | L1GVisor | L2Firecracker | L3Docker | OtherLevel string

record ResourceSpec =
  rs_cpu :: string
  rs_memory :: string

subsection \<open>agentjob_types.go\<close>

definition JobConditionScheduled :: string where "JobConditionScheduled = ''Scheduled''"
definition JobConditionRunning :: string where "JobConditionRunning = ''Running''"
definition JobConditionComplete :: string where "JobConditionComplete = ''Complete''"
definition JobConditionFailed :: string where "JobConditionFailed = ''Failed''"

lemmas job_condition_defs =
  JobConditionScheduled_def JobConditionRunning_def JobConditionComplete_def JobConditionFailed_def

lemma job_condition_neq [simp]:
  "JobConditionScheduled \<noteq> JobConditionRunning" "JobConditionScheduled \<noteq> JobConditionComplete"
  "JobConditionScheduled \<noteq> JobConditionFailed" "JobConditionRunning \<noteq> JobConditionComplete"
  "JobConditionRunning \<noteq> JobConditionFailed" "JobConditionComplete \<noteq> JobConditionFailed"
  "JobConditionRunning \<noteq> JobConditionScheduled" "JobConditionComplete \<noteq> JobConditionScheduled"
  "JobConditionFailed \<noteq> JobConditionScheduled" "JobConditionComplete \<noteq> JobConditionRunning"
  "JobConditionFailed \<noteq> JobConditionRunning" "JobConditionFailed \<noteq> JobConditionComplete"
  by (simp_all add: job_condition_defs)

record RuntimeSpec =
  rt_image :: string
  rt_command :: "string list"
  rt_args :: "string list"
  rt_env :: "env_var list"
  rt_resources :: resource_reqs

record ExecutionSpec =
  ex_timeout :: "duration option"
  ex_max_attempts :: int
  ex_backoff_limit :: "duration option"
  ex_active_deadline :: "int option"
  ex_ttl :: "int option"

record CheckpointPolicy =
  cp_enabled :: bool
  cp_interval :: int
  cp_storage :: string

record AgentJobSpec =
  js_runtime :: RuntimeSpec
  js_execution :: ExecutionSpec
  js_checkpoint :: CheckpointPolicy

record AttemptReference =
  ar_name :: string
  ar_ordinal :: int
  ar_uid :: uid

record AgentJobStatus =
  st_conditions :: "condition list"
  st_active :: "AttemptReference option"
  st_completed :: int
  st_failed :: int
  st_start :: "instant option"
  st_completion :: "instant option"
  st_spec_hash :: string

record AgentJob =
  j_meta :: object_meta
  j_spec :: AgentJobSpec
  j_status :: AgentJobStatus

abbreviation job_name :: "AgentJob \<Rightarrow> string" where "job_name j \<equiv> om_name (j_meta j)"
abbreviation job_uid :: "AgentJob \<Rightarrow> uid" where "job_uid j \<equiv> om_uid (j_meta j)"
abbreviation job_conditions :: "AgentJob \<Rightarrow> condition list" where
  "job_conditions j \<equiv> st_conditions (j_status j)"
abbreviation job_exec :: "AgentJob \<Rightarrow> ExecutionSpec" where
  "job_exec j \<equiv> js_execution (j_spec j)"

text \<open>
  \<open>JobPhaseFromConditions\<close>: a first loop looks for a terminal condition, a second one
  for a running or scheduled one. Each loop returns at the first match.
\<close>

fun terminal_phase :: "condition list \<Rightarrow> string option" where
  "terminal_phase [] = None"
| "terminal_phase (c # cs) =
     (if c_status c \<noteq> CTrue then terminal_phase cs
      else if c_type c = JobConditionComplete then Some ''Succeeded''
      else if c_type c = JobConditionFailed then Some ''Failed''
      else terminal_phase cs)"

fun progress_phase :: "condition list \<Rightarrow> string" where
  "progress_phase [] = ''Pending''"
| "progress_phase (c # cs) =
     (if c_status c \<noteq> CTrue then progress_phase cs
      else if c_type c = JobConditionRunning then ''Running''
      else if c_type c = JobConditionScheduled then ''Scheduling''
      else progress_phase cs)"

definition JobPhaseFromConditions :: "condition list \<Rightarrow> string" where
  "JobPhaseFromConditions cs =
     (case terminal_phase cs of Some p \<Rightarrow> p | None \<Rightarrow> progress_phase cs)"

subsection \<open>agentattempt_types.go\<close>

definition AttemptConditionPodCreated :: string where "AttemptConditionPodCreated = ''PodCreated''"
definition AttemptConditionRunning :: string where "AttemptConditionRunning = ''Running''"
definition AttemptConditionComplete :: string where "AttemptConditionComplete = ''Complete''"
definition AttemptConditionFailed :: string where "AttemptConditionFailed = ''Failed''"

lemmas attempt_condition_defs =
  AttemptConditionPodCreated_def AttemptConditionRunning_def AttemptConditionComplete_def
  AttemptConditionFailed_def

lemma attempt_condition_neq [simp]:
  "AttemptConditionPodCreated \<noteq> AttemptConditionRunning"
  "AttemptConditionPodCreated \<noteq> AttemptConditionComplete"
  "AttemptConditionPodCreated \<noteq> AttemptConditionFailed"
  "AttemptConditionRunning \<noteq> AttemptConditionComplete"
  "AttemptConditionRunning \<noteq> AttemptConditionFailed"
  "AttemptConditionComplete \<noteq> AttemptConditionFailed"
  "AttemptConditionRunning \<noteq> AttemptConditionPodCreated"
  "AttemptConditionComplete \<noteq> AttemptConditionPodCreated"
  "AttemptConditionFailed \<noteq> AttemptConditionPodCreated"
  "AttemptConditionComplete \<noteq> AttemptConditionRunning"
  "AttemptConditionFailed \<noteq> AttemptConditionRunning"
  "AttemptConditionFailed \<noteq> AttemptConditionComplete"
  by (simp_all add: attempt_condition_defs)

record AgentAttemptSpec =
  as_job_ref :: ObjectRef
  as_ordinal :: int
  as_deadline :: "instant option"

record AgentAttemptStatus =
  at_conditions :: "condition list"
  at_pod_name :: string
  at_pod_uid :: uid
  at_start :: "instant option"
  at_completion :: "instant option"
  at_exit_code :: "int option"
  at_signal :: "int option"
  at_error_category :: ErrorCategory
  at_artifact_ref :: "ArtifactRef option"

record AgentAttempt =
  a_meta :: object_meta
  a_spec :: AgentAttemptSpec
  a_status :: AgentAttemptStatus

abbreviation attempt_name :: "AgentAttempt \<Rightarrow> string" where "attempt_name a \<equiv> om_name (a_meta a)"
abbreviation attempt_uid :: "AgentAttempt \<Rightarrow> uid" where "attempt_uid a \<equiv> om_uid (a_meta a)"
abbreviation attempt_ordinal :: "AgentAttempt \<Rightarrow> int" where
  "attempt_ordinal a \<equiv> as_ordinal (a_spec a)"
abbreviation attempt_conditions :: "AgentAttempt \<Rightarrow> condition list" where
  "attempt_conditions a \<equiv> at_conditions (a_status a)"

fun AttemptPhaseFromConditions :: "condition list \<Rightarrow> string" where
  "AttemptPhaseFromConditions [] = ''Pending''"
| "AttemptPhaseFromConditions (c # cs) =
     (if c_status c \<noteq> CTrue then AttemptPhaseFromConditions cs
      else if c_type c = AttemptConditionComplete then ''Succeeded''
      else if c_type c = AttemptConditionFailed then ''Failed''
      else if c_type c = AttemptConditionRunning then ''Running''
      else if c_type c = AttemptConditionPodCreated then ''Pending''
      else AttemptPhaseFromConditions cs)"

subsection \<open>defaults.go and validation.go\<close>

definition DefaultMaxAttempts :: int where "DefaultMaxAttempts = 3"
definition DefaultTimeout :: duration where "DefaultTimeout = 30 * minute"
definition DefaultCheckpointIntervalSecs :: int where "DefaultCheckpointIntervalSecs = 60"

definition DefaultAgentJobSpec :: "AgentJobSpec \<Rightarrow> AgentJobSpec" where
  "DefaultAgentJobSpec spec =
     (let ex = js_execution spec; cp = js_checkpoint spec;
          ex = (if ex_max_attempts ex = 0 then ex\<lparr>ex_max_attempts := DefaultMaxAttempts\<rparr> else ex);
          ex = (if ex_timeout ex = None then ex\<lparr>ex_timeout := Some DefaultTimeout\<rparr> else ex);
          cp = (if cp_enabled cp \<and> cp_interval cp = 0
                then cp\<lparr>cp_interval := DefaultCheckpointIntervalSecs\<rparr> else cp)
      in spec\<lparr>js_execution := ex, js_checkpoint := cp\<rparr>)"

datatype validation_error =
    ImageRequired | MaxAttemptsTooSmall int | OrdinalNegative int | JobRefUIDRequired

definition ValidateAgentJobSpec :: "AgentJobSpec \<Rightarrow> validation_error option" where
  "ValidateAgentJobSpec spec =
     (if rt_image (js_runtime spec) = [] then Some ImageRequired
      else if ex_max_attempts (js_execution spec) < 1
      then Some (MaxAttemptsTooSmall (ex_max_attempts (js_execution spec)))
      else None)"

definition ValidateAgentAttemptSpec :: "AgentAttemptSpec \<Rightarrow> validation_error option" where
  "ValidateAgentAttemptSpec spec =
     (if as_ordinal spec < 0 then Some (OrdinalNegative (as_ordinal spec))
      else if or_uid (as_job_ref spec) = [] then Some JobRefUIDRequired
      else None)"

lemma DefaultAgentJobSpec_idem:
  "DefaultAgentJobSpec (DefaultAgentJobSpec spec) = DefaultAgentJobSpec spec"
  by (simp add: DefaultAgentJobSpec_def Let_def DefaultMaxAttempts_def
      DefaultCheckpointIntervalSecs_def)

lemma ValidateAgentJobSpec_default:
  "ValidateAgentJobSpec (DefaultAgentJobSpec spec) = None \<longleftrightarrow>
     rt_image (js_runtime spec) \<noteq> [] \<and> 0 \<le> ex_max_attempts (js_execution spec)"
  by (auto simp: ValidateAgentJobSpec_def DefaultAgentJobSpec_def Let_def DefaultMaxAttempts_def)

subsection \<open>Pods\<close>

datatype pod_phase = PodPending | PodRunning | PodSucceeded | PodFailed | PodUnknown | PodPhaseUnset

record volume_mount =
  vm_name :: string
  vm_path :: string
  vm_read_only :: bool

record container_security =
  cs_read_only_root :: bool
  cs_allow_escalation :: bool
  cs_drop :: "string list"
  cs_add :: "string list"
  cs_seccomp :: string

record pod_security =
  ps_non_root :: bool
  ps_user :: int

record container =
  co_name :: string
  co_image :: string
  co_command :: "string list"
  co_args :: "string list"
  co_env :: "env_var list"
  co_resources :: "resource_reqs option"
  co_security :: "container_security option"
  co_mounts :: "volume_mount list"

datatype volume_source = EmptyDir | EmptyDirMemory | SecretVolume string

record pod_spec =
  sp_restart_never :: bool
  sp_init :: "container list"
  sp_containers :: "container list"
  sp_volumes :: "(string \<times> volume_source) list"
  sp_security :: "pod_security option"
  sp_automount_token :: "bool option"
  sp_runtime_class :: "string option"

text \<open>A container's state: the exit code and reason of a termination, when there is one.\<close>

record container_status =
  cst_terminated :: "(int \<times> string) option"
  cst_last_terminated :: "(int \<times> string) option"

record pod_condition =
  pc_type :: string
  pc_status :: cstatus
  pc_reason :: string

record pod_status =
  pst_phase :: pod_phase
  pst_reason :: string
  pst_conditions :: "pod_condition list"
  pst_containers :: "container_status list"

record pod =
  p_meta :: object_meta
  p_spec :: pod_spec
  p_status :: pod_status

subsection \<open>sandboxpool_types.go\<close>

record PoolPodTemplate =
  pt_image :: string
  pt_resources :: ResourceSpec
  pt_command :: "string list"
  pt_env :: "(string \<times> string) list"

text \<open>The thresholds are doubles, kept as the rational numbers they denote.\<close>

record SandboxPoolSpec =
  pl_min_size :: int
  pl_max_size :: int
  pl_scale_up :: rat
  pl_scale_down :: rat
  pl_scale_up_step :: int
  pl_cooldown :: int
  pl_template :: PoolPodTemplate
  pl_runtime_class :: string

record SandboxPoolStatus =
  po_total :: int
  po_idle :: int
  po_claimed :: int
  po_ready :: bool
  po_last_scale :: "instant option"

record SandboxPool =
  l_meta :: object_meta
  l_spec :: SandboxPoolSpec
  l_status :: SandboxPoolStatus

abbreviation pod_name :: "pod \<Rightarrow> string" where "pod_name p \<equiv> om_name (p_meta p)"
abbreviation pod_uid :: "pod \<Rightarrow> uid" where "pod_uid p \<equiv> om_uid (p_meta p)"

end
