(* ===== verification/PodBuilder.thy ===== *)
theory PodBuilder
  imports ApiTypes
begin

text \<open>
  The package \<open>internal/executor\<close>: the Pod of an attempt, its security context, the
  network policy of a job and the secret with an attempt's token.
\<close>

subsection \<open>security.go\<close>

definition defaultSecurityContext :: "pod_security \<times> container_security" where
  "defaultSecurityContext =
     (\<lparr>ps_non_root = True, ps_user = 65534\<rparr>,
      \<lparr>cs_read_only_root = True, cs_allow_escalation = False, cs_drop = [''ALL''], cs_add = [],
       cs_seccomp = ''RuntimeDefault''\<rparr>)"

definition gvisorSecurityContext :: "pod_security \<times> container_security" where
  "gvisorSecurityContext =
     (\<lparr>ps_non_root = True, ps_user = 65534\<rparr>,
      \<lparr>cs_read_only_root = True, cs_allow_escalation = False, cs_drop = [''ALL''],
       cs_add = [''NET_BIND_SERVICE''], cs_seccomp = ''RuntimeDefault''\<rparr>)"

definition firecrackerSecurityContext :: "pod_security \<times> container_security" where
  "firecrackerSecurityContext =
     (\<lparr>ps_non_root = True, ps_user = 65534\<rparr>,
      \<lparr>cs_read_only_root = True, cs_allow_escalation = False, cs_drop = [''ALL''],
       cs_add = [''NET_BIND_SERVICE''], cs_seccomp = ''RuntimeDefault''\<rparr>)"

fun BuildSecurityContext :: "IsolationLevel \<Rightarrow> pod_security \<times> container_security" where
  "BuildSecurityContext L1GVisor = gvisorSecurityContext"
| "BuildSecurityContext L2Firecracker = firecrackerSecurityContext"
| "BuildSecurityContext _ = defaultSecurityContext"

text \<open>What every level guarantees.\<close>

definition hardened :: "pod_security \<Rightarrow> container_security \<Rightarrow> bool" where
  "hardened ps cs \<longleftrightarrow> ps_non_root ps \<and> ps_user ps \<noteq> 0 \<and> cs_read_only_root cs \<and>
     \<not> cs_allow_escalation cs \<and> cs_drop cs = [''ALL''] \<and> set (cs_add cs) \<subseteq> {''NET_BIND_SERVICE''} \<and>
     cs_seccomp cs = ''RuntimeDefault''"

lemma BuildSecurityContext_hardened:
  "hardened (fst (BuildSecurityContext level)) (snd (BuildSecurityContext level))"
  by (cases level) (simp_all add: hardened_def defaultSecurityContext_def
      gvisorSecurityContext_def firecrackerSecurityContext_def)

subsection \<open>pod_builder.go\<close>

record PodBuildConfig =
  bc_runner_image :: string
  bc_attempt_secret :: string

type_synonym PodBuildOption = "PodBuildConfig \<Rightarrow> PodBuildConfig"

definition defaultPodBuildConfig :: PodBuildConfig where
  "defaultPodBuildConfig = \<lparr>bc_runner_image = ''durarun-runner:latest'', bc_attempt_secret = []\<rparr>"

definition WithRunnerImage :: "string \<Rightarrow> PodBuildOption" where
  "WithRunnerImage img c = (if img \<noteq> [] then c\<lparr>bc_runner_image := img\<rparr> else c)"

definition WithAttemptSecret :: "string \<Rightarrow> PodBuildOption" where
  "WithAttemptSecret name c = c\<lparr>bc_attempt_secret := name\<rparr>"

definition buildEnvVars :: "AgentJob \<Rightarrow> AgentAttempt \<Rightarrow> env_var list" where
  "buildEnvVars job attempt =
     [\<lparr>ev_name = ''DURARUN_JOB_NAME'', ev_value = job_name job\<rparr>,
      \<lparr>ev_name = ''DURARUN_JOB_UID'', ev_value = job_uid job\<rparr>,
      \<lparr>ev_name = ''DURARUN_ATTEMPT_ORDINAL'', ev_value = show_int (attempt_ordinal attempt)\<rparr>,
      \<lparr>ev_name = ''DURARUN_ATTEMPT_UID'', ev_value = attempt_uid attempt\<rparr>] @
     [\<lparr>ev_name = ''AF_JOB_NAME'', ev_value = job_name job\<rparr>,
      \<lparr>ev_name = ''AF_ATTEMPT_NUMBER'', ev_value = show_int (attempt_ordinal attempt)\<rparr>] @
     rt_env (js_runtime (j_spec job))"

definition main_args :: "AgentJob \<Rightarrow> string list" where
  "main_args job =
     (let mainArgs = [''--''] @ rt_command (js_runtime (j_spec job))
      in if rt_args (js_runtime (j_spec job)) \<noteq> []
         then mainArgs @ rt_args (js_runtime (j_spec job)) else mainArgs)"

definition attempt_object_name :: "AgentJob \<Rightarrow> int \<Rightarrow> string" where
  "attempt_object_name job ordinal = job_name job @ ''-'' @ show_int ordinal"

definition base_pod :: "PodBuildConfig \<Rightarrow> AgentJob \<Rightarrow> AgentAttempt \<Rightarrow> pod" where
  "base_pod cfg job attempt =
     (let (podSecCtx, containerSecCtx) = BuildSecurityContext (OtherLevel [])
      in \<lparr>p_meta =
            \<lparr>om_name = attempt_object_name job (attempt_ordinal attempt), om_generate_name = [],
             om_namespace = om_namespace (j_meta job), om_uid = [],
             om_labels = [''durarun.io/job'' \<mapsto> job_name job, ''durarun.io/attempt'' \<mapsto> attempt_name attempt],
             om_annotations = Map.empty, om_owners = [], om_finalizers = [], om_deletion = None\<rparr>,
          p_spec =
            \<lparr>sp_restart_never = True,
             sp_init =
               [\<lparr>co_name = ''inject-runner'', co_image = bc_runner_image cfg,
                 co_command = [''cp'', ''/agent-runner'', ''/tools/agent-runner''], co_args = [],
                 co_env = [], co_resources = None, co_security = None,
                 co_mounts = [\<lparr>vm_name = ''tools'', vm_path = ''/tools'', vm_read_only = False\<rparr>]\<rparr>],
             sp_containers =
               [\<lparr>co_name = ''agent'', co_image = rt_image (js_runtime (j_spec job)),
                 co_command = [''/tools/agent-runner''], co_args = main_args job,
                 co_env = buildEnvVars job attempt,
                 co_resources = Some (rt_resources (js_runtime (j_spec job))),
                 co_security = Some containerSecCtx,
                 co_mounts =
                   [\<lparr>vm_name = ''workspace'', vm_path = ''/workspace'', vm_read_only = False\<rparr>,
                    \<lparr>vm_name = ''tmp'', vm_path = ''/tmp'', vm_read_only = False\<rparr>,
                    \<lparr>vm_name = ''tools'', vm_path = ''/tools'', vm_read_only = True\<rparr>]\<rparr>],
             sp_volumes =
               [(''workspace'', EmptyDir), (''tmp'', EmptyDirMemory), (''tools'', EmptyDir)],
             sp_security = Some podSecCtx,
             sp_automount_token = Some False,
             sp_runtime_class = None\<rparr>,
          p_status = \<lparr>pst_phase = PodPhaseUnset, pst_reason = [], pst_conditions = [], pst_containers = []\<rparr>\<rparr>)"

text \<open>The token volume is mounted into the first container.\<close>

definition add_secret :: "string \<Rightarrow> pod \<Rightarrow> pod" where
  "add_secret secret p =
     (let spec = p_spec p;
          mount = \<lparr>vm_name = ''durarun-token'', vm_path = ''/var/run/durarun'', vm_read_only = True\<rparr>;
          containers = (case sp_containers spec of
            [] \<Rightarrow> [] | c # cs \<Rightarrow> c\<lparr>co_mounts := co_mounts c @ [mount]\<rparr> # cs)
      in p\<lparr>p_spec := spec\<lparr>sp_volumes := sp_volumes spec @ [(''durarun-token'', SecretVolume secret)],
                          sp_containers := containers\<rparr>\<rparr>)"

definition BuildPod :: "AgentJob \<Rightarrow> AgentAttempt \<Rightarrow> PodBuildOption list \<Rightarrow> pod" where
  "BuildPod job attempt opts =
     (let cfg = foldl (\<lambda>c opt. opt c) defaultPodBuildConfig opts;
          p = base_pod cfg job attempt
      in if bc_attempt_secret cfg \<noteq> [] then add_secret (bc_attempt_secret cfg) p else p)"

subsection \<open>networkpolicy_builder.go and attempt_secret.go\<close>

datatype net_protocol = UDP | TCP

text \<open>A peer: an optional namespace selector and the labels its pods must carry.\<close>

record net_peer =
  np_any_namespace :: bool
  np_pod_labels :: "(string \<times> string) list"

record egress_rule =
  eg_ports :: "(net_protocol \<times> int) list"
  eg_to :: "net_peer list"

record network_policy =
  nw_name :: string
  nw_namespace :: string
  nw_labels :: "(string \<times> string) list"
  nw_selector :: "(string \<times> string) list"
  nw_types :: "string list"
  nw_egress :: "egress_rule list"

definition BuildNetworkPolicy :: "AgentJob \<Rightarrow> string \<Rightarrow> network_policy" where
  "BuildNetworkPolicy job gatewayServiceName =
     \<lparr>nw_name = job_name job @ ''-egress'',
      nw_namespace = om_namespace (j_meta job),
      nw_labels = [(''durarun.io/job'', job_name job)],
      nw_selector = [(''durarun.io/job'', job_name job)],
      nw_types = [''Egress''],
      nw_egress =
        [\<lparr>eg_ports = [(UDP, 53), (TCP, 53)],
          eg_to = [\<lparr>np_any_namespace = True, np_pod_labels = [(''k8s-app'', ''kube-dns'')]\<rparr>]\<rparr>,
         \<lparr>eg_ports = [],
          eg_to = [\<lparr>np_any_namespace = False, np_pod_labels = [(''app'', gatewayServiceName)]\<rparr>]\<rparr>]\<rparr>"

record secret =
  se_name :: string
  se_namespace :: string
  se_labels :: "(string \<times> string) list"
  se_type :: string
  se_data :: "(string \<times> string) list"

definition BuildAttemptSecret :: "AgentJob \<Rightarrow> AgentAttempt \<Rightarrow> string \<Rightarrow> secret" where
  "BuildAttemptSecret job attempt token =
     \<lparr>se_name = attempt_name attempt @ ''-token'',
      se_namespace = om_namespace (j_meta job),
      se_labels = [(''durarun.io/job'', job_name job), (''durarun.io/attempt'', attempt_name attempt)],
      se_type = ''Opaque'',
      se_data = [(''token'', token)]\<rparr>"

subsection \<open>What the builder guarantees\<close>

text \<open>The metadata of a built Pod does not depend on the options.\<close>

lemma BuildPod_meta: "p_meta (BuildPod job attempt opts) = p_meta (base_pod cfg job attempt)"
  by (simp add: BuildPod_def add_secret_def base_pod_def Let_def split: prod.splits)

lemma BuildPod_name [simp]:
  "pod_name (BuildPod job attempt opts) = attempt_object_name job (attempt_ordinal attempt)"
  by (simp add: BuildPod_meta [where cfg = defaultPodBuildConfig] base_pod_def split: prod.splits)

lemma BuildPod_namespace [simp]:
  "om_namespace (p_meta (BuildPod job attempt opts)) = om_namespace (j_meta job)"
  by (simp add: BuildPod_meta [where cfg = defaultPodBuildConfig] base_pod_def split: prod.splits)

lemma BuildPod_labels:
  "om_labels (p_meta (BuildPod job attempt opts)) =
     [''durarun.io/job'' \<mapsto> job_name job, ''durarun.io/attempt'' \<mapsto> attempt_name attempt]"
  by (simp add: BuildPod_meta [where cfg = defaultPodBuildConfig] base_pod_def split: prod.splits)

lemma attempt_object_name_inject:
  "attempt_object_name job m = attempt_object_name job n \<longleftrightarrow> m = n"
  by (simp add: attempt_object_name_def)

text \<open>The containers that run the user's code are hardened, with or without a token.\<close>

definition pod_hardened :: "pod \<Rightarrow> bool" where
  "pod_hardened p \<longleftrightarrow>
     sp_restart_never (p_spec p) \<and> sp_automount_token (p_spec p) = Some False \<and>
     (case sp_security (p_spec p) of None \<Rightarrow> False
      | Some ps \<Rightarrow> (\<forall>c\<in>set (sp_containers (p_spec p)).
          case co_security c of None \<Rightarrow> False | Some cs \<Rightarrow> hardened ps cs))"

lemma base_pod_hardened: "pod_hardened (base_pod cfg job attempt)"
  using BuildSecurityContext_hardened [of "OtherLevel []"]
  by (simp add: pod_hardened_def base_pod_def split_beta)

lemma add_secret_hardened: "pod_hardened p \<Longrightarrow> pod_hardened (add_secret secret p)"
  by (auto simp: pod_hardened_def add_secret_def Let_def split: list.splits option.splits)

lemma BuildPod_hardened: "pod_hardened (BuildPod job attempt opts)"
  by (simp add: BuildPod_def Let_def base_pod_hardened add_secret_hardened)

text \<open>Every mount of every container names a volume of the Pod.\<close>

definition mounts_resolved :: "pod \<Rightarrow> bool" where
  "mounts_resolved p \<longleftrightarrow>
     (\<forall>c\<in>set (sp_init (p_spec p)) \<union> set (sp_containers (p_spec p)).
        \<forall>m\<in>set (co_mounts c). vm_name m \<in> fst ` set (sp_volumes (p_spec p)))"

lemma BuildPod_mounts: "mounts_resolved (BuildPod job attempt opts)"
  by (simp add: mounts_resolved_def BuildPod_def add_secret_def base_pod_def Let_def split: prod.splits)

lemma BuildPod_secret_volume:
  assumes "name \<noteq> []"
  shows "(''durarun-token'', SecretVolume name) \<in>
     set (sp_volumes (p_spec (BuildPod job attempt (opts @ [WithAttemptSecret name]))))"
  using assms by (simp add: BuildPod_def add_secret_def WithAttemptSecret_def Let_def)

lemma BuildNetworkPolicy_selects:
  "\<forall>(k, v)\<in>set (nw_selector (BuildNetworkPolicy job gw)).
     om_labels (p_meta (BuildPod job attempt opts)) k = Some v"
  by (simp add: BuildNetworkPolicy_def BuildPod_labels)

end
