(* ===== verification/Conditions.thy ===== *)
theory Conditions
  imports ApiTypes
begin

text \<open>
  The package \<open>internal/state\<close>: conditions of jobs and attempts, the terminal-once rule
  and the snapshot validator. \<open>SetStatusCondition\<close> belongs to the Kubernetes API
  machinery, which the repository only calls: it is the parameter \<open>ssc\<close>, and
  \<open>condition_setter\<close> is its documented behaviour.
\<close>

type_synonym setter = "condition list \<Rightarrow> condition \<Rightarrow> condition list"

text \<open>
  The documentation of \<open>meta.SetStatusCondition\<close>: a condition of a new type is appended;
  otherwise the existing one takes all fields of the new one, except that the transition
  time is only taken over when the status differs.
\<close>

definition condition_setter :: "setter \<Rightarrow> bool" where
  "condition_setter ssc \<longleftrightarrow>
     (\<forall>cs c. (\<forall>d\<in>set cs. c_type d \<noteq> c_type c) \<longrightarrow> ssc cs c = cs @ [c]) \<and>
     (\<forall>pre d post c. (\<forall>x\<in>set pre. c_type x \<noteq> c_type c) \<longrightarrow> c_type d = c_type c \<longrightarrow>
        (\<exists>t. ssc (pre @ d # post) c = pre @ c\<lparr>c_time := t\<rparr> # post \<and>
             (c_status d \<noteq> c_status c \<longrightarrow> t = c_time c)))"

text \<open>A concrete setter with that behaviour, for evaluation on concrete inputs.\<close>

fun set_condition :: setter where
  "set_condition [] c = [c]"
| "set_condition (d # ds) c =
     (if c_type d = c_type c
      then c\<lparr>c_time := (if c_status d = c_status c then c_time d else c_time c)\<rparr> # ds
      else d # set_condition ds c)"

lemma set_condition_new: "\<forall>d\<in>set cs. c_type d \<noteq> c_type c \<Longrightarrow> set_condition cs c = cs @ [c]"
  by (induction cs) auto

lemma set_condition_old:
  "\<forall>x\<in>set pre. c_type x \<noteq> c_type c \<Longrightarrow> c_type d = c_type c \<Longrightarrow>
   set_condition (pre @ d # post) c =
     pre @ c\<lparr>c_time := (if c_status d = c_status c then c_time d else c_time c)\<rparr> # post"
  by (induction pre) auto

lemma condition_setter_set_condition: "condition_setter set_condition"
  by (auto simp: condition_setter_def set_condition_new set_condition_old)

subsection \<open>The code\<close>

definition new_condition :: "string \<Rightarrow> cstatus \<Rightarrow> string \<Rightarrow> string \<Rightarrow> instant \<Rightarrow> condition" where
  "new_condition t s r m now =
     \<lparr>c_type = t, c_status = s, c_reason = r, c_message = m, c_time = now\<rparr>"

definition SetJobCondition ::
  "setter \<Rightarrow> instant \<Rightarrow> condition list \<Rightarrow> string \<Rightarrow> cstatus \<Rightarrow> string \<Rightarrow> string \<Rightarrow> condition list" where
  "SetJobCondition ssc now cs t s r m = ssc cs (new_condition t s r m now)"

definition SetAttemptCondition ::
  "setter \<Rightarrow> instant \<Rightarrow> condition list \<Rightarrow> string \<Rightarrow> cstatus \<Rightarrow> string \<Rightarrow> string \<Rightarrow> condition list" where
  "SetAttemptCondition ssc now cs t s r m = ssc cs (new_condition t s r m now)"

fun IsJobTerminal :: "condition list \<Rightarrow> bool" where
  "IsJobTerminal [] = False"
| "IsJobTerminal (c # cs) =
     (if c_status c \<noteq> CTrue then IsJobTerminal cs
      else if c_type c = JobConditionComplete \<or> c_type c = JobConditionFailed then True
      else IsJobTerminal cs)"

definition TrySetJobTerminal ::
  "setter \<Rightarrow> instant \<Rightarrow> condition list \<Rightarrow> string \<Rightarrow> cstatus \<Rightarrow> string \<Rightarrow> string \<Rightarrow> condition list \<times> bool" where
  "TrySetJobTerminal ssc now cs t s r m =
     (if IsJobTerminal cs then (cs, False) else (SetJobCondition ssc now cs t s r m, True))"

fun IsAttemptTerminal :: "condition list \<Rightarrow> bool" where
  "IsAttemptTerminal [] = False"
| "IsAttemptTerminal (c # cs) =
     (if c_status c \<noteq> CTrue then IsAttemptTerminal cs
      else if c_type c = AttemptConditionComplete \<or> c_type c = AttemptConditionFailed then True
      else IsAttemptTerminal cs)"

fun IsAttemptSucceeded :: "condition list \<Rightarrow> bool" where
  "IsAttemptSucceeded [] = False"
| "IsAttemptSucceeded (c # cs) =
     (if c_status c = CTrue \<and> c_type c = AttemptConditionComplete then True
      else IsAttemptSucceeded cs)"

text \<open>\<open>TryTerminalCAS\<close> works on a copy and returns the caller's slice when it fails.\<close>

definition TryTerminalCAS ::
  "setter \<Rightarrow> instant \<Rightarrow> condition list \<Rightarrow> string \<Rightarrow> cstatus \<Rightarrow> string \<Rightarrow> string \<Rightarrow> condition list \<times> bool" where
  "TryTerminalCAS ssc now conditions t s r m =
     (let (copied, ok) = TrySetJobTerminal ssc now conditions t s r m
      in if \<not> ok then (conditions, False) else (copied, True))"

subsection \<open>Reading conditions\<close>

text \<open>A condition type is true of a list when some entry of that type has status True.\<close>

definition holds :: "string \<Rightarrow> condition list \<Rightarrow> bool" where
  "holds t cs \<longleftrightarrow> (\<exists>c\<in>set cs. c_type c = t \<and> c_status c = CTrue)"

lemma holds_Nil [simp]: "\<not> holds t []"
  by (simp add: holds_def)

lemma IsJobTerminal_iff:
  "IsJobTerminal cs \<longleftrightarrow> holds JobConditionComplete cs \<or> holds JobConditionFailed cs"
  by (induction cs) (auto simp: holds_def)

lemma IsAttemptTerminal_iff:
  "IsAttemptTerminal cs \<longleftrightarrow> holds AttemptConditionComplete cs \<or> holds AttemptConditionFailed cs"
  by (induction cs) (auto simp: holds_def)

lemma IsAttemptSucceeded_iff: "IsAttemptSucceeded cs \<longleftrightarrow> holds AttemptConditionComplete cs"
  by (induction cs) (auto simp: holds_def)

lemma succeeded_terminal: "IsAttemptSucceeded cs \<Longrightarrow> IsAttemptTerminal cs"
  by (simp add: IsAttemptTerminal_iff IsAttemptSucceeded_iff)

lemma setter_cases:
  assumes "condition_setter ssc"
  obtains (append) "\<forall>d\<in>set cs. c_type d \<noteq> c_type c" "ssc cs c = cs @ [c]"
  | (update) pre d post t where "cs = pre @ d # post" "\<forall>x\<in>set pre. c_type x \<noteq> c_type c"
      "c_type d = c_type c" "ssc cs c = pre @ c\<lparr>c_time := t\<rparr> # post"
proof (cases "\<exists>d\<in>set cs. c_type d = c_type c")
  case True
  then obtain pre d post where "cs = pre @ d # post" "c_type d = c_type c"
    "\<forall>x\<in>set pre. c_type x \<noteq> c_type c"
    using split_list_first_prop [of cs "\<lambda>d. c_type d = c_type c"] by auto
  with assms that(2) show ?thesis unfolding condition_setter_def by metis
next
  case False
  with assms that(1) show ?thesis unfolding condition_setter_def by metis
qed

lemma setter_holds_other:
  assumes "condition_setter ssc" and "t \<noteq> c_type c"
  shows "holds t (ssc cs c) \<longleftrightarrow> holds t cs"
  by (cases rule: setter_cases [OF assms(1), of cs c]) (use assms(2) in \<open>auto simp: holds_def\<close>)

lemma setter_holds_same:
  assumes "condition_setter ssc" and "c_status c = CTrue"
  shows "holds (c_type c) (ssc cs c)"
  by (cases rule: setter_cases [OF assms(1), of cs c]) (use assms(2) in \<open>auto simp: holds_def\<close>)

lemma setter_holdsD:
  "condition_setter ssc \<Longrightarrow> holds t (ssc cs c) \<Longrightarrow> t = c_type c \<or> holds t cs"
  using setter_holds_other [of ssc t c cs] by blast

lemma setter_types:
  assumes "condition_setter ssc"
  shows "map c_type (ssc cs c) =
    (if c_type c \<in> set (map c_type cs) then map c_type cs else map c_type cs @ [c_type c])"
  by (cases rule: setter_cases [OF assms, of cs c]) (auto simp: image_iff)

lemma setter_distinct:
  assumes "condition_setter ssc" and "distinct (map c_type cs)"
  shows "distinct (map c_type (ssc cs c))"
  using assms(2) by (simp add: setter_types [OF assms(1)])

lemma setter_clears:
  assumes "condition_setter ssc" and "distinct (map c_type cs)" and "c_status c \<noteq> CTrue"
  shows "\<not> holds (c_type c) (ssc cs c)"
  using assms(1)
proof (cases rule: setter_cases [of ssc cs c])
  case append
  with assms(3) show ?thesis by (auto simp: holds_def)
next
  case (update pre d post t)
  with assms(2,3) show ?thesis by (auto simp: holds_def image_iff)
qed

lemma new_condition_sel [simp]:
  "c_type (new_condition t s r m now) = t" "c_status (new_condition t s r m now) = s"
  "c_reason (new_condition t s r m now) = r" "c_message (new_condition t s r m now) = m"
  "c_time (new_condition t s r m now) = now"
  by (simp_all add: new_condition_def)

lemma holds_SetJobCondition_other:
  "condition_setter ssc \<Longrightarrow> u \<noteq> t \<Longrightarrow>
   holds u (SetJobCondition ssc now cs t s r m) \<longleftrightarrow> holds u cs"
  by (simp add: SetJobCondition_def setter_holds_other)

lemma holds_SetJobCondition_same:
  "condition_setter ssc \<Longrightarrow> holds t (SetJobCondition ssc now cs t CTrue r m)"
  using setter_holds_same [of ssc "new_condition t CTrue r m now"] by (simp add: SetJobCondition_def)

lemma holds_SetAttemptCondition_other:
  "condition_setter ssc \<Longrightarrow> u \<noteq> t \<Longrightarrow>
   holds u (SetAttemptCondition ssc now cs t s r m) \<longleftrightarrow> holds u cs"
  by (simp add: SetAttemptCondition_def setter_holds_other)

lemma holds_SetAttemptCondition_same:
  "condition_setter ssc \<Longrightarrow> holds t (SetAttemptCondition ssc now cs t CTrue r m)"
  using setter_holds_same [of ssc "new_condition t CTrue r m now"]
  by (simp add: SetAttemptCondition_def)

lemmas holds_set = holds_SetJobCondition_other holds_SetJobCondition_same
  holds_SetAttemptCondition_other holds_SetAttemptCondition_same

subsection \<open>The terminal-once rule\<close>

definition at_most_one_terminal :: "condition list \<Rightarrow> bool" where
  "at_most_one_terminal cs \<longleftrightarrow> \<not> (holds JobConditionComplete cs \<and> holds JobConditionFailed cs)"

text \<open>One attempt to end a job: the condition type, status, reason, message and the time.\<close>

type_synonym terminal_event = "string \<times> cstatus \<times> string \<times> string \<times> instant"

fun terminal_step :: "setter \<Rightarrow> condition list \<Rightarrow> terminal_event \<Rightarrow> condition list" where
  "terminal_step ssc cs (t, s, r, m, now) = fst (TrySetJobTerminal ssc now cs t s r m)"

lemma terminal_step_terminal [simp]: "IsJobTerminal cs \<Longrightarrow> terminal_step ssc cs e = cs"
  by (cases e) (simp add: TrySetJobTerminal_def)

interpretation job_latch: latch_machine "terminal_step ssc" IsJobTerminal "\<lambda>cs. cs" for ssc
  by unfold_locales simp_all

lemma setter_one:
  "condition_setter ssc \<Longrightarrow> \<not> IsJobTerminal cs \<Longrightarrow> at_most_one_terminal (ssc cs c)"
  using setter_holdsD [of ssc JobConditionComplete cs c] setter_holdsD [of ssc JobConditionFailed cs c]
  by (auto simp: at_most_one_terminal_def IsJobTerminal_iff)

lemma terminal_step_one:
  "condition_setter ssc \<Longrightarrow> at_most_one_terminal cs \<Longrightarrow> at_most_one_terminal (terminal_step ssc cs e)"
  by (cases e; cases "IsJobTerminal cs")
    (simp_all add: TrySetJobTerminal_def SetJobCondition_def setter_one)

lemma terminal_run_one:
  "condition_setter ssc \<Longrightarrow> at_most_one_terminal cs \<Longrightarrow>
   at_most_one_terminal (foldl (terminal_step ssc) cs es)"
  by (induction es arbitrary: cs) (simp_all add: terminal_step_one)

lemma TrySetJobTerminal_sets:
  "condition_setter ssc \<Longrightarrow> t = JobConditionComplete \<or> t = JobConditionFailed \<Longrightarrow>
   IsJobTerminal (fst (TrySetJobTerminal ssc now cs t CTrue r m))"
  by (auto simp: TrySetJobTerminal_def IsJobTerminal_iff holds_SetJobCondition_same)

lemma TrySetJobTerminal_snd [simp]: "snd (TrySetJobTerminal ssc now cs t s r m) \<longleftrightarrow> \<not> IsJobTerminal cs"
  by (simp add: TrySetJobTerminal_def)

lemma TryTerminalCAS_eq: "TryTerminalCAS ssc now cs t s r m = TrySetJobTerminal ssc now cs t s r m"
  by (simp add: TryTerminalCAS_def TrySetJobTerminal_def)

subsection \<open>Phases\<close>

lemma terminal_phase_None: "terminal_phase cs = None \<longleftrightarrow> \<not> IsJobTerminal cs"
  by (induction cs) auto

lemma terminal_phase_Some:
  "terminal_phase cs = Some p \<Longrightarrow>
     (p = ''Succeeded'' \<and> holds JobConditionComplete cs) \<or> (p = ''Failed'' \<and> holds JobConditionFailed cs)"
  by (induction cs) (auto simp: holds_def split: if_splits)

lemma progress_phase_range: "progress_phase cs \<in> {''Running'', ''Scheduling'', ''Pending''}"
  by (induction cs) auto

lemma JobPhase_Succeeded:
  "at_most_one_terminal cs \<Longrightarrow>
   JobPhaseFromConditions cs = ''Succeeded'' \<longleftrightarrow> holds JobConditionComplete cs"
  using terminal_phase_Some [of cs] terminal_phase_None [of cs] progress_phase_range [of cs]
  by (auto simp: JobPhaseFromConditions_def IsJobTerminal_iff at_most_one_terminal_def
      split: option.splits)

lemma JobPhase_Failed:
  "at_most_one_terminal cs \<Longrightarrow>
   JobPhaseFromConditions cs = ''Failed'' \<longleftrightarrow> holds JobConditionFailed cs"
  using terminal_phase_Some [of cs] terminal_phase_None [of cs] progress_phase_range [of cs]
  by (auto simp: JobPhaseFromConditions_def IsJobTerminal_iff at_most_one_terminal_def
      split: option.splits)

text \<open>
  The phase of an attempt stays at the first true condition of the list. The attempt
  reconciler always appends PodCreated first, so the phase never leaves Pending.
\<close>

lemma AttemptPhase_PodCreated_first:
  "c_type c = AttemptConditionPodCreated \<Longrightarrow> c_status c = CTrue \<Longrightarrow>
   AttemptPhaseFromConditions (c # cs) = ''Pending''"
  by simp

subsection \<open>invariants.go\<close>

record AttemptSnapshot =
  sn_uid :: uid
  sn_ordinal :: int
  sn_job_ref_uid :: uid
  sn_terminal :: bool

record StateSnapshot =
  ss_job_uid :: uid
  ss_conditions :: "condition list"
  ss_active :: "AttemptReference option"
  ss_attempts :: "AttemptSnapshot list"

datatype snapshot_error =
    TooManyActive nat
  | OrdinalOrder int nat int nat
  | JobRefMismatch nat uid uid

fun ordinal_violation :: "nat \<Rightarrow> AttemptSnapshot list \<Rightarrow> snapshot_error option" where
  "ordinal_violation i (a # b # rest) =
     (if sn_ordinal b \<le> sn_ordinal a then Some (OrdinalOrder (sn_ordinal b) (Suc i) (sn_ordinal a) i)
      else ordinal_violation (Suc i) (b # rest))"
| "ordinal_violation i _ = None"

fun uid_violation :: "uid \<Rightarrow> nat \<Rightarrow> AttemptSnapshot list \<Rightarrow> snapshot_error option" where
  "uid_violation u i [] = None"
| "uid_violation u i (a # rest) =
     (if sn_job_ref_uid a \<noteq> u then Some (JobRefMismatch i (sn_job_ref_uid a) u)
      else uid_violation u (Suc i) rest)"

definition ValidateSnapshot :: "StateSnapshot \<Rightarrow> snapshot_error option" where
  "ValidateSnapshot snap =
     (let active = length (filter (\<lambda>a. \<not> sn_terminal a) (ss_attempts snap))
      in if active > 1 then Some (TooManyActive active)
         else case ordinal_violation 0 (ss_attempts snap) of
           Some e \<Rightarrow> Some e
         | None \<Rightarrow> uid_violation (ss_job_uid snap) 0 (ss_attempts snap))"

lemma ordinal_violation_None:
  "ordinal_violation i as = None \<longleftrightarrow> sorted_wrt (<) (map sn_ordinal as)"
  by (induction i as rule: ordinal_violation.induct) (auto simp: sorted_wrt2)

lemma uid_violation_None:
  "uid_violation u i as = None \<longleftrightarrow> (\<forall>a\<in>set as. sn_job_ref_uid a = u)"
  by (induction as arbitrary: i) auto

lemma ValidateSnapshot_None:
  "ValidateSnapshot snap = None \<longleftrightarrow>
     length (filter (\<lambda>a. \<not> sn_terminal a) (ss_attempts snap)) \<le> 1 \<and>
     sorted_wrt (<) (map sn_ordinal (ss_attempts snap)) \<and>
     (\<forall>a\<in>set (ss_attempts snap). sn_job_ref_uid a = ss_job_uid snap)"
  unfolding ordinal_violation_None [of 0, symmetric] uid_violation_None [of _ 0, symmetric]
  by (auto simp: ValidateSnapshot_def Let_def split: option.splits)

end
