(* ===== verification/Protocol.thy ===== *)
theory Protocol
  imports ApiTypes
begin

text \<open>
  The package \<open>internal/protocol\<close> (what a runner reports back: process results,
  manifests, session credentials), and the conversion of a child's exit status into a
  process result (\<open>internal/runner/result.go\<close>).
\<close>

record ProcessResult =
  pr_exit_code :: int
  pr_signal :: int
  pr_oom_killed :: bool
  pr_error :: string

definition Success :: "ProcessResult \<Rightarrow> bool" where
  "Success r \<longleftrightarrow> pr_exit_code r = 0 \<and> pr_signal r = 0 \<and> pr_error r = []"

record ArtifactEntry =
  ae_key :: string
  ae_content_hash :: string
  ae_size :: int

record ResultManifest =
  rm_exit_code :: int
  rm_signal :: int
  rm_error_category :: string
  rm_artifacts :: "ArtifactEntry list"
  rm_checkpoint_key :: string
  rm_content_hash :: string

record ManifestEnvelope =
  me_job_uid :: uid
  me_attempt_uid :: uid
  me_ordinal :: int
  me_spec_hash :: string
  me_result :: ResultManifest

record SessionCredentials =
  sc_token :: string
  sc_gateway_url :: string
  sc_job_uid :: string
  sc_attempt_uid :: string
  sc_expires_at :: instant

definition Expired :: "SessionCredentials \<Rightarrow> instant \<Rightarrow> bool" where
  "Expired s now \<longleftrightarrow> time_after now (sc_expires_at s)"

text \<open>
  What \<open>exec.Cmd.Wait\<close> returns: nothing, an exit error (the process exited with a
  code, or was ended by a signal, in which case \<open>ExitCode()\<close> is -1), or another error.
\<close>

datatype wait_error = Exited int | Signaled int | WaitFailed string

fun exit_error_code :: "wait_error \<Rightarrow> int" where
  "exit_error_code (Exited c) = c"
| "exit_error_code (Signaled s) = -1"
| "exit_error_code (WaitFailed m) = -1"

definition ExitToResult :: "wait_error option \<Rightarrow> ProcessResult" where
  "ExitToResult err =
     (case err of
        None \<Rightarrow> \<lparr>pr_exit_code = 0, pr_signal = 0, pr_oom_killed = False, pr_error = []\<rparr>
      | Some (Exited c) \<Rightarrow>
          \<lparr>pr_exit_code = exit_error_code (Exited c), pr_signal = 0, pr_oom_killed = False, pr_error = []\<rparr>
      | Some (Signaled s) \<Rightarrow>
          \<lparr>pr_exit_code = exit_error_code (Signaled s), pr_signal = s, pr_oom_killed = False, pr_error = []\<rparr>
      | Some (WaitFailed m) \<Rightarrow>
          \<lparr>pr_exit_code = -1, pr_signal = 0, pr_oom_killed = False, pr_error = m\<rparr>)"

lemma ExitToResult_Success:
  "(\<And>s. err = Some (Signaled s) \<Longrightarrow> s \<noteq> 0) \<Longrightarrow> (\<And>c. err = Some (Exited c) \<Longrightarrow> c \<noteq> 0) \<Longrightarrow>
   Success (ExitToResult err) \<longleftrightarrow> err = None"
  by (auto simp: Success_def ExitToResult_def split: option.splits wait_error.splits)

end
