(* ===== verification/Decisions.thy ===== *)
theory Decisions
  imports Conditions Protocol
begin

text \<open>
  The pure decisions of the controller package: the retry budget and its backoff
  (\<open>retry.go\<close>), the error classifier (\<open>error_classifier.go\<close>), the loss detector
  (\<open>loss_detector.go\<close>), deadlines (\<open>deadline.go\<close>), time-to-live (\<open>ttl.go\<close>) and
  cancellation (\<open>cancel.go\<close>).
\<close>

subsection \<open>retry.go\<close>

definition backoffBaseDelay :: duration where "backoffBaseDelay = 5 * second"
definition backoffMaxDelay :: duration where "backoffMaxDelay = 5 * minute"

text \<open>
  \<open>float64(base) * math.Pow(2, n)\<close>. The base is an integer of 33 bits, so the double is
  exact; converting it to an integer truncates. What the conversion yields outside the
  range of \<open>int64\<close> is left to the implementation by Go's specification: it is the
  parameter \<open>oor\<close>.
\<close>

definition backoff_float :: "int \<Rightarrow> int" where
  "backoff_float n =
     (if 0 \<le> n then backoffBaseDelay * 2 ^ nat n else backoffBaseDelay div 2 ^ nat (- n))"

definition float_to_int64 :: "int \<Rightarrow> int \<Rightarrow> int" where
  "float_to_int64 oor x = (if in_i64 x then x else oor)"

definition ComputeBackoff :: "int \<Rightarrow> int \<Rightarrow> duration" where
  "ComputeBackoff oor attemptOrdinal =
     (let delay = float_to_int64 oor (backoff_float attemptOrdinal)
      in if delay > backoffMaxDelay then backoffMaxDelay else delay)"

record RetryDecision =
  rd_should_retry :: bool
  rd_delay :: duration
  rd_reason :: string

definition effective_max_attempts :: "AgentJob \<Rightarrow> int" where
  "effective_max_attempts job =
     (if ex_max_attempts (job_exec job) \<le> 0 then DefaultMaxAttempts
      else ex_max_attempts (job_exec job))"

definition ShouldRetry :: "int \<Rightarrow> AgentJob \<Rightarrow> int \<Rightarrow> ErrorCategory \<Rightarrow> RetryDecision" where
  "ShouldRetry oor job failedAttempts errorCategory =
     (let maxAttempts = effective_max_attempts job
      in if failedAttempts \<ge> maxAttempts
         then \<lparr>rd_should_retry = False, rd_delay = 0,
               rd_reason = ''failedAttempts ('' @ show_int failedAttempts @ '') >= maxAttempts (''
                 @ show_int maxAttempts @ '')''\<rparr>
         else (let delay = ComputeBackoff oor failedAttempts
               in if errorCategory = ErrorCategoryInfra
                  then \<lparr>rd_should_retry = True, rd_delay = delay, rd_reason = ''infra error, retrying''\<rparr>
                  else if errorCategory = ErrorCategoryOOM
                  then \<lparr>rd_should_retry = True, rd_delay = delay, rd_reason = ''OOM error, retrying''\<rparr>
                  else if errorCategory = ErrorCategoryTimeout
                  then \<lparr>rd_should_retry = True, rd_delay = delay, rd_reason = ''timeout error, retrying''\<rparr>
                  else if errorCategory = ErrorCategoryUser
                  then \<lparr>rd_should_retry = True, rd_delay = delay, rd_reason = ''user error, retrying''\<rparr>
                  else if errorCategory = ErrorCategoryUnknown
                  then \<lparr>rd_should_retry = True, rd_delay = delay, rd_reason = ''unknown error, retrying''\<rparr>
                  else \<lparr>rd_should_retry = False, rd_delay = 0,
                        rd_reason = ''no error or unrecognised category''\<rparr>))"

lemma backoff_float_range:
  assumes "0 \<le> n" and "n \<le> 30"
  shows "in_i64 (backoff_float n)"
proof -
  have "(2::int) ^ nat n \<le> 2 ^ 30" using assms by (intro power_increasing) auto
  then have "5000000000 * (2::int) ^ nat n \<le> 5000000000 * 1073741824" by simp
  moreover have "0 \<le> 5000000000 * (2::int) ^ nat n" by simp
  moreover have "backoff_float n = 5000000000 * 2 ^ nat n"
    using assms(1) by (simp add: backoff_float_def backoffBaseDelay_def second_def)
  ultimately show ?thesis unfolding in_i64_def by linarith
qed

lemma ComputeBackoff_exact:
  "0 \<le> n \<Longrightarrow> n \<le> 30 \<Longrightarrow> ComputeBackoff oor n = min (backoffBaseDelay * 2 ^ nat n) backoffMaxDelay"
  using backoff_float_range [of n]
  by (auto simp: ComputeBackoff_def float_to_int64_def backoff_float_def Let_def)

lemma ComputeBackoff_out_of_range:
  assumes "31 \<le> n"
  shows "ComputeBackoff oor n = (if oor > backoffMaxDelay then backoffMaxDelay else oor)"
proof -
  have "(2::int) ^ 31 \<le> 2 ^ nat n" using assms by (intro power_increasing) auto
  then have "\<not> in_i64 (backoff_float n)"
    using assms by (auto simp: in_i64_def backoff_float_def backoffBaseDelay_def second_def)
  then show ?thesis by (simp add: ComputeBackoff_def float_to_int64_def)
qed

lemma ComputeBackoff_bounds:
  assumes "0 \<le> n" and "n \<le> 30"
  shows "backoffBaseDelay \<le> ComputeBackoff oor n \<and> ComputeBackoff oor n \<le> backoffMaxDelay"
  using assms by (auto simp: ComputeBackoff_exact backoffBaseDelay_def backoffMaxDelay_def
      second_def minute_def min_def)

lemma ComputeBackoff_mono:
  assumes "0 \<le> m" and "m \<le> n" and "n \<le> 30"
  shows "ComputeBackoff oor m \<le> ComputeBackoff oor n"
proof -
  have "backoffBaseDelay * 2 ^ nat m \<le> backoffBaseDelay * 2 ^ nat n"
    using assms by (intro mult_left_mono power_increasing) (auto simp: backoffBaseDelay_def second_def)
  then show ?thesis using assms by (simp add: ComputeBackoff_exact min.coboundedI1)
qed

lemma ShouldRetry_iff:
  "rd_should_retry (ShouldRetry oor job n cat) \<longleftrightarrow>
     n < effective_max_attempts job \<and>
     cat \<in> {ErrorCategoryInfra, ErrorCategoryOOM, ErrorCategoryTimeout, ErrorCategoryUser,
            ErrorCategoryUnknown}"
  by (simp add: ShouldRetry_def Let_def)

lemma ShouldRetry_delay:
  "rd_should_retry (ShouldRetry oor job n cat) \<Longrightarrow>
   rd_delay (ShouldRetry oor job n cat) = ComputeBackoff oor n"
  by (auto simp: ShouldRetry_def Let_def split: if_splits)

subsection \<open>error_classifier.go\<close>

text \<open>
  \<open>isOOMKilledFromPod\<close> and the loss detector's \<open>hasOOMKilledContainer\<close> scan the
  container statuses for a termination with reason OOMKilled.
\<close>

fun isOOMKilledFromPod :: "container_status list \<Rightarrow> bool" where
  "isOOMKilledFromPod [] = False"
| "isOOMKilledFromPod (s # rest) =
     (if (case cst_terminated s of Some (c, r) \<Rightarrow> r = ''OOMKilled'' | None \<Rightarrow> False) then True
      else if (case cst_last_terminated s of Some (c, r) \<Rightarrow> r = ''OOMKilled'' | None \<Rightarrow> False) then True
      else isOOMKilledFromPod rest)"

definition ClassifyError :: "ProcessResult option \<Rightarrow> pod_status option \<Rightarrow> ErrorCategory" where
  "ClassifyError result podStatus =
     (case result of
        None \<Rightarrow> ErrorCategoryUnknown
      | Some r \<Rightarrow>
          if pr_exit_code r = 0 \<and> \<not> pr_oom_killed r then []
          else if pr_oom_killed r then ErrorCategoryOOM
          else if (case podStatus of None \<Rightarrow> False | Some st \<Rightarrow> isOOMKilledFromPod (pst_containers st))
          then ErrorCategoryOOM
          else if pr_error r = ''timeout'' then ErrorCategoryTimeout
          else if pr_exit_code r = 137 then ErrorCategoryInfra
          else if pr_exit_code r \<ge> 1 \<and> pr_exit_code r \<le> 127 then ErrorCategoryUser
          else if pr_exit_code r \<ge> 128 then ErrorCategoryInfra
          else ErrorCategoryUnknown)"

lemma ClassifyError_success:
  "ClassifyError (Some r) st = [] \<longleftrightarrow> pr_exit_code r = 0 \<and> \<not> pr_oom_killed r"
  by (auto simp: ClassifyError_def)

lemma ClassifyError_range:
  "ClassifyError r st \<in> {[], ErrorCategoryInfra, ErrorCategoryOOM, ErrorCategoryTimeout,
     ErrorCategoryUser, ErrorCategoryUnknown}"
  by (simp add: ClassifyError_def split: option.splits)

lemma ClassifyError_Signaled:
  "ClassifyError (Some (ExitToResult (Some (Signaled s)))) None = ErrorCategoryUnknown"
  by (simp add: ClassifyError_def ExitToResult_def)

text \<open>A failed result is retried exactly while the budget lasts.\<close>

lemma ShouldRetry_ClassifyError:
  "rd_should_retry (ShouldRetry oor job n (ClassifyError (Some r) st)) \<longleftrightarrow>
     n < effective_max_attempts job \<and> \<not> (pr_exit_code r = 0 \<and> \<not> pr_oom_killed r)"
proof -
  have "ClassifyError (Some r) st \<noteq> [] \<longleftrightarrow>
     ClassifyError (Some r) st \<in> {ErrorCategoryInfra, ErrorCategoryOOM, ErrorCategoryTimeout,
       ErrorCategoryUser, ErrorCategoryUnknown}"
    using ClassifyError_range [of "Some r" st] by auto
  then show ?thesis using ClassifyError_success [of r st] by (simp add: ShouldRetry_iff)
qed

subsection \<open>loss_detector.go\<close>

datatype PodLossReason =
    PodLossReasonNotFound | PodLossReasonNodeLost | PodLossReasonEvicted
  | PodLossReasonPreempted | PodLossReasonOOMKilled | PodLossReasonUnknown

fun isNodeLost :: "pod_condition list \<Rightarrow> bool" where
  "isNodeLost [] = False"
| "isNodeLost (c # cs) =
     (if pc_type c = ''DisruptionTarget'' \<and> pc_status c = CTrue then True
      else if pc_type c = ''Ready'' \<and> pc_status c = CFalse \<and> pc_reason c = ''NodeLost'' then True
      else isNodeLost cs)"

fun hasOOMKilledContainer :: "container_status list \<Rightarrow> bool" where
  "hasOOMKilledContainer [] = False"
| "hasOOMKilledContainer (s # rest) =
     (if (case cst_terminated s of Some (c, r) \<Rightarrow> r = ''OOMKilled'' | None \<Rightarrow> False) then True
      else if (case cst_last_terminated s of Some (c, r) \<Rightarrow> r = ''OOMKilled'' | None \<Rightarrow> False) then True
      else hasOOMKilledContainer rest)"

definition DetectPodLoss :: "pod option \<Rightarrow> bool \<times> PodLossReason option" where
  "DetectPodLoss pd =
     (case pd of
        None \<Rightarrow> (True, Some PodLossReasonNotFound)
      | Some p \<Rightarrow>
          if pst_reason (p_status p) = ''Evicted'' then (True, Some PodLossReasonEvicted)
          else if pst_reason (p_status p) = ''Preempted'' then (True, Some PodLossReasonPreempted)
          else if isNodeLost (pst_conditions (p_status p)) then (True, Some PodLossReasonNodeLost)
          else if hasOOMKilledContainer (pst_containers (p_status p))
          then (True, Some PodLossReasonOOMKilled)
          else if pst_phase (p_status p) = PodFailed then (True, Some PodLossReasonUnknown)
          else (False, None))"

lemma hasOOMKilledContainer_eq: "hasOOMKilledContainer cs = isOOMKilledFromPod cs"
  by (induction cs) auto

lemma DetectPodLoss_reason: "fst (DetectPodLoss p) \<longleftrightarrow> snd (DetectPodLoss p) \<noteq> None"
  by (simp add: DetectPodLoss_def split: option.splits)

lemma DetectPodLoss_failed:
  "pst_phase (p_status p) = PodFailed \<Longrightarrow> fst (DetectPodLoss (Some p))"
  by (simp add: DetectPodLoss_def)

text \<open>An OOM kill the loss detector sees is an OOM error for the classifier.\<close>

lemma DetectPodLoss_OOM_classified:
  assumes "DetectPodLoss (Some p) = (True, Some PodLossReasonOOMKilled)"
    and "pr_exit_code r \<noteq> 0"
  shows "ClassifyError (Some r) (Some (p_status p)) = ErrorCategoryOOM"
  using assms by (auto simp: DetectPodLoss_def ClassifyError_def hasOOMKilledContainer_eq split: if_splits)

subsection \<open>deadline.go\<close>

definition CheckDeadline :: "AgentJob \<Rightarrow> AgentAttempt option \<Rightarrow> instant \<Rightarrow> bool \<times> string" where
  "CheckDeadline job attempt now =
     (if (case (ex_active_deadline (job_exec job), st_start (j_status job)) of
            (Some n, Some start) \<Rightarrow> time_after now (time_add start (seconds n))
          | _ \<Rightarrow> False)
      then (True, ''job'')
      else if (case (ex_timeout (job_exec job), st_start (j_status job)) of
            (Some d, Some start) \<Rightarrow> time_after now (time_add start d)
          | _ \<Rightarrow> False)
      then (True, ''job'')
      else if (case attempt of
            None \<Rightarrow> False
          | Some a \<Rightarrow> (case as_deadline (a_spec a) of None \<Rightarrow> False | Some d \<Rightarrow> time_after now d))
      then (True, ''attempt'')
      else (False, []))"

lemma CheckDeadline_level: "CheckDeadline job attempt now \<in> {(True, ''job''), (True, ''attempt''), (False, [])}"
  by (simp add: CheckDeadline_def)

lemma CheckDeadline_mono:
  "fst (CheckDeadline job attempt now) \<Longrightarrow> now \<le> later \<Longrightarrow> fst (CheckDeadline job attempt later)"
  by (auto simp: CheckDeadline_def time_after_def split: if_splits option.splits)

lemma CheckDeadline_job_mono:
  "CheckDeadline job attempt now = (True, ''job'') \<Longrightarrow> now \<le> later \<Longrightarrow>
   CheckDeadline job attempt later = (True, ''job'')"
  by (auto simp: CheckDeadline_def time_after_def split: if_splits option.splits)

lemma CheckDeadline_active:
  assumes "ex_active_deadline (job_exec job) = Some n" and "st_start (j_status job) = Some start"
    and "\<bar>n\<bar> \<le> 9223372036" and "ex_timeout (job_exec job) = None"
  shows "CheckDeadline job None now = (True, ''job'') \<longleftrightarrow> start + n * second < now"
  using assms by (simp add: CheckDeadline_def seconds_exact time_after_def time_add_def)

subsection \<open>ttl.go\<close>

definition CheckTTL :: "AgentJob \<Rightarrow> instant \<Rightarrow> bool \<times> duration" where
  "CheckTTL job now =
     (if \<not> IsJobTerminal (job_conditions job) then (False, 0)
      else case ex_ttl (job_exec job) of
        None \<Rightarrow> (False, 0)
      | Some n \<Rightarrow>
          (case st_completion (j_status job) of
             None \<Rightarrow> (False, 0)
           | Some done_at \<Rightarrow>
               (let expiry = time_add done_at (seconds n)
                in if time_after now expiry \<or> now = expiry then (True, 0)
                   else (False, time_sub expiry now))))"

lemma CheckTTL_remaining:
  assumes "CheckTTL job now = (False, d)" and "d \<noteq> 0"
  shows "0 < d"
  using assms
  by (auto simp: CheckTTL_def time_after_def time_sub_def Let_def split: if_splits option.splits)

text \<open>Waiting for the returned delay is enough, while the delay did not saturate.\<close>

lemma CheckTTL_wait:
  assumes "CheckTTL job now = (False, d)" and "d \<noteq> 0" and "d < max_i64"
  shows "CheckTTL job (now + d) = (True, 0)"
  using assms
  by (auto simp: CheckTTL_def time_after_def time_sub_def time_add_def Let_def min_def max_def
      split: if_splits option.splits)

lemma CheckTTL_before:
  assumes "CheckTTL job now = (False, d)" and "0 \<le> e" and "e < d"
  shows "\<not> fst (CheckTTL job (now + e))"
  using assms
  by (auto simp: CheckTTL_def time_after_def time_sub_def time_add_def Let_def min_def max_def
      split: if_splits option.splits)

lemma CheckTTL_running: "\<not> IsJobTerminal (job_conditions job) \<Longrightarrow> CheckTTL job now = (False, 0)"
  by (simp add: CheckTTL_def)

subsection \<open>cancel.go\<close>

definition cancelAnnotation :: string where "cancelAnnotation = ''durarun.io/cancel''"

definition IsCancelled :: "AgentJob \<Rightarrow> bool" where
  "IsCancelled job \<longleftrightarrow> map_get (om_annotations (j_meta job)) cancelAnnotation = ''true''"

definition HandleCancel :: "setter \<Rightarrow> instant \<Rightarrow> AgentJob \<Rightarrow> AgentJob \<times> bool" where
  "HandleCancel ssc now job =
     (if \<not> IsCancelled job then (job, False)
      else let (cs, was_set) = TrySetJobTerminal ssc now (job_conditions job) JobConditionFailed CTrue
                 ''Cancelled'' ''Job was cancelled via annotation'';
               st = (j_status job)\<lparr>st_conditions := cs\<rparr>;
               st = (if was_set then st\<lparr>st_completion := Some now\<rparr> else st)
           in (job\<lparr>j_status := st\<rparr>, was_set))"

lemma HandleCancel_terminal [simp]:
  "IsJobTerminal (job_conditions job) \<Longrightarrow> HandleCancel ssc now job = (job, False)"
  by (simp add: HandleCancel_def TrySetJobTerminal_def)

lemma HandleCancel_triggered:
  assumes "condition_setter ssc" and "HandleCancel ssc now job = (job', True)"
  shows "IsCancelled job" "\<not> IsJobTerminal (job_conditions job)"
    "holds JobConditionFailed (job_conditions job')" "st_completion (j_status job') = Some now"
  using assms by (auto simp: HandleCancel_def TrySetJobTerminal_def holds_set split: if_splits)

lemma HandleCancel_again:
  assumes "condition_setter ssc" and "HandleCancel ssc now job = (job', True)"
  shows "HandleCancel ssc later job' = (job', False)"
  using HandleCancel_triggered(3) [OF assms] by (intro HandleCancel_terminal) (simp add: IsJobTerminal_iff)

end
