(* ===== verification/Fencing.thy ===== *)
theory Fencing
  imports Decisions
begin

text \<open>
  Who may change a job: the ownership checks (\<open>ownership.go\<close>), the five fencing layers
  (\<open>fencing.go\<close>) and the handler that applies an accepted result to its attempt
  (\<open>result_reconciler.go\<close>).
\<close>

subsection \<open>ownership.go\<close>

datatype ownership_error =
    OwnerMismatch string uid string uid
  | JobRefUIDMismatch string uid string uid

fun owner_check :: "AgentJob \<Rightarrow> string \<Rightarrow> owner_ref list \<Rightarrow> ownership_error option" where
  "owner_check job child [] = None"
| "owner_check job child (ref # refs) =
     (if ow_name ref = job_name job
      then (if ow_uid ref \<noteq> job_uid job
            then Some (OwnerMismatch child (ow_uid ref) (job_name job) (job_uid job)) else None)
      else owner_check job child refs)"

definition VerifyOwnership :: "AgentJob \<Rightarrow> object_meta \<Rightarrow> ownership_error option" where
  "VerifyOwnership job child = owner_check job (om_name child) (om_owners child)"

definition VerifyAttemptOwnership :: "AgentJob \<Rightarrow> AgentAttempt \<Rightarrow> ownership_error option" where
  "VerifyAttemptOwnership job attempt =
     (case VerifyOwnership job (a_meta attempt) of
        Some e \<Rightarrow> Some e
      | None \<Rightarrow>
          if or_uid (as_job_ref (a_spec attempt)) \<noteq> [] \<and>
             or_uid (as_job_ref (a_spec attempt)) \<noteq> job_uid job
          then Some (JobRefUIDMismatch (attempt_name attempt) (or_uid (as_job_ref (a_spec attempt)))
                 (job_name job) (job_uid job))
          else None)"

text \<open>
  The spec hash: JSON encoding and SHA-256 come from Go's library and are the parameters
  \<open>marshal\<close> and \<open>sha256hex\<close>.
\<close>

definition ComputeSpecHash ::
  "(AgentJobSpec \<Rightarrow> string option) \<Rightarrow> (string \<Rightarrow> string) \<Rightarrow> AgentJobSpec \<Rightarrow> string" where
  "ComputeSpecHash marshal sha256hex spec =
     (case marshal spec of
        None \<Rightarrow> ''error-computing-hash''
      | Some data \<Rightarrow> sha256hex data)"

lemma VerifyAttemptOwnership_own:
  assumes "VerifyAttemptOwnership job attempt = None"
    and "or_uid (as_job_ref (a_spec attempt)) \<noteq> []"
  shows "or_uid (as_job_ref (a_spec attempt)) = job_uid job"
  using assms by (auto simp: VerifyAttemptOwnership_def split: option.splits if_splits)

lemma owner_check_None:
  "owner_check job child refs = None \<longleftrightarrow>
     (\<forall>ref. find (\<lambda>r. ow_name r = job_name job) refs = Some ref \<longrightarrow> ow_uid ref = job_uid job)"
  by (induction refs) auto

subsection \<open>fencing.go\<close>

datatype FencingReason =
    FenceJobUID uid uid
  | FenceAttemptUID uid uid
  | FenceOrdinal int int
  | FenceSpecHash string string
  | FenceTerminal

text \<open>A fencing result: no reason is an acceptance.\<close>

definition ValidateFencing ::
  "AgentJob \<Rightarrow> AgentAttempt \<Rightarrow> ManifestEnvelope \<Rightarrow> FencingReason option" where
  "ValidateFencing job attempt envelope =
     (if me_job_uid envelope \<noteq> job_uid job
      then Some (FenceJobUID (me_job_uid envelope) (job_uid job))
      else if me_attempt_uid envelope \<noteq> attempt_uid attempt
      then Some (FenceAttemptUID (me_attempt_uid envelope) (attempt_uid attempt))
      else if me_ordinal envelope \<noteq> attempt_ordinal attempt
      then Some (FenceOrdinal (me_ordinal envelope) (attempt_ordinal attempt))
      else if me_spec_hash envelope \<noteq> st_spec_hash (j_status job)
      then Some (FenceSpecHash (me_spec_hash envelope) (st_spec_hash (j_status job)))
      else if IsJobTerminal (job_conditions job)
      then Some FenceTerminal
      else None)"

lemma ValidateFencing_accepts:
  "ValidateFencing job attempt env = None \<longleftrightarrow>
     me_job_uid env = job_uid job \<and> me_attempt_uid env = attempt_uid attempt \<and>
     me_ordinal env = attempt_ordinal attempt \<and> me_spec_hash env = st_spec_hash (j_status job) \<and>
     \<not> IsJobTerminal (job_conditions job)"
  by (simp add: ValidateFencing_def)

lemma ValidateFencing_one_attempt:
  "ValidateFencing job a env = None \<Longrightarrow> attempt_uid a \<noteq> attempt_uid b \<Longrightarrow>
   ValidateFencing job' b env \<noteq> None"
  by (auto simp: ValidateFencing_accepts)

subsection \<open>result_reconciler.go\<close>

definition result_category :: "ManifestEnvelope \<Rightarrow> ErrorCategory" where
  "result_category env =
     (let r = me_result env;
          category = ClassifyError (Some \<lparr>pr_exit_code = rm_exit_code r, pr_signal = rm_signal r,
            pr_oom_killed = False, pr_error = []\<rparr>) None
      in if rm_error_category r \<noteq> [] \<and> category = ErrorCategoryUnknown
         then rm_error_category r else category)"

definition ReconcileResult ::
  "setter \<Rightarrow> instant \<Rightarrow> AgentJob \<Rightarrow> AgentAttempt \<Rightarrow> ManifestEnvelope \<Rightarrow> FencingReason + AgentAttempt" where
  "ReconcileResult ssc now job attempt envelope =
     (case ValidateFencing job attempt envelope of
        Some reason \<Rightarrow> Inl reason
      | None \<Rightarrow>
          (let r = me_result envelope;
               category = result_category envelope;
               st = a_status attempt;
               st = st\<lparr>at_exit_code := Some (i32 (rm_exit_code r))\<rparr>;
               st = (if rm_signal r \<noteq> 0 then st\<lparr>at_signal := Some (i32 (rm_signal r))\<rparr> else st);
               st = st\<lparr>at_error_category := category, at_completion := Some now\<rparr>;
               cs = (if rm_exit_code r = 0
                     then SetAttemptCondition ssc now (at_conditions st) AttemptConditionComplete CTrue
                            ''ProcessExitZero'' ''process exited with code 0''
                     else SetAttemptCondition ssc now (at_conditions st) AttemptConditionFailed CTrue
                            ''ProcessFailed''
                            (''process exited with code '' @ show_int (rm_exit_code r) @ '', category ''
                              @ category))
           in Inr (attempt\<lparr>a_status := st\<lparr>at_conditions := cs\<rparr>\<rparr>)))"

lemma ReconcileResult_accepts:
  "(\<exists>a'. ReconcileResult ssc now job a env = Inr a') \<longleftrightarrow> ValidateFencing job a env = None"
  by (auto simp: ReconcileResult_def Let_def split: option.splits)

lemma ReconcileResult_rejects:
  "ReconcileResult ssc now job a env = Inl reason \<longleftrightarrow> ValidateFencing job a env = Some reason"
  by (auto simp: ReconcileResult_def Let_def split: option.splits)

lemma ReconcileResult_identity:
  "ReconcileResult ssc now job a env = Inr a' \<Longrightarrow>
   a_meta a' = a_meta a \<and> a_spec a' = a_spec a \<and> at_pod_name (a_status a') = at_pod_name (a_status a)"
  by (auto simp: ReconcileResult_def Let_def split: option.splits if_splits)

lemma ReconcileResult_conditions:
  assumes "condition_setter ssc" and "ReconcileResult ssc now job a env = Inr a'"
  shows "holds AttemptConditionComplete (attempt_conditions a') \<longleftrightarrow>
      rm_exit_code (me_result env) = 0 \<or> holds AttemptConditionComplete (attempt_conditions a)"
    and "holds AttemptConditionFailed (attempt_conditions a') \<longleftrightarrow>
      rm_exit_code (me_result env) \<noteq> 0 \<or> holds AttemptConditionFailed (attempt_conditions a)"
    and "IsAttemptTerminal (attempt_conditions a')"
  using assms
  by (auto simp: ReconcileResult_def Let_def IsAttemptTerminal_iff holds_set
      split: option.splits if_splits)

lemma result_category_never_timeout_or_oom:
  assumes "rm_exit_code (me_result env) \<ge> 0"
  shows "result_category env \<in> {[], ErrorCategoryUser, ErrorCategoryInfra}"
  using assms by (auto simp: result_category_def ClassifyError_def Let_def)

end
