(* ===== verification/KubeClient.thy ===== *)
theory KubeClient
  imports PodBuilder Fencing
begin

text \<open>
  The Kubernetes API server as the controllers see it. The client library and the server
  are not part of the repository: every call is a field of the record \<open>kube\<close>, a function
  of an arbitrary world \<open>'w\<close> that returns a result or an error and the next world. No
  behaviour is assumed of it here; theorems that need some say so with a named hypothesis.

  The calls that write go through the wrappers below, which record the request in a log
  beside the world: a theorem about what a reconciler writes is a theorem about the log.
\<close>

datatype api_error = NotFound | AlreadyExists | Conflict | ApiFailure string

datatype gerr = ApiErr api_error | Wrapped string gerr

datatype ctrl_result = Finished | Requeue | RequeueAfter duration

record 'w kube =
  k_get_job :: "string \<Rightarrow> string \<Rightarrow> 'w \<Rightarrow> (api_error + AgentJob) \<times> 'w"
  k_get_attempt :: "string \<Rightarrow> string \<Rightarrow> 'w \<Rightarrow> (api_error + AgentAttempt) \<times> 'w"
  k_get_pod :: "string \<Rightarrow> string \<Rightarrow> 'w \<Rightarrow> (api_error + pod) \<times> 'w"
  k_list_attempts :: "string \<Rightarrow> (string \<times> string) list \<Rightarrow> 'w \<Rightarrow> (api_error + AgentAttempt list) \<times> 'w"
  k_list_pods :: "string \<Rightarrow> (string \<times> string) list \<Rightarrow> 'w \<Rightarrow> (api_error + pod list) \<times> 'w"
  k_create_attempt :: "AgentAttempt \<Rightarrow> 'w \<Rightarrow> (api_error + AgentAttempt) \<times> 'w"
  k_create_pod :: "pod \<Rightarrow> 'w \<Rightarrow> (api_error + pod) \<times> 'w"
  k_delete_attempt :: "AgentAttempt \<Rightarrow> 'w \<Rightarrow> api_error option \<times> 'w"
  k_delete_pod :: "pod \<Rightarrow> 'w \<Rightarrow> api_error option \<times> 'w"
  k_update_job_status :: "AgentJob \<Rightarrow> 'w \<Rightarrow> (api_error + AgentJob) \<times> 'w"
  k_update_attempt_status :: "AgentAttempt \<Rightarrow> 'w \<Rightarrow> (api_error + AgentAttempt) \<times> 'w"
  k_own_attempt :: "AgentJob \<Rightarrow> AgentAttempt \<Rightarrow> api_error + AgentAttempt"
  k_own_pod :: "AgentAttempt \<Rightarrow> pod \<Rightarrow> api_error + pod"
  k_get_pool :: "string \<Rightarrow> string \<Rightarrow> 'w \<Rightarrow> (api_error + SandboxPool) \<times> 'w"
  k_update_pool_status :: "SandboxPool \<Rightarrow> 'w \<Rightarrow> (api_error + SandboxPool) \<times> 'w"
  k_own_pool_pod :: "SandboxPool \<Rightarrow> pod \<Rightarrow> api_error + pod"
  k_patch_pod :: "pod \<Rightarrow> pod \<Rightarrow> 'w \<Rightarrow> (api_error + pod) \<times> 'w"
  k_ssc :: setter
  k_marshal :: "AgentJobSpec \<Rightarrow> string option"
  k_sha256hex :: "string \<Rightarrow> string"

datatype effect =
    EJobStatus AgentJob
  | EAttemptStatus AgentAttempt
  | ECreateAttempt AgentAttempt
  | ECreatePod pod
  | EDeletePod pod
  | EDeleteAttempt AgentAttempt
  | EPatchPod pod
  | EPoolStatus SandboxPool
  | EEvent string string string

type_synonym 'w world = "'w \<times> effect list"

definition update_job_status ::
  "'w kube \<Rightarrow> AgentJob \<Rightarrow> 'w world \<Rightarrow> (api_error + AgentJob) \<times> 'w world" where
  "update_job_status k j s =
     (let (r, w) = k_update_job_status k j (fst s) in (r, (w, snd s @ [EJobStatus j])))"

definition update_attempt_status ::
  "'w kube \<Rightarrow> AgentAttempt \<Rightarrow> 'w world \<Rightarrow> (api_error + AgentAttempt) \<times> 'w world" where
  "update_attempt_status k a s =
     (let (r, w) = k_update_attempt_status k a (fst s) in (r, (w, snd s @ [EAttemptStatus a])))"

definition create_attempt ::
  "'w kube \<Rightarrow> AgentAttempt \<Rightarrow> 'w world \<Rightarrow> (api_error + AgentAttempt) \<times> 'w world" where
  "create_attempt k a s =
     (let (r, w) = k_create_attempt k a (fst s) in (r, (w, snd s @ [ECreateAttempt a])))"

definition create_pod :: "'w kube \<Rightarrow> pod \<Rightarrow> 'w world \<Rightarrow> (api_error + pod) \<times> 'w world" where
  "create_pod k p s = (let (r, w) = k_create_pod k p (fst s) in (r, (w, snd s @ [ECreatePod p])))"

definition delete_pod :: "'w kube \<Rightarrow> pod \<Rightarrow> 'w world \<Rightarrow> api_error option \<times> 'w world" where
  "delete_pod k p s = (let (r, w) = k_delete_pod k p (fst s) in (r, (w, snd s @ [EDeletePod p])))"

definition delete_attempt ::
  "'w kube \<Rightarrow> AgentAttempt \<Rightarrow> 'w world \<Rightarrow> api_error option \<times> 'w world" where
  "delete_attempt k a s =
     (let (r, w) = k_delete_attempt k a (fst s) in (r, (w, snd s @ [EDeleteAttempt a])))"

definition update_pool_status ::
  "'w kube \<Rightarrow> SandboxPool \<Rightarrow> 'w world \<Rightarrow> (api_error + SandboxPool) \<times> 'w world" where
  "update_pool_status k p s =
     (let (r, w) = k_update_pool_status k p (fst s) in (r, (w, snd s @ [EPoolStatus p])))"

text \<open>A merge patch is computed from the object before and after the change.\<close>

definition patch_pod :: "'w kube \<Rightarrow> pod \<Rightarrow> pod \<Rightarrow> 'w world \<Rightarrow> (api_error + pod) \<times> 'w world" where
  "patch_pod k base p s = (let (r, w) = k_patch_pod k base p (fst s) in (r, (w, snd s @ [EPatchPod p])))"

definition read_world :: "('w \<Rightarrow> 'r \<times> 'w) \<Rightarrow> 'w world \<Rightarrow> 'r \<times> 'w world" where
  "read_world f s = (let (r, w) = f (fst s) in (r, (w, snd s)))"

definition emit_event :: "string \<Rightarrow> string \<Rightarrow> string \<Rightarrow> 'w world \<Rightarrow> 'w world" where
  "emit_event kind reason msg s = (fst s, snd s @ [EEvent kind reason msg])"

subsection \<open>What the wrappers do to the log\<close>

lemma update_job_status_log [simp]:
  "update_job_status k j s = (r, s') \<Longrightarrow> snd s' = snd s @ [EJobStatus j]"
  by (auto simp: update_job_status_def split: prod.splits)

lemma update_attempt_status_log [simp]:
  "update_attempt_status k a s = (r, s') \<Longrightarrow> snd s' = snd s @ [EAttemptStatus a]"
  by (auto simp: update_attempt_status_def split: prod.splits)

lemma create_attempt_log [simp]:
  "create_attempt k a s = (r, s') \<Longrightarrow> snd s' = snd s @ [ECreateAttempt a]"
  by (auto simp: create_attempt_def split: prod.splits)

lemma create_pod_log [simp]: "create_pod k p s = (r, s') \<Longrightarrow> snd s' = snd s @ [ECreatePod p]"
  by (auto simp: create_pod_def split: prod.splits)

lemma delete_pod_log [simp]: "delete_pod k p s = (r, s') \<Longrightarrow> snd s' = snd s @ [EDeletePod p]"
  by (auto simp: delete_pod_def split: prod.splits)

lemma delete_attempt_log [simp]:
  "delete_attempt k a s = (r, s') \<Longrightarrow> snd s' = snd s @ [EDeleteAttempt a]"
  by (auto simp: delete_attempt_def split: prod.splits)

lemma update_pool_status_log:
  "update_pool_status k p s = (r, s') \<Longrightarrow> snd s' = snd s @ [EPoolStatus p]"
  by (auto simp: update_pool_status_def split: prod.splits)

lemma patch_pod_log: "patch_pod k b p s = (r, s') \<Longrightarrow> snd s' = snd s @ [EPatchPod p]"
  by (auto simp: patch_pod_def split: prod.splits)

lemma read_world_log [simp]: "read_world f s = (r, s') \<Longrightarrow> snd s' = snd s"
  by (auto simp: read_world_def split: prod.splits)

lemma read_world_result: "read_world f s = (r, s') \<Longrightarrow> f (fst s) = (r, fst s')"
  by (cases "f (fst s)") (auto simp: read_world_def)

lemma emit_event_log [simp]: "snd (emit_event kind reason msg s) = snd s @ [EEvent kind reason msg]"
  by (simp add: emit_event_def)

text \<open>
  The effects a computation adds: the log only grows, and what it gained satisfies a
  predicate. This is the shape of every statement about a reconciler's writes.
\<close>

definition adds :: "(effect \<Rightarrow> bool) \<Rightarrow> 'w world \<Rightarrow> 'w world \<Rightarrow> bool" where
  "adds P s s' \<longleftrightarrow> (\<exists>es. snd s' = snd s @ es \<and> list_all P es)"

lemma adds_refl [simp, intro]: "adds P s s"
  by (simp add: adds_def)

lemma adds_same [intro]: "snd s' = snd s \<Longrightarrow> adds P s s'"
  by (simp add: adds_def)

lemma adds_trans [trans]: "adds P s s' \<Longrightarrow> adds P s' s'' \<Longrightarrow> adds P s s''"
  by (fastforce simp: adds_def)

lemma adds_one: "snd s' = snd s @ [e] \<Longrightarrow> P e \<Longrightarrow> adds P s s'"
  by (auto simp: adds_def)

lemma adds_mono: "adds P s s' \<Longrightarrow> (\<And>e. P e \<Longrightarrow> Q e) \<Longrightarrow> adds Q s s'"
  by (auto simp: adds_def list_all_iff)

lemma adds_empty_log: "adds P (w, []) s' \<Longrightarrow> e \<in> set (snd s') \<Longrightarrow> P e"
  by (auto simp: adds_def list_all_iff)

subsection \<open>Counting requests\<close>

definition job_writes :: "'w world \<Rightarrow> AgentJob list" where
  "job_writes s = concat (map (\<lambda>e. case e of EJobStatus j \<Rightarrow> [j] | _ \<Rightarrow> []) (snd s))"

definition created_attempts :: "'w world \<Rightarrow> AgentAttempt list" where
  "created_attempts s = concat (map (\<lambda>e. case e of ECreateAttempt a \<Rightarrow> [a] | _ \<Rightarrow> []) (snd s))"

definition created_pods :: "'w world \<Rightarrow> pod list" where
  "created_pods s = concat (map (\<lambda>e. case e of ECreatePod p \<Rightarrow> [p] | _ \<Rightarrow> []) (snd s))"

end
