(* ===== verification/Snapshots.thy ===== *)
theory Snapshots
  imports KubeClient
begin

text \<open>
  The snapshot a reconcile decides from (\<open>job_snapshot.go\<close>): the job, its attempts
  ordered by ordinal and its Pods ordered by name. Go's \<open>sort.Slice\<close> leaves the order of
  equal keys open; names are unique within a namespace, and the attempts the operator
  creates have ordinals determined by their names, so the stable sort of the model differs
  from it only on attempts that someone else created with a duplicate ordinal.
\<close>

record JobSnapshot =
  js_job :: AgentJob
  js_attempts :: "AgentAttempt list"
  js_pods :: "pod list"

definition job_selector :: "string \<Rightarrow> (string \<times> string) list" where
  "job_selector name = [(''durarun.io/job'', name)]"

definition LoadJobSnapshot ::
  "'w kube \<Rightarrow> string \<Rightarrow> string \<Rightarrow> 'w world \<Rightarrow> (gerr + JobSnapshot option) \<times> 'w world" where
  "LoadJobSnapshot k ns name s =
     (case read_world (k_get_job k ns name) s of
        (Inl NotFound, s) \<Rightarrow> (Inr None, s)
      | (Inl e, s) \<Rightarrow> (Inl (Wrapped ''get job'' (ApiErr e)), s)
      | (Inr job, s) \<Rightarrow>
          (case read_world (k_list_attempts k ns (job_selector name)) s of
             (Inl e, s) \<Rightarrow> (Inl (Wrapped ''list attempts for job'' (ApiErr e)), s)
           | (Inr attempts, s) \<Rightarrow>
               (case read_world (k_list_pods k ns (job_selector name)) s of
                  (Inl e, s) \<Rightarrow> (Inl (Wrapped ''list pods for job'' (ApiErr e)), s)
                | (Inr pods, s) \<Rightarrow>
                    (Inr (Some \<lparr>js_job = job,
                                js_attempts = sort_key attempt_ordinal attempts,
                                js_pods = sort_key pod_name pods\<rparr>), s))))"

definition ActiveAttempt :: "JobSnapshot \<Rightarrow> AgentAttempt option" where
  "ActiveAttempt snap =
     (case st_active (j_status (js_job snap)) of
        None \<Rightarrow> None
      | Some ref \<Rightarrow> find (\<lambda>a. attempt_name a = ar_name ref) (js_attempts snap))"

definition PodForAttempt :: "JobSnapshot \<Rightarrow> string \<Rightarrow> pod option" where
  "PodForAttempt snap attemptName =
     find (\<lambda>p. map_get (om_labels (p_meta p)) ''durarun.io/attempt'' = attemptName) (js_pods snap)"

definition NextOrdinal :: "JobSnapshot \<Rightarrow> int" where
  "NextOrdinal snap =
     (if js_attempts snap = [] then 1 else i32 (attempt_ordinal (last (js_attempts snap)) + 1))"

lemma LoadJobSnapshot_log [simp]: "LoadJobSnapshot k ns name s = (r, s') \<Longrightarrow> snd s' = snd s"
  by (auto simp: LoadJobSnapshot_def split: prod.splits sum.splits api_error.splits)

lemma LoadJobSnapshot_sorted:
  assumes "LoadJobSnapshot k ns name s = (Inr (Some snap), s')"
  shows "sorted (map attempt_ordinal (js_attempts snap)) \<and> sorted (map pod_name (js_pods snap))"
  using assms by (auto simp: LoadJobSnapshot_def split: prod.splits sum.splits api_error.splits)

lemma LoadJobSnapshot_job:
  assumes "LoadJobSnapshot k ns name s = (Inr (Some snap), s')"
  shows "fst (k_get_job k ns name (fst s)) = Inr (js_job snap)"
  using assms
  by (auto simp: LoadJobSnapshot_def dest!: read_world_result split: prod.splits sum.splits api_error.splits)

lemma ActiveAttempt_mem: "ActiveAttempt snap = Some a \<Longrightarrow> a \<in> set (js_attempts snap)"
  by (auto simp: ActiveAttempt_def split: option.splits dest: find_SomeD)

lemma ActiveAttempt_name:
  "ActiveAttempt snap = Some a \<Longrightarrow>
   \<exists>ref. st_active (j_status (js_job snap)) = Some ref \<and> attempt_name a = ar_name ref"
  by (auto simp: ActiveAttempt_def split: option.splits dest: find_SomeD)

lemma sorted_le_last: "sorted xs \<Longrightarrow> x \<in> set xs \<Longrightarrow> x \<le> last xs"
  by (induction xs) (auto split: if_splits)

text \<open>The next ordinal is above every ordinal of the snapshot.\<close>

lemma NextOrdinal_above:
  assumes "sorted (map attempt_ordinal (js_attempts snap))"
    and "\<forall>a\<in>set (js_attempts snap). 0 \<le> attempt_ordinal a \<and> attempt_ordinal a < max_i32"
    and "a \<in> set (js_attempts snap)"
  shows "attempt_ordinal a < NextOrdinal snap"
proof -
  let ?l = "attempt_ordinal (last (js_attempts snap))"
  from assms(3) have ne: "js_attempts snap \<noteq> []" by auto
  with assms(1,3) have "attempt_ordinal a \<le> ?l"
    using sorted_le_last [of "map attempt_ordinal (js_attempts snap)" "attempt_ordinal a"]
    by (simp add: last_map)
  moreover have "0 \<le> ?l \<and> ?l < max_i32"
    using assms(2) last_in_set [OF ne] by blast
  then have "i32 (?l + 1) = ?l + 1" by (intro i32_id) (simp add: in_i32_def)
  ultimately show ?thesis using ne by (simp add: NextOrdinal_def)
qed

end
