(* ===== verification/AttemptReconciler.thy ===== *)
theory AttemptReconciler
  imports Snapshots
begin

text \<open>
  The lifecycle of one attempt within a reconcile (\<open>attempt_reconciler.go\<close>): find or
  create its Pod, fence a replaced Pod, and turn the Pod's phase into conditions of the
  attempt. Every clock reading of one reconcile is the single instant \<open>now\<close>: the readings
  are only stored as timestamps.
\<close>

definition requeueDelay :: duration where "requeueDelay = 5 * second"

text \<open>The result of reconciling an attempt, with the attempt object as the caller sees it.\<close>

record attempt_result =
  ar_terminal :: bool
  ar_requeue :: ctrl_result
  ar_error :: "gerr option"
  ar_attempt :: AgentAttempt

definition attempt_failure :: "gerr \<Rightarrow> AgentAttempt \<Rightarrow> attempt_result" where
  "attempt_failure e a =
     \<lparr>ar_terminal = False, ar_requeue = Finished, ar_error = Some e, ar_attempt = a\<rparr>"

text \<open>\<open>extractExitCode\<close>: the code of the first terminated container.\<close>

fun extractExitCode :: "container_status list \<Rightarrow> int option" where
  "extractExitCode [] = None"
| "extractExitCode (c # cs) =
     (case cst_terminated c of Some (code, reason) \<Rightarrow> Some code | None \<Rightarrow> extractExitCode cs)"

definition markAttemptFailed ::
  "setter \<Rightarrow> instant \<Rightarrow> AgentAttempt \<Rightarrow> int option \<Rightarrow> AgentAttempt" where
  "markAttemptFailed ssc now attempt exitCode =
     (let st = (a_status attempt)\<lparr>at_completion := Some now\<rparr>;
          st = (if exitCode \<noteq> None then st\<lparr>at_exit_code := exitCode\<rparr> else st)
      in attempt\<lparr>a_status := st\<lparr>at_conditions :=
           SetAttemptCondition ssc now (at_conditions st) AttemptConditionFailed CTrue
             ''Failed'' ''Attempt failed''\<rparr>\<rparr>)"

definition retryDelay :: "AgentJob \<Rightarrow> duration" where
  "retryDelay job =
     (case ex_backoff_limit (job_exec job) of Some d \<Rightarrow> d | None \<Rightarrow> requeueDelay)"

text \<open>
  Writing the attempt's status: on success the server's object replaces the local one and
  the given result is returned; on failure the error is wrapped with the call's message.
\<close>

definition commit_attempt ::
  "'w kube \<Rightarrow> string \<Rightarrow> bool \<Rightarrow> ctrl_result \<Rightarrow> AgentAttempt \<Rightarrow> 'w world \<Rightarrow> attempt_result \<times> 'w world" where
  "commit_attempt k msg terminal requeue attempt s =
     (case update_attempt_status k attempt s of
        (Inl e, s) \<Rightarrow> (attempt_failure (Wrapped msg (ApiErr e)) attempt, s)
      | (Inr a, s) \<Rightarrow>
          (\<lparr>ar_terminal = terminal, ar_requeue = requeue, ar_error = None, ar_attempt = a\<rparr>, s))"

text \<open>Step 1: the Pod of the attempt, found, gone, or impossible to obtain.\<close>

datatype pod_lookup = PodFound pod | PodGone | PodError gerr

definition ensure_pod ::
  "'w kube \<Rightarrow> JobSnapshot \<Rightarrow> AgentAttempt \<Rightarrow> 'w world \<Rightarrow> pod_lookup \<times> 'w world" where
  "ensure_pod k snap attempt s =
     (let newPod = BuildPod (js_job snap) attempt []
      in case k_own_pod k attempt newPod of
           Inl e \<Rightarrow> (PodError (Wrapped ''set pod owner ref'' (ApiErr e)), s)
         | Inr newPod \<Rightarrow>
             (case read_world (k_get_pod k (om_namespace (p_meta newPod)) (pod_name newPod)) s of
                (Inr existing, s) \<Rightarrow> (PodFound existing, s)
              | (Inl NotFound, s) \<Rightarrow>
                  (case create_pod k newPod s of
                     (Inr created, s) \<Rightarrow> (PodFound created, s)
                   | (Inl AlreadyExists, s) \<Rightarrow>
                       (case read_world (k_get_pod k (om_namespace (p_meta newPod)) (pod_name newPod)) s of
                          (Inr existing, s) \<Rightarrow> (PodFound existing, s)
                        | (Inl e, s) \<Rightarrow> (PodError (Wrapped ''get pod after race'' (ApiErr e)), s))
                   | (Inl e, s) \<Rightarrow> (PodError (Wrapped ''create pod'' (ApiErr e)), s))
              | (Inl e, s) \<Rightarrow> (PodError (Wrapped ''check existing pod'' (ApiErr e)), s)))"

definition lookup_pod ::
  "'w kube \<Rightarrow> JobSnapshot \<Rightarrow> AgentAttempt \<Rightarrow> 'w world \<Rightarrow> pod_lookup \<times> 'w world" where
  "lookup_pod k snap attempt s =
     (case PodForAttempt snap (attempt_name attempt) of
        Some p \<Rightarrow> (PodFound p, s)
      | None \<Rightarrow>
          if at_pod_name (a_status attempt) \<noteq> []
          then (case read_world (k_get_pod k (om_namespace (j_meta (js_job snap)))
                        (at_pod_name (a_status attempt))) s of
                  (Inr fetched, s) \<Rightarrow> (PodFound fetched, s)
                | (Inl NotFound, s) \<Rightarrow> (PodGone, s)
                | (Inl e, s) \<Rightarrow> (PodError (Wrapped ''get pod'' (ApiErr e)), s))
          else ensure_pod k snap attempt s)"

text \<open>Step 2: record the Pod reference in the attempt's status.\<close>

definition bind_pod :: "setter \<Rightarrow> instant \<Rightarrow> AgentAttempt \<Rightarrow> pod \<Rightarrow> AgentAttempt" where
  "bind_pod ssc now attempt p =
     attempt\<lparr>a_status := (a_status attempt)
       \<lparr>at_pod_name := pod_name p, at_pod_uid := pod_uid p,
        at_conditions := SetAttemptCondition ssc now (attempt_conditions attempt)
          AttemptConditionPodCreated CTrue ''PodCreated'' (''Pod '' @ pod_name p @ '' created'')\<rparr>\<rparr>"

text \<open>Step 4: the attempt as the Pod's phase leaves it.\<close>

definition mark_running :: "setter \<Rightarrow> instant \<Rightarrow> AgentAttempt \<Rightarrow> AgentAttempt" where
  "mark_running ssc now attempt =
     attempt\<lparr>a_status := (a_status attempt)
       \<lparr>at_start := Some now,
        at_conditions := SetAttemptCondition ssc now (attempt_conditions attempt)
          AttemptConditionRunning CTrue ''PodRunning'' ''Pod is running''\<rparr>\<rparr>"

definition started :: "instant \<Rightarrow> AgentAttempt \<Rightarrow> AgentAttempt" where
  "started now attempt =
     (if at_start (a_status attempt) = None
      then attempt\<lparr>a_status := (a_status attempt)\<lparr>at_start := Some now\<rparr>\<rparr> else attempt)"

definition mark_succeeded :: "setter \<Rightarrow> instant \<Rightarrow> AgentAttempt \<Rightarrow> AgentAttempt" where
  "mark_succeeded ssc now attempt =
     (let attempt = started now (attempt\<lparr>a_status := (a_status attempt)
            \<lparr>at_exit_code := Some 0, at_completion := Some now\<rparr>\<rparr>);
          cs = SetAttemptCondition ssc now (attempt_conditions attempt)
            AttemptConditionRunning CTrue ''PodRunning'' ''Pod ran (fast path)'';
          cs = SetAttemptCondition ssc now cs
            AttemptConditionComplete CTrue ''PodSucceeded'' ''Pod completed successfully''
      in attempt\<lparr>a_status := (a_status attempt)\<lparr>at_conditions := cs\<rparr>\<rparr>)"

definition observe_pod ::
  "'w kube \<Rightarrow> instant \<Rightarrow> AgentAttempt \<Rightarrow> pod \<Rightarrow> 'w world \<Rightarrow> attempt_result \<times> 'w world" where
  "observe_pod k now attempt p s =
     (case pst_phase (p_status p) of
        PodRunning \<Rightarrow>
          if at_start (a_status attempt) = None
          then commit_attempt k ''update attempt to Running'' False (RequeueAfter requeueDelay)
                 (mark_running (k_ssc k) now attempt) s
          else (\<lparr>ar_terminal = False, ar_requeue = RequeueAfter requeueDelay, ar_error = None,
                 ar_attempt = attempt\<rparr>, s)
      | PodSucceeded \<Rightarrow>
          commit_attempt k ''update attempt to Completed'' True Finished
            (mark_succeeded (k_ssc k) now attempt) s
      | PodFailed \<Rightarrow>
          commit_attempt k ''update attempt to Failed'' True Finished
            (markAttemptFailed (k_ssc k) now (started now attempt)
               (extractExitCode (pst_containers (p_status p)))) s
      | _ \<Rightarrow> (\<lparr>ar_terminal = False, ar_requeue = RequeueAfter requeueDelay, ar_error = None,
               ar_attempt = attempt\<rparr>, s))"

text \<open>Steps 2 to 4, once the Pod is known.\<close>

definition settle_attempt ::
  "'w kube \<Rightarrow> instant \<Rightarrow> AgentAttempt \<Rightarrow> pod \<Rightarrow> 'w world \<Rightarrow> attempt_result \<times> 'w world" where
  "settle_attempt k now attempt p s =
     (if at_pod_name (a_status attempt) = []
      then commit_attempt k ''update attempt pod ref'' False (RequeueAfter requeueDelay)
             (bind_pod (k_ssc k) now attempt p) s
      else if at_pod_uid (a_status attempt) \<noteq> [] \<and> pod_uid p \<noteq> at_pod_uid (a_status attempt)
      then commit_attempt k ''update attempt to Failed (UID mismatch)'' True Finished
             (markAttemptFailed (k_ssc k) now attempt None) s
      else observe_pod k now attempt p s)"

definition ReconcileAttempt ::
  "'w kube \<Rightarrow> instant \<Rightarrow> JobSnapshot \<Rightarrow> AgentAttempt \<Rightarrow> 'w world \<Rightarrow> attempt_result \<times> 'w world" where
  "ReconcileAttempt k now snap attempt s =
     (if IsAttemptTerminal (attempt_conditions attempt)
      then (\<lparr>ar_terminal = True, ar_requeue = Finished, ar_error = None, ar_attempt = attempt\<rparr>, s)
      else case lookup_pod k snap attempt s of
        (PodError e, s) \<Rightarrow> (attempt_failure e attempt, s)
      | (PodGone, s) \<Rightarrow>
          commit_attempt k ''update attempt to Failed (pod gone)'' True Finished
            (markAttemptFailed (k_ssc k) now attempt None) s
      | (PodFound p, s) \<Rightarrow> settle_attempt k now attempt p s)"

subsection \<open>Identity: an attempt keeps its name, UID and ordinal\<close>

definition same_attempt :: "AgentAttempt \<Rightarrow> AgentAttempt \<Rightarrow> bool" where
  "same_attempt a b \<longleftrightarrow> a_meta a = a_meta b \<and> a_spec a = a_spec b"

lemma same_attempt_refl [simp]: "same_attempt a a"
  by (simp add: same_attempt_def)

lemma markAttemptFailed_same [simp]: "same_attempt (markAttemptFailed ssc now a c) a"
  by (simp add: markAttemptFailed_def same_attempt_def Let_def)

lemma started_same [simp]: "a_meta (started now a) = a_meta a" "a_spec (started now a) = a_spec a"
  "attempt_conditions (started now a) = attempt_conditions a"
  by (simp_all add: started_def)

lemma bind_pod_same [simp]: "same_attempt (bind_pod ssc now a p) a"
  by (simp add: bind_pod_def same_attempt_def)

lemma mark_running_same [simp]: "same_attempt (mark_running ssc now a) a"
  by (simp add: mark_running_def same_attempt_def)

lemma mark_succeeded_same [simp]: "same_attempt (mark_succeeded ssc now a) a"
  by (simp add: mark_succeeded_def same_attempt_def Let_def)

lemma markAttemptFailed_started_same [simp]:
  "same_attempt (markAttemptFailed ssc now (started now a) c) a"
  by (simp add: markAttemptFailed_def same_attempt_def Let_def)

subsection \<open>Conditions after each outcome\<close>

lemma markAttemptFailed_conditions:
  assumes "condition_setter ssc"
  shows "holds AttemptConditionFailed (attempt_conditions (markAttemptFailed ssc now a c))"
    and "holds AttemptConditionComplete (attempt_conditions (markAttemptFailed ssc now a c)) \<longleftrightarrow>
      holds AttemptConditionComplete (attempt_conditions a)"
  using assms by (simp_all add: markAttemptFailed_def holds_set Let_def)

lemma mark_succeeded_conditions:
  assumes "condition_setter ssc"
  shows "holds AttemptConditionComplete (attempt_conditions (mark_succeeded ssc now a))"
    and "holds AttemptConditionFailed (attempt_conditions (mark_succeeded ssc now a)) \<longleftrightarrow>
      holds AttemptConditionFailed (attempt_conditions a)"
  using assms by (simp_all add: mark_succeeded_def holds_set Let_def started_def)

lemma mark_running_terminal:
  "condition_setter ssc \<Longrightarrow>
   IsAttemptTerminal (attempt_conditions (mark_running ssc now a)) \<longleftrightarrow> IsAttemptTerminal (attempt_conditions a)"
  by (simp add: mark_running_def IsAttemptTerminal_iff holds_set)

lemma bind_pod_terminal:
  "condition_setter ssc \<Longrightarrow>
   IsAttemptTerminal (attempt_conditions (bind_pod ssc now a p)) \<longleftrightarrow> IsAttemptTerminal (attempt_conditions a)"
  by (simp add: bind_pod_def IsAttemptTerminal_iff holds_set)

text \<open>
  What a reconcile may write about an attempt that was not terminal: the same attempt with
  at most one terminal condition.
\<close>

definition attempt_write_ok :: "AgentAttempt \<Rightarrow> AgentAttempt \<Rightarrow> bool" where
  "attempt_write_ok old new \<longleftrightarrow> same_attempt new old \<and>
     \<not> (holds AttemptConditionComplete (attempt_conditions new) \<and>
        holds AttemptConditionFailed (attempt_conditions new))"

lemma attempt_write_ok_intros:
  assumes "condition_setter ssc" and "\<not> IsAttemptTerminal (attempt_conditions a)"
  shows "attempt_write_ok a (markAttemptFailed ssc now a c)"
    and "attempt_write_ok a (markAttemptFailed ssc now (started now a) c)"
    and "attempt_write_ok a (mark_succeeded ssc now a)"
    and "attempt_write_ok a (mark_running ssc now a)"
    and "attempt_write_ok a (bind_pod ssc now a p)"
  using assms mark_running_terminal [of ssc now a] bind_pod_terminal [of ssc now a p]
  by (simp_all add: attempt_write_ok_def markAttemptFailed_conditions mark_succeeded_conditions
      IsAttemptTerminal_iff)

subsection \<open>What a reconcile writes\<close>

definition attempt_effect_ok :: "AgentJob \<Rightarrow> AgentAttempt \<Rightarrow> effect \<Rightarrow> bool" where
  "attempt_effect_ok job attempt e =
     (case e of
        EAttemptStatus a \<Rightarrow> attempt_write_ok attempt a
      | ECreatePod p \<Rightarrow> True
      | _ \<Rightarrow> False)"

lemma commit_attempt_adds:
  "commit_attempt k msg t q a s = (r, s') \<Longrightarrow> snd s' = snd s @ [EAttemptStatus a]"
  by (auto simp: commit_attempt_def split: prod.splits sum.splits)

lemma ensure_pod_adds:
  "ensure_pod k snap a s = (r, s') \<Longrightarrow> adds (\<lambda>e. \<exists>p. e = ECreatePod p) s s'"
  by (auto simp: ensure_pod_def adds_def Let_def split: prod.splits sum.splits api_error.splits)

lemma lookup_pod_adds:
  "lookup_pod k snap a s = (r, s') \<Longrightarrow> adds (\<lambda>e. \<exists>p. e = ECreatePod p) s s'"
  by (auto simp: lookup_pod_def intro: ensure_pod_adds
      split: option.splits prod.splits sum.splits api_error.splits if_splits)

lemma settle_attempt_adds:
  assumes "condition_setter (k_ssc k)" and "\<not> IsAttemptTerminal (attempt_conditions a)"
    and "settle_attempt k now a p s = (r, s')"
  shows "adds (\<lambda>e. \<exists>b. e = EAttemptStatus b \<and> attempt_write_ok a b) s s'"
  using assms(3) attempt_write_ok_intros [OF assms(1,2)]
  by (auto simp: settle_attempt_def observe_pod_def adds_def dest!: commit_attempt_adds
      split: if_splits pod_phase.splits)

lemma ReconcileAttempt_adds:
  assumes "condition_setter (k_ssc k)" and "ReconcileAttempt k now snap a s = (r, s')"
  shows "adds (attempt_effect_ok (js_job snap) a) s s'"
proof (cases "IsAttemptTerminal (attempt_conditions a)")
  case True
  with assms(2) show ?thesis by (auto simp: ReconcileAttempt_def)
next
  case False
  obtain l s1 where l: "lookup_pod k snap a s = (l, s1)" by (cases "lookup_pod k snap a s")
  have 1: "adds (attempt_effect_ok (js_job snap) a) s s1"
    by (rule adds_mono [OF lookup_pod_adds [OF l]]) (auto simp: attempt_effect_ok_def)
  have 2: "adds (attempt_effect_ok (js_job snap) a) s1 s'"
  proof (cases l)
    case (PodFound p)
    with False assms(2) l have "settle_attempt k now a p s1 = (r, s')"
      by (simp add: ReconcileAttempt_def)
    from settle_attempt_adds [OF assms(1) False this] show ?thesis
      by (rule adds_mono) (auto simp: attempt_effect_ok_def)
  next
    case PodGone
    with False assms l show ?thesis
      by (auto simp: ReconcileAttempt_def attempt_effect_ok_def attempt_write_ok_intros
          intro!: adds_one dest: commit_attempt_adds)
  next
    case (PodError e)
    with False assms l show ?thesis by (auto simp: ReconcileAttempt_def)
  qed
  from 1 2 show ?thesis by (rule adds_trans)
qed

subsection \<open>The outcome\<close>

text \<open>
  The server echoes a status it accepted: the object an update returns has the status that
  was sent and the same identity (the status subresource changes nothing else).
\<close>

definition echoes_attempt_status :: "'w kube \<Rightarrow> bool" where
  "echoes_attempt_status k \<longleftrightarrow>
     (\<forall>a w b w'. k_update_attempt_status k a w = (Inr b, w') \<longrightarrow>
        a_status b = a_status a \<and> attempt_name b = attempt_name a \<and> a_spec b = a_spec a)"

lemma echoes_attempt_statusD:
  "echoes_attempt_status k \<Longrightarrow> k_update_attempt_status k a w = (Inr b, w') \<Longrightarrow>
   a_status b = a_status a"
  unfolding echoes_attempt_status_def by blast

lemma commit_attempt_terminal:
  assumes "echoes_attempt_status k" and "commit_attempt k msg t q a s = (r, s')"
    and "ar_terminal r"
  shows "t \<and> attempt_conditions (ar_attempt r) = attempt_conditions a \<and> ar_error r = None"
proof (cases "k_update_attempt_status k a (fst s)")
  case (Pair b w)
  with assms show ?thesis
    by (cases b) (auto simp: commit_attempt_def update_attempt_status_def attempt_failure_def
        dest: echoes_attempt_statusD)
qed

lemma settle_attempt_terminal:
  assumes "condition_setter (k_ssc k)" and "echoes_attempt_status k"
    and "settle_attempt k now a p s = (r, s')" and "ar_terminal r"
  shows "IsAttemptTerminal (attempt_conditions (ar_attempt r))"
  using assms
  by (auto simp: settle_attempt_def observe_pod_def IsAttemptTerminal_iff
      markAttemptFailed_conditions mark_succeeded_conditions
      dest!: commit_attempt_terminal [OF assms(2)] split: if_splits pod_phase.splits)

lemma ReconcileAttempt_terminal:
  assumes "condition_setter (k_ssc k)" and "echoes_attempt_status k"
    and "ReconcileAttempt k now snap a s = (r, s')" and "ar_terminal r"
  shows "IsAttemptTerminal (attempt_conditions (ar_attempt r))"
  using assms
  by (auto simp: ReconcileAttempt_def IsAttemptTerminal_iff attempt_failure_def
      markAttemptFailed_conditions dest!: commit_attempt_terminal [OF assms(2)]
      dest: settle_attempt_terminal
      split: if_splits prod.splits pod_lookup.splits)

lemma ReconcileAttempt_terminal_no_error:
  assumes "ReconcileAttempt k now snap a s = (r, s')" and "ar_terminal r"
  shows "ar_error r = None"
  using assms
  by (auto simp: ReconcileAttempt_def settle_attempt_def observe_pod_def commit_attempt_def
      attempt_failure_def split: if_splits prod.splits sum.splits pod_lookup.splits pod_phase.splits)

text \<open>
  An attempt the reconciler bound to its Pod: PodCreated comes first in its conditions, so
  its phase stays Pending whatever is appended later.
\<close>

lemma bind_pod_phase:
  assumes "condition_setter ssc"
    and "attempt_conditions a = []"
  shows "AttemptPhaseFromConditions (attempt_conditions (bind_pod ssc now a p)) = ''Pending''"
  using assms by (simp add: bind_pod_def SetAttemptCondition_def condition_setter_def)

end
