(* ===== verification/JobController.thy ===== *)
theory JobController
  imports AttemptReconciler
begin

text \<open>
  One reconcile of an AgentJob (\<open>job_controller.go\<close>). The code loads a snapshot once and
  decides everything from it; the model names the stages of that function: the ownership
  check, starting an attempt, following it, and the four ways it can end a pass. The job in
  the snapshot is a shared pointer in the source, so each stage hands the updated job to the
  calls that read it (\<open>createAttempt\<close> sees the failure counter already incremented).
  \<open>recording\<close> says whether an event recorder is configured. Metrics, spans and log lines
  are not part of the model.
\<close>

fun ownership_text :: "ownership_error \<Rightarrow> string" where
  "ownership_text (OwnerMismatch child ref_uid name u) =
     ''ownership mismatch: child '' @ child @ '' has owner UID '' @ ref_uid @ '', but job '' @ name @
     '' has UID '' @ u @ '' (stale resource)''"
| "ownership_text (JobRefUIDMismatch attempt ref_uid name u) =
     ''attempt '' @ attempt @ '' JobRef UID '' @ ref_uid @ '' does not match job '' @ name @
     '' UID '' @ u @ '' (stale attempt)''"

definition record_event ::
  "bool \<Rightarrow> string \<Rightarrow> string \<Rightarrow> string \<Rightarrow> 'w world \<Rightarrow> 'w world" where
  "record_event recording eventType reason msg s =
     (if recording then emit_event eventType reason msg s else s)"

subsection \<open>createAttempt\<close>

definition next_ordinal :: "AgentJob \<Rightarrow> int" where
  "next_ordinal job = i32 (i32 (st_failed (j_status job) + st_completed (j_status job)) + 1)"

definition next_attempt_name :: "AgentJob \<Rightarrow> string" where
  "next_attempt_name job = job_name job @ ''-'' @ show_int (next_ordinal job)"

definition new_attempt :: "AgentJob \<Rightarrow> AgentAttempt" where
  "new_attempt job =
     \<lparr>a_meta = \<lparr>om_name = next_attempt_name job, om_generate_name = [], om_namespace = om_namespace (j_meta job),
        om_uid = [], om_labels = [''durarun.io/job'' \<mapsto> job_name job],
        om_annotations = Map.empty, om_owners = [], om_finalizers = [], om_deletion = None\<rparr>,
      a_spec = \<lparr>as_job_ref = \<lparr>or_name = job_name job, or_namespace = om_namespace (j_meta job),
                   or_uid = job_uid job\<rparr>,
                as_ordinal = next_ordinal job, as_deadline = None\<rparr>,
      a_status = \<lparr>at_conditions = [], at_pod_name = [], at_pod_uid = [], at_start = None,
        at_completion = None, at_exit_code = None, at_signal = None, at_error_category = [],
        at_artifact_ref = None\<rparr>\<rparr>"

definition createAttempt ::
  "'w kube \<Rightarrow> AgentJob \<Rightarrow> 'w world \<Rightarrow> (gerr + AgentAttempt) \<times> 'w world" where
  "createAttempt k job s =
     (let ns = om_namespace (j_meta job); name = next_attempt_name job
      in case read_world (k_get_attempt k ns name) s of
           (Inr existing, s) \<Rightarrow> (Inr existing, s)
         | (Inl _, s) \<Rightarrow>
             (case k_own_attempt k job (new_attempt job) of
                Inl e \<Rightarrow> (Inl (Wrapped ''set attempt owner ref'' (ApiErr e)), s)
              | Inr attempt \<Rightarrow>
                  (case create_attempt k attempt s of
                     (Inr created, s) \<Rightarrow> (Inr created, s)
                   | (Inl AlreadyExists, s) \<Rightarrow>
                       (case read_world (k_get_attempt k ns name) s of
                          (Inl e, s) \<Rightarrow> (Inl (Wrapped ''get existing attempt after race'' (ApiErr e)), s)
                        | (Inr existing, s) \<Rightarrow> (Inr existing, s))
                   | (Inl e, s) \<Rightarrow> (Inl (ApiErr e), s))))"

subsection \<open>Reconcile, stage by stage\<close>

type_synonym reconcile_result = "ctrl_result \<times> gerr option"

definition with_status :: "AgentJob \<Rightarrow> (AgentJobStatus \<Rightarrow> AgentJobStatus) \<Rightarrow> AgentJob" where
  "with_status job f = job\<lparr>j_status := f (j_status job)\<rparr>"

text \<open>
  Every stage ends the same way: the job's status is written; a failed write returns the
  wrapped error, a successful one emits the event and returns the stage's result. The
  message is computed from the object the server returned.
\<close>

definition commit_job ::
  "'w kube \<Rightarrow> bool \<Rightarrow> string \<Rightarrow> string \<Rightarrow> string \<Rightarrow> (AgentJob \<Rightarrow> string) \<Rightarrow> ctrl_result \<Rightarrow>
   AgentJob \<Rightarrow> 'w world \<Rightarrow> reconcile_result \<times> 'w world" where
  "commit_job k recording what eventType reason text result job s =
     (case update_job_status k job s of
        (Inl e, s) \<Rightarrow> ((Finished, Some (Wrapped what (ApiErr e))), s)
      | (Inr job, s) \<Rightarrow> ((result, None), record_event recording eventType reason (text job) s))"

text \<open>Step 4: the first attempt of the snapshot that is not the job's.\<close>

fun first_violation :: "AgentJob \<Rightarrow> AgentAttempt list \<Rightarrow> ownership_error option" where
  "first_violation job [] = None"
| "first_violation job (a # as) =
     (case VerifyAttemptOwnership job a of Some e \<Rightarrow> Some e | None \<Rightarrow> first_violation job as)"

definition fail_ownership ::
  "'w kube \<Rightarrow> bool \<Rightarrow> instant \<Rightarrow> AgentJob \<Rightarrow> ownership_error \<Rightarrow> 'w world \<Rightarrow> reconcile_result \<times> 'w world" where
  "fail_ownership k recording now job err s =
     (case TrySetJobTerminal (k_ssc k) now (job_conditions job) JobConditionFailed CTrue
             ''OwnershipViolation'' (''stale attempt detected: '' @ ownership_text err) of
        (cs, False) \<Rightarrow> ((Finished, None), s)
      | (cs, True) \<Rightarrow>
          commit_job k recording ''update job status after ownership violation'' ''Warning''
            ''OwnershipViolation'' (\<lambda>_. ownership_text err) Finished
            (with_status job (\<lambda>st. st\<lparr>st_conditions := cs, st_completion := Some now\<rparr>)) s)"

definition attempt_reference :: "AgentAttempt \<Rightarrow> AttemptReference" where
  "attempt_reference a =
     \<lparr>ar_name = attempt_name a, ar_ordinal = attempt_ordinal a, ar_uid = attempt_uid a\<rparr>"

definition created_text :: "AgentAttempt \<Rightarrow> string" where
  "created_text a = ''Created attempt '' @ attempt_name a @ '' (#'' @ show_int (attempt_ordinal a) @ '')''"

text \<open>Step 5: no active attempt, create one and schedule the job.\<close>

definition start_attempt ::
  "'w kube \<Rightarrow> bool \<Rightarrow> instant \<Rightarrow> AgentJob \<Rightarrow> 'w world \<Rightarrow> reconcile_result \<times> 'w world" where
  "start_attempt k recording now job s =
     (case createAttempt k job s of
        (Inl e, s) \<Rightarrow> ((Finished, Some (Wrapped ''create attempt'' e)), s)
      | (Inr attempt, s) \<Rightarrow>
          commit_job k recording ''update job status to Scheduling'' ''Normal'' ''AttemptCreated''
            (\<lambda>_. created_text attempt) Requeue
            (with_status job (\<lambda>st. st
               \<lparr>st_active := Some (attempt_reference attempt),
                st_conditions := SetJobCondition (k_ssc k) now (st_conditions st)
                  JobConditionScheduled CTrue ''AttemptCreated'' (created_text attempt)\<rparr>)) s)"

text \<open>Step 6, the attempt is in progress: a started attempt makes the job Running.\<close>

definition follow_attempt ::
  "'w kube \<Rightarrow> bool \<Rightarrow> instant \<Rightarrow> AgentJob \<Rightarrow> AgentAttempt \<Rightarrow> ctrl_result \<Rightarrow> 'w world \<Rightarrow>
   reconcile_result \<times> 'w world" where
  "follow_attempt k recording now job attempt result s =
     (if at_start (a_status attempt) = None then ((result, None), s)
      else commit_job k recording ''update job to Running'' ''Normal'' ''Running''
        (\<lambda>_. ''Job is now running'') result
        (with_status job (\<lambda>st. st
           \<lparr>st_start := (if st_start st = None then Some now else st_start st),
            st_conditions := SetJobCondition (k_ssc k) now (st_conditions st)
              JobConditionRunning CTrue ''PodRunning'' ''Job is now running''\<rparr>)) s)"

text \<open>Step 7, the attempt succeeded.\<close>

definition succeed_job ::
  "'w kube \<Rightarrow> bool \<Rightarrow> instant \<Rightarrow> AgentJob \<Rightarrow> 'w world \<Rightarrow> reconcile_result \<times> 'w world" where
  "succeed_job k recording now job s =
     commit_job k recording ''update job to Succeeded'' ''Normal'' ''Succeeded''
       (\<lambda>_. ''Job completed successfully'') Finished
       (with_status job (\<lambda>st. st
          \<lparr>st_completed := i32 (st_completed st + 1),
           st_completion := Some now,
           st_conditions := fst (TrySetJobTerminal (k_ssc k) now (st_conditions st)
             JobConditionComplete CTrue ''Succeeded'' ''Job completed successfully'')\<rparr>)) s"

text \<open>Step 7, the attempt failed: the failure is counted first.\<close>

definition count_failure :: "AgentJob \<Rightarrow> AgentJob" where
  "count_failure job = with_status job (\<lambda>st. st\<lparr>st_failed := i32 (st_failed st + 1)\<rparr>)"

definition retry_text :: "AgentAttempt \<Rightarrow> AgentAttempt \<Rightarrow> string" where
  "retry_text attempt newAttempt =
     ''Attempt #'' @ show_int (attempt_ordinal attempt) @ '' failed, retrying (#'' @
     show_int (attempt_ordinal newAttempt) @ '')''"

definition retry_job ::
  "'w kube \<Rightarrow> bool \<Rightarrow> instant \<Rightarrow> AgentJob \<Rightarrow> AgentAttempt \<Rightarrow> 'w world \<Rightarrow> reconcile_result \<times> 'w world" where
  "retry_job k recording now job attempt s =
     (case createAttempt k job s of
        (Inl e, s) \<Rightarrow> ((Finished, Some (Wrapped ''create retry attempt'' e)), s)
      | (Inr newAttempt, s) \<Rightarrow>
          commit_job k recording ''update job for retry'' ''Warning'' ''Retrying''
            (\<lambda>_. retry_text attempt newAttempt) Requeue
            (with_status job (\<lambda>st. st
               \<lparr>st_active := Some (attempt_reference newAttempt),
                st_conditions := SetJobCondition (k_ssc k) now
                  (SetJobCondition (k_ssc k) now (st_conditions st)
                     JobConditionRunning CFalse ''Retrying'' ''Attempt failed, retrying'')
                  JobConditionScheduled CTrue ''Retrying'' (retry_text attempt newAttempt)\<rparr>)) s)"

definition exhausted_text :: "AgentJob \<Rightarrow> string" where
  "exhausted_text job =
     ''Job failed after '' @ show_int (st_failed (j_status job)) @ '' attempt(s)''"

definition exhaust_job ::
  "'w kube \<Rightarrow> bool \<Rightarrow> instant \<Rightarrow> AgentJob \<Rightarrow> 'w world \<Rightarrow> reconcile_result \<times> 'w world" where
  "exhaust_job k recording now job s =
     commit_job k recording ''update job to Failed'' ''Warning'' ''Failed'' exhausted_text Finished
       (with_status job (\<lambda>st. st
          \<lparr>st_completion := Some now,
           st_conditions := fst (TrySetJobTerminal (k_ssc k) now (st_conditions st)
             JobConditionFailed CTrue ''RetriesExhausted'' (exhausted_text job))\<rparr>)) s"

definition settle_job ::
  "'w kube \<Rightarrow> bool \<Rightarrow> instant \<Rightarrow> AgentJob \<Rightarrow> AgentAttempt \<Rightarrow> 'w world \<Rightarrow> reconcile_result \<times> 'w world" where
  "settle_job k recording now job attempt s =
     (if IsAttemptSucceeded (attempt_conditions attempt) then succeed_job k recording now job s
      else let job = count_failure job
        in if st_failed (j_status job) < ex_max_attempts (job_exec job)
           then retry_job k recording now job attempt s
           else exhaust_job k recording now job s)"

text \<open>Steps 6 and 7 for the active attempt.\<close>

definition advance_attempt ::
  "'w kube \<Rightarrow> bool \<Rightarrow> instant \<Rightarrow> JobSnapshot \<Rightarrow> AgentAttempt \<Rightarrow> 'w world \<Rightarrow> reconcile_result \<times> 'w world" where
  "advance_attempt k recording now snap attempt s =
     (case ReconcileAttempt k now snap attempt s of
        (res, s) \<Rightarrow>
          if ar_error res \<noteq> None then ((ar_requeue res, ar_error res), s)
          else if \<not> ar_terminal res
          then follow_attempt k recording now (js_job snap) (ar_attempt res) (ar_requeue res) s
          else settle_job k recording now (js_job snap) (ar_attempt res) s)"

text \<open>Steps 2 to 7, on a loaded snapshot.\<close>

definition store_spec_hash :: "'w kube \<Rightarrow> AgentJob \<Rightarrow> AgentJob" where
  "store_spec_hash k job =
     (let specHash = ComputeSpecHash (k_marshal k) (k_sha256hex k) (j_spec job)
      in if st_spec_hash (j_status job) = [] \<or> st_spec_hash (j_status job) \<noteq> specHash
         then with_status job (\<lambda>st. st\<lparr>st_spec_hash := specHash\<rparr>) else job)"

definition reconcile_snapshot ::
  "'w kube \<Rightarrow> bool \<Rightarrow> instant \<Rightarrow> JobSnapshot \<Rightarrow> 'w world \<Rightarrow> reconcile_result \<times> 'w world" where
  "reconcile_snapshot k recording now snap s =
     (if IsJobTerminal (job_conditions (js_job snap)) then ((Finished, None), s)
      else let job = store_spec_hash k (js_job snap); snap = snap\<lparr>js_job := job\<rparr>
        in case first_violation job (js_attempts snap) of
             Some err \<Rightarrow> fail_ownership k recording now job err s
           | None \<Rightarrow>
               (case ActiveAttempt snap of
                  None \<Rightarrow> start_attempt k recording now job s
                | Some attempt \<Rightarrow> advance_attempt k recording now snap attempt s))"

definition Reconcile ::
  "'w kube \<Rightarrow> bool \<Rightarrow> instant \<Rightarrow> string \<Rightarrow> string \<Rightarrow> 'w world \<Rightarrow> reconcile_result \<times> 'w world" where
  "Reconcile k recording now ns name s =
     (case LoadJobSnapshot k ns name s of
        (Inl e, s) \<Rightarrow> ((Finished, Some e), s)
      | (Inr None, s) \<Rightarrow> ((Finished, None), s)
      | (Inr (Some snap), s) \<Rightarrow> reconcile_snapshot k recording now snap s)"

subsection \<open>What a stage adds to the log\<close>

lemma with_status_sel [simp]:
  "j_meta (with_status job f) = j_meta job" "j_spec (with_status job f) = j_spec job"
  "j_status (with_status job f) = f (j_status job)"
  by (simp_all add: with_status_def)

lemma record_event_log [simp]:
  "job_writes (record_event b t r m s) = job_writes s"
  "created_attempts (record_event b t r m s) = created_attempts s"
  by (simp_all add: record_event_def job_writes_def created_attempts_def emit_event_def)

lemma adds_record_event: "(\<And>t r m. P (EEvent t r m)) \<Longrightarrow> adds P s (record_event b t r m s)"
  by (auto simp: record_event_def intro: adds_one)

lemma empty_log [simp]: "job_writes (w, []) = []" "created_attempts (w, []) = []"
  by (simp_all add: job_writes_def created_attempts_def)

lemma job_writes_append: "snd s' = snd s @ [e] \<Longrightarrow>
   job_writes s' = job_writes s @ (case e of EJobStatus j \<Rightarrow> [j] | _ \<Rightarrow> [])"
  by (simp add: job_writes_def)

lemma created_attempts_append: "snd s' = snd s @ [e] \<Longrightarrow>
   created_attempts s' = created_attempts s @ (case e of ECreateAttempt a \<Rightarrow> [a] | _ \<Rightarrow> [])"
  by (simp add: created_attempts_def)

lemma job_writes_same: "snd s' = snd s \<Longrightarrow> job_writes s' = job_writes s"
  by (simp add: job_writes_def)

lemma created_attempts_same: "snd s' = snd s \<Longrightarrow> created_attempts s' = created_attempts s"
  by (simp add: created_attempts_def)

lemma adds_no_job_writes:
  "adds P s s' \<Longrightarrow> (\<And>j. \<not> P (EJobStatus j)) \<Longrightarrow> job_writes s' = job_writes s"
  by (fastforce simp: adds_def job_writes_def list_all_iff split: effect.splits)

lemma adds_no_created_attempts:
  "adds P s s' \<Longrightarrow> (\<And>a. \<not> P (ECreateAttempt a)) \<Longrightarrow> created_attempts s' = created_attempts s"
  by (fastforce simp: adds_def created_attempts_def list_all_iff split: effect.splits)

lemma commit_job_result:
  assumes "commit_job k recording what t r msgf res job s = (q, s')"
  shows "job_writes s' = job_writes s @ [job]" and "created_attempts s' = created_attempts s"
    and "P (EJobStatus job) \<Longrightarrow> (\<And>t r m. P (EEvent t r m)) \<Longrightarrow> adds P s s'"
proof -
  obtain o1 s1 where u: "update_job_status k job s = (o1, s1)"
    by (cases "update_job_status k job s")
  note log = update_job_status_log [OF u]
  from assms u have s': "s' = s1 \<or> (\<exists>m. s' = record_event recording t r m s1)"
    by (cases o1) (auto simp: commit_job_def)
  from s' show "job_writes s' = job_writes s @ [job]"
    by (auto simp: job_writes_append [OF log])
  from s' show "created_attempts s' = created_attempts s"
    by (auto simp: created_attempts_append [OF log])
  assume P: "P (EJobStatus job)" "\<And>t r m. P (EEvent t r m)"
  have "adds P s s1" using log P(1) by (rule adds_one)
  with s' show "adds P s s'" by (auto intro: adds_trans adds_record_event P(2))
qed

lemma createAttempt_result:
  assumes "createAttempt k job s = (r, s')"
  shows "job_writes s' = job_writes s"
    and "created_attempts s' = created_attempts s \<or>
      (\<exists>a. k_own_attempt k job (new_attempt job) = Inr a \<and>
           created_attempts s' = created_attempts s @ [a])"
    and "(\<And>a. k_own_attempt k job (new_attempt job) = Inr a \<Longrightarrow> P (ECreateAttempt a)) \<Longrightarrow> adds P s s'"
proof -
  let ?get = "k_get_attempt k (om_namespace (j_meta job)) (next_attempt_name job)"
  obtain g s1 where g: "read_world ?get s = (g, s1)" by (cases "read_world ?get s")
  have "snd s' = snd s \<or>
    (\<exists>a. k_own_attempt k job (new_attempt job) = Inr a \<and> snd s' = snd s @ [ECreateAttempt a])"
  proof (cases g)
    case (Inr e)
    with assms g show ?thesis by (simp add: createAttempt_def)
  next
    case (Inl e)
    show ?thesis
    proof (cases "k_own_attempt k job (new_attempt job)")
      case (Inl e')
      with \<open>g = Inl e\<close> assms g show ?thesis by (simp add: createAttempt_def)
    next
      case (Inr a)
      obtain c s2 where c: "create_attempt k a s1 = (c, s2)" by (cases "create_attempt k a s1")
      obtain h s3 where h: "read_world ?get s2 = (h, s3)" by (cases "read_world ?get s2")
      from \<open>g = Inl e\<close> Inr assms g c h have "s' = s2 \<or> s' = s3"
        by (auto simp: createAttempt_def split: sum.splits api_error.splits)
      with Inr show ?thesis
        using create_attempt_log [OF c] read_world_log [OF g] read_world_log [OF h] by auto
    qed
  qed
  then consider "snd s' = snd s"
    | a where "k_own_attempt k job (new_attempt job) = Inr a" "snd s' = snd s @ [ECreateAttempt a]"
    by blast
  note c = this
  from c show "job_writes s' = job_writes s"
    by cases (auto dest: job_writes_same job_writes_append)
  from c show "created_attempts s' = created_attempts s \<or>
      (\<exists>a. k_own_attempt k job (new_attempt job) = Inr a \<and>
           created_attempts s' = created_attempts s @ [a])"
    by cases (auto dest: created_attempts_same created_attempts_append)
  assume P: "\<And>a. k_own_attempt k job (new_attempt job) = Inr a \<Longrightarrow> P (ECreateAttempt a)"
  from c show "adds P s s'"
  proof cases
    case 1
    then show ?thesis by (rule adds_same)
  next
    case (2 a)
    from 2(2) P [OF 2(1)] show ?thesis by (rule adds_one)
  qed
qed

subsection \<open>The abstract life of a job\<close>

text \<open>
  What a pass may do to a job, without conditions, clocks or API calls: an open job counts
  failures and successes until it ends, once.
\<close>

datatype job_life = JOpen int int | JSucceeded int int | JFailed int int

definition job_life_of :: "AgentJob \<Rightarrow> job_life" where
  "job_life_of j =
     (let f = st_failed (j_status j); c = st_completed (j_status j)
      in if holds JobConditionComplete (job_conditions j) then JSucceeded f c
         else if holds JobConditionFailed (job_conditions j) then JFailed f c
         else JOpen f c)"

inductive life_step :: "int \<Rightarrow> job_life \<Rightarrow> job_life \<Rightarrow> bool" for m :: int where
  progress: "life_step m (JOpen f c) (JOpen f c)"
| succeed: "life_step m (JOpen f c) (JSucceeded f (c + 1))"
| retry: "f + 1 < m \<Longrightarrow> life_step m (JOpen f c) (JOpen (f + 1) c)"
| exhaust: "m \<le> f + 1 \<Longrightarrow> life_step m (JOpen f c) (JFailed (f + 1) c)"
| fence: "life_step m (JOpen f c) (JFailed f c)"

inductive_cases life_step_open: "life_step m (JOpen f c) l"
inductive_simps life_step_succeeded [simp]: "life_step m (JSucceeded f c) l"
inductive_simps life_step_failed [simp]: "life_step m (JFailed f c) l"

text \<open>Counters a pass can increment without leaving \<open>int32\<close>.\<close>

definition counters_ok :: "AgentJob \<Rightarrow> bool" where
  "counters_ok j \<longleftrightarrow>
     0 \<le> st_failed (j_status j) \<and> st_failed (j_status j) < max_i32 \<and>
     0 \<le> st_completed (j_status j) \<and> st_completed (j_status j) < max_i32"

lemma counters_incr:
  assumes "counters_ok j"
  shows "i32 (st_failed (j_status j) + 1) = st_failed (j_status j) + 1"
    and "i32 (st_completed (j_status j) + 1) = st_completed (j_status j) + 1"
  using assms by (simp_all add: counters_ok_def in_i32_def)

lemma job_life_open:
  "\<not> IsJobTerminal (job_conditions j) \<Longrightarrow>
   job_life_of j = JOpen (st_failed (j_status j)) (st_completed (j_status j))"
  by (simp add: job_life_of_def IsJobTerminal_iff)

text \<open>A written job is a life step of the stored one, and it is the same job.\<close>

definition job_write_ok :: "AgentJob \<Rightarrow> AgentJob \<Rightarrow> bool" where
  "job_write_ok old new \<longleftrightarrow>
     j_meta new = j_meta old \<and> j_spec new = j_spec old \<and>
     at_most_one_terminal (job_conditions new) \<and>
     (counters_ok old \<longrightarrow> life_step (ex_max_attempts (job_exec old)) (job_life_of old) (job_life_of new))"

lemma holds_fail:
  assumes "condition_setter ssc" and "\<not> IsJobTerminal cs"
  shows "holds JobConditionFailed (fst (TrySetJobTerminal ssc now cs JobConditionFailed CTrue r m))"
    and "\<not> holds JobConditionComplete (fst (TrySetJobTerminal ssc now cs JobConditionFailed CTrue r m))"
  using assms by (simp_all add: TrySetJobTerminal_def holds_set IsJobTerminal_iff)

lemma holds_complete:
  assumes "condition_setter ssc" and "\<not> IsJobTerminal cs"
  shows "holds JobConditionComplete (fst (TrySetJobTerminal ssc now cs JobConditionComplete CTrue r m))"
    and "\<not> holds JobConditionFailed (fst (TrySetJobTerminal ssc now cs JobConditionComplete CTrue r m))"
  using assms by (simp_all add: TrySetJobTerminal_def holds_set IsJobTerminal_iff)

lemma store_spec_hash_sel [simp]:
  "j_meta (store_spec_hash k job) = j_meta job" "j_spec (store_spec_hash k job) = j_spec job"
  "job_conditions (store_spec_hash k job) = job_conditions job"
  "st_failed (j_status (store_spec_hash k job)) = st_failed (j_status job)"
  "st_completed (j_status (store_spec_hash k job)) = st_completed (j_status job)"
  "st_active (j_status (store_spec_hash k job)) = st_active (j_status job)"
  by (simp_all add: store_spec_hash_def Let_def)

lemma count_failure_sel [simp]:
  "j_meta (count_failure job) = j_meta job" "j_spec (count_failure job) = j_spec job"
  "job_conditions (count_failure job) = job_conditions job"
  "st_failed (j_status (count_failure job)) = i32 (st_failed (j_status job) + 1)"
  "st_completed (j_status (count_failure job)) = st_completed (j_status job)"
  by (simp_all add: count_failure_def)


subsection \<open>Each stage is a life step\<close>

text \<open>One pass from world \<open>s\<close>: at most one job write, and it is a life step of \<open>old\<close>.\<close>

definition one_job_write :: "AgentJob \<Rightarrow> 'w world \<Rightarrow> 'w world \<Rightarrow> bool" where
  "one_job_write old s s' \<longleftrightarrow>
     job_writes s' = job_writes s \<or> (\<exists>j. job_writes s' = job_writes s @ [j] \<and> job_write_ok old j)"

lemma one_job_write_same: "job_writes s' = job_writes s \<Longrightarrow> one_job_write old s s'"
  by (simp add: one_job_write_def)

lemma one_job_write_refl [simp]: "one_job_write old s s"
  by (simp add: one_job_write_def)

lemma one_job_write_commit:
  "commit_job k recording what t r msgf res job s = (q, s') \<Longrightarrow> job_write_ok old job \<Longrightarrow>
   one_job_write old s s'"
  using commit_job_result(1) [of k recording what t r msgf res job s q s']
  by (auto simp: one_job_write_def)

lemma one_job_write_after:
  "job_writes s1 = job_writes s \<Longrightarrow> one_job_write old s1 s' \<Longrightarrow> one_job_write old s s'"
  by (simp add: one_job_write_def)

lemma open_write_ok:
  assumes "condition_setter ssc" and "\<not> IsJobTerminal (job_conditions old)"
    and "j_meta new = j_meta old" and "j_spec new = j_spec old"
    and "holds JobConditionComplete (job_conditions new) = holds JobConditionComplete (job_conditions old)"
    and "holds JobConditionFailed (job_conditions new) = holds JobConditionFailed (job_conditions old)"
    and "st_completed (j_status new) = st_completed (j_status old)"
    and "st_failed (j_status new) = st_failed (j_status old) \<or>
         st_failed (j_status new) = i32 (st_failed (j_status old) + 1) \<and>
         i32 (st_failed (j_status old) + 1) < ex_max_attempts (job_exec old)"
  shows "job_write_ok old new"
proof -
  have open': "\<not> holds JobConditionComplete (job_conditions new)" "\<not> holds JobConditionFailed (job_conditions new)"
    using assms(2,5,6) by (simp_all add: IsJobTerminal_iff)
  have "life_step (ex_max_attempts (job_exec old)) (job_life_of old) (job_life_of new)"
    if c: "counters_ok old"
    unfolding job_life_open [OF assms(2)] using assms(7,8) counters_incr [OF c] open'
    by (auto simp: job_life_of_def Let_def intro: life_step.progress life_step.retry)
  with assms(3,4) open' show ?thesis by (simp add: job_write_ok_def at_most_one_terminal_def)
qed

lemma failed_write_ok:
  assumes "condition_setter ssc" and "\<not> IsJobTerminal (job_conditions old)"
    and "j_meta new = j_meta old" and "j_spec new = j_spec old"
    and "job_conditions new = fst (TrySetJobTerminal ssc now (job_conditions old) JobConditionFailed CTrue r m)"
    and "st_completed (j_status new) = st_completed (j_status old)"
    and "st_failed (j_status new) = st_failed (j_status old) \<or>
         st_failed (j_status new) = i32 (st_failed (j_status old) + 1) \<and>
         \<not> i32 (st_failed (j_status old) + 1) < ex_max_attempts (job_exec old)"
  shows "job_write_ok old new"
proof -
  note h = holds_fail [OF assms(1,2), where now = now and r = r and m = m, folded assms(5)]
  have "life_step (ex_max_attempts (job_exec old)) (job_life_of old) (job_life_of new)"
    if c: "counters_ok old"
    unfolding job_life_open [OF assms(2)] using assms(6,7) counters_incr [OF c] h
    by (auto simp: job_life_of_def Let_def not_less intro: life_step.exhaust life_step.fence)
  with assms(3,4) h show ?thesis by (simp add: job_write_ok_def at_most_one_terminal_def)
qed

lemma succeeded_write_ok:
  assumes "condition_setter ssc" and "\<not> IsJobTerminal (job_conditions old)"
    and "j_meta new = j_meta old" and "j_spec new = j_spec old"
    and "job_conditions new = fst (TrySetJobTerminal ssc now (job_conditions old) JobConditionComplete CTrue r m)"
    and "st_completed (j_status new) = i32 (st_completed (j_status old) + 1)"
    and "st_failed (j_status new) = st_failed (j_status old)"
  shows "job_write_ok old new"
proof -
  note h = holds_complete [OF assms(1,2), where now = now and r = r and m = m, folded assms(5)]
  have "life_step (ex_max_attempts (job_exec old)) (job_life_of old) (job_life_of new)"
    if c: "counters_ok old"
    unfolding job_life_open [OF assms(2)] using assms(6,7) counters_incr [OF c] h
    by (auto simp: job_life_of_def Let_def intro: life_step.succeed)
  with assms(3,4) h show ?thesis by (simp add: job_write_ok_def at_most_one_terminal_def)
qed

lemma fail_ownership_one:
  assumes "condition_setter (k_ssc k)" and "\<not> IsJobTerminal (job_conditions job)"
    and "fail_ownership k recording now job e s = (q, s')"
  shows "one_job_write job s s'" and "created_attempts s' = created_attempts s"
  using assms
  by (auto simp: fail_ownership_def TrySetJobTerminal_def dest: commit_job_result(2)
      intro!: one_job_write_commit failed_write_ok [OF assms(1,2)])

lemma start_attempt_one:
  assumes "condition_setter (k_ssc k)" and "\<not> IsJobTerminal (job_conditions job)"
    and "start_attempt k recording now job s = (q, s')"
  shows "one_job_write job s s'"
proof -
  obtain r s1 where c: "createAttempt k job s = (r, s1)" by (cases "createAttempt k job s")
  note w = createAttempt_result(1) [OF c]
  from assms c have "one_job_write job s1 s'"
    by (cases r) (auto simp: start_attempt_def holds_set IsJobTerminal_iff
        intro!: one_job_write_commit open_write_ok [OF assms(1,2)])
  with w show ?thesis by (rule one_job_write_after)
qed

lemma follow_attempt_one:
  assumes "condition_setter (k_ssc k)" and "\<not> IsJobTerminal (job_conditions job)"
    and "follow_attempt k recording now job a res s = (q, s')"
  shows "one_job_write job s s'"
  using assms
  by (auto simp: follow_attempt_def holds_set split: if_splits
      intro!: one_job_write_commit open_write_ok [OF assms(1,2)])

lemma retry_job_one:
  assumes "condition_setter (k_ssc k)" and "\<not> IsJobTerminal (job_conditions job)"
    and "i32 (st_failed (j_status job) + 1) < ex_max_attempts (job_exec job)"
    and "retry_job k recording now (count_failure job) a s = (q, s')"
  shows "one_job_write job s s'"
proof -
  obtain r s1 where c: "createAttempt k (count_failure job) s = (r, s1)"
    by (cases "createAttempt k (count_failure job) s")
  note w = createAttempt_result(1) [OF c]
  from assms c have "one_job_write job s1 s'"
    by (cases r) (auto simp: retry_job_def holds_set
        intro!: one_job_write_commit open_write_ok [OF assms(1,2)])
  with w show ?thesis by (rule one_job_write_after)
qed

lemma settle_job_one:
  assumes "condition_setter (k_ssc k)" and "\<not> IsJobTerminal (job_conditions job)"
    and "settle_job k recording now job a s = (q, s')"
  shows "one_job_write job s s'"
proof (cases "IsAttemptSucceeded (attempt_conditions a)")
  case True
  with assms(3) show ?thesis
    by (auto simp: settle_job_def succeed_job_def
        intro!: one_job_write_commit succeeded_write_ok [OF assms(1,2)])
next
  case False
  show ?thesis
  proof (cases "i32 (st_failed (j_status job) + 1) < ex_max_attempts (job_exec job)")
    case True
    with False assms(3) show ?thesis
      by (auto simp: settle_job_def Let_def intro: retry_job_one [OF assms(1,2)])
  next
    case ex: False
    with False assms(3) show ?thesis
      by (auto simp: settle_job_def exhaust_job_def Let_def
          intro!: one_job_write_commit failed_write_ok [OF assms(1,2)])
  qed
qed

lemma ReconcileAttempt_log:
  assumes "condition_setter (k_ssc k)" and "ReconcileAttempt k now snap a s = (r, s')"
  shows "job_writes s' = job_writes s" and "created_attempts s' = created_attempts s"
  using adds_no_job_writes [OF ReconcileAttempt_adds [OF assms]]
    adds_no_created_attempts [OF ReconcileAttempt_adds [OF assms]]
  by (simp_all add: attempt_effect_ok_def)

lemma advance_attempt_one:
  assumes "condition_setter (k_ssc k)" and "\<not> IsJobTerminal (job_conditions (js_job snap))"
    and "advance_attempt k recording now snap a s = (q, s')"
  shows "one_job_write (js_job snap) s s'"
proof -
  obtain r s1 where c: "ReconcileAttempt k now snap a s = (r, s1)"
    by (cases "ReconcileAttempt k now snap a s")
  note w = ReconcileAttempt_log(1) [OF assms(1) c]
  from assms(3) c have "one_job_write (js_job snap) s1 s'"
    by (auto simp: advance_attempt_def split: if_splits
        intro: one_job_write_same follow_attempt_one [OF assms(1,2)] settle_job_one [OF assms(1,2)])
  with w show ?thesis by (rule one_job_write_after)
qed

lemma store_spec_hash_life [simp]:
  "job_life_of (store_spec_hash k job) = job_life_of job"
  "counters_ok (store_spec_hash k job) = counters_ok job"
  unfolding job_life_of_def counters_ok_def Let_def by simp_all

lemma job_write_ok_spec_hash: "job_write_ok (store_spec_hash k job) j \<Longrightarrow> job_write_ok job j"
  by (simp add: job_write_ok_def)

lemma reconcile_snapshot_one:
  assumes "condition_setter (k_ssc k)"
    and "reconcile_snapshot k recording now snap s = (q, s')"
  shows "one_job_write (js_job snap) s s'"
proof (cases "IsJobTerminal (job_conditions (js_job snap))")
  case True
  with assms(2) show ?thesis by (auto simp: reconcile_snapshot_def intro: one_job_write_same)
next
  case False
  let ?job = "store_spec_hash k (js_job snap)"
  from False have nt: "\<not> IsJobTerminal (job_conditions ?job)" by simp
  from assms(2) False have "one_job_write ?job s s'"
    using advance_attempt_one [OF assms(1), of "snap\<lparr>js_job := ?job\<rparr>"] nt
    by (auto simp: reconcile_snapshot_def Let_def split: option.splits
        intro: fail_ownership_one(1) [OF assms(1) nt] start_attempt_one [OF assms(1) nt])
  then show ?thesis by (auto simp: one_job_write_def dest: job_write_ok_spec_hash)
qed

lemma reconcile_snapshot_terminal:
  "IsJobTerminal (job_conditions (js_job snap)) \<Longrightarrow>
   reconcile_snapshot k recording now snap s = ((Finished, None), s)"
  by (simp add: reconcile_snapshot_def)

subsection \<open>Which attempts are created\<close>

text \<open>
  The attempt a pass creates is built from the stored job, or from the stored job with one
  more failure when that leaves the job within its budget.
\<close>

definition launch_ok :: "'w kube \<Rightarrow> AgentJob \<Rightarrow> AgentAttempt \<Rightarrow> bool" where
  "launch_ok k job a \<longleftrightarrow>
     \<not> IsJobTerminal (job_conditions job) \<and>
     (\<exists>job'. k_own_attempt k job' (new_attempt job') = Inr a \<and> j_meta job' = j_meta job \<and>
        st_completed (j_status job') = st_completed (j_status job) \<and>
        (st_failed (j_status job') = st_failed (j_status job) \<or>
         st_failed (j_status job') = i32 (st_failed (j_status job) + 1) \<and>
         i32 (st_failed (j_status job) + 1) < ex_max_attempts (job_exec job)))"

definition one_launch :: "'w kube \<Rightarrow> AgentJob \<Rightarrow> 'w world \<Rightarrow> 'w world \<Rightarrow> bool" where
  "one_launch k job s s' \<longleftrightarrow>
     created_attempts s' = created_attempts s \<or>
     (\<exists>a. created_attempts s' = created_attempts s @ [a] \<and> launch_ok k job a)"

lemma one_launch_refl [simp]: "one_launch k job s s"
  by (simp add: one_launch_def)

lemma one_launch_same: "created_attempts s' = created_attempts s \<Longrightarrow> one_launch k job s s'"
  by (simp add: one_launch_def)

lemma one_launch_before:
  "one_launch k job s s1 \<Longrightarrow> created_attempts s' = created_attempts s1 \<Longrightarrow> one_launch k job s s'"
  by (simp add: one_launch_def)

lemma one_launch_after:
  "created_attempts s1 = created_attempts s \<Longrightarrow> one_launch k job s1 s' \<Longrightarrow> one_launch k job s s'"
  by (simp add: one_launch_def)

lemma commit_job_created:
  "commit_job k recording what t r msgf res job s = (q, s') \<Longrightarrow> created_attempts s' = created_attempts s"
  by (rule commit_job_result(2))

lemma createAttempt_launch:
  assumes "createAttempt k job' s = (r, s')" and "\<not> IsJobTerminal (job_conditions job)"
    and "j_meta job' = j_meta job" and "st_completed (j_status job') = st_completed (j_status job)"
    and "st_failed (j_status job') = st_failed (j_status job) \<or>
         st_failed (j_status job') = i32 (st_failed (j_status job) + 1) \<and>
         i32 (st_failed (j_status job) + 1) < ex_max_attempts (job_exec job)"
  shows "one_launch k job s s'"
  using createAttempt_result(2) [OF assms(1)] assms(2-5) unfolding one_launch_def launch_ok_def by blast

lemma start_attempt_launch:
  assumes "\<not> IsJobTerminal (job_conditions job)" and "start_attempt k recording now job s = (q, s')"
  shows "one_launch k job s s'"
proof -
  obtain r s1 where c: "createAttempt k job s = (r, s1)" by (cases "createAttempt k job s")
  have "one_launch k job s s1" using c assms(1) by (rule createAttempt_launch) simp_all
  moreover from assms(2) c have "created_attempts s' = created_attempts s1"
    by (cases r) (auto simp: start_attempt_def dest: commit_job_created)
  ultimately show ?thesis by (rule one_launch_before)
qed

lemma settle_job_launch:
  assumes "\<not> IsJobTerminal (job_conditions job)" and "settle_job k recording now job a s = (q, s')"
  shows "one_launch k job s s'"
proof (cases "\<not> IsAttemptSucceeded (attempt_conditions a) \<and>
    i32 (st_failed (j_status job) + 1) < ex_max_attempts (job_exec job)")
  case True
  obtain r s1 where c: "createAttempt k (count_failure job) s = (r, s1)"
    by (cases "createAttempt k (count_failure job) s")
  have "one_launch k job s s1"
    using c assms(1) by (rule createAttempt_launch) (use True in simp_all)
  moreover from assms(2) True c have "created_attempts s' = created_attempts s1"
    by (cases r) (auto simp: settle_job_def retry_job_def Let_def dest: commit_job_created)
  ultimately show ?thesis by (rule one_launch_before)
next
  case False
  with assms(2) have "created_attempts s' = created_attempts s"
    by (auto simp: settle_job_def succeed_job_def exhaust_job_def Let_def
        dest: commit_job_created split: if_splits)
  then show ?thesis by (rule one_launch_same)
qed

lemma advance_attempt_launch:
  assumes "condition_setter (k_ssc k)" and "\<not> IsJobTerminal (job_conditions (js_job snap))"
    and "advance_attempt k recording now snap a s = (q, s')"
  shows "one_launch k (js_job snap) s s'"
proof -
  obtain r s1 where c: "ReconcileAttempt k now snap a s = (r, s1)"
    by (cases "ReconcileAttempt k now snap a s")
  note w = ReconcileAttempt_log(2) [OF assms(1) c]
  from assms(3) c have "one_launch k (js_job snap) s1 s'"
    by (auto simp: advance_attempt_def follow_attempt_def split: if_splits
        intro: one_launch_same settle_job_launch [OF assms(2)] dest: commit_job_created)
  with w show ?thesis by (rule one_launch_after)
qed

lemma launch_ok_spec_hash: "launch_ok k (store_spec_hash k' job) a \<Longrightarrow> launch_ok k job a"
  by (simp add: launch_ok_def)

lemma reconcile_snapshot_launch:
  assumes "condition_setter (k_ssc k)"
    and "reconcile_snapshot k recording now snap s = (q, s')"
  shows "one_launch k (js_job snap) s s'"
proof (cases "IsJobTerminal (job_conditions (js_job snap))")
  case True
  with assms(2) show ?thesis by (simp add: reconcile_snapshot_def)
next
  case False
  let ?job = "store_spec_hash k (js_job snap)"
  from False have nt: "\<not> IsJobTerminal (job_conditions ?job)" by simp
  from assms(2) False have "one_launch k ?job s s'"
    using advance_attempt_launch [OF assms(1), of "snap\<lparr>js_job := ?job\<rparr>"] nt
    by (auto simp: reconcile_snapshot_def Let_def split: option.splits
        intro: one_launch_same start_attempt_launch [OF nt] fail_ownership_one(2) [OF assms(1) nt])
  then show ?thesis by (auto simp: one_launch_def dest: launch_ok_spec_hash)
qed

subsection \<open>A job over many passes\<close>

text \<open>
  One pass as the stored job sees it: the controller reads the stored job and some attempts
  and Pods, and its job write is accepted or not (the API server refuses a write whose base
  was changed meanwhile).
\<close>

record 'w job_event =
  je_now :: instant
  je_recording :: bool
  je_attempts :: "AgentAttempt list"
  je_pods :: "pod list"
  je_world :: 'w
  je_accepted :: bool

definition event_snapshot :: "AgentJob \<Rightarrow> 'w job_event \<Rightarrow> JobSnapshot" where
  "event_snapshot job ev = \<lparr>js_job = job, js_attempts = je_attempts ev, js_pods = je_pods ev\<rparr>"

definition pass_world :: "'w kube \<Rightarrow> AgentJob \<Rightarrow> 'w job_event \<Rightarrow> 'w world" where
  "pass_world k job ev =
     snd (reconcile_snapshot k (je_recording ev) (je_now ev) (event_snapshot job ev) (je_world ev, []))"

definition job_step :: "'w kube \<Rightarrow> AgentJob \<Rightarrow> 'w job_event \<Rightarrow> AgentJob" where
  "job_step k job ev =
     (case job_writes (pass_world k job ev) of
        [] \<Rightarrow> job
      | j # _ \<Rightarrow> if je_accepted ev then j else job)"

fun life_inv :: "int \<Rightarrow> job_life \<Rightarrow> bool" where
  "life_inv m (JOpen f c) \<longleftrightarrow> 0 \<le> f \<and> (f = 0 \<or> f < m) \<and> c = 0"
| "life_inv m (JSucceeded f c) \<longleftrightarrow> 0 \<le> f \<and> (f = 0 \<or> f < m) \<and> c = 1"
| "life_inv m (JFailed f c) \<longleftrightarrow> 0 \<le> f \<and> (f \<le> 1 \<or> f \<le> m) \<and> c = 0"

lemma life_step_inv: "life_step m l l' \<Longrightarrow> life_inv m l \<Longrightarrow> life_inv m l'"
  by (induction rule: life_step.induct) auto

definition job_inv :: "int \<Rightarrow> AgentJob \<Rightarrow> bool" where
  "job_inv m j \<longleftrightarrow>
     ex_max_attempts (job_exec j) = m \<and> in_i32 m \<and>
     at_most_one_terminal (job_conditions j) \<and> life_inv m (job_life_of j)"

lemma job_inv_counters:
  "job_inv m j \<Longrightarrow> \<not> IsJobTerminal (job_conditions j) \<Longrightarrow> counters_ok j"
  by (auto simp: job_inv_def job_life_open counters_ok_def in_i32_def)

lemma job_step_cases:
  assumes "condition_setter (k_ssc k)"
  shows "job_step k job ev = job \<or>
    (\<not> IsJobTerminal (job_conditions job) \<and> job_write_ok job (job_step k job ev))"
proof -
  let ?p = "reconcile_snapshot k (je_recording ev) (je_now ev) (event_snapshot job ev) (je_world ev, [])"
  have p: "?p = (fst ?p, pass_world k job ev)" by (simp add: pass_world_def)
  have "one_job_write job (je_world ev, []) (pass_world k job ev)"
    using reconcile_snapshot_one [OF assms p] by (simp add: event_snapshot_def)
  moreover have "pass_world k job ev = (je_world ev, [])" if "IsJobTerminal (job_conditions job)"
    using that by (simp add: pass_world_def event_snapshot_def reconcile_snapshot_terminal)
  ultimately show ?thesis
    by (cases "IsJobTerminal (job_conditions job)")
      (auto simp: one_job_write_def job_step_def)
qed

lemma job_step_inv:
  assumes "condition_setter (k_ssc k)" and "job_inv m job"
  shows "job_inv m (job_step k job ev)"
  using job_step_cases [OF assms(1), of job ev]
proof (elim disjE conjE)
  assume "job_step k job ev = job"
  with assms(2) show ?thesis by simp
next
  assume nt: "\<not> IsJobTerminal (job_conditions job)" and w: "job_write_ok job (job_step k job ev)"
  from w job_inv_counters [OF assms(2) nt] assms(2) show ?thesis
    by (auto simp: job_write_ok_def job_inv_def dest: life_step_inv)
qed

interpretation job_machine: invariant_machine "job_step k"
    "\<lambda>j. condition_setter (k_ssc k) \<longrightarrow> job_inv m j" for k m
  by unfold_locales (simp add: job_step_inv)

lemma job_step_terminal: "IsJobTerminal (job_conditions job) \<Longrightarrow> job_step k job ev = job"
  by (simp add: job_step_def pass_world_def event_snapshot_def reconcile_snapshot_terminal)

interpretation job_pass_latch: latch_machine "job_step k"
    "\<lambda>j. IsJobTerminal (job_conditions j)" "\<lambda>j. j" for k
  by unfold_locales (simp_all add: job_step_terminal)

lemma job_inv_result:
  assumes "job_inv m j"
  shows "0 \<le> st_failed (j_status j) \<and> st_failed (j_status j) \<le> max 1 m"
    and "st_completed (j_status j) = (if holds JobConditionComplete (job_conditions j) then 1 else 0)"
    and "at_most_one_terminal (job_conditions j)"
  using assms by (auto simp: job_inv_def job_life_of_def Let_def split: if_splits)

end
