(* ===== verification/MemKube.thy ===== *)
theory MemKube
  imports KubeClient
begin

text \<open>
  A concrete API server held in memory: lists of objects, optimistic creation, server
  assigned UIDs. It is one instance of the client parameter, on which theorems with
  hypotheses about the server are evaluated.
\<close>

record mem =
  m_jobs :: "AgentJob list"
  m_attempts :: "AgentAttempt list"
  m_pods :: "pod list"
  m_pools :: "SandboxPool list"

definition has_key :: "string \<Rightarrow> string \<Rightarrow> object_meta \<Rightarrow> bool" where
  "has_key ns name m \<longleftrightarrow> om_namespace m = ns \<and> om_name m = name"

definition same_key :: "object_meta \<Rightarrow> object_meta \<Rightarrow> bool" where
  "same_key m m' \<longleftrightarrow> has_key (om_namespace m) (om_name m) m'"

definition lookup_object :: "('a \<Rightarrow> bool) \<Rightarrow> 'a list \<Rightarrow> 'w \<Rightarrow> (api_error + 'a) \<times> 'w" where
  "lookup_object P xs w = (case find P xs of None \<Rightarrow> (Inl NotFound, w) | Some x \<Rightarrow> (Inr x, w))"

definition selected :: "string \<Rightarrow> (string \<times> string) list \<Rightarrow> object_meta \<Rightarrow> bool" where
  "selected ns sel m \<longleftrightarrow> om_namespace m = ns \<and> list_all (\<lambda>(l, v). om_labels m l = Some v) sel"

definition stamp :: "object_meta \<Rightarrow> object_meta" where
  "stamp m = m\<lparr>om_uid := ''uid-'' @ om_name m\<rparr>"

definition mem_kube :: "mem kube" where
  "mem_kube =
     \<lparr>k_get_job = (\<lambda>ns n w. lookup_object (\<lambda>j. has_key ns n (j_meta j)) (m_jobs w) w),
      k_get_attempt = (\<lambda>ns n w. lookup_object (\<lambda>a. has_key ns n (a_meta a)) (m_attempts w) w),
      k_get_pod = (\<lambda>ns n w. lookup_object (\<lambda>p. has_key ns n (p_meta p)) (m_pods w) w),
      k_list_attempts = (\<lambda>ns sel w. (Inr (filter (\<lambda>a. selected ns sel (a_meta a)) (m_attempts w)), w)),
      k_list_pods = (\<lambda>ns sel w. (Inr (filter (\<lambda>p. selected ns sel (p_meta p)) (m_pods w)), w)),
      k_create_attempt = (\<lambda>a w.
        if list_ex (\<lambda>b. same_key (a_meta a) (a_meta b)) (m_attempts w) then (Inl AlreadyExists, w)
        else let b = a\<lparr>a_meta := stamp (a_meta a)\<rparr> in (Inr b, w\<lparr>m_attempts := m_attempts w @ [b]\<rparr>)),
      k_create_pod = (\<lambda>p w.
        if list_ex (\<lambda>q. same_key (p_meta p) (p_meta q)) (m_pods w) then (Inl AlreadyExists, w)
        else let q = p\<lparr>p_meta := stamp (p_meta p)\<rparr> in (Inr q, w\<lparr>m_pods := m_pods w @ [q]\<rparr>)),
      k_delete_attempt = (\<lambda>a w.
        (None, w\<lparr>m_attempts := filter (\<lambda>b. \<not> same_key (a_meta a) (a_meta b)) (m_attempts w)\<rparr>)),
      k_delete_pod = (\<lambda>p w.
        (None, w\<lparr>m_pods := filter (\<lambda>q. \<not> same_key (p_meta p) (p_meta q)) (m_pods w)\<rparr>)),
      k_update_job_status = (\<lambda>j w.
        (Inr j, w\<lparr>m_jobs := map (\<lambda>i. if same_key (j_meta j) (j_meta i) then j else i) (m_jobs w)\<rparr>)),
      k_update_attempt_status = (\<lambda>a w.
        (Inr a, w\<lparr>m_attempts := map (\<lambda>b. if same_key (a_meta a) (a_meta b) then a else b) (m_attempts w)\<rparr>)),
      k_own_attempt = (\<lambda>j a. Inr (a\<lparr>a_meta := (a_meta a)
        \<lparr>om_owners := [\<lparr>ow_name = job_name j, ow_uid = job_uid j\<rparr>]\<rparr>\<rparr>)),
      k_own_pod = (\<lambda>a p. Inr (p\<lparr>p_meta := (p_meta p)
        \<lparr>om_owners := [\<lparr>ow_name = attempt_name a, ow_uid = attempt_uid a\<rparr>]\<rparr>\<rparr>)),
      k_get_pool = (\<lambda>ns n w. lookup_object (\<lambda>p. has_key ns n (l_meta p)) (m_pools w) w),
      k_update_pool_status = (\<lambda>p w.
        (Inr p, w\<lparr>m_pools := map (\<lambda>q. if same_key (l_meta p) (l_meta q) then p else q) (m_pools w)\<rparr>)),
      k_own_pool_pod = (\<lambda>l p. Inr (p\<lparr>p_meta := (p_meta p)
        \<lparr>om_owners := [\<lparr>ow_name = om_name (l_meta l), ow_uid = om_uid (l_meta l)\<rparr>]\<rparr>\<rparr>)),
      k_patch_pod = (\<lambda>b p w.
        (Inr p, w\<lparr>m_pods := map (\<lambda>q. if same_key (p_meta p) (p_meta q) then p else q) (m_pods w)\<rparr>)),
      k_ssc = set_condition,
      k_marshal = (\<lambda>_. Some ''spec''),
      k_sha256hex = (\<lambda>x. x)\<rparr>"

definition demo_job :: "int \<Rightarrow> AgentJob" where
  "demo_job m =
     \<lparr>j_meta = \<lparr>om_name = ''job'', om_generate_name = [], om_namespace = ''ns'', om_uid = ''u1'', om_labels = Map.empty,
        om_annotations = Map.empty, om_owners = [], om_finalizers = [], om_deletion = None\<rparr>,
      j_spec = \<lparr>js_runtime = \<lparr>rt_image = ''img'', rt_command = [''agent''], rt_args = [], rt_env = [],
          rt_resources = \<lparr>rr_requests = Map.empty, rr_limits = Map.empty\<rparr>\<rparr>,
        js_execution = \<lparr>ex_timeout = None, ex_max_attempts = m, ex_backoff_limit = None,
          ex_active_deadline = None, ex_ttl = None\<rparr>,
        js_checkpoint = \<lparr>cp_enabled = False, cp_interval = 0, cp_storage = []\<rparr>\<rparr>,
      j_status = \<lparr>st_conditions = [], st_active = None, st_completed = 0, st_failed = 0,
        st_start = None, st_completion = None, st_spec_hash = []\<rparr>\<rparr>"

definition demo_attempt :: "string \<Rightarrow> condition list \<Rightarrow> AgentAttempt" where
  "demo_attempt podName cs =
     \<lparr>a_meta = \<lparr>om_name = ''job-1'', om_generate_name = [], om_namespace = ''ns'', om_uid = ''ua'',
        om_labels = [''durarun.io/job'' \<mapsto> ''job''], om_annotations = Map.empty,
        om_owners = [\<lparr>ow_name = ''job'', ow_uid = ''u1''\<rparr>], om_finalizers = [], om_deletion = None\<rparr>,
      a_spec = \<lparr>as_job_ref = \<lparr>or_name = ''job'', or_namespace = ''ns'', or_uid = ''u1''\<rparr>,
        as_ordinal = 1, as_deadline = None\<rparr>,
      a_status = \<lparr>at_conditions = cs, at_pod_name = podName, at_pod_uid = [], at_start = None,
        at_completion = None, at_exit_code = None, at_signal = None, at_error_category = [],
        at_artifact_ref = None\<rparr>\<rparr>"

definition demo_pod :: "pod_phase \<Rightarrow> pod" where
  "demo_pod ph =
     \<lparr>p_meta = \<lparr>om_name = ''job-1'', om_generate_name = [], om_namespace = ''ns'', om_uid = ''up'',
        om_labels = [''durarun.io/job'' \<mapsto> ''job'', ''durarun.io/attempt'' \<mapsto> ''job-1''],
        om_annotations = Map.empty, om_owners = [], om_finalizers = [], om_deletion = None\<rparr>,
      p_spec = \<lparr>sp_restart_never = True, sp_init = [], sp_containers = [], sp_volumes = [],
        sp_security = None, sp_automount_token = None, sp_runtime_class = None\<rparr>,
      p_status = \<lparr>pst_phase = ph, pst_reason = [], pst_conditions = [], pst_containers = []\<rparr>\<rparr>"

lemma mem_kube_sel [simp]:
  "k_get_job mem_kube = (\<lambda>ns n w. lookup_object (\<lambda>j. has_key ns n (j_meta j)) (m_jobs w) w)"
  "k_get_attempt mem_kube = (\<lambda>ns n w. lookup_object (\<lambda>a. has_key ns n (a_meta a)) (m_attempts w) w)"
  "k_get_pod mem_kube = (\<lambda>ns n w. lookup_object (\<lambda>p. has_key ns n (p_meta p)) (m_pods w) w)"
  "k_list_attempts mem_kube = (\<lambda>ns sel w. (Inr (filter (\<lambda>a. selected ns sel (a_meta a)) (m_attempts w)), w))"
  "k_list_pods mem_kube = (\<lambda>ns sel w. (Inr (filter (\<lambda>p. selected ns sel (p_meta p)) (m_pods w)), w))"
  "k_create_attempt mem_kube = (\<lambda>a w.
        if list_ex (\<lambda>b. same_key (a_meta a) (a_meta b)) (m_attempts w) then (Inl AlreadyExists, w)
        else let b = a\<lparr>a_meta := stamp (a_meta a)\<rparr> in (Inr b, w\<lparr>m_attempts := m_attempts w @ [b]\<rparr>))"
  "k_create_pod mem_kube = (\<lambda>p w.
        if list_ex (\<lambda>q. same_key (p_meta p) (p_meta q)) (m_pods w) then (Inl AlreadyExists, w)
        else let q = p\<lparr>p_meta := stamp (p_meta p)\<rparr> in (Inr q, w\<lparr>m_pods := m_pods w @ [q]\<rparr>))"
  "k_delete_attempt mem_kube = (\<lambda>a w.
        (None, w\<lparr>m_attempts := filter (\<lambda>b. \<not> same_key (a_meta a) (a_meta b)) (m_attempts w)\<rparr>))"
  "k_delete_pod mem_kube = (\<lambda>p w.
        (None, w\<lparr>m_pods := filter (\<lambda>q. \<not> same_key (p_meta p) (p_meta q)) (m_pods w)\<rparr>))"
  "k_update_job_status mem_kube = (\<lambda>j w.
        (Inr j, w\<lparr>m_jobs := map (\<lambda>i. if same_key (j_meta j) (j_meta i) then j else i) (m_jobs w)\<rparr>))"
  "k_update_attempt_status mem_kube = (\<lambda>a w.
        (Inr a, w\<lparr>m_attempts := map (\<lambda>b. if same_key (a_meta a) (a_meta b) then a else b) (m_attempts w)\<rparr>))"
  "k_own_attempt mem_kube = (\<lambda>j a. Inr (a\<lparr>a_meta := (a_meta a)
        \<lparr>om_owners := [\<lparr>ow_name = job_name j, ow_uid = job_uid j\<rparr>]\<rparr>\<rparr>))"
  "k_own_pod mem_kube = (\<lambda>a p. Inr (p\<lparr>p_meta := (p_meta p)
        \<lparr>om_owners := [\<lparr>ow_name = attempt_name a, ow_uid = attempt_uid a\<rparr>]\<rparr>\<rparr>))"
  "k_get_pool mem_kube = (\<lambda>ns n w. lookup_object (\<lambda>p. has_key ns n (l_meta p)) (m_pools w) w)"
  "k_update_pool_status mem_kube = (\<lambda>p w.
        (Inr p, w\<lparr>m_pools := map (\<lambda>q. if same_key (l_meta p) (l_meta q) then p else q) (m_pools w)\<rparr>))"
  "k_own_pool_pod mem_kube = (\<lambda>l p. Inr (p\<lparr>p_meta := (p_meta p)
        \<lparr>om_owners := [\<lparr>ow_name = om_name (l_meta l), ow_uid = om_uid (l_meta l)\<rparr>]\<rparr>\<rparr>))"
  "k_patch_pod mem_kube = (\<lambda>b p w.
        (Inr p, w\<lparr>m_pods := map (\<lambda>q. if same_key (p_meta p) (p_meta q) then p else q) (m_pods w)\<rparr>))"
  "k_ssc mem_kube = set_condition"
  "k_marshal mem_kube = (\<lambda>_. Some ''spec'')"
  "k_sha256hex mem_kube = (\<lambda>x. x)"
  by (simp_all add: mem_kube_def)

lemma mem_kube_setter [simp]: "condition_setter (k_ssc mem_kube)"
  by (simp add: condition_setter_set_condition)

lemmas demo_defs = demo_job_def demo_attempt_def demo_pod_def
lemmas mem_defs = lookup_object_def has_key_def same_key_def selected_def stamp_def

end
