(* ===== verification/JobProperties.thy ===== *)
theory JobProperties
  imports JobController MemKube
begin

text \<open>
  What the job controller guarantees: its writes follow the abstract life of a job, a
  terminal job is left alone, the retry budget bounds what it launches, a job is completed
  by a succeeded Pod and only by one, and creating an attempt is idempotent.
\<close>

subsection \<open>Laws of the API server\<close>

text \<open>
  \<open>SetControllerReference\<close> adds an owner reference and leaves name, namespace and spec
  alone; reads do not change the world; an object that was created is found afterwards
  under its name.
\<close>

definition owns_by_metadata :: "'w kube \<Rightarrow> bool" where
  "owns_by_metadata k \<longleftrightarrow>
     (\<forall>job a b. k_own_attempt k job a = Inr b \<longrightarrow>
        attempt_name b = attempt_name a \<and> om_namespace (a_meta b) = om_namespace (a_meta a) \<and>
        a_spec b = a_spec a)"

definition reads_attempts_purely :: "'w kube \<Rightarrow> bool" where
  "reads_attempts_purely k \<longleftrightarrow> (\<forall>ns n w. snd (k_get_attempt k ns n w) = w)"

definition finds_created_attempts :: "'w kube \<Rightarrow> bool" where
  "finds_created_attempts k \<longleftrightarrow>
     (\<forall>a w b w'. k_create_attempt k a w = (Inr b, w') \<longrightarrow>
        fst (k_get_attempt k (om_namespace (a_meta a)) (attempt_name a) w') = Inr b)"

lemma owns_by_metadataD:
  "owns_by_metadata k \<Longrightarrow> k_own_attempt k job a = Inr b \<Longrightarrow>
   attempt_name b = attempt_name a \<and> om_namespace (a_meta b) = om_namespace (a_meta a) \<and>
   a_spec b = a_spec a"
  unfolding owns_by_metadata_def by blast

lemma mem_kube_laws:
  "owns_by_metadata mem_kube" "reads_attempts_purely mem_kube" "finds_created_attempts mem_kube"
  "echoes_attempt_status mem_kube"
proof -
  show "owns_by_metadata mem_kube" by (auto simp: owns_by_metadata_def)
  show "reads_attempts_purely mem_kube"
    by (auto simp: reads_attempts_purely_def lookup_object_def split: option.splits)
  show "echoes_attempt_status mem_kube"
    by (auto simp: echoes_attempt_status_def)
  have find_append: "\<not> list_ex P xs \<Longrightarrow> find P (xs @ [x]) = (if P x then Some x else None)"
    for P and xs :: "AgentAttempt list" and x by (induction xs) auto
  show "finds_created_attempts mem_kube"
    by (auto simp: finds_created_attempts_def mem_defs Let_def find_append split: if_splits)
qed

subsection \<open>Success\<close>

lemma settle_attempt_success:
  assumes "condition_setter (k_ssc k)" and "echoes_attempt_status k"
    and "\<not> IsAttemptTerminal (attempt_conditions a)"
    and "settle_attempt k now a p s = (r, s')" and "ar_terminal r"
    and "IsAttemptSucceeded (attempt_conditions (ar_attempt r))"
  shows "pst_phase (p_status p) = PodSucceeded"
  using assms
  by (auto simp: settle_attempt_def observe_pod_def IsAttemptTerminal_iff IsAttemptSucceeded_iff
      markAttemptFailed_conditions started_def
      dest!: commit_attempt_terminal [OF assms(2)] split: if_splits pod_phase.splits)

lemma ReconcileAttempt_success:
  assumes "condition_setter (k_ssc k)" and "echoes_attempt_status k"
    and "ReconcileAttempt k now snap a s = (r, s')" and "ar_terminal r"
    and "IsAttemptSucceeded (attempt_conditions (ar_attempt r))"
  shows "holds AttemptConditionComplete (attempt_conditions a) \<or>
    (\<exists>p. fst (lookup_pod k snap a s) = PodFound p \<and> pst_phase (p_status p) = PodSucceeded)"
proof (cases "IsAttemptTerminal (attempt_conditions a)")
  case True
  with assms show ?thesis by (auto simp: ReconcileAttempt_def IsAttemptSucceeded_iff)
next
  case False
  obtain l s1 where l: "lookup_pod k snap a s = (l, s1)" by (cases "lookup_pod k snap a s")
  show ?thesis
  proof (cases l)
    case (PodFound p)
    with False l assms(3) have "settle_attempt k now a p s1 = (r, s')"
      by (simp add: ReconcileAttempt_def)
    from settle_attempt_success [OF assms(1,2) False this assms(4,5)] PodFound l show ?thesis by simp
  next
    case PodGone
    with False l assms show ?thesis
      by (auto simp: ReconcileAttempt_def IsAttemptSucceeded_iff IsAttemptTerminal_iff
          markAttemptFailed_conditions dest!: commit_attempt_terminal [OF assms(2)])
  next
    case (PodError e)
    with False l assms show ?thesis by (auto simp: ReconcileAttempt_def attempt_failure_def)
  qed
qed

lemma settle_job_complete:
  assumes "condition_setter (k_ssc k)" and "settle_job k recording now job a s = (q, s')"
    and "job_writes s = []" and "j \<in> set (job_writes s')" and "holds JobConditionComplete (job_conditions j)"
    and "\<not> IsJobTerminal (job_conditions job)"
  shows "IsAttemptSucceeded (attempt_conditions a)"
proof (rule ccontr)
  assume fa: "\<not> IsAttemptSucceeded (attempt_conditions a)"
  obtain r s1 where c: "createAttempt k (count_failure job) s = (r, s1)"
    by (cases "createAttempt k (count_failure job) s")
  note w = createAttempt_result(1) [OF c]
  from fa assms w show False
    by (cases r) (auto simp: settle_job_def retry_job_def exhaust_job_def Let_def c holds_set
        holds_fail IsJobTerminal_iff dest!: commit_job_result(1) split: if_splits)
qed

lemma advance_attempt_complete:
  assumes "condition_setter (k_ssc k)" and "echoes_attempt_status k"
    and "advance_attempt k recording now snap a s = (q, s')"
    and "job_writes s = []" and "j \<in> set (job_writes s')" and "holds JobConditionComplete (job_conditions j)"
    and "\<not> IsJobTerminal (job_conditions (js_job snap))"
  shows "holds AttemptConditionComplete (attempt_conditions a) \<or>
    (\<exists>p. fst (lookup_pod k snap a s) = PodFound p \<and> pst_phase (p_status p) = PodSucceeded)"
proof -
  obtain r s1 where c: "ReconcileAttempt k now snap a s = (r, s1)"
    by (cases "ReconcileAttempt k now snap a s")
  have w: "job_writes s1 = []" using ReconcileAttempt_log(1) [OF assms(1) c] assms(4) by simp
  have "ar_terminal r \<and> settle_job k recording now (js_job snap) (ar_attempt r) s1 = (q, s')"
    using assms c w by (auto simp: advance_attempt_def follow_attempt_def holds_set IsJobTerminal_iff
        split: if_splits dest!: commit_job_result(1))
  with settle_job_complete [OF assms(1) _ w assms(5,6,7)] ReconcileAttempt_success [OF assms(1,2) c]
  show ?thesis by blast
qed

lemma Reconcile_loaded:
  "LoadJobSnapshot k ns name s = (Inr (Some snap), s1) \<Longrightarrow>
   Reconcile k recording now ns name s = reconcile_snapshot k recording now snap s1"
  by (simp add: Reconcile_def)

lemma LoadJobSnapshot_writes:
  "LoadJobSnapshot k ns name s = (r, s1) \<Longrightarrow> job_writes s1 = job_writes s"
  by (auto intro: job_writes_same)

lemma start_attempt_open:
  assumes "condition_setter (k_ssc k)" and "start_attempt k recording now job s = (q, s')"
    and "job_writes s = []" and "j \<in> set (job_writes s')"
  shows "holds JobConditionComplete (job_conditions j) = holds JobConditionComplete (job_conditions job)"
proof -
  obtain r s1 where c: "createAttempt k job s = (r, s1)" by (cases "createAttempt k job s")
  from createAttempt_result(1) [OF c] assms show ?thesis
    by (cases r) (auto simp: start_attempt_def c holds_set dest!: commit_job_result(1))
qed

subsection \<open>Launches\<close>

lemma createAttempt_found:
  assumes "owns_by_metadata k" and "reads_attempts_purely k" and "finds_created_attempts k"
    and "createAttempt k job s = (Inr a, s1)"
  shows "fst (k_get_attempt k (om_namespace (j_meta job)) (next_attempt_name job) (fst s1)) = Inr a"
proof -
  let ?get = "k_get_attempt k (om_namespace (j_meta job)) (next_attempt_name job)"
  have pure: "?get w = (fst (?get w), w)" for w
    using assms(2) by (simp add: reads_attempts_purely_def prod_eq_iff)
  have read: "read_world ?get s = (fst (?get (fst s)), s)" for s :: "'a world"
    by (subst read_world_def, subst pure) simp
  show ?thesis
  proof (cases "fst (?get (fst s))")
    case (Inr b)
    with assms(4) show ?thesis by (auto simp: createAttempt_def read)
  next
    case (Inl e)
    with assms(4) obtain b where own: "k_own_attempt k job (new_attempt job) = Inr b"
      by (cases "k_own_attempt k job (new_attempt job)") (auto simp: createAttempt_def read)
    note b = owns_by_metadataD [OF assms(1) own]
    obtain c w where c: "k_create_attempt k b (fst s) = (c, w)"
      by (cases "k_create_attempt k b (fst s)")
    show ?thesis
    proof (cases c)
      case (Inr a')
      with Inl own assms(4) c have "a' = a" "fst s1 = w"
        by (auto simp: createAttempt_def read create_attempt_def)
      with Inr c assms(3) b show ?thesis
        unfolding finds_created_attempts_def by (fastforce simp: new_attempt_def)
    next
      case (Inl e')
      with \<open>fst (?get (fst s)) = Inl e\<close> own assms(4) c show ?thesis
        by (auto simp: createAttempt_def read create_attempt_def split: api_error.splits sum.splits)
    qed
  qed
qed

lemma launch_ordinal:
  assumes "owns_by_metadata k" and "job_inv m j" and "launch_ok k j a"
  shows "1 \<le> attempt_ordinal a \<and> attempt_ordinal a \<le> max 1 m \<and>
    attempt_name a = job_name j @ ''-'' @ show_int (attempt_ordinal a) \<and>
    or_uid (as_job_ref (a_spec a)) = job_uid j"
proof -
  from assms(3) obtain j' where own: "k_own_attempt k j' (new_attempt j') = Inr a"
    and nt: "\<not> IsJobTerminal (job_conditions j)" and m: "j_meta j' = j_meta j"
    and c: "st_completed (j_status j') = st_completed (j_status j)"
    and f: "st_failed (j_status j') = st_failed (j_status j) \<or>
      st_failed (j_status j') = i32 (st_failed (j_status j) + 1) \<and>
      i32 (st_failed (j_status j) + 1) < ex_max_attempts (job_exec j)"
    by (auto simp: launch_ok_def)
  note a = owns_by_metadataD [OF assms(1) own]
  from assms(2) nt have b: "0 \<le> st_failed (j_status j)" "st_failed (j_status j) = 0 \<or> st_failed (j_status j) < m"
    "st_completed (j_status j) = 0" "ex_max_attempts (job_exec j) = m" "in_i32 m"
    by (auto simp: job_inv_def job_life_open)
  note incr = counters_incr(1) [OF job_inv_counters [OF assms(2) nt]]
  from f b incr have r: "0 \<le> st_failed (j_status j')"
    "st_failed (j_status j') = 0 \<or> st_failed (j_status j') < m"
    by auto
  with b c have "next_ordinal j' = st_failed (j_status j') + 1"
    by (auto simp: next_ordinal_def in_i32_def)
  with a r m show ?thesis by (auto simp: new_attempt_def next_attempt_name_def)
qed

subsection \<open>Properties\<close>

text \<open>C1: One reconcile of a job, with any API client, writes the job's status at most once,
  and what it writes is a step of the abstract life of the job that was loaded: same
  identity and spec, never both Complete and Failed, a failure counted only when a retry is
  within the budget or the budget is exhausted, a success counted only with Complete.\<close>

theorem reconcile_refines_life:
  assumes "condition_setter (k_ssc k)"
    and "LoadJobSnapshot k ns name s = (Inr (Some snap), s1)"
    and "Reconcile k recording now ns name s = (q, s')"
  shows "\<exists>js. job_writes s' = job_writes s @ js \<and> length js \<le> 1 \<and>
    (\<forall>j\<in>set js. j_meta j = j_meta (js_job snap) \<and> j_spec j = j_spec (js_job snap) \<and>
       at_most_one_terminal (job_conditions j) \<and>
       (counters_ok (js_job snap) \<longrightarrow>
          life_step (ex_max_attempts (job_exec j)) (job_life_of (js_job snap)) (job_life_of j)))"
proof -
  from assms(3) have r: "reconcile_snapshot k recording now snap s1 = (q, s')"
    by (simp add: Reconcile_loaded [OF assms(2)])
  from reconcile_snapshot_one [OF assms(1) r] LoadJobSnapshot_writes [OF assms(2)]
  show ?thesis by (auto simp: one_job_write_def job_write_ok_def)
qed

text \<open>The job of the demonstration server after its Pod succeeded.\<close>

definition demo_world :: "pod_phase \<Rightarrow> int \<Rightarrow> mem" where
  "demo_world ph m =
     \<lparr>m_jobs = [with_status (demo_job m) (\<lambda>st. st\<lparr>st_active :=
        Some \<lparr>ar_name = ''job-1'', ar_ordinal = 1, ar_uid = ''ua''\<rparr>\<rparr>)],
      m_attempts = [demo_attempt ''job-1'' []], m_pods = [demo_pod ph], m_pools = []\<rparr>"

definition demo_snapshot :: "pod_phase \<Rightarrow> int \<Rightarrow> JobSnapshot" where
  "demo_snapshot ph m =
     \<lparr>js_job = hd (m_jobs (demo_world ph m)), js_attempts = m_attempts (demo_world ph m),
      js_pods = m_pods (demo_world ph m)\<rparr>"

lemma demo_load:
  "LoadJobSnapshot mem_kube ''ns'' ''job'' (demo_world ph m, []) =
     (Inr (Some (demo_snapshot ph m)), (demo_world ph m, []))"
  by (simp add: LoadJobSnapshot_def read_world_def mem_defs demo_world_def demo_snapshot_def
      demo_defs job_selector_def with_status_def
      del: read_world_log update_job_status_log update_attempt_status_log create_attempt_log
        create_pod_log delete_pod_log delete_attempt_log LoadJobSnapshot_log)

theorem reconcile_refines_life_witness:
  "\<exists>js. job_writes (snd (Reconcile mem_kube True 7 ''ns'' ''job'' (demo_world PodSucceeded 3, []))) =
      job_writes (demo_world PodSucceeded 3, []) @ js \<and> length js \<le> 1"
  using reconcile_refines_life [OF mem_kube_setter demo_load [of PodSucceeded 3]
      surjective_pairing [of "Reconcile mem_kube True 7 ''ns'' ''job'' (demo_world PodSucceeded 3, [])"]]
  by (elim exE conjE) (intro exI conjI)

text \<open>C2: A job that starts fresh, through any sequence of passes (whatever attempts and Pods
  each one sees, whether its write is accepted or refused): it is never both Complete and
  Failed, at most max(1, MaxAttempts) failures are ever counted, and the success counter is
  1 exactly when the job is Complete.\<close>

theorem job_lifecycle:
  assumes "condition_setter (k_ssc k)" and "in_i32 (ex_max_attempts (job_exec job))"
    and "job_conditions job = []" and "st_failed (j_status job) = 0" and "st_completed (j_status job) = 0"
  shows "let j = foldl (job_step k) job evs in
    at_most_one_terminal (job_conditions j) \<and>
    0 \<le> st_failed (j_status j) \<and> st_failed (j_status j) \<le> max 1 (ex_max_attempts (job_exec job)) \<and>
    st_completed (j_status j) = (if holds JobConditionComplete (job_conditions j) then 1 else 0)"
proof -
  have "job_inv (ex_max_attempts (job_exec job)) job"
    using assms by (simp add: job_inv_def at_most_one_terminal_def job_life_of_def)
  with job_machine.run_inv [of k "ex_max_attempts (job_exec job)" job evs] assms(1)
  have "job_inv (ex_max_attempts (job_exec job)) (foldl (job_step k) job evs)" by blast
  from job_inv_result [OF this] show ?thesis by (simp add: Let_def)
qed

definition demo_event :: "pod_phase \<Rightarrow> mem job_event" where
  "demo_event ph = \<lparr>je_now = 7, je_recording = True, je_attempts = [demo_attempt ''job-1'' []],
     je_pods = [demo_pod ph], je_world = demo_world ph 3, je_accepted = True\<rparr>"

theorem job_lifecycle_witness:
  "at_most_one_terminal (job_conditions (foldl (job_step mem_kube) (demo_job 3)
     [demo_event PodPending, demo_event PodFailed, demo_event PodSucceeded]))"
  using job_lifecycle [OF mem_kube_setter, of "demo_job 3"
      "[demo_event PodPending, demo_event PodFailed, demo_event PodSucceeded]"]
  by (simp add: demo_job_def in_i32_def Let_def)



text \<open>C3: The retry budget. Whatever passes a fresh job has been through, the next pass
  creates at most one attempt; it references the job, is named after the job and its own
  ordinal, and the ordinal is between 1 and max(1, MaxAttempts): no job ever gets more
  attempt objects than its budget.\<close>

theorem attempts_within_budget:
  assumes "condition_setter (k_ssc k)" and "owns_by_metadata k"
    and "in_i32 (ex_max_attempts (job_exec job))"
    and "job_conditions job = []" and "st_failed (j_status job) = 0" and "st_completed (j_status job) = 0"
    and "s' = pass_world k (foldl (job_step k) job evs) ev"
  shows "length (created_attempts s') \<le> 1 \<and>
    (\<forall>a\<in>set (created_attempts s').
       1 \<le> attempt_ordinal a \<and> attempt_ordinal a \<le> max 1 (ex_max_attempts (job_exec job)) \<and>
       attempt_name a = job_name (foldl (job_step k) job evs) @ ''-'' @ show_int (attempt_ordinal a) \<and>
       or_uid (as_job_ref (a_spec a)) = job_uid (foldl (job_step k) job evs))"
proof -
  let ?m = "ex_max_attempts (job_exec job)" and ?j = "foldl (job_step k) job evs"
  let ?p = "reconcile_snapshot k (je_recording ev) (je_now ev) (event_snapshot ?j ev) (je_world ev, [])"
  have "job_inv ?m job" using assms by (simp add: job_inv_def at_most_one_terminal_def job_life_of_def)
  with job_machine.run_inv [of k ?m job evs] assms(1) have inv: "job_inv ?m ?j" by blast
  have "one_launch k ?j (je_world ev, []) s'"
    using reconcile_snapshot_launch [OF assms(1), of "je_recording ev" "je_now ev"
        "event_snapshot ?j ev" "(je_world ev, [])" "fst ?p" s'] assms(7)
    by (simp add: pass_world_def event_snapshot_def)
  then consider "created_attempts s' = []"
    | a where "created_attempts s' = [a]" "launch_ok k ?j a" by (auto simp: one_launch_def)
  then show ?thesis
  proof cases
    case (2 a)
    from launch_ordinal [OF assms(2) inv 2(2)] 2(1) show ?thesis by simp
  qed simp
qed

theorem attempts_within_budget_witness:
  "length (created_attempts (pass_world mem_kube
     (foldl (job_step mem_kube) (demo_job 3) [demo_event PodPending, demo_event PodFailed])
     (demo_event PodFailed))) \<le> 1"
  using attempts_within_budget [OF mem_kube_setter mem_kube_laws(1), of "demo_job 3" _
      "[demo_event PodPending, demo_event PodFailed]" "demo_event PodFailed", THEN conjunct1]
  by (simp add: demo_job_def in_i32_def)

text \<open>C4: A job is recorded Complete only for a reason: in the pass that wrote it the active
  attempt was already Complete, or the Pod found for it had phase Succeeded. No other Pod
  phase, no missing Pod and no API error completes a job.\<close>

theorem complete_needs_success:
  assumes "condition_setter (k_ssc k)" and "echoes_attempt_status k"
    and "reconcile_snapshot k recording now snap (w, []) = (q, s')"
    and "j \<in> set (job_writes s')" and "holds JobConditionComplete (job_conditions j)"
  shows "\<exists>a. ActiveAttempt snap = Some a \<and>
    (holds AttemptConditionComplete (attempt_conditions a) \<or>
     (\<exists>p. fst (lookup_pod k (snap\<lparr>js_job := store_spec_hash k (js_job snap)\<rparr>) a (w, [])) = PodFound p \<and>
          pst_phase (p_status p) = PodSucceeded))"
proof -
  let ?job = "store_spec_hash k (js_job snap)" and ?snap = "snap\<lparr>js_job := store_spec_hash k (js_job snap)\<rparr>"
  have nt: "\<not> IsJobTerminal (job_conditions (js_job snap))"
    using assms(3,4) by (auto simp: reconcile_snapshot_def)
  have act: "ActiveAttempt ?snap = ActiveAttempt snap"
    by (simp add: ActiveAttempt_def split: option.split)
  have start: False if "start_attempt k recording now ?job (w, []) = (q, s')"
    using start_attempt_open [OF assms(1) that _ assms(4)] assms(5) nt by (simp add: IsJobTerminal_iff)
  have fence: False if "fail_ownership k recording now ?job e (w, []) = (q, s')" for e
    using that assms(1,4,5) nt
    by (auto simp: fail_ownership_def TrySetJobTerminal_def holds_set IsJobTerminal_iff
        dest!: commit_job_result(1))
  have "\<exists>a. ActiveAttempt snap = Some a \<and> advance_attempt k recording now ?snap a (w, []) = (q, s')"
    using assms(3) nt start fence act
    by (auto simp: reconcile_snapshot_def Let_def split: option.splits)
  then obtain a where a: "ActiveAttempt snap = Some a"
    and adv: "advance_attempt k recording now ?snap a (w, []) = (q, s')" by blast
  from advance_attempt_complete [OF assms(1,2) adv empty_log(1) assms(4,5)] nt a show ?thesis by simp
qed

lemma demo_success:
  "list_ex (\<lambda>j. holds JobConditionComplete (job_conditions j))
     (job_writes (snd (reconcile_snapshot mem_kube True 7 (demo_snapshot PodSucceeded 3)
        (demo_world PodSucceeded 3, []))))"
  by code_simp

theorem complete_needs_success_witness:
  "\<exists>a. ActiveAttempt (demo_snapshot PodSucceeded 3) = Some a"
proof -
  obtain j where j: "j \<in> set (job_writes (snd (reconcile_snapshot mem_kube True 7
      (demo_snapshot PodSucceeded 3) (demo_world PodSucceeded 3, []))))"
    "holds JobConditionComplete (job_conditions j)"
    using demo_success unfolding list_ex_iff by blast
  from complete_needs_success [OF mem_kube_setter mem_kube_laws(4) surjective_pairing j]
  show ?thesis by blast
qed

text \<open>Creating the next attempt is idempotent. When the attempt was obtained once and the
  pass is then repeated for the same job (its status write was lost), no second attempt is
  created: the call finds the same object and makes no request.\<close>

theorem createAttempt_idempotent:
  assumes "owns_by_metadata k" and "reads_attempts_purely k" and "finds_created_attempts k"
    and "createAttempt k job s = (Inr a, s1)"
    and "om_namespace (j_meta job') = om_namespace (j_meta job)"
    and "next_attempt_name job' = next_attempt_name job"
  shows "\<exists>s2. createAttempt k job' s1 = (Inr a, s2) \<and> snd s2 = snd s1"
proof -
  let ?ns = "om_namespace (j_meta job)" and ?n = "next_attempt_name job"
  have found: "fst (k_get_attempt k ?ns ?n (fst s1)) = Inr a"
    using createAttempt_found [OF assms(1-4)] .
  obtain w2 where "read_world (k_get_attempt k ?ns ?n) s1 = (Inr a, (w2, snd s1))"
    using found by (cases "k_get_attempt k ?ns ?n (fst s1)") (auto simp: read_world_def)
  with assms(5,6) show ?thesis by (simp add: createAttempt_def)
qed


theorem createAttempt_idempotent_witness:
  "\<exists>a s1 s2. createAttempt mem_kube (demo_job 3) (\<lparr>m_jobs = [], m_attempts = [], m_pods = [], m_pools = []\<rparr>, []) = (Inr a, s1) \<and>
     createAttempt mem_kube (demo_job 3) s1 = (Inr a, s2) \<and> snd s2 = snd s1"
proof -
  let ?s = "(\<lparr>m_jobs = [], m_attempts = [], m_pods = [], m_pools = []\<rparr> :: mem, [] :: effect list)"
  have "\<not> isl (fst (createAttempt mem_kube (demo_job 3) ?s))" by code_simp
  then obtain a s1 where c: "createAttempt mem_kube (demo_job 3) ?s = (Inr a, s1)"
    by (cases "createAttempt mem_kube (demo_job 3) ?s", cases "fst (createAttempt mem_kube (demo_job 3) ?s)") auto
  from createAttempt_idempotent [OF mem_kube_laws(1,2,3) c refl refl] c show ?thesis by blast
qed

subsection \<open>Progress\<close>

definition accepts_attempt_status :: "'w kube \<Rightarrow> bool" where
  "accepts_attempt_status k \<longleftrightarrow> (\<forall>a w. \<not> isl (fst (k_update_attempt_status k a w)))"

lemma started_conditions [simp]: "attempt_conditions (started now a) = attempt_conditions a"
  by (simp add: started_def)

lemma commit_attempt_accepted:
  assumes "accepts_attempt_status k" and "echoes_attempt_status k"
  shows "\<exists>b s'. commit_attempt k msg t q a s =
      (\<lparr>ar_terminal = t, ar_requeue = q, ar_error = None, ar_attempt = b\<rparr>, s') \<and>
    attempt_conditions b = attempt_conditions a \<and> snd s' = snd s @ [EAttemptStatus a]"
proof -
  obtain r w where u: "k_update_attempt_status k a (fst s) = (r, w)"
    by (cases "k_update_attempt_status k a (fst s)")
  from assms(1) have "\<not> isl (fst (k_update_attempt_status k a (fst s)))"
    unfolding accepts_attempt_status_def by blast
  with u obtain b where "r = Inr b" by (cases r) auto
  with u assms(2) show ?thesis
    by (auto simp: commit_attempt_def update_attempt_status_def dest: echoes_attempt_statusD)
qed

text \<open>The Pod of the attempt, as the snapshot and the attempt's status identify it.\<close>

definition bound_pod :: "JobSnapshot \<Rightarrow> AgentAttempt \<Rightarrow> pod \<Rightarrow> bool" where
  "bound_pod snap a p \<longleftrightarrow>
     PodForAttempt snap (attempt_name a) = Some p \<and> at_pod_name (a_status a) \<noteq> [] \<and>
     (at_pod_uid (a_status a) = [] \<or> at_pod_uid (a_status a) = pod_uid p)"

lemma ReconcileAttempt_finished:
  assumes "condition_setter (k_ssc k)" and "accepts_attempt_status k" and "echoes_attempt_status k"
    and "bound_pod snap a p" and "\<not> IsAttemptTerminal (attempt_conditions a)"
    and "pst_phase (p_status p) = PodSucceeded \<or> pst_phase (p_status p) = PodFailed"
  shows "\<exists>r s1. ReconcileAttempt k now snap a s = (r, s1) \<and> ar_terminal r \<and> ar_error r = None \<and>
    job_writes s1 = job_writes s \<and>
    (IsAttemptSucceeded (attempt_conditions (ar_attempt r)) \<longleftrightarrow> pst_phase (p_status p) = PodSucceeded)"
proof -
  have settle: "ReconcileAttempt k now snap a s = observe_pod k now a p s"
    using assms(4,5) by (auto simp: ReconcileAttempt_def lookup_pod_def bound_pod_def settle_attempt_def)
  obtain r s1 where rs: "ReconcileAttempt k now snap a s = (r, s1)" by (cases "ReconcileAttempt k now snap a s")
  have "ar_terminal r \<and> ar_error r = None \<and>
    (IsAttemptSucceeded (attempt_conditions (ar_attempt r)) \<longleftrightarrow> pst_phase (p_status p) = PodSucceeded)"
    using assms(6)
  proof
    assume ph: "pst_phase (p_status p) = PodSucceeded"
    with commit_attempt_accepted [OF assms(2,3), of "''update attempt to Completed''" True Finished
        "mark_succeeded (k_ssc k) now a" s] rs settle assms(1)
    show ?thesis by (auto simp: observe_pod_def IsAttemptSucceeded_iff mark_succeeded_conditions)
  next
    assume ph: "pst_phase (p_status p) = PodFailed"
    with commit_attempt_accepted [OF assms(2,3), of "''update attempt to Failed''" True Finished
        "markAttemptFailed (k_ssc k) now (started now a) (extractExitCode (pst_containers (p_status p)))" s]
      rs settle assms(1,5)
    show ?thesis
      by (auto simp: observe_pod_def IsAttemptSucceeded_iff markAttemptFailed_conditions
          IsAttemptTerminal_iff started_conditions)
  qed
  with rs ReconcileAttempt_log(1) [OF assms(1) rs] show ?thesis by blast
qed

lemma first_violation_spec_hash:
  "first_violation (store_spec_hash k job) as = first_violation job as"
proof -
  have c: "owner_check (store_spec_hash k job) child refs = owner_check job child refs" for child refs
    by (induction refs) simp_all
  have "VerifyAttemptOwnership (store_spec_hash k job) a = VerifyAttemptOwnership job a" for a
    by (simp add: VerifyAttemptOwnership_def VerifyOwnership_def c split: option.split)
  then show ?thesis by (induction as) (simp_all split: option.split)
qed

lemma settle_job_life:
  assumes "condition_setter (k_ssc k)" and "\<not> IsJobTerminal (job_conditions job)" and "counters_ok job"
    and "settle_job k recording now job a s = (q, s')" and "job_writes s = []"
    and "IsAttemptSucceeded (attempt_conditions a) \<or> ex_max_attempts (job_exec job) \<le> st_failed (j_status job) + 1"
  shows "map job_life_of (job_writes s') =
    [if IsAttemptSucceeded (attempt_conditions a)
     then JSucceeded (st_failed (j_status job)) (st_completed (j_status job) + 1)
     else JFailed (st_failed (j_status job) + 1) (st_completed (j_status job))]"
  using assms(4-6) counters_incr [OF assms(3)] holds_complete [OF assms(1,2)] holds_fail [OF assms(1,2)]
  by (auto simp: settle_job_def succeed_job_def exhaust_job_def Let_def job_life_of_def
      dest!: commit_job_result(1) split: if_splits)

text \<open>C5: A finished Pod settles its job in the same pass. When the attempt is bound to its Pod
  and the API server accepts the attempt's status, a Succeeded Pod makes the pass write the
  job Complete with the success counted, and a Failed Pod on the last attempt of the budget
  makes it write the job Failed with the failure counted.\<close>

theorem finished_pod_settles_job:
  assumes "condition_setter (k_ssc k)" and "accepts_attempt_status k" and "echoes_attempt_status k"
    and "\<not> IsJobTerminal (job_conditions (js_job snap))" and "counters_ok (js_job snap)"
    and "first_violation (js_job snap) (js_attempts snap) = None"
    and "ActiveAttempt snap = Some a" and "\<not> IsAttemptTerminal (attempt_conditions a)"
    and "bound_pod snap a p"
    and "pst_phase (p_status p) = PodSucceeded \<or>
      pst_phase (p_status p) = PodFailed \<and>
      ex_max_attempts (job_exec (js_job snap)) \<le> st_failed (j_status (js_job snap)) + 1"
  shows "map job_life_of (job_writes (snd (reconcile_snapshot k recording now snap (w, [])))) =
      [if pst_phase (p_status p) = PodSucceeded
       then JSucceeded (st_failed (j_status (js_job snap))) (st_completed (j_status (js_job snap)) + 1)
       else JFailed (st_failed (j_status (js_job snap)) + 1) (st_completed (j_status (js_job snap)))]"
proof -
  let ?job = "store_spec_hash k (js_job snap)" and ?snap = "snap\<lparr>js_job := store_spec_hash k (js_job snap)\<rparr>"
  have act: "ActiveAttempt ?snap = Some a"
    using assms(7) by (simp add: ActiveAttempt_def split: option.splits)
  have own: "first_violation ?job (js_attempts snap) = None"
    using assms(6) by (simp add: first_violation_spec_hash)
  have "bound_pod ?snap a p" using assms(9) by (simp add: bound_pod_def PodForAttempt_def)
  from ReconcileAttempt_finished [OF assms(1-3) this assms(8), of now "(w, [])"] assms(10)
  obtain r s1 where r: "ReconcileAttempt k now ?snap a (w, []) = (r, s1)" "ar_terminal r"
    "ar_error r = None" "job_writes s1 = []"
    and succ: "IsAttemptSucceeded (attempt_conditions (ar_attempt r)) \<longleftrightarrow> pst_phase (p_status p) = PodSucceeded"
    by auto
  obtain q s' where st: "settle_job k recording now ?job (ar_attempt r) s1 = (q, s')"
    by (cases "settle_job k recording now ?job (ar_attempt r) s1")
  from r st assms(4) act own have "reconcile_snapshot k recording now snap (w, []) = (q, s')"
    by (simp add: reconcile_snapshot_def Let_def advance_attempt_def)
  moreover have "\<not> IsJobTerminal (job_conditions ?job)" "counters_ok ?job" using assms(4,5) by simp_all
  from settle_job_life [OF assms(1) this st r(4)] succ assms(10)
  have "map job_life_of (job_writes s') =
      [if pst_phase (p_status p) = PodSucceeded
       then JSucceeded (st_failed (j_status (js_job snap))) (st_completed (j_status (js_job snap)) + 1)
       else JFailed (st_failed (j_status (js_job snap)) + 1) (st_completed (j_status (js_job snap)))]"
    by auto
  ultimately show ?thesis by simp
qed

theorem finished_pod_settles_job_witness:
  "map job_life_of (job_writes (snd (reconcile_snapshot mem_kube True 7 (demo_snapshot PodFailed 1)
      (demo_world PodFailed 1, [])))) = [JFailed 1 0]"
proof -
  have acc: "accepts_attempt_status mem_kube" by (simp add: accepts_attempt_status_def)
  have h: "\<not> IsJobTerminal (job_conditions (js_job (demo_snapshot PodFailed 1)))"
    "counters_ok (js_job (demo_snapshot PodFailed 1))"
    "first_violation (js_job (demo_snapshot PodFailed 1)) (js_attempts (demo_snapshot PodFailed 1)) = None"
    "ActiveAttempt (demo_snapshot PodFailed 1) = Some (demo_attempt ''job-1'' [])"
    "\<not> IsAttemptTerminal (attempt_conditions (demo_attempt ''job-1'' []))"
    "bound_pod (demo_snapshot PodFailed 1) (demo_attempt ''job-1'' []) (demo_pod PodFailed)"
    "pst_phase (p_status (demo_pod PodFailed)) = PodFailed"
    "ex_max_attempts (job_exec (js_job (demo_snapshot PodFailed 1))) = 1"
    "st_failed (j_status (js_job (demo_snapshot PodFailed 1))) = 0"
    "st_completed (j_status (js_job (demo_snapshot PodFailed 1))) = 0"
    by (simp_all add: demo_snapshot_def demo_world_def demo_defs counters_ok_def ActiveAttempt_def
        VerifyAttemptOwnership_def VerifyOwnership_def bound_pod_def PodForAttempt_def map_get_def)
  from finished_pod_settles_job [OF mem_kube_setter acc mem_kube_laws(4) h(1-6), of True 7
      "demo_world PodFailed 1"] h(7-10)
  show ?thesis by simp
qed

end
