(* ===== verification/Finalizer.thy ===== *)
theory Finalizer
  imports Snapshots
begin

text \<open>
  Cleanup of a job that is being deleted (\<open>finalizer.go\<close>). Adding and removing a finalizer
  string are functions of the controller library and are parameters: \<open>add\<close> and \<open>remove\<close>
  return the new finalizer list and whether it changed. \<open>expired\<close> tells in which worlds the
  bounded context has run out.
\<close>

definition FinalizerName :: string where "FinalizerName = ''durarun.io/cleanup''"

type_synonym finalizer_op = "string list \<Rightarrow> string \<Rightarrow> string list \<times> bool"

definition set_finalizers :: "AgentJob \<Rightarrow> string list \<Rightarrow> AgentJob" where
  "set_finalizers job fs = job\<lparr>j_meta := (j_meta job)\<lparr>om_finalizers := fs\<rparr>\<rparr>"

definition EnsureFinalizer :: "finalizer_op \<Rightarrow> AgentJob \<Rightarrow> AgentJob \<times> bool" where
  "EnsureFinalizer add job =
     (let (fs, changed) = add (om_finalizers (j_meta job)) FinalizerName in (set_finalizers job fs, changed))"

definition RemoveFinalizer :: "finalizer_op \<Rightarrow> AgentJob \<Rightarrow> AgentJob \<times> bool" where
  "RemoveFinalizer remove job =
     (let (fs, changed) = remove (om_finalizers (j_meta job)) FinalizerName in (set_finalizers job fs, changed))"

text \<open>A deletion loop runs to its end, hits the deadline, or stops at an error.\<close>

datatype cleanup = CleanupDone | CleanupExpired | CleanupError gerr

fun delete_all ::
  "('a \<Rightarrow> 'w world \<Rightarrow> api_error option \<times> 'w world) \<Rightarrow> ('a \<Rightarrow> string) \<Rightarrow> ('w \<Rightarrow> bool) \<Rightarrow> 'a list \<Rightarrow>
   'w world \<Rightarrow> cleanup \<times> 'w world" where
  "delete_all del what expired [] s = (CleanupDone, s)"
| "delete_all del what expired (x # xs) s =
     (case del x s of
        (None, s) \<Rightarrow> delete_all del what expired xs s
      | (Some e, s) \<Rightarrow>
          if expired (fst s) then (CleanupExpired, s)
          else if e = NotFound then delete_all del what expired xs s
          else (CleanupError (Wrapped (what x) (ApiErr e)), s))"

text \<open>Steps 1 and 2: list, then delete what was listed.\<close>

definition delete_listed ::
  "('w world \<Rightarrow> (api_error + 'a list) \<times> 'w world) \<Rightarrow> string \<Rightarrow>
   ('a \<Rightarrow> 'w world \<Rightarrow> api_error option \<times> 'w world) \<Rightarrow> ('a \<Rightarrow> string) \<Rightarrow> ('w \<Rightarrow> bool) \<Rightarrow>
   'w world \<Rightarrow> cleanup \<times> 'w world" where
  "delete_listed list_them listing del what expired s =
     (case list_them s of
        (Inl e, s) \<Rightarrow>
          if expired (fst s) then (CleanupExpired, s)
          else (CleanupError (Wrapped listing (ApiErr e)), s)
      | (Inr xs, s) \<Rightarrow> delete_all del what expired xs s)"

definition HandleFinalization ::
  "'w kube \<Rightarrow> finalizer_op \<Rightarrow> ('w \<Rightarrow> bool) \<Rightarrow> AgentJob \<Rightarrow> 'w world \<Rightarrow>
   ((bool \<times> gerr option) \<times> AgentJob) \<times> 'w world" where
  "HandleFinalization k remove expired job s =
     (let ns = om_namespace (j_meta job); sel = job_selector (job_name job);
          removed = fst (RemoveFinalizer remove job)
      in case delete_listed (read_world (k_list_pods k ns sel)) ''list pods for finalization''
             (delete_pod k) (\<lambda>p. ''delete pod '' @ pod_name p) expired s of
           (CleanupExpired, s) \<Rightarrow> (((True, None), removed), s)
         | (CleanupError e, s) \<Rightarrow> (((False, Some e), job), s)
         | (CleanupDone, s) \<Rightarrow>
             (case delete_listed (read_world (k_list_attempts k ns sel)) ''list attempts for finalization''
                 (delete_attempt k) (\<lambda>a. ''delete attempt '' @ attempt_name a) expired s of
                (CleanupExpired, s) \<Rightarrow> (((True, None), removed), s)
              | (CleanupError e, s) \<Rightarrow> (((False, Some e), job), s)
              | (CleanupDone, s) \<Rightarrow> (((True, None), removed), s)))"

subsection \<open>What finalization does\<close>

lemma delete_all_log:
  assumes "\<And>x s r s'. del x s = (r, s') \<Longrightarrow> snd s' = snd s @ [E x]"
    and "delete_all del what expired xs s = (r, s')"
  shows "\<exists>ys zs. xs = ys @ zs \<and> snd s' = snd s @ map E ys \<and> (r = CleanupDone \<longrightarrow> zs = []) \<and>
    (r = CleanupExpired \<longrightarrow> expired (fst s'))"
  using assms(2)
proof (induction xs arbitrary: s)
  case (Cons x xs)
  obtain d s1 where d: "del x s = (d, s1)" by (cases "del x s")
  note l = assms(1) [OF d]
  show ?case
  proof (cases "d = None \<or> (d = Some NotFound \<and> \<not> expired (fst s1))")
    case True
    with Cons.prems d have "delete_all del what expired xs s1 = (r, s')" by auto
    from Cons.IH [OF this] obtain ys zs where
      "xs = ys @ zs" "snd s' = snd s1 @ map E ys" "r = CleanupDone \<longrightarrow> zs = []"
      "r = CleanupExpired \<longrightarrow> expired (fst s')" by blast
    with l show ?thesis by (intro exI [of _ "x # ys"] exI [of _ zs]) simp
  next
    case False
    with Cons.prems d l show ?thesis
      by (intro exI [of _ "[x]"] exI [of _ xs]) (auto split: option.splits if_splits)
  qed
qed simp

lemma delete_all_reaches_end:
  assumes "\<And>x s. fst (del x s) = None"
  shows "fst (delete_all del what expired xs s) = CleanupDone"
proof (induction xs arbitrary: s)
  case (Cons x xs)
  from assms [of x s] Cons show ?case by (cases "del x s") auto
qed simp

lemma delete_all_pods_log:
  assumes "delete_all (delete_pod k) what expired xs s = (r, s')"
  shows "\<exists>ys zs. xs = ys @ zs \<and> snd s' = snd s @ map EDeletePod ys \<and> (r = CleanupDone \<longrightarrow> zs = []) \<and>
    (r = CleanupExpired \<longrightarrow> expired (fst s'))"
  using delete_pod_log assms by (rule delete_all_log)

lemma delete_all_attempts_log:
  assumes "delete_all (delete_attempt k) what expired xs s = (r, s')"
  shows "\<exists>ys zs. xs = ys @ zs \<and> snd s' = snd s @ map EDeleteAttempt ys \<and> (r = CleanupDone \<longrightarrow> zs = []) \<and>
    (r = CleanupExpired \<longrightarrow> expired (fst s'))"
  using delete_attempt_log assms by (rule delete_all_log)

lemma delete_attempt_loop_log:
  assumes "delete_listed (read_world f) what (delete_attempt k) name expired s = (r, s')"
  shows "\<exists>es. snd s' = snd s @ es"
proof -
  obtain l s1 where l: "read_world f s = (l, s1)" by (cases "read_world f s")
  note log = read_world_log [OF l]
  show ?thesis
  proof (cases l)
    case (Inl e)
    with assms l log show ?thesis by (auto simp: delete_listed_def split: if_splits)
  next
    case (Inr xs)
    with assms l have "delete_all (delete_attempt k) name expired xs s1 = (r, s')"
      by (simp add: delete_listed_def)
    from delete_all_attempts_log [OF this] log show ?thesis by auto
  qed
qed

end
