(* ===== verification/Webhook.thy ===== *)
theory Webhook
  imports JobController
begin

text \<open>
  Admission (\<open>internal/webhook\<close>): validation on creation and update, the fields that may not
  change, the access check and the capacity gate. A Go object of another type is the case
  \<open>None\<close>. A nil command and an empty one are the same value here.
\<close>

datatype admission_error =
    NotAnAgentJob
  | OldNotAnAgentJob
  | ImageEmpty
  | MaxAttemptsNegative
  | ValidationFailed "string list"
  | ServiceAccountEmpty
  | CapacityBackpressure int int

definition webhook_ValidateCreate :: "AgentJob option \<Rightarrow> admission_error option" where
  "webhook_ValidateCreate obj =
     (case obj of
        None \<Rightarrow> Some NotAnAgentJob
      | Some job \<Rightarrow>
          if rt_image (js_runtime (j_spec job)) = [] then Some ImageEmpty
          else if ex_max_attempts (job_exec job) < 0 then Some MaxAttemptsNegative
          else None)"

text \<open>The forbidden fields, in the order the source appends them.\<close>

definition ValidateImmutableFields :: "AgentJob \<Rightarrow> AgentJob \<Rightarrow> string list" where
  "ValidateImmutableFields oldJob newJob =
     (let allErrs = [];
          allErrs = (if rt_image (js_runtime (j_spec oldJob)) \<noteq> rt_image (js_runtime (j_spec newJob))
            then allErrs @ [''spec.runtime.image''] else allErrs);
          allErrs = (if rt_command (js_runtime (j_spec oldJob)) \<noteq> rt_command (js_runtime (j_spec newJob))
            then allErrs @ [''spec.runtime.command''] else allErrs);
          allErrs = (if ex_max_attempts (job_exec newJob) < ex_max_attempts (job_exec oldJob)
            then allErrs @ [''spec.execution.maxAttempts''] else allErrs)
      in allErrs)"

definition webhook_ValidateUpdate :: "AgentJob option \<Rightarrow> AgentJob option \<Rightarrow> admission_error option" where
  "webhook_ValidateUpdate oldObj newObj =
     (case oldObj of
        None \<Rightarrow> Some OldNotAnAgentJob
      | Some oldJob \<Rightarrow>
          (case newObj of
             None \<Rightarrow> Some NotAnAgentJob
           | Some newJob \<Rightarrow>
               let errs = ValidateImmutableFields oldJob newJob
               in if length errs > 0 then Some (ValidationFailed errs) else None))"

definition webhook_ValidateDelete :: "AgentJob option \<Rightarrow> admission_error option" where
  "webhook_ValidateDelete obj = None"

definition CheckSAR :: "string \<Rightarrow> string \<Rightarrow> admission_error option" where
  "CheckSAR user sa = (if sa = [] then Some ServiceAccountEmpty else None)"

lemma ValidateUpdate_ok:
  "webhook_ValidateUpdate (Some old) (Some new) = None \<longleftrightarrow>
     rt_image (js_runtime (j_spec new)) = rt_image (js_runtime (j_spec old)) \<and>
     rt_command (js_runtime (j_spec new)) = rt_command (js_runtime (j_spec old)) \<and>
     ex_max_attempts (job_exec old) \<le> ex_max_attempts (job_exec new)"
  by (auto simp: webhook_ValidateUpdate_def ValidateImmutableFields_def Let_def)

subsection \<open>Capacity\<close>

record CapacityAdmission =
  ca_max :: int
  ca_active :: int

definition Admit :: "CapacityAdmission \<Rightarrow> CapacityAdmission \<times> admission_error option" where
  "Admit c =
     (if ca_active c \<ge> ca_max c then (c, Some (CapacityBackpressure (ca_active c) (ca_max c)))
      else (c\<lparr>ca_active := i32 (ca_active c + 1)\<rparr>, None))"

definition Release :: "CapacityAdmission \<Rightarrow> CapacityAdmission" where
  "Release c = (if ca_active c > 0 then c\<lparr>ca_active := i32 (ca_active c - 1)\<rparr> else c)"

datatype capacity_op = OpAdmit | OpRelease

fun capacity_step :: "CapacityAdmission \<Rightarrow> capacity_op \<Rightarrow> CapacityAdmission" where
  "capacity_step c OpAdmit = fst (Admit c)"
| "capacity_step c OpRelease = Release c"

definition capacity_inv :: "int \<Rightarrow> CapacityAdmission \<Rightarrow> bool" where
  "capacity_inv m c \<longleftrightarrow> ca_max c = m \<and> in_i32 m \<and> 0 \<le> ca_active c \<and> ca_active c \<le> max 0 m"

interpretation capacity: invariant_machine capacity_step "capacity_inv m" for m
proof
  fix c op
  assume "capacity_inv m c"
  then show "capacity_inv m (capacity_step c op)"
    by (cases op) (auto simp: capacity_inv_def Admit_def Release_def in_i32_def)
qed

text \<open>
  The jobs the gate believes active, against the jobs that are: an admitted identity enters
  the set, a released one leaves it. The gate counts; it does not know which job it releases.
\<close>

datatype job_op = JobAdmit string | JobRelease string

fun tracked_step :: "CapacityAdmission \<times> string list \<Rightarrow> job_op \<Rightarrow> CapacityAdmission \<times> string list" where
  "tracked_step (c, live) (JobAdmit j) =
     (case Admit c of (c', None) \<Rightarrow> (c', live @ [j]) | (c', Some e) \<Rightarrow> (c', live))"
| "tracked_step (c, live) (JobRelease j) = (Release c, remove1 j live)"

text \<open>A history in which only live jobs are released.\<close>

fun releases_live :: "CapacityAdmission \<times> string list \<Rightarrow> job_op list \<Rightarrow> bool" where
  "releases_live s [] \<longleftrightarrow> True"
| "releases_live s (JobAdmit j # ops) \<longleftrightarrow> releases_live (tracked_step s (JobAdmit j)) ops"
| "releases_live s (JobRelease j # ops) \<longleftrightarrow>
     j \<in> set (snd s) \<and> releases_live (tracked_step s (JobRelease j)) ops"

lemma tracked_step_count:
  assumes "capacity_inv m c" and "ca_active c = int (length live)"
    and "\<And>j. op = JobRelease j \<Longrightarrow> j \<in> set live" and "tracked_step (c, live) op = (c', live')"
  shows "capacity_inv m c' \<and> ca_active c' = int (length live')"
proof (cases op)
  case (JobAdmit j)
  with assms show ?thesis
    by (auto simp: Admit_def capacity_inv_def in_i32_def split: if_splits)
next
  case (JobRelease j)
  with assms(3) have "length (remove1 j live) = length live - 1" "live \<noteq> []"
    by (auto simp: length_remove1)
  with JobRelease assms show ?thesis
    by (cases live) (auto simp: Release_def capacity_inv_def in_i32_def)
qed

lemma tracked_run_count:
  assumes "capacity_inv m c" and "ca_active c = int (length live)" and "releases_live (c, live) ops"
    and "foldl tracked_step (c, live) ops = (c', live')"
  shows "capacity_inv m c' \<and> ca_active c' = int (length live')"
  using assms
proof (induction ops arbitrary: c live)
  case (Cons op ops)
  obtain c1 live1 where st: "tracked_step (c, live) op = (c1, live1)"
    by (cases "tracked_step (c, live) op")
  have rel: "j \<in> set live" if "op = JobRelease j" for j using Cons.prems(3) that by simp
  note one = tracked_step_count [OF Cons.prems(1,2) rel st]
  from Cons.prems(3) st have "releases_live (c1, live1) ops" by (cases op) simp_all
  from Cons.IH [OF conjunct1 [OF one] conjunct2 [OF one] this] Cons.prems(4) st show ?case by simp
qed simp

end
