(* ===== verification/PoolController.thy ===== *)
theory PoolController
  imports JobController
begin

text \<open>
  The warm pool of Pods (\<open>pool_controller.go\<close>): classification of the pool's Pods, the
  scaling decision, the Pod template, and the claim of an idle Pod. Go's \<open>int\<close> has 64 bits;
  Pod counts are lengths of lists. The quantity parser of the API machinery is the parameter
  \<open>parse\<close>; \<open>MustParse\<close> panics where it fails, which is the result \<open>None\<close>. The iteration order
  of the template's environment map is the order of its list.
\<close>

subsection \<open>buildPoolPod\<close>

type_synonym quantity_parser = "string \<Rightarrow> string option"

definition buildPoolEnvVars :: "(string \<times> string) list \<Rightarrow> env_var list" where
  "buildPoolEnvVars env = map (\<lambda>(k, v). \<lparr>ev_name = k, ev_value = v\<rparr>) env"

definition buildPoolResources :: "quantity_parser \<Rightarrow> ResourceSpec \<Rightarrow> resource_reqs option" where
  "buildPoolResources parse spec =
     (let reqs = \<lparr>rr_requests = Map.empty, rr_limits = Map.empty\<rparr>;
          add = (\<lambda>name value r. if value = [] then Some r else case parse value of
                   None \<Rightarrow> None
                 | Some q \<Rightarrow> Some (r\<lparr>rr_requests := (rr_requests r)(name \<mapsto> q),
                                     rr_limits := (rr_limits r)(name \<mapsto> q)\<rparr>))
      in case add ''cpu'' (rs_cpu spec) reqs of
           None \<Rightarrow> None
         | Some reqs \<Rightarrow> add ''memory'' (rs_memory spec) reqs)"

definition buildPoolPod :: "quantity_parser \<Rightarrow> SandboxPool \<Rightarrow> pod option" where
  "buildPoolPod parse l =
     (let t = pl_template (l_spec l)
      in case buildPoolResources parse (pt_resources t) of
           None \<Rightarrow> None
         | Some resources \<Rightarrow> Some
             \<lparr>p_meta = \<lparr>om_name = [], om_generate_name = om_name (l_meta l) @ ''-'',
                om_namespace = om_namespace (l_meta l), om_uid = [],
                om_labels = [''durarun.io/pool'' \<mapsto> om_name (l_meta l), ''durarun.io/pool-state'' \<mapsto> ''idle'',
                  ''durarun.io/managed-by'' \<mapsto> ''pool-controller''],
                om_annotations = Map.empty, om_owners = [], om_finalizers = [], om_deletion = None\<rparr>,
              p_spec = \<lparr>sp_restart_never = True, sp_init = [],
                sp_containers = [\<lparr>co_name = ''agent'', co_image = pt_image t,
                  co_command = (if pt_command t = [] then [''sleep'', ''infinity''] else pt_command t),
                  co_args = [], co_env = buildPoolEnvVars (pt_env t), co_resources = Some resources,
                  co_security = None, co_mounts = []\<rparr>],
                sp_volumes = [], sp_security = None, sp_automount_token = Some False,
                sp_runtime_class = (if pl_runtime_class (l_spec l) \<noteq> []
                  then Some (pl_runtime_class (l_spec l)) else None)\<rparr>,
              p_status = \<lparr>pst_phase = PodPhaseUnset, pst_reason = [], pst_conditions = [],
                pst_containers = []\<rparr>\<rparr>)"

subsection \<open>Classification\<close>

datatype pool_class = Terminating | Idle | Claimed | Pending | OtherState

definition pool_state :: "pod \<Rightarrow> string" where
  "pool_state p = map_get (om_labels (p_meta p)) ''durarun.io/pool-state''"

definition classify :: "pod \<Rightarrow> pool_class" where
  "classify p =
     (if om_deletion (p_meta p) \<noteq> None then Terminating
      else if pst_phase (p_status p) = PodRunning \<and> pool_state p = ''idle'' then Idle
      else if pst_phase (p_status p) = PodRunning \<and> pool_state p = ''claimed'' then Claimed
      else if pst_phase (p_status p) = PodPending then Pending
      else OtherState)"

definition idle_pods :: "pod list \<Rightarrow> pod list" where
  "idle_pods ps = filter (\<lambda>p. classify p = Idle) ps"

definition count_class :: "pool_class \<Rightarrow> pod list \<Rightarrow> nat" where
  "count_class c ps = length (filter (\<lambda>p. classify p = c) ps)"

definition pool_total :: "pod list \<Rightarrow> nat" where
  "pool_total ps = count_class Idle ps + count_class Claimed ps + count_class Pending ps"

subsection \<open>Scaling\<close>

datatype pool_stop = Panic | PoolError gerr

text \<open>One new Pod, owned and created; the third alternative of the result is a panic.\<close>

definition create_pool_pod ::
  "'w kube \<Rightarrow> quantity_parser \<Rightarrow> SandboxPool \<Rightarrow> 'w world \<Rightarrow> (pool_stop + unit) \<times> 'w world" where
  "create_pool_pod k parse l s =
     (case buildPoolPod parse l of
        None \<Rightarrow> (Inl Panic, s)
      | Some p \<Rightarrow>
          (case k_own_pool_pod k l p of
             Inl e \<Rightarrow> (Inl (PoolError (Wrapped ''set pool pod owner ref'' (ApiErr e))), s)
           | Inr p \<Rightarrow>
               (case create_pod k p s of
                  (Inl e, s) \<Rightarrow> (Inl (PoolError (Wrapped ''create pool pod'' (ApiErr e))), s)
                | (Inr _, s) \<Rightarrow> (Inr (), s))))"

text \<open>
  The creation loops: at most \<open>n\<close> rounds, a round while \<open>goon added\<close>; the result is how many
  Pods were created.
\<close>

fun create_pool_pods ::
  "'w kube \<Rightarrow> quantity_parser \<Rightarrow> SandboxPool \<Rightarrow> (nat \<Rightarrow> bool) \<Rightarrow> nat \<Rightarrow> nat \<Rightarrow> 'w world \<Rightarrow>
   (pool_stop + nat) \<times> 'w world" where
  "create_pool_pods k parse l goon 0 added s = (Inr added, s)"
| "create_pool_pods k parse l goon (Suc n) added s =
     (if \<not> goon added then (Inr added, s)
      else case create_pool_pod k parse l s of
        (Inl e, s) \<Rightarrow> (Inl e, s)
      | (Inr _, s) \<Rightarrow> create_pool_pods k parse l goon n (Suc added) s)"

text \<open>The deletion loop over the idle Pods, with the total fixed at the start.\<close>

fun delete_pool_pods ::
  "'w kube \<Rightarrow> int \<Rightarrow> int \<Rightarrow> pod list \<Rightarrow> nat \<Rightarrow> 'w world \<Rightarrow> (pool_stop + nat) \<times> 'w world" where
  "delete_pool_pods k tot minSize [] removed s = (Inr removed, s)"
| "delete_pool_pods k tot minSize (p # ps) removed s =
     (if tot - int removed \<le> minSize then (Inr removed, s)
      else case delete_pod k p s of
        (Some e, s) \<Rightarrow>
          if e \<noteq> NotFound then (Inl (PoolError (Wrapped ''delete idle pod'' (ApiErr e))), s)
          else delete_pool_pods k tot minSize ps (Suc removed) s
      | (None, s) \<Rightarrow> delete_pool_pods k tot minSize ps (Suc removed) s)"

definition cooldownOK :: "SandboxPool \<Rightarrow> instant \<Rightarrow> bool" where
  "cooldownOK l now =
     (case po_last_scale (l_status l) of
        None \<Rightarrow> True
      | Some t \<Rightarrow> time_sub now t \<ge> seconds (pl_cooldown (l_spec l)))"

definition scaled_text :: "string \<Rightarrow> nat \<Rightarrow> string \<Rightarrow> int \<Rightarrow> string" where
  "scaled_text verb n mid tot = verb @ show_int (int n) @ mid @ show_int tot"

definition scale_pool_up ::
  "'w kube \<Rightarrow> bool \<Rightarrow> quantity_parser \<Rightarrow> SandboxPool \<Rightarrow> nat \<Rightarrow> 'w world \<Rightarrow> (pool_stop + bool) \<times> 'w world" where
  "scale_pool_up k recording parse l tot s =
     (case create_pool_pods k parse l (\<lambda>added. int tot + int added < pl_max_size (l_spec l))
             (nat (pl_scale_up_step (l_spec l))) 0 s of
        (Inl e, s) \<Rightarrow> (Inl e, s)
      | (Inr added, s) \<Rightarrow>
          (Inr (added > 0),
           if added > 0
           then record_event recording ''Normal'' ''ScaledUp''
             (scaled_text ''Created '' added '' pod(s), total='' (int tot + int added)) s
           else s))"

definition scale_pool_down ::
  "'w kube \<Rightarrow> bool \<Rightarrow> SandboxPool \<Rightarrow> nat \<Rightarrow> pod list \<Rightarrow> 'w world \<Rightarrow> (pool_stop + bool) \<times> 'w world" where
  "scale_pool_down k recording l tot idlePods s =
     (case delete_pool_pods k (int tot) (pl_min_size (l_spec l)) idlePods 0 s of
        (Inl e, s) \<Rightarrow> (Inl e, s)
      | (Inr removed, s) \<Rightarrow>
          (Inr (removed > 0),
           if removed > 0
           then record_event recording ''Normal'' ''ScaledDown''
             (scaled_text ''Removed '' removed '' idle pod(s), total='' (int tot - int removed)) s
           else s))"

definition initialize_pool ::
  "'w kube \<Rightarrow> bool \<Rightarrow> quantity_parser \<Rightarrow> SandboxPool \<Rightarrow> 'w world \<Rightarrow> (pool_stop + bool) \<times> 'w world" where
  "initialize_pool k recording parse l s =
     (case create_pool_pods k parse l (\<lambda>_. True) (nat (pl_min_size (l_spec l))) 0 s of
        (Inl e, s) \<Rightarrow> (Inl e, s)
      | (Inr added, s) \<Rightarrow>
          (Inr (added > 0),
           if added > 0
           then record_event recording ''Normal'' ''ScaledUp''
             (''Initialized pool with '' @ show_int (int added) @ '' pod(s)'') s
           else s))"

definition wants_up :: "SandboxPool \<Rightarrow> instant \<Rightarrow> nat \<Rightarrow> nat \<Rightarrow> bool" where
  "wants_up l now idle tot \<longleftrightarrow> fdiv64 idle tot < pl_scale_up (l_spec l) \<and> cooldownOK l now"

definition wants_down :: "SandboxPool \<Rightarrow> instant \<Rightarrow> nat \<Rightarrow> nat \<Rightarrow> bool" where
  "wants_down l now idle tot \<longleftrightarrow>
     fdiv64 idle tot > pl_scale_down (l_spec l) \<and> int tot > pl_min_size (l_spec l) \<and> cooldownOK l now"

text \<open>Step 4: both checks use the counts taken before scaling.\<close>

definition scale_pool ::
  "'w kube \<Rightarrow> bool \<Rightarrow> quantity_parser \<Rightarrow> instant \<Rightarrow> SandboxPool \<Rightarrow> pod list \<Rightarrow> 'w world \<Rightarrow>
   (pool_stop + bool) \<times> 'w world" where
  "scale_pool k recording parse now l ps s =
     (let tot = pool_total ps; idle = count_class Idle ps
      in if tot > 0 then
           (case (if wants_up l now idle tot then scale_pool_up k recording parse l tot s else (Inr False, s)) of
              (Inl e, s) \<Rightarrow> (Inl e, s)
            | (Inr up, s) \<Rightarrow>
                (case (if wants_down l now idle tot then scale_pool_down k recording l tot (idle_pods ps) s
                       else (Inr False, s)) of
                   (Inl e, s) \<Rightarrow> (Inl e, s)
                 | (Inr down, s) \<Rightarrow> (Inr (up \<or> down), s)))
         else if pl_min_size (l_spec l) > 0 then initialize_pool k recording parse l s
         else (Inr False, s))"

definition pool_status_after :: "SandboxPool \<Rightarrow> instant \<Rightarrow> pod list \<Rightarrow> bool \<Rightarrow> SandboxPool" where
  "pool_status_after l now ps scaled =
     l\<lparr>l_status := (l_status l)
        \<lparr>po_total := int (pool_total ps), po_idle := int (count_class Idle ps),
         po_claimed := int (count_class Claimed ps), po_ready := count_class Idle ps > 0,
         po_last_scale := (if scaled then Some now else po_last_scale (l_status l))\<rparr>\<rparr>"

definition PoolReconcile ::
  "'w kube \<Rightarrow> bool \<Rightarrow> quantity_parser \<Rightarrow> instant \<Rightarrow> string \<Rightarrow> string \<Rightarrow> 'w world \<Rightarrow>
   (pool_stop + ctrl_result) \<times> 'w world" where
  "PoolReconcile k recording parse now ns name s =
     (case read_world (k_get_pool k ns name) s of
        (Inl NotFound, s) \<Rightarrow> (Inr Finished, s)
      | (Inl e, s) \<Rightarrow> (Inl (PoolError (ApiErr e)), s)
      | (Inr l, s) \<Rightarrow>
          (case read_world (k_list_pods k (om_namespace (l_meta l)) [(''durarun.io/pool'', om_name (l_meta l))]) s of
             (Inl e, s) \<Rightarrow> (Inl (PoolError (Wrapped ''list pool pods'' (ApiErr e))), s)
           | (Inr ps, s) \<Rightarrow>
               (case scale_pool k recording parse now l ps s of
                  (Inl e, s) \<Rightarrow> (Inl e, s)
                | (Inr scaled, s) \<Rightarrow>
                    (case update_pool_status k (pool_status_after l now ps scaled) s of
                       (Inl e, s) \<Rightarrow> (Inl (PoolError (Wrapped ''update pool status'' (ApiErr e))), s)
                     | (Inr _, s) \<Rightarrow> (Inr (RequeueAfter (30 * second)), s)))))"

subsection \<open>ClaimPoolPod\<close>

definition claim_labels :: "string \<Rightarrow> pod \<Rightarrow> pod" where
  "claim_labels jobName p =
     p\<lparr>p_meta := (p_meta p)\<lparr>om_labels := (om_labels (p_meta p))
        (''durarun.io/pool-state'' \<mapsto> ''claimed'', ''durarun.io/job'' \<mapsto> jobName)\<rparr>\<rparr>"

text \<open>The two API calls of a claim, as separate steps: other clients may run in between.\<close>

definition claim_pick ::
  "'w kube \<Rightarrow> string \<Rightarrow> string \<Rightarrow> 'w world \<Rightarrow> (api_error + pod option) \<times> 'w world" where
  "claim_pick k poolName ns s =
     (case read_world (k_list_pods k ns
             [(''durarun.io/pool'', poolName), (''durarun.io/pool-state'', ''idle'')]) s of
        (Inl e, s) \<Rightarrow> (Inl e, s)
      | (Inr [], s) \<Rightarrow> (Inr None, s)
      | (Inr (p # _), s) \<Rightarrow> (Inr (Some p), s))"

definition claim_patch ::
  "'w kube \<Rightarrow> string \<Rightarrow> pod \<Rightarrow> 'w world \<Rightarrow> (api_error + pod option) \<times> 'w world" where
  "claim_patch k jobName p s =
     (case patch_pod k p (claim_labels jobName p) s of
        (Inl e, s) \<Rightarrow> (Inl e, s)
      | (Inr p, s) \<Rightarrow> (Inr (Some p), s))"

definition ClaimPoolPod ::
  "'w kube \<Rightarrow> string \<Rightarrow> string \<Rightarrow> string \<Rightarrow> 'w world \<Rightarrow> (api_error + pod option) \<times> 'w world" where
  "ClaimPoolPod k poolName ns jobName s =
     (case claim_pick k poolName ns s of
        (Inl e, s) \<Rightarrow> (Inl e, s)
      | (Inr None, s) \<Rightarrow> (Inr None, s)
      | (Inr (Some p), s) \<Rightarrow> claim_patch k jobName p s)"

subsection \<open>What scaling does\<close>

definition deleted_pods :: "'w world \<Rightarrow> pod list" where
  "deleted_pods s = concat (map (\<lambda>e. case e of EDeletePod p \<Rightarrow> [p] | _ \<Rightarrow> []) (snd s))"

lemma pod_log_append:
  "snd s' = snd s @ es \<Longrightarrow> created_pods s' = created_pods s @ created_pods (w, es)"
  "snd s' = snd s @ es \<Longrightarrow> deleted_pods s' = deleted_pods s @ deleted_pods (w, es)"
  by (simp_all add: created_pods_def deleted_pods_def)

lemma pod_log_created [simp]:
  "created_pods (w, map ECreatePod ps) = ps" "deleted_pods (w, map ECreatePod ps) = []"
  by (induction ps) (simp_all add: created_pods_def deleted_pods_def)

lemma pod_log_deleted [simp]:
  "created_pods (w, map EDeletePod ps) = []" "deleted_pods (w, map EDeletePod ps) = ps"
  by (induction ps) (simp_all add: created_pods_def deleted_pods_def)

lemma pod_log_event [simp]:
  "created_pods (record_event b t r m s) = created_pods s"
  "deleted_pods (record_event b t r m s) = deleted_pods s"
  by (simp_all add: record_event_def emit_event_def created_pods_def deleted_pods_def)

lemma create_pool_pod_log:
  assumes "create_pool_pod k parse l s = (r, s')"
  shows "\<exists>ps. snd s' = snd s @ map ECreatePod ps \<and> length ps \<le> 1 \<and> (\<not> isl r \<longrightarrow> length ps = 1)"
proof (cases "buildPoolPod parse l")
  case None
  with assms show ?thesis by (auto simp: create_pool_pod_def)
next
  case b: (Some p)
  show ?thesis
  proof (cases "k_own_pool_pod k l p")
    case (Inl e)
    with b assms show ?thesis by (auto simp: create_pool_pod_def)
  next
    case (Inr p')
    obtain c s1 where c: "create_pod k p' s = (c, s1)" by (cases "create_pod k p' s")
    from assms b Inr c have "s' = s1" by (cases c) (auto simp: create_pool_pod_def)
    with create_pod_log [OF c] show ?thesis by (intro exI [of _ "[p']"]) simp
  qed
qed

lemma create_pool_pods_log:
  assumes "create_pool_pods k parse l goon n added s = (r, s')"
  shows "\<exists>ps. snd s' = snd s @ map ECreatePod ps \<and> length ps \<le> n \<and>
    (\<forall>i<length ps. goon (added + i)) \<and> (\<forall>m. r = Inr m \<longrightarrow> m = added + length ps)"
  using assms
proof (induction n arbitrary: added s)
  case 0
  then show ?case by auto
next
  case (Suc n)
  show ?case
  proof (cases "goon added")
    case False
    with Suc.prems show ?thesis by auto
  next
    case go: True
    obtain c s1 where c: "create_pool_pod k parse l s = (c, s1)" by (cases "create_pool_pod k parse l s")
    from create_pool_pod_log [OF c] obtain ps where ps: "snd s1 = snd s @ map ECreatePod ps"
      "length ps \<le> 1" "\<not> isl c \<longrightarrow> length ps = 1" by blast
    show ?thesis
    proof (cases c)
      case (Inl e)
      with Suc.prems go c have "r = Inl e" "s' = s1" by auto
      moreover have "goon (added + i)" if "i < length ps" for i
        using ps(2) go that by (cases i) auto
      ultimately show ?thesis using ps by (intro exI [of _ ps]) auto
    next
      case (Inr u)
      with Suc.prems go c have "create_pool_pods k parse l goon n (Suc added) s1 = (r, s')" by simp
      from Suc.IH [OF this] obtain qs where qs: "snd s' = snd s1 @ map ECreatePod qs" "length qs \<le> n"
        "\<forall>i<length qs. goon (Suc added + i)" "\<forall>m. r = Inr m \<longrightarrow> m = Suc added + length qs" by blast
      from Inr ps(3) have "length ps = 1" by simp
      moreover have "goon (added + i)" if "i < Suc (length qs)" for i
        using that go qs(3) by (cases i) auto
      ultimately show ?thesis using ps(1) qs by (intro exI [of _ "ps @ qs"]) auto
    qed
  qed
qed

lemma delete_pool_pods_log:
  assumes "delete_pool_pods k tot m ps removed s = (r, s')"
  shows "\<exists>ds. snd s' = snd s @ map EDeletePod ds \<and> (\<exists>rest. ps = ds @ rest) \<and>
    (ds \<noteq> [] \<longrightarrow> tot - int removed - int (length ds) \<ge> m) \<and>
    (\<forall>n. r = Inr n \<longrightarrow> n = removed + length ds)"
  using assms
proof (induction ps arbitrary: removed s)
  case Nil
  then show ?case by auto
next
  case (Cons p ps)
  show ?case
  proof (cases "tot - int removed \<le> m")
    case True
    with Cons.prems show ?thesis by auto
  next
    case False
    obtain d s1 where d: "delete_pod k p s = (d, s1)" by (cases "delete_pod k p s")
    note l = delete_pod_log [OF d]
    show ?thesis
    proof (cases "d = None \<or> d = Some NotFound")
      case True
      with False Cons.prems d have "delete_pool_pods k tot m ps (Suc removed) s1 = (r, s')" by auto
      from Cons.IH [OF this] obtain ds rest where ds: "snd s' = snd s1 @ map EDeletePod ds"
        "ps = ds @ rest" "ds \<noteq> [] \<longrightarrow> tot - int (Suc removed) - int (length ds) \<ge> m"
        "\<forall>n. r = Inr n \<longrightarrow> n = Suc removed + length ds" by blast
      with l False show ?thesis
        by (intro exI [of _ "p # ds"]) (cases ds; auto)
    next
      case err: False
      with False Cons.prems d have "s' = s1" "\<forall>n. r \<noteq> Inr n" by (auto split: option.splits if_splits)
      with l False show ?thesis by (intro exI [of _ "[p]"]) auto
    qed
  qed
qed


lemma scale_pool_up_pods:
  assumes "scale_pool_up k rec parse l tot s = (r, s')"
  shows "deleted_pods s' = deleted_pods s \<and>
    (\<exists>ps. created_pods s' = created_pods s @ ps \<and> length ps \<le> nat (pl_scale_up_step (l_spec l)) \<and>
      (ps \<noteq> [] \<longrightarrow> int tot + int (length ps) \<le> pl_max_size (l_spec l)))"
proof -
  let ?goon = "\<lambda>added. int tot + int added < pl_max_size (l_spec l)"
  obtain c s1 where c: "create_pool_pods k parse l ?goon (nat (pl_scale_up_step (l_spec l))) 0 s = (c, s1)"
    by (cases "create_pool_pods k parse l ?goon (nat (pl_scale_up_step (l_spec l))) 0 s")
  from create_pool_pods_log [OF c] obtain ps where ps: "snd s1 = snd s @ map ECreatePod ps"
    "length ps \<le> nat (pl_scale_up_step (l_spec l))" "\<forall>i<length ps. ?goon (0 + i)" by blast
  have "ps \<noteq> [] \<longrightarrow> int tot + int (length ps) \<le> pl_max_size (l_spec l)"
    using ps(3) [rule_format, of "length ps - 1"] by (cases ps) auto
  moreover have "created_pods s' = created_pods s1 \<and> deleted_pods s' = deleted_pods s1"
    using assms c by (cases c) (auto simp: scale_pool_up_def split: if_splits)
  ultimately show ?thesis using pod_log_append [OF ps(1)] ps(2) by auto
qed

lemma scale_pool_down_pods:
  assumes "scale_pool_down k rec l tot idle s = (r, s')"
  shows "created_pods s' = created_pods s \<and>
    (\<exists>ds rest. deleted_pods s' = deleted_pods s @ ds \<and> idle = ds @ rest \<and>
      (ds \<noteq> [] \<longrightarrow> int tot - int (length ds) \<ge> pl_min_size (l_spec l)))"
proof -
  obtain c s1 where c: "delete_pool_pods k (int tot) (pl_min_size (l_spec l)) idle 0 s = (c, s1)"
    by (cases "delete_pool_pods k (int tot) (pl_min_size (l_spec l)) idle 0 s")
  from delete_pool_pods_log [OF c] obtain ds rest where ds: "snd s1 = snd s @ map EDeletePod ds"
    "idle = ds @ rest" "ds \<noteq> [] \<longrightarrow> int tot - int 0 - int (length ds) \<ge> pl_min_size (l_spec l)" by blast
  have "created_pods s' = created_pods s1 \<and> deleted_pods s' = deleted_pods s1"
    using assms c by (cases c) (auto simp: scale_pool_down_def split: if_splits)
  with pod_log_append [OF ds(1)] ds(2,3) show ?thesis by auto
qed

lemma initialize_pool_pods:
  assumes "initialize_pool k rec parse l s = (r, s')"
  shows "deleted_pods s' = deleted_pods s \<and>
    (\<exists>ps. created_pods s' = created_pods s @ ps \<and> length ps \<le> nat (pl_min_size (l_spec l)))"
proof -
  obtain c s1 where c: "create_pool_pods k parse l (\<lambda>_. True) (nat (pl_min_size (l_spec l))) 0 s = (c, s1)"
    by (cases "create_pool_pods k parse l (\<lambda>_. True) (nat (pl_min_size (l_spec l))) 0 s")
  from create_pool_pods_log [OF c] obtain ps where ps: "snd s1 = snd s @ map ECreatePod ps"
    "length ps \<le> nat (pl_min_size (l_spec l))" by blast
  have "created_pods s' = created_pods s1 \<and> deleted_pods s' = deleted_pods s1"
    using assms c by (cases c) (auto simp: initialize_pool_def split: if_splits)
  with pod_log_append [OF ps(1)] ps(2) show ?thesis by auto
qed

text \<open>What one pass of the pool may create and delete, given the Pods it saw.\<close>

definition scaling_ok :: "SandboxPool \<Rightarrow> instant \<Rightarrow> pod list \<Rightarrow> pod list \<Rightarrow> pod list \<Rightarrow> bool" where
  "scaling_ok l now ps cs ds \<longleftrightarrow>
     (\<exists>rest. idle_pods ps = ds @ rest) \<and>
     (ds \<noteq> [] \<longrightarrow> int (pool_total ps) - int (length ds) \<ge> pl_min_size (l_spec l)) \<and>
     (if pool_total ps = 0 then ds = [] \<and> length cs \<le> nat (pl_min_size (l_spec l))
      else (cs \<noteq> [] \<longrightarrow> int (pool_total ps) + int (length cs) \<le> pl_max_size (l_spec l)) \<and>
           length cs \<le> nat (pl_scale_up_step (l_spec l)) \<and>
           (cs \<noteq> [] \<or> ds \<noteq> [] \<longrightarrow> cooldownOK l now) \<and>
           (pl_scale_up (l_spec l) \<le> pl_scale_down (l_spec l) \<longrightarrow> cs = [] \<or> ds = []))"

lemma scale_pool_ok:
  assumes "scale_pool k rec parse now l ps s = (r, s')"
    and "created_pods s = []" and "deleted_pods s = []"
  shows "scaling_ok l now ps (created_pods s') (deleted_pods s')"
proof (cases "pool_total ps = 0")
  case True
  with assms initialize_pool_pods [of k rec parse l s r s'] show ?thesis
    by (auto simp: scale_pool_def Let_def scaling_ok_def split: if_splits)
next
  case False
  let ?up = "wants_up l now (count_class Idle ps) (pool_total ps)"
  let ?down = "wants_down l now (count_class Idle ps) (pool_total ps)"
  let ?u = "if ?up then scale_pool_up k rec parse l (pool_total ps) s else (Inr False, s)"
  obtain u s1 where u: "?u = (u, s1)" by (cases ?u)
  have up: "deleted_pods s1 = [] \<and> (created_pods s1 \<noteq> [] \<longrightarrow> ?up \<and>
      int (pool_total ps) + int (length (created_pods s1)) \<le> pl_max_size (l_spec l)) \<and>
      length (created_pods s1) \<le> nat (pl_scale_up_step (l_spec l))"
    using u scale_pool_up_pods [of k rec parse l "pool_total ps" s u s1] assms(2,3)
    by (auto split: if_splits)
  have down: "created_pods s' = created_pods s1 \<and>
    (\<exists>rest. idle_pods ps = deleted_pods s' @ rest) \<and> (deleted_pods s' \<noteq> [] \<longrightarrow> ?down \<and>
      int (pool_total ps) - int (length (deleted_pods s')) \<ge> pl_min_size (l_spec l))"
  proof (cases "isl u \<or> \<not> ?down")
    case True
    with assms(1) False u have "s' = s1"
      by (auto simp: scale_pool_def Let_def split: sum.splits)
    with up show ?thesis by simp
  next
    case d: False
    then obtain b where "u = Inr b" by (cases u) auto
    obtain v s2 where v: "scale_pool_down k rec l (pool_total ps) (idle_pods ps) s1 = (v, s2)"
      by (cases "scale_pool_down k rec l (pool_total ps) (idle_pods ps) s1")
    with assms(1) False u d \<open>u = Inr b\<close> have "s' = s2"
      by (cases v) (auto simp: scale_pool_def Let_def)
    with scale_pool_down_pods [OF v] d up show ?thesis by auto
  qed
  have "pl_scale_up (l_spec l) \<le> pl_scale_down (l_spec l) \<Longrightarrow> \<not> (?up \<and> ?down)"
    by (auto simp: wants_up_def wants_down_def)
  with False up down show ?thesis
    by (auto simp: scaling_ok_def wants_up_def wants_down_def)
qed

end
