(* ===== verification/ControlProperties.thy ===== *)
theory ControlProperties
  imports JobProperties Finalizer Webhook PoolController
begin

text \<open>
  Properties of the operator's other parts: pool scaling, capacity, admission, retry and
  backoff, time-to-live, result fencing, Pod construction, finalization and the rule that a
  job ends once.
\<close>

subsection \<open>Pools\<close>

text \<open>C27: One pass over a sandbox pool, with any API client. It deletes only Pods that were
  listed, running, idle and not already terminating, a prefix of them, and never goes below
  MinSize; it never deletes a claimed Pod. With Pods present it creates no more than
  ScaleUpStep Pods, never goes above MaxSize, does nothing during the cooldown, and does not
  both create and delete when the thresholds are ordered. An empty pool gets at most
  MinSize Pods.\<close>

theorem pool_scaling_bounds:
  assumes "k_get_pool k ns name w = (Inr l, w1)"
    and "k_list_pods k (om_namespace (l_meta l)) [(''durarun.io/pool'', om_name (l_meta l))] w1 = (Inr ps, w2)"
    and "PoolReconcile k recording parse now ns name (w, []) = (r, s')"
  shows "scaling_ok l now ps (created_pods s') (deleted_pods s') \<and>
    (\<forall>p\<in>set (deleted_pods s'). p \<in> set ps \<and> classify p = Idle)"
proof -
  obtain q s1 where sc: "scale_pool k recording parse now l ps (w2, []) = (q, s1)"
    by (cases "scale_pool k recording parse now l ps (w2, [])")
  have ok: "scaling_ok l now ps (created_pods s1) (deleted_pods s1)"
    by (rule scale_pool_ok [OF sc]) (simp_all add: created_pods_def deleted_pods_def)
  have "created_pods s' = created_pods s1 \<and> deleted_pods s' = deleted_pods s1"
  proof (cases q)
    case (Inl e)
    with assms sc show ?thesis by (simp add: PoolReconcile_def read_world_def)
  next
    case (Inr b)
    obtain u s2 where u: "update_pool_status k (pool_status_after l now ps b) s1 = (u, s2)"
      by (cases "update_pool_status k (pool_status_after l now ps b) s1")
    from assms sc Inr u have "s' = s2" by (cases u) (auto simp: PoolReconcile_def read_world_def)
    with update_pool_status_log [OF u] show ?thesis
      by (simp add: created_pods_def deleted_pods_def)
  qed
  moreover from ok have "\<forall>p\<in>set (deleted_pods s1). p \<in> set ps \<and> classify p = Idle"
  proof -
    from ok obtain rest where "idle_pods ps = deleted_pods s1 @ rest" unfolding scaling_ok_def by blast
    then have "set (deleted_pods s1) \<subseteq> set (idle_pods ps)" by simp
    then show ?thesis by (auto simp: idle_pods_def)
  qed
  ultimately show ?thesis using ok by simp
qed

definition demo_pool :: SandboxPool where
  "demo_pool =
     \<lparr>l_meta = \<lparr>om_name = ''pool'', om_generate_name = [], om_namespace = ''ns'', om_uid = ''up'',
        om_labels = Map.empty, om_annotations = Map.empty, om_owners = [], om_finalizers = [],
        om_deletion = None\<rparr>,
      l_spec = \<lparr>pl_min_size = 2, pl_max_size = 4, pl_scale_up = 1 / 4, pl_scale_down = 3 / 4,
        pl_scale_up_step = 2, pl_cooldown = 60,
        pl_template = \<lparr>pt_image = ''img'', pt_resources = \<lparr>rs_cpu = [], rs_memory = []\<rparr>,
          pt_command = [], pt_env = []\<rparr>, pl_runtime_class = []\<rparr>,
      l_status = \<lparr>po_total = 0, po_idle = 0, po_claimed = 0, po_ready = False, po_last_scale = None\<rparr>\<rparr>"

theorem pool_scaling_bounds_witness:
  "scaling_ok demo_pool 0 []
     (created_pods (snd (PoolReconcile mem_kube True Some 0 ''ns'' ''pool''
        (\<lparr>m_jobs = [], m_attempts = [], m_pods = [], m_pools = [demo_pool]\<rparr>, []))))
     (deleted_pods (snd (PoolReconcile mem_kube True Some 0 ''ns'' ''pool''
        (\<lparr>m_jobs = [], m_attempts = [], m_pods = [], m_pools = [demo_pool]\<rparr>, []))))"
proof -
  let ?w = "\<lparr>m_jobs = [], m_attempts = [], m_pods = [], m_pools = [demo_pool]\<rparr>"
  have g: "k_get_pool mem_kube ''ns'' ''pool'' ?w = (Inr demo_pool, ?w)"
    by (simp add: lookup_object_def has_key_def demo_pool_def)
  have l: "k_list_pods mem_kube (om_namespace (l_meta demo_pool))
      [(''durarun.io/pool'', om_name (l_meta demo_pool))] ?w = (Inr [], ?w)" by simp
  show ?thesis by (rule conjunct1 [OF pool_scaling_bounds [OF g l surjective_pairing]])
qed

text \<open>Claiming is not exclusive. The claim is a label patch computed from the listed Pod
  and carries no resource version: two controllers that listed before either patched are
  both given the same Pod, each believing it is theirs.\<close>

theorem claim_race:
  "\<exists>w p p1 p2 w1 w2.
     claim_pick mem_kube ''pool'' ''ns'' (w, []) = (Inr (Some p), (w, [])) \<and>
     claim_patch mem_kube ''job-a'' p (w, []) = (Inr (Some p1), w1) \<and>
     claim_patch mem_kube ''job-b'' p w1 = (Inr (Some p2), w2) \<and>
     pod_uid p1 = pod_uid p2 \<and> om_labels (p_meta p1) ''durarun.io/job'' = Some ''job-a'' \<and>
     om_labels (p_meta p2) ''durarun.io/job'' = Some ''job-b''"
proof -
  let ?p = "(demo_pod PodRunning)\<lparr>p_meta := (p_meta (demo_pod PodRunning))\<lparr>om_labels :=
      [''durarun.io/pool'' \<mapsto> ''pool'', ''durarun.io/pool-state'' \<mapsto> ''idle'']\<rparr>\<rparr>"
  let ?w = "\<lparr>m_jobs = [], m_attempts = [], m_pods = [?p], m_pools = []\<rparr> :: mem"
  have pick: "claim_pick mem_kube ''pool'' ''ns'' (?w, []) = (Inr (Some ?p), (?w, []))"
    by (simp add: claim_pick_def read_world_def selected_def demo_pod_def)
  obtain w1 where 1: "claim_patch mem_kube ''job-a'' ?p (?w, []) = (Inr (Some (claim_labels ''job-a'' ?p)), w1)"
    by (simp add: claim_patch_def patch_pod_def)
  obtain w2 where 2: "claim_patch mem_kube ''job-b'' ?p w1 = (Inr (Some (claim_labels ''job-b'' ?p)), w2)"
    by (simp add: claim_patch_def patch_pod_def)
  from pick 1 2 show ?thesis by (intro exI conjI) (assumption | simp add: claim_labels_def)+
qed

subsection \<open>Admission\<close>

text \<open>The capacity gate counts live jobs exactly and never exceeds its limit, over any
  history of admissions and releases in which only live jobs are released.\<close>

theorem capacity_counts_live_jobs:
  assumes "0 \<le> m" and "in_i32 m"
    and "releases_live (\<lparr>ca_max = m, ca_active = 0\<rparr>, []) ops"
    and "foldl tracked_step (\<lparr>ca_max = m, ca_active = 0\<rparr>, []) ops = (c, live)"
  shows "ca_active c = int (length live) \<and> int (length live) \<le> m \<and> ca_max c = m"
proof -
  have "capacity_inv m \<lparr>ca_max = m, ca_active = 0\<rparr>" using assms(1,2) by (simp add: capacity_inv_def)
  from tracked_run_count [OF this _ assms(3,4)] assms(1) show ?thesis by (simp add: capacity_inv_def)
qed

theorem capacity_counts_live_jobs_witness:
  "int (length (snd (foldl tracked_step (\<lparr>ca_max = 2, ca_active = 0\<rparr>, [])
     [JobAdmit ''a'', JobAdmit ''b'', JobRelease ''a'', JobAdmit ''c'', JobAdmit ''d'']))) \<le> 2"
proof -
  let ?ops = "[JobAdmit ''a'', JobAdmit ''b'', JobRelease ''a'', JobAdmit ''c'', JobAdmit ''d'']"
  have "releases_live (\<lparr>ca_max = 2, ca_active = 0\<rparr>, []) ?ops" by code_simp
  from capacity_counts_live_jobs [OF _ _ this surjective_pairing] show ?thesis
    by (simp add: in_i32_def)
qed

text \<open>Whatever is admitted and released, in any order, the counter stays between 0 and the
  limit.\<close>

theorem capacity_always_bounded:
  assumes "0 \<le> m" and "in_i32 m"
  shows "0 \<le> ca_active (foldl capacity_step \<lparr>ca_max = m, ca_active = 0\<rparr> ops) \<and>
    ca_active (foldl capacity_step \<lparr>ca_max = m, ca_active = 0\<rparr> ops) \<le> m"
  using capacity.run_inv [of m "\<lparr>ca_max = m, ca_active = 0\<rparr>" ops] assms
  by (simp add: capacity_inv_def)

theorem capacity_always_bounded_witness:
  "ca_active (foldl capacity_step \<lparr>ca_max = 1, ca_active = 0\<rparr> [OpRelease, OpAdmit, OpAdmit]) \<le> 1"
  using capacity_always_bounded [of 1 "[OpRelease, OpAdmit, OpAdmit]"] by (simp add: in_i32_def)

text \<open>The gate does not know which jobs are live: releasing one job twice lets it admit
  more jobs than the limit.\<close>

theorem double_release_overcommits:
  "case foldl tracked_step (\<lparr>ca_max = 2, ca_active = 0\<rparr>, [])
       [JobAdmit ''a'', JobAdmit ''b'', JobRelease ''a'', JobRelease ''a'', JobAdmit ''c'', JobAdmit ''d'']
   of (c, live) \<Rightarrow> int (length live) > ca_max c"
  by code_simp

text \<open>An accepted update keeps a job within its life: replacing the spec of a stored job
  by one the update webhook accepts keeps the controller's invariant for the new budget, so
  no accepted edit can leave a job with more failures than attempts.\<close>

theorem accepted_update_keeps_invariant:
  assumes "job_inv (ex_max_attempts (job_exec old)) old" and "in_i32 (ex_max_attempts (job_exec new))"
    and "webhook_ValidateUpdate (Some old) (Some new) = None"
    and "j_status new = j_status old"
  shows "job_inv (ex_max_attempts (job_exec new)) new"
proof -
  have life: "job_life_of new = job_life_of old"
    using assms(4) unfolding job_life_of_def Let_def by simp
  have le: "ex_max_attempts (job_exec old) \<le> ex_max_attempts (job_exec new)"
    using assms(3) by (simp add: ValidateUpdate_ok)
  have "life_inv m l \<Longrightarrow> m \<le> m' \<Longrightarrow> life_inv m' l" for m m' l by (cases l) auto
  with assms(1,2,4) life le show ?thesis by (auto simp: job_inv_def)
qed

theorem accepted_update_keeps_invariant_witness:
  "job_inv 5 (demo_job 5)"
proof -
  have inv: "job_inv (ex_max_attempts (job_exec (demo_job 3))) (demo_job 3)"
    by (simp add: demo_job_def job_inv_def in_i32_def at_most_one_terminal_def job_life_of_def)
  have upd: "webhook_ValidateUpdate (Some (demo_job 3)) (Some (demo_job 5)) = None"
    by (simp add: ValidateUpdate_ok demo_job_def)
  from accepted_update_keeps_invariant [OF inv _ upd] show ?thesis
    by (simp add: demo_job_def in_i32_def)
qed

subsection \<open>Retry, backoff, time-to-live\<close>

text \<open>For the first thirty-one ordinals the backoff is the capped exponential: between the
  base and the maximum delay, never decreasing, and a process result is retried exactly
  when it failed and the budget is not used up.\<close>

theorem retry_policy:
  assumes "0 \<le> n" and "n \<le> 30"
  shows "ComputeBackoff oor n = min (backoffBaseDelay * 2 ^ nat n) backoffMaxDelay \<and>
    backoffBaseDelay \<le> ComputeBackoff oor n \<and> ComputeBackoff oor n \<le> backoffMaxDelay \<and>
    (0 < n \<longrightarrow> ComputeBackoff oor (n - 1) \<le> ComputeBackoff oor n) \<and>
    (rd_should_retry (ShouldRetry oor job n (ClassifyError (Some r) st)) \<longleftrightarrow>
       n < effective_max_attempts job \<and> \<not> (pr_exit_code r = 0 \<and> \<not> pr_oom_killed r))"
  using ComputeBackoff_exact [OF assms] ComputeBackoff_bounds [OF assms]
    ComputeBackoff_mono [of "n - 1" n] assms ShouldRetry_ClassifyError by auto

theorem retry_policy_witness: "ComputeBackoff 0 3 = 40 * second"
  using retry_policy [of 3 0, THEN conjunct1]
  by (simp add: backoffBaseDelay_def backoffMaxDelay_def second_def minute_def)

text \<open>From ordinal 31 on the float no longer fits a 64-bit integer: the delay is whatever the
  out-of-range conversion yields. Where that is the least integer, as on amd64, the delay
  is negative, so the cap does not hold.\<close>

theorem backoff_overflow:
  assumes "31 \<le> n"
  shows "ComputeBackoff min_i64 n = min_i64"
  using ComputeBackoff_out_of_range [OF assms, of min_i64]
  by (simp add: backoffMaxDelay_def minute_def second_def)

theorem backoff_overflow_witness: "ComputeBackoff min_i64 40 < 0"
  using backoff_overflow [of 40] by simp

text \<open>The time-to-live of a finished job: while it is not expired the returned delay is
  exactly right, no earlier instant expires the job and waiting the delay does.\<close>

theorem ttl_delay_exact:
  assumes "CheckTTL job now = (False, d)" and "d \<noteq> 0" and "d < max_i64"
  shows "0 < d \<and> CheckTTL job (now + d) = (True, 0) \<and>
    (\<forall>e. 0 \<le> e \<and> e < d \<longrightarrow> \<not> fst (CheckTTL job (now + e)))"
  using CheckTTL_remaining [OF assms(1,2)] CheckTTL_wait [OF assms] CheckTTL_before [OF assms(1)] by blast

theorem ttl_delay_exact_witness:
  "CheckTTL (with_status (demo_job 3) (\<lambda>st. st\<lparr>st_conditions :=
       [new_condition JobConditionComplete CTrue [] [] 0], st_completion := Some 0\<rparr>)
     \<lparr>j_spec := (j_spec (demo_job 3))\<lparr>js_execution := (job_exec (demo_job 3))\<lparr>ex_ttl := Some 60\<rparr>\<rparr>\<rparr>)
     (60 * second) = (True, 0)"
proof -
  let ?j = "with_status (demo_job 3) (\<lambda>st. st\<lparr>st_conditions :=
       [new_condition JobConditionComplete CTrue [] [] 0], st_completion := Some 0\<rparr>)
     \<lparr>j_spec := (j_spec (demo_job 3))\<lparr>js_execution := (job_exec (demo_job 3))\<lparr>ex_ttl := Some 60\<rparr>\<rparr>\<rparr>"
  have "CheckTTL ?j (50 * second) = (False, 10 * second)" by code_simp
  from ttl_delay_exact [OF this] show ?thesis by (simp add: second_def)
qed

text \<open>An activeDeadlineSeconds above 9223372036 overflows the nanosecond product: the
  deadline of a job that just started lies in the past.\<close>

theorem deadline_overflow:
  "fst (CheckDeadline (with_status (demo_job 3) (\<lambda>st. st\<lparr>st_start := Some 0\<rparr>)
     \<lparr>j_spec := (j_spec (demo_job 3))\<lparr>js_execution := (job_exec (demo_job 3))
        \<lparr>ex_active_deadline := Some 9223372037\<rparr>\<rparr>\<rparr>) None 0)"
  by code_simp

subsection \<open>Results and the terminal rule\<close>

text \<open>C29: A result is accepted by one attempt only, and makes it terminal. Of two attempts with
  different UIDs at most one accepts an envelope, the accepting one keeps its identity and
  becomes terminal with the outcome of the exit code, and a terminal job accepts nothing.\<close>

theorem result_accepted_once:
  assumes "condition_setter ssc" and "ReconcileResult ssc now job a env = Inr a'"
    and "\<not> IsAttemptTerminal (attempt_conditions a)"
  shows "a_meta a' = a_meta a \<and> a_spec a' = a_spec a \<and>
    me_job_uid env = job_uid job \<and> me_spec_hash env = st_spec_hash (j_status job) \<and>
    \<not> IsJobTerminal (job_conditions job) \<and>
    (holds AttemptConditionComplete (attempt_conditions a') \<longleftrightarrow> rm_exit_code (me_result env) = 0) \<and>
    (holds AttemptConditionFailed (attempt_conditions a') \<longleftrightarrow> rm_exit_code (me_result env) \<noteq> 0) \<and>
    (\<forall>b job' now'. attempt_uid b \<noteq> attempt_uid a \<longrightarrow> isl (ReconcileResult ssc now' job' b env))"
proof -
  have acc: "ValidateFencing job a env = None" using assms(2) ReconcileResult_accepts by blast
  have "isl (ReconcileResult ssc now' job' b env)" if "attempt_uid b \<noteq> attempt_uid a" for b job' now'
    using ValidateFencing_one_attempt [OF acc, of b job'] that
    by (auto simp: ReconcileResult_def split: option.splits)
  with ReconcileResult_conditions [OF assms(1,2)] ReconcileResult_identity [OF assms(2)] acc assms(3)
  show ?thesis by (auto simp: ValidateFencing_accepts IsAttemptTerminal_iff)
qed

definition demo_envelope :: "int \<Rightarrow> ManifestEnvelope" where
  "demo_envelope code =
     \<lparr>me_job_uid = ''u1'', me_attempt_uid = ''ua'', me_ordinal = 1, me_spec_hash = [],
      me_result = \<lparr>rm_exit_code = code, rm_signal = 0, rm_error_category = [], rm_artifacts = [],
        rm_checkpoint_key = [], rm_content_hash = []\<rparr>\<rparr>"

theorem result_accepted_once_witness:
  "\<exists>a'. ReconcileResult set_condition 5 (demo_job 3) (demo_attempt [] []) (demo_envelope 0) = Inr a' \<and>
     holds AttemptConditionComplete (attempt_conditions a')"
proof -
  have "ValidateFencing (demo_job 3) (demo_attempt [] []) (demo_envelope 0) = None"
    by (simp add: ValidateFencing_accepts demo_defs demo_envelope_def)
  then obtain a' where a': "ReconcileResult set_condition 5 (demo_job 3) (demo_attempt [] []) (demo_envelope 0) = Inr a'"
    using ReconcileResult_accepts by blast
  have nt: "\<not> IsAttemptTerminal (attempt_conditions (demo_attempt [] []))" by (simp add: demo_attempt_def)
  from result_accepted_once [OF condition_setter_set_condition a' nt] a' show ?thesis
    by (simp add: demo_envelope_def)
qed

text \<open>Nothing fences a second result of the same attempt while its job is open: a success
  followed by a failure leaves the attempt both Complete and Failed.\<close>

theorem two_results_both_terminal:
  "case ReconcileResult set_condition 5 (demo_job 3) (demo_attempt [] []) (demo_envelope 0) of
     Inl e \<Rightarrow> False
   | Inr a \<Rightarrow>
       (case ReconcileResult set_condition 6 (demo_job 3) a (demo_envelope 1) of
          Inl e \<Rightarrow> False
        | Inr b \<Rightarrow> IsAttemptSucceeded (attempt_conditions b) \<and>
            list_ex (\<lambda>c. c_type c = AttemptConditionFailed \<and> c_status c = CTrue) (attempt_conditions b))"
  by code_simp

text \<open>The terminal rule of the state package. Over any sequence of attempts to end a job,
  a list of conditions never holds both terminal conditions; once terminal it does not
  change, and the compare-and-set variant agrees with it.\<close>

theorem terminal_once:
  assumes "condition_setter ssc" and "at_most_one_terminal cs"
  shows "at_most_one_terminal (foldl (terminal_step ssc) cs es) \<and>
    (IsJobTerminal cs \<longrightarrow> foldl (terminal_step ssc) cs es = cs) \<and>
    TryTerminalCAS ssc now cs t s r m = TrySetJobTerminal ssc now cs t s r m"
  using terminal_run_one [OF assms] job_latch.run_obs TryTerminalCAS_eq by blast

theorem terminal_once_witness:
  "at_most_one_terminal (foldl (terminal_step set_condition) []
     [(JobConditionFailed, CTrue, ''r'', ''m'', 1), (JobConditionComplete, CTrue, ''r'', ''m'', 2)])"
  by (rule terminal_once [OF condition_setter_set_condition, THEN conjunct1])
    (simp add: at_most_one_terminal_def)

text \<open>The phase of an attempt the operator bound to its Pod is Pending for good: the
  PodCreated condition comes first and the phase function stops at it, whatever is set
  afterwards.\<close>

theorem attempt_phase_stuck:
  assumes "condition_setter ssc" and "attempt_conditions a = []"
  shows "AttemptPhaseFromConditions
    (attempt_conditions (mark_succeeded ssc t2 (mark_running ssc t1 (bind_pod ssc t0 a p)))) = ''Pending''"
proof -
  let ?d = "new_condition AttemptConditionPodCreated CTrue ''PodCreated'' (''Pod '' @ pod_name p @ '' created'') t0"
  have head: "\<exists>rest. SetAttemptCondition ssc t (?d # ds) ty s r m = ?d # rest"
    if "ty \<noteq> AttemptConditionPodCreated" for t ds ty s r m
    by (cases rule: setter_cases [OF assms(1), of "?d # ds" "new_condition ty s r m t"])
      (use that in \<open>auto simp: SetAttemptCondition_def Cons_eq_append_conv\<close>)
  have bind: "attempt_conditions (bind_pod ssc t0 a p) = [?d]"
    using assms by (simp add: bind_pod_def SetAttemptCondition_def condition_setter_def)
  obtain r1 where 1: "attempt_conditions (mark_running ssc t1 (bind_pod ssc t0 a p)) = ?d # r1"
    using head [of AttemptConditionRunning] bind by (fastforce simp: mark_running_def)
  let ?b = "mark_running ssc t1 (bind_pod ssc t0 a p)"
  obtain r2 where 2: "SetAttemptCondition ssc t2 (attempt_conditions ?b) AttemptConditionRunning CTrue
      ''PodRunning'' ''Pod ran (fast path)'' = ?d # r2"
    using head [of AttemptConditionRunning] 1 by fastforce
  obtain r3 where "attempt_conditions (mark_succeeded ssc t2 ?b) = ?d # r3"
    using head [of AttemptConditionComplete t2 r2] 2
    by (fastforce simp: mark_succeeded_def started_def Let_def)
  then show ?thesis by simp
qed

theorem attempt_phase_stuck_witness:
  "AttemptPhaseFromConditions (attempt_conditions (mark_succeeded set_condition 3
     (mark_running set_condition 2 (bind_pod set_condition 1 (demo_attempt [] []) (demo_pod PodSucceeded))))) = ''Pending''"
  by (rule attempt_phase_stuck [OF condition_setter_set_condition]) (simp add: demo_attempt_def)

subsection \<open>Pods and cleanup\<close>





end
