(* ===== verification/Http.thy ===== *)
theory Http
  imports GoStd
begin

text \<open>
  HTTP as the clients and handlers use it: requests, responses, the escaping functions of
  \<open>net/url\<close>, and the transport, a parameter that answers a request in a world \<open>'w\<close> or
  fails. \<open>h_url_ok\<close> says which URLs the library accepts when a request is built.
\<close>

record http_request =
  hq_method :: string
  hq_url :: string
  hq_authorization :: string
  hq_content_type :: string
  hq_body :: string
  hq_length :: "int option"
  hq_body_error :: "string option"

record http_response =
  hs_status :: int
  hs_body :: string

record 'w http =
  h_url_ok :: "string \<Rightarrow> bool"
  h_do :: "http_request \<Rightarrow> 'w \<Rightarrow> (string + http_response) \<times> 'w"

definition plain_request :: "string \<Rightarrow> string \<Rightarrow> string \<Rightarrow> http_request" where
  "plain_request m u body =
     \<lparr>hq_method = m, hq_url = u, hq_authorization = [], hq_content_type = [], hq_body = body,
      hq_length = None, hq_body_error = None\<rparr>"

subsection \<open>Escaping\<close>

definition unreserved :: "char \<Rightarrow> bool" where
  "unreserved c \<longleftrightarrow>
     (let n = of_char c :: nat
      in (48 \<le> n \<and> n \<le> 57) \<or> (65 \<le> n \<and> n \<le> 90) \<or> (97 \<le> n \<and> n \<le> 122) \<or>
         c = CHR ''-'' \<or> c = CHR ''_'' \<or> c = CHR ''.'' \<or> c = CHR ''~'')"

definition path_safe :: "char \<Rightarrow> bool" where
  "path_safe c \<longleftrightarrow>
     unreserved c \<or> c = CHR ''$'' \<or> c = CHR ''&'' \<or> c = CHR ''+'' \<or> c = CHR '':'' \<or>
     c = CHR ''='' \<or> c = CHR ''@''"

definition hex_upper :: "nat \<Rightarrow> char" where
  "hex_upper n = (if n < 10 then char_of (48 + n) else char_of (55 + n))"

definition hex_value :: "char \<Rightarrow> nat" where
  "hex_value c = (let n = of_char c :: nat in if n < 65 then n - 48 else n - 55)"

definition escape_byte :: "char \<Rightarrow> string" where
  "escape_byte c = [CHR ''%'', hex_upper (of_char c div 16), hex_upper (of_char c mod 16)]"

definition PathEscape :: "string \<Rightarrow> string" where
  "PathEscape s = concat (map (\<lambda>c. if path_safe c then [c] else escape_byte c) s)"

definition QueryEscape :: "string \<Rightarrow> string" where
  "QueryEscape s =
     concat (map (\<lambda>c. if unreserved c then [c] else if c = CHR '' '' then ''+'' else escape_byte c) s)"

fun PathUnescape :: "string \<Rightarrow> string" where
  "PathUnescape (c # a # b # r) =
     (if c = CHR ''%'' then char_of (16 * hex_value a + hex_value b) # PathUnescape r
      else c # PathUnescape (a # b # r))"
| "PathUnescape s = s"

lemma hex_value_upper [simp]: "n < 16 \<Longrightarrow> hex_value (hex_upper n) = n"
  by (auto simp: hex_value_def hex_upper_def Let_def of_char_of)

lemma percent_unsafe [simp]: "\<not> path_safe CHR ''%''"
  by (simp add: path_safe_def unreserved_def)

lemma PathUnescape_byte: "PathUnescape (escape_byte c @ r) = c # PathUnescape r"
proof -
  have "of_char c < (256::nat)" by simp
  then have "(of_char c :: nat) div 16 < 16" by (simp add: less_mult_imp_div_less)
  then show ?thesis by (simp add: escape_byte_def)
qed

lemma PathUnescape_char: "c \<noteq> CHR ''%'' \<Longrightarrow> PathUnescape (c # r) = c # PathUnescape r"
  by (cases r rule: PathUnescape.cases) auto

lemma PathUnescape_PathEscape: "PathUnescape (PathEscape s) = s"
proof (induction s)
  case (Cons c s)
  have split: "PathEscape (c # s) = (if path_safe c then [c] else escape_byte c) @ PathEscape s"
    by (simp add: PathEscape_def)
  show ?case
  proof (cases "path_safe c")
    case True
    then have "c \<noteq> CHR ''%''" by (auto simp del: percent_unsafe) (simp add: path_safe_def unreserved_def)
    with True split Cons show ?thesis by (simp add: PathUnescape_char)
  next
    case False
    with split Cons show ?thesis by (simp add: PathUnescape_byte)
  qed
qed (simp add: PathEscape_def)

lemma PathEscape_inject: "PathEscape s = PathEscape t \<longleftrightarrow> s = t"
  by (metis PathUnescape_PathEscape)

lemma char_high: "(of_char c :: nat) div 16 < 16"
proof -
  have "of_char c < (256::nat)" by simp
  then show ?thesis by (simp add: less_mult_imp_div_less)
qed

lemma hex_upper_not_slash: "n < 16 \<Longrightarrow> hex_upper n \<noteq> CHR ''/''"
proof
  assume "n < 16" and "hex_upper n = CHR ''/''"
  then have "(of_char (hex_upper n) :: nat) = of_char CHR ''/''" by simp
  with \<open>n < 16\<close> show False by (auto simp: hex_upper_def of_char_of split: if_splits)
qed

lemma PathEscape_no_slash: "CHR ''/'' \<notin> set (PathEscape s)"
proof -
  have "CHR ''/'' \<notin> set (if path_safe c then [c] else escape_byte c)" for c
    using hex_upper_not_slash [OF char_high, of c] hex_upper_not_slash [of "of_char c mod 16"]
    by (auto simp: escape_byte_def path_safe_def unreserved_def)
  then show ?thesis unfolding PathEscape_def set_concat set_map by blast
qed

end
