(* ===== verification/ArtifactStore.thy ===== *)
theory ArtifactStore
  imports Http Protocol "HOL-Library.AList"
begin

text \<open>
  The package \<open>internal/artifact\<close> below the commit protocol: object keys, the \<open>Store\<close>
  interface with its in-memory and S3 implementations, and the HTTP client of the artifact
  gateway. Bytes are strings; a reader is the data it yields or the error reading it ends
  with. What a store promises is the locale \<open>artifact_store\<close>, with the visible objects
  as its abstraction.
\<close>

subsection \<open>keys.go\<close>

definition ArtifactKey :: "string \<Rightarrow> uid \<Rightarrow> uid \<Rightarrow> string \<Rightarrow> string" where
  "ArtifactKey ns jobUID attemptUID filename =
     ns @ ''/'' @ jobUID @ ''/'' @ attemptUID @ ''/'' @ filename"

definition CheckpointKey :: "string \<Rightarrow> uid \<Rightarrow> int \<Rightarrow> string \<Rightarrow> string" where
  "CheckpointKey ns jobUID ordinal filename =
     ns @ ''/'' @ jobUID @ ''/checkpoints/'' @ show_int ordinal @ ''/'' @ filename"

definition ManifestKey :: "string \<Rightarrow> uid \<Rightarrow> uid \<Rightarrow> string" where
  "ManifestKey ns jobUID attemptUID = ns @ ''/'' @ jobUID @ ''/'' @ attemptUID @ ''/manifest.json''"

definition ParseKey :: "string \<Rightarrow> (string \<times> string \<times> string) option" where
  "ParseKey key =
     (let parts = SplitN key (CHR ''/'') 3
      in if length parts < 3 then None else Some (parts ! 0, parts ! 1, parts ! 2))"

abbreviation (input) no_slash :: "string \<Rightarrow> bool" where "no_slash s \<equiv> CHR ''/'' \<notin> set s"

lemma ParseKey_join:
  assumes "no_slash ns" and "no_slash j"
  shows "ParseKey (ns @ CHR ''/'' # j @ CHR ''/'' # rest) = Some (ns, j, rest)"
  using assms cut_append [of "CHR ''/''" ns "j @ CHR ''/'' # rest"] cut_append [of "CHR ''/''" j rest]
  by (simp add: ParseKey_def numeral_3_eq_3)

lemma ParseKey_ArtifactKey:
  "no_slash ns \<Longrightarrow> no_slash j \<Longrightarrow> ParseKey (ArtifactKey ns j a f) = Some (ns, j, a @ ''/'' @ f)"
  using ParseKey_join [of ns j "a @ ''/'' @ f"] by (simp add: ArtifactKey_def)

lemma ParseKey_CheckpointKey:
  "no_slash ns \<Longrightarrow> no_slash j \<Longrightarrow>
   ParseKey (CheckpointKey ns j n f) = Some (ns, j, ''checkpoints/'' @ show_int n @ ''/'' @ f)"
  using ParseKey_join [of ns j "''checkpoints/'' @ show_int n @ ''/'' @ f"] by (simp add: CheckpointKey_def)

lemma append_slash_inject:
  "no_slash a \<Longrightarrow> no_slash b \<Longrightarrow> a @ CHR ''/'' # x = b @ CHR ''/'' # y \<longleftrightarrow> a = b \<and> x = y"
  by (metis append_eq_append_conv cut_append option.inject prod.inject)

lemma ArtifactKey_inject:
  assumes "no_slash ns" "no_slash ns'" "no_slash j" "no_slash j'" "no_slash a" "no_slash a'"
  shows "ArtifactKey ns j a f = ArtifactKey ns' j' a' f' \<longleftrightarrow> ns = ns' \<and> j = j' \<and> a = a' \<and> f = f'"
  using assms by (simp add: ArtifactKey_def append_slash_inject)

lemma ManifestKey_ArtifactKey: "ManifestKey ns j a = ArtifactKey ns j a ''manifest.json''"
  by (simp add: ManifestKey_def ArtifactKey_def)

subsection \<open>store.go\<close>

type_synonym reader = "string + string"

record 's store =
  st_put :: "string \<Rightarrow> reader \<Rightarrow> int \<Rightarrow> 's \<Rightarrow> string option \<times> 's"
  st_get :: "string \<Rightarrow> 's \<Rightarrow> (string + string) \<times> 's"
  st_exists :: "string \<Rightarrow> 's \<Rightarrow> (string + bool) \<times> 's"
  st_delete :: "string \<Rightarrow> 's \<Rightarrow> string option \<times> 's"
  st_list :: "string \<Rightarrow> 's \<Rightarrow> (string + string list) \<times> 's"

text \<open>
  The contract. A successful put makes exactly its key visible with exactly its data; a
  failed one leaves the key as it was or already new, and touches no other key. Reads
  change nothing and report what is visible. Failures of any call are allowed.
\<close>

locale artifact_store =
  fixes st :: "'s store" and view :: "'s \<Rightarrow> string \<rightharpoonup> string"
  assumes put_ok: "st_put st k (Inr v) n s = (None, s') \<Longrightarrow> view s' = (view s)(k \<mapsto> v)"
    and put_fail: "st_put st k rd n s = (Some e, s') \<Longrightarrow>
      view s' = view s \<or> (\<exists>v. rd = Inr v \<and> view s' = (view s)(k \<mapsto> v))"
    and put_reader: "st_put st k (Inl e) n s = (r, s') \<Longrightarrow> r \<noteq> None"
    and get_view: "st_get st k s = (rg, s') \<Longrightarrow> view s' = view s"
    and get_ok: "st_get st k s = (Inr v, s') \<Longrightarrow> view s k = Some v"
    and exists_view: "st_exists st k s = (rx, s') \<Longrightarrow> view s' = view s"
    and exists_ok: "st_exists st k s = (Inr b, s') \<Longrightarrow> b \<longleftrightarrow> view s k \<noteq> None"
    and delete_ok: "st_delete st k s = (None, s') \<Longrightarrow> view s' = (view s)(k := None)"
    and list_view: "st_list st p s = (rl, s') \<Longrightarrow> view s' = view s"
    and list_ok: "st_list st p s = (Inr ks, s') \<Longrightarrow> k \<in> set ks \<longleftrightarrow> view s k \<noteq> None \<and> HasPrefix k p"
begin

lemma put_other: "st_put st k rd n s = (r, s') \<Longrightarrow> k' \<noteq> k \<Longrightarrow> view s' k' = view s k'"
  using put_ok [of k _ n s s'] put_fail [of k rd n s _ s'] put_reader [of k _ n s r s']
  by (cases r; cases rd) fastforce+

lemma put_then_get:
  assumes "st_put st k (Inr v) n s = (None, s1)" and "st_get st k s1 = (Inr u, s2)"
  shows "u = v"
  using put_ok [OF assms(1)] get_ok [OF assms(2)] by simp

lemma put_then_exists:
  assumes "st_put st k (Inr v) n s = (None, s1)" and "st_exists st k s1 = (Inr b, s2)"
  shows b
  using put_ok [OF assms(1)] exists_ok [OF assms(2)] by simp

lemma delete_then_exists:
  assumes "st_delete st k s = (None, s1)" and "st_exists st k s1 = (Inr b, s2)"
  shows "\<not> b"
  using delete_ok [OF assms(1)] exists_ok [OF assms(2)] by simp

end

subsection \<open>MemoryStore\<close>

type_synonym memory = "(string \<times> string) list"

definition MemoryStore_Put :: "string \<Rightarrow> reader \<Rightarrow> int \<Rightarrow> memory \<Rightarrow> string option \<times> memory" where
  "MemoryStore_Put key rd sz m =
     (case rd of
        Inl e \<Rightarrow> (Some (''reading data: '' @ e), m)
      | Inr data \<Rightarrow> (None, AList.update key data m))"

definition MemoryStore_Get :: "string \<Rightarrow> memory \<Rightarrow> (string + string) \<times> memory" where
  "MemoryStore_Get key m =
     (case map_of m key of
        None \<Rightarrow> (Inl (''object not found: '' @ key), m)
      | Some data \<Rightarrow> (Inr data, m))"

definition MemoryStore_Exists :: "string \<Rightarrow> memory \<Rightarrow> (string + bool) \<times> memory" where
  "MemoryStore_Exists key m = (Inr (map_of m key \<noteq> None), m)"

definition MemoryStore_Delete :: "string \<Rightarrow> memory \<Rightarrow> string option \<times> memory" where
  "MemoryStore_Delete key m = (None, AList.delete key m)"

definition MemoryStore_List :: "string \<Rightarrow> memory \<Rightarrow> (string + string list) \<times> memory" where
  "MemoryStore_List pfx m = (Inr (sort (filter (\<lambda>k. HasPrefix k pfx) (map fst m))), m)"

definition MemoryStore :: "memory store" where
  "MemoryStore = \<lparr>st_put = MemoryStore_Put, st_get = MemoryStore_Get, st_exists = MemoryStore_Exists,
     st_delete = MemoryStore_Delete, st_list = MemoryStore_List\<rparr>"

lemmas MemoryStore_defs = MemoryStore_def MemoryStore_Put_def MemoryStore_Get_def
  MemoryStore_Exists_def MemoryStore_Delete_def MemoryStore_List_def

lemma map_of_keys: "map_of m k \<noteq> None \<longleftrightarrow> k \<in> fst ` set m"
  by (simp add: map_of_eq_None_iff)

interpretation memory: artifact_store MemoryStore map_of
proof
  show "k \<in> set ks \<longleftrightarrow> map_of s k \<noteq> None \<and> HasPrefix k p"
    if "st_list MemoryStore p s = (Inr ks, s')" for k p ks s s'
  proof -
    from that have "ks = sort (filter (\<lambda>k. HasPrefix k p) (map fst s))" by (auto simp: MemoryStore_defs)
    then have "k \<in> set ks \<longleftrightarrow> k \<in> fst ` set s \<and> HasPrefix k p" by auto
    with map_of_keys [of s k] show ?thesis by blast
  qed
qed (auto simp: MemoryStore_defs update_conv' delete_conv' split: option.splits sum.splits)

subsection \<open>S3Store\<close>

text \<open>
  Path-style requests without signatures. The XML decoder of the list response is the
  parameter \<open>decode_list\<close>.
\<close>

record S3Store =
  s3_endpoint :: string
  s3_bucket :: string
  s3_access_key :: string
  s3_secret_key :: string

definition trim_right_slash :: "string \<Rightarrow> string" where
  "trim_right_slash s = rev (dropWhile (\<lambda>c. c = CHR ''/'') (rev s))"

definition NewS3Store :: "string \<Rightarrow> string \<Rightarrow> string \<Rightarrow> string \<Rightarrow> S3Store" where
  "NewS3Store endpoint bucket accessKey secretKey =
     \<lparr>s3_endpoint = trim_right_slash endpoint, s3_bucket = bucket, s3_access_key = accessKey,
      s3_secret_key = secretKey\<rparr>"

definition objectURL :: "S3Store \<Rightarrow> string \<Rightarrow> string" where
  "objectURL s key = s3_endpoint s @ ''/'' @ s3_bucket s @ ''/'' @ PathEscape key"

text \<open>Build a request, send it, and hand the response to the operation.\<close>

definition s3_call ::
  "'w http \<Rightarrow> string \<Rightarrow> http_request \<Rightarrow> 'w \<Rightarrow> (string + http_response) \<times> 'w" where
  "s3_call h name req w =
     (if \<not> h_url_ok h (hq_url req) then (Inl (''creating '' @ name @ '' request''), w)
      else case h_do h req w of
        (Inl e, w) \<Rightarrow> (Inl (''executing '' @ name @ '' request: '' @ e), w)
      | (Inr resp, w) \<Rightarrow> (Inr resp, w))"

definition status_error :: "string \<Rightarrow> string \<Rightarrow> http_response \<Rightarrow> string" where
  "status_error name key resp =
     name @ '' '' @ key @ '' returned status '' @ show_int (hs_status resp) @ '': '' @ hs_body resp"

definition S3Store_Put ::
  "'w http \<Rightarrow> S3Store \<Rightarrow> string \<Rightarrow> reader \<Rightarrow> int \<Rightarrow> 'w \<Rightarrow> string option \<times> 'w" where
  "S3Store_Put h s key rd sz w =
     (let req = (plain_request ''PUT'' (objectURL s key) (case rd of Inl e \<Rightarrow> [] | Inr data \<Rightarrow> data))
            \<lparr>hq_body_error := (case rd of Inl e \<Rightarrow> Some e | Inr data \<Rightarrow> None),
             hq_length := (if sz \<ge> 0 then Some sz else None)\<rparr>
      in case s3_call h ''PUT'' req w of
           (Inl e, w) \<Rightarrow> (Some e, w)
         | (Inr resp, w) \<Rightarrow>
             (if hs_status resp \<ge> 300 then Some (status_error ''PUT'' key resp) else None, w))"

definition S3Store_Get :: "'w http \<Rightarrow> S3Store \<Rightarrow> string \<Rightarrow> 'w \<Rightarrow> (string + string) \<times> 'w" where
  "S3Store_Get h s key w =
     (case s3_call h ''GET'' (plain_request ''GET'' (objectURL s key) []) w of
        (Inl e, w) \<Rightarrow> (Inl e, w)
      | (Inr resp, w) \<Rightarrow>
          (if hs_status resp = 404 then Inl (''object not found: '' @ key)
           else if hs_status resp \<ge> 300 then Inl (status_error ''GET'' key resp)
           else Inr (hs_body resp), w))"

definition S3Store_Exists :: "'w http \<Rightarrow> S3Store \<Rightarrow> string \<Rightarrow> 'w \<Rightarrow> (string + bool) \<times> 'w" where
  "S3Store_Exists h s key w =
     (case s3_call h ''HEAD'' (plain_request ''HEAD'' (objectURL s key) []) w of
        (Inl e, w) \<Rightarrow> (Inl e, w)
      | (Inr resp, w) \<Rightarrow>
          (if hs_status resp = 404 then Inr False
           else if hs_status resp \<ge> 300
           then Inl (''HEAD '' @ key @ '' returned status '' @ show_int (hs_status resp))
           else Inr True, w))"

definition S3Store_Delete :: "'w http \<Rightarrow> S3Store \<Rightarrow> string \<Rightarrow> 'w \<Rightarrow> string option \<times> 'w" where
  "S3Store_Delete h s key w =
     (case s3_call h ''DELETE'' (plain_request ''DELETE'' (objectURL s key) []) w of
        (Inl e, w) \<Rightarrow> (Some e, w)
      | (Inr resp, w) \<Rightarrow>
          (if hs_status resp \<ge> 300 \<and> hs_status resp \<noteq> 404
           then Some (status_error ''DELETE'' key resp) else None, w))"

definition S3Store_List ::
  "'w http \<Rightarrow> (string \<Rightarrow> string list option) \<Rightarrow> S3Store \<Rightarrow> string \<Rightarrow> 'w \<Rightarrow> (string + string list) \<times> 'w" where
  "S3Store_List h decode_list s pfx w =
     (let u = s3_endpoint s @ ''/'' @ s3_bucket s @ ''?list-type=2&prefix='' @ QueryEscape pfx
      in case s3_call h ''LIST'' (plain_request ''GET'' u []) w of
           (Inl e, w) \<Rightarrow> (Inl e, w)
         | (Inr resp, w) \<Rightarrow>
             (if hs_status resp \<ge> 300
              then Inl (''LIST returned status '' @ show_int (hs_status resp) @ '': '' @ hs_body resp)
              else case decode_list (hs_body resp) of
                None \<Rightarrow> Inl ''decoding LIST response''
              | Some keys \<Rightarrow> Inr keys, w))"

definition s3_store :: "'w http \<Rightarrow> (string \<Rightarrow> string list option) \<Rightarrow> S3Store \<Rightarrow> 'w store" where
  "s3_store h decode_list s =
     \<lparr>st_put = S3Store_Put h s, st_get = S3Store_Get h s, st_exists = S3Store_Exists h s,
      st_delete = S3Store_Delete h s, st_list = S3Store_List h decode_list s\<rparr>"

lemma objectURL_inject: "objectURL s k = objectURL s k' \<longleftrightarrow> k = k'"
  by (simp add: objectURL_def PathEscape_inject)

subsection \<open>client.go\<close>

record GatewayClient =
  gc_base_url :: string
  gc_token :: string

definition gateway_request :: "GatewayClient \<Rightarrow> string \<Rightarrow> string \<Rightarrow> string \<Rightarrow> http_request" where
  "gateway_request c m path body =
     (plain_request m (gc_base_url c @ path) body)\<lparr>hq_authorization := ''Bearer '' @ gc_token c\<rparr>"

definition gateway_call ::
  "'w http \<Rightarrow> string \<Rightarrow> http_request \<Rightarrow> 'w \<Rightarrow> (string + http_response) \<times> 'w" where
  "gateway_call h name req w =
     (if \<not> h_url_ok h (hq_url req) then (Inl (''creating '' @ name @ '' request''), w)
      else case h_do h req w of
        (Inl e, w) \<Rightarrow> (Inl (''executing '' @ name @ '' request: '' @ e), w)
      | (Inr resp, w) \<Rightarrow> (Inr resp, w))"

definition Upload ::
  "'w http \<Rightarrow> GatewayClient \<Rightarrow> string \<Rightarrow> string \<Rightarrow> int \<Rightarrow> 'w \<Rightarrow> string option \<times> 'w" where
  "Upload h c key data sz w =
     (let req = (gateway_request c ''PUT'' (''/api/v1/artifacts/'' @ key) data)
            \<lparr>hq_length := (if sz \<ge> 0 then Some sz else None)\<rparr>
      in case gateway_call h ''upload'' req w of
           (Inl e, w) \<Rightarrow> (Some e, w)
         | (Inr resp, w) \<Rightarrow>
             (if hs_status resp \<noteq> 201
              then Some (''upload failed: status '' @ show_int (hs_status resp) @ '': '' @ hs_body resp)
              else None, w))"

definition Download :: "'w http \<Rightarrow> GatewayClient \<Rightarrow> string \<Rightarrow> 'w \<Rightarrow> (string + string) \<times> 'w" where
  "Download h c key w =
     (case gateway_call h ''download'' (gateway_request c ''GET'' (''/api/v1/artifacts/'' @ key) []) w of
        (Inl e, w) \<Rightarrow> (Inl e, w)
      | (Inr resp, w) \<Rightarrow>
          (if hs_status resp \<noteq> 200
           then Inl (''download failed: status '' @ show_int (hs_status resp) @ '': '' @ hs_body resp)
           else Inr (hs_body resp), w))"

definition SubmitResult ::
  "'w http \<Rightarrow> (ManifestEnvelope \<Rightarrow> string option) \<Rightarrow> GatewayClient \<Rightarrow> ManifestEnvelope \<Rightarrow> 'w \<Rightarrow>
   string option \<times> 'w" where
  "SubmitResult h marshal c envelope w =
     (case marshal envelope of
        None \<Rightarrow> (Some ''marshaling manifest envelope'', w)
      | Some data \<Rightarrow>
          (let req = (gateway_request c ''POST'' ''/api/v1/results'' data)
                 \<lparr>hq_content_type := ''application/json'', hq_length := Some (int (length data))\<rparr>
           in case gateway_call h ''result'' req w of
                (Inl e, w) \<Rightarrow> (Some e, w)
              | (Inr resp, w) \<Rightarrow>
                  (if hs_status resp \<noteq> 201
                   then Some (''submit result failed: status '' @ show_int (hs_status resp) @ '': '' @ hs_body resp)
                   else None, w)))"

end
