(* ===== verification/ArtifactCommit.thy ===== *)
theory ArtifactCommit
  imports ArtifactStore
begin

text \<open>
  The manifest-last commit protocol (\<open>commit.go\<close>). SHA-256 and the JSON codec of the
  manifest are the parameters \<open>sha256hex\<close>, \<open>encode\<close> and \<open>decode\<close>. The blobs are a map from
  file names to readers, here a list of pairs with distinct names; the caller's manifest is
  filled in place, here it is part of the result. \<open>sort.Slice\<close> leaves equal keys in any
  order: the model's sort is stable, which matters only for a manifest with a repeated key,
  and the code never writes one.
\<close>

fun Join :: "string list \<Rightarrow> string \<Rightarrow> string" where
  "Join [] sep = []"
| "Join [x] sep = x"
| "Join (x # y # ys) sep = x @ sep @ Join (y # ys) sep"

definition contentHash :: "(string \<Rightarrow> string) \<Rightarrow> string \<Rightarrow> string" where
  "contentHash sha256hex data = ''sha256:'' @ sha256hex data"

definition computeManifestContentHash :: "(string \<Rightarrow> string) \<Rightarrow> ArtifactEntry list \<Rightarrow> string" where
  "computeManifestContentHash sha256hex entries =
     (let sorted_entries = sort_key ae_key entries;
          combined = Join (map ae_content_hash sorted_entries) [char_of (10::nat)]
      in ''sha256:'' @ sha256hex combined)"

text \<open>Step 1, over the sorted file names.\<close>

fun upload_blobs ::
  "'s store \<Rightarrow> (string \<Rightarrow> string) \<Rightarrow> (string \<Rightarrow> string) \<Rightarrow> (string \<times> reader) list \<Rightarrow> ArtifactEntry list \<Rightarrow>
   's \<Rightarrow> (string + ArtifactEntry list) \<times> 's" where
  "upload_blobs st sha256hex key_of [] entries s = (Inr entries, s)"
| "upload_blobs st sha256hex key_of ((filename, rd) # blobs) entries s =
     (case rd of
        Inl e \<Rightarrow> (Inl (''reading blob '' @ filename @ '': '' @ e), s)
      | Inr data \<Rightarrow>
          (let key = key_of filename; hash = contentHash sha256hex data
           in case st_put st key (Inr data) (int (length data)) s of
                (Some e, s) \<Rightarrow> (Inl (''uploading artifact '' @ filename @ '': '' @ e), s)
              | (None, s) \<Rightarrow>
                  upload_blobs st sha256hex key_of blobs
                    (entries @ [\<lparr>ae_key = key, ae_content_hash = hash, ae_size = int (length data)\<rparr>]) s))"

text \<open>Step 2.\<close>

fun verify_uploads :: "'s store \<Rightarrow> ArtifactEntry list \<Rightarrow> 's \<Rightarrow> string option \<times> 's" where
  "verify_uploads st [] s = (None, s)"
| "verify_uploads st (e # es) s =
     (case st_exists st (ae_key e) s of
        (Inl err, s) \<Rightarrow> (Some (''verifying artifact '' @ ae_key e @ '': '' @ err), s)
      | (Inr found, s) \<Rightarrow>
          if \<not> found then (Some (''artifact '' @ ae_key e @ '' missing after upload''), s)
          else verify_uploads st es s)"

definition CommitArtifacts ::
  "'s store \<Rightarrow> (string \<Rightarrow> string) \<Rightarrow> (ResultManifest \<Rightarrow> string option) \<Rightarrow> ResultManifest \<Rightarrow> string \<Rightarrow>
   uid \<Rightarrow> uid \<Rightarrow> (string \<times> reader) list \<Rightarrow> 's \<Rightarrow> (string option \<times> ResultManifest) \<times> 's" where
  "CommitArtifacts st sha256hex encode manifest ns jobUID attemptUID blobs s =
     (case upload_blobs st sha256hex (ArtifactKey ns jobUID attemptUID) (sort_key fst blobs) [] s of
        (Inl e, s) \<Rightarrow> ((Some e, manifest), s)
      | (Inr entries, s) \<Rightarrow>
          (case verify_uploads st entries s of
             (Some e, s) \<Rightarrow> ((Some e, manifest), s)
           | (None, s) \<Rightarrow>
               (let manifest = manifest\<lparr>rm_artifacts := entries,
                      rm_content_hash := computeManifestContentHash sha256hex entries\<rparr>
                in case encode manifest of
                     None \<Rightarrow> ((Some ''marshaling manifest'', manifest), s)
                   | Some data \<Rightarrow>
                       (case st_put st (ManifestKey ns jobUID attemptUID) (Inr data) (int (length data)) s of
                          (Some e, s) \<Rightarrow> ((Some (''uploading manifest: '' @ e), manifest), s)
                        | (None, s) \<Rightarrow> ((None, manifest), s)))))"

text \<open>ValidateCommit, step 3.\<close>

fun verify_entries :: "'s store \<Rightarrow> (string \<Rightarrow> string) \<Rightarrow> ArtifactEntry list \<Rightarrow> 's \<Rightarrow> string option \<times> 's" where
  "verify_entries st sha256hex [] s = (None, s)"
| "verify_entries st sha256hex (e # es) s =
     (case st_exists st (ae_key e) s of
        (Inl err, s) \<Rightarrow> (Some (''checking artifact '' @ ae_key e @ '': '' @ err), s)
      | (Inr found, s) \<Rightarrow>
          if \<not> found then (Some (''artifact '' @ ae_key e @ '' referenced in manifest but not found''), s)
          else case st_get st (ae_key e) s of
            (Inl err, s) \<Rightarrow> (Some (''downloading artifact '' @ ae_key e @ '' for hash verification: '' @ err), s)
          | (Inr data, s) \<Rightarrow>
              if contentHash sha256hex data \<noteq> ae_content_hash e
              then (Some (''artifact '' @ ae_key e @ '' hash mismatch: expected '' @ ae_content_hash e @
                     '', got '' @ contentHash sha256hex data), s)
              else verify_entries st sha256hex es s)"

definition ValidateCommit ::
  "'s store \<Rightarrow> (string \<Rightarrow> string) \<Rightarrow> (string \<Rightarrow> ResultManifest option) \<Rightarrow> string \<Rightarrow> uid \<Rightarrow> uid \<Rightarrow>
   's \<Rightarrow> (string + ResultManifest) \<times> 's" where
  "ValidateCommit st sha256hex decode ns jobUID attemptUID s =
     (let mKey = ManifestKey ns jobUID attemptUID
      in case st_exists st mKey s of
           (Inl e, s) \<Rightarrow> (Inl (''checking manifest existence: '' @ e), s)
         | (Inr found, s) \<Rightarrow>
             if \<not> found then (Inl (''manifest not found at '' @ mKey), s)
             else case st_get st mKey s of
               (Inl e, s) \<Rightarrow> (Inl (''downloading manifest: '' @ e), s)
             | (Inr data, s) \<Rightarrow>
                 (case decode data of
                    None \<Rightarrow> (Inl ''decoding manifest'', s)
                  | Some manifest \<Rightarrow>
                      (case verify_entries st sha256hex (rm_artifacts manifest) s of
                         (Some e, s) \<Rightarrow> (Inl e, s)
                       | (None, s) \<Rightarrow>
                           let expected = computeManifestContentHash sha256hex (rm_artifacts manifest)
                           in if expected \<noteq> rm_content_hash manifest
                              then (Inl (''manifest content hash mismatch: expected '' @ expected @
                                     '', got '' @ rm_content_hash manifest), s)
                              else (Inr manifest, s))))"

subsection \<open>Persisted entries\<close>

text \<open>What an entry promises of the visible objects.\<close>

definition persisted :: "(string \<Rightarrow> string) \<Rightarrow> (string \<rightharpoonup> string) \<Rightarrow> ArtifactEntry \<Rightarrow> bool" where
  "persisted sha256hex m e \<longleftrightarrow> (\<exists>data. m (ae_key e) = Some data \<and> ae_content_hash e = contentHash sha256hex data)"

context artifact_store
begin

lemma verify_uploads_view: "verify_uploads st es s = (r, s') \<Longrightarrow> view s' = view s"
  by (induction es arbitrary: s) (auto split: prod.splits sum.splits if_splits dest: exists_view)

lemma verify_entries_view: "verify_entries st sha es s = (r, s') \<Longrightarrow> view s' = view s"
  by (induction es arbitrary: s)
    (auto split: prod.splits sum.splits if_splits dest!: exists_view get_view)

lemma verify_entries_persisted:
  "verify_entries st sha es s = (None, s') \<Longrightarrow> e \<in> set es \<Longrightarrow> persisted sha (view s) e"
proof (induction es arbitrary: s)
  case (Cons x es)
  obtain r s1 where x: "st_exists st (ae_key x) s = (r, s1)" by (cases "st_exists st (ae_key x) s")
  obtain g s2 where g: "st_get st (ae_key x) s1 = (g, s2)" by (cases "st_get st (ae_key x) s1")
  note views = exists_view [OF x] get_view [OF g]
  from Cons.prems(1) x g obtain data where data: "g = Inr data" "contentHash sha data = ae_content_hash x"
    and rest: "verify_entries st sha es s2 = (None, s')"
    by (cases r; cases g) (auto split: if_splits)
  from get_ok [of "ae_key x" s1 data s2] g data views have "persisted sha (view s) x"
    by (simp add: persisted_def)
  with Cons.IH [OF rest] Cons.prems(2) views show ?case by auto
qed simp

lemma upload_blobs_keys:
  assumes "upload_blobs st sha key_of blobs entries s = (r, s')" and "k \<notin> key_of ` set (map fst blobs)"
  shows "view s' k = view s k"
  using assms
proof (induction blobs arbitrary: entries s)
  case (Cons b blobs)
  obtain f rd where b: "b = (f, rd)" by (cases b)
  show ?case
  proof (cases rd)
    case (Inl e)
    with Cons.prems b show ?thesis by auto
  next
    case (Inr data)
    obtain p s1 where p: "st_put st (key_of f) (Inr data) (int (length data)) s = (p, s1)"
      by (cases "st_put st (key_of f) (Inr data) (int (length data)) s")
    have k: "view s1 k = view s k" using put_other [OF p] Cons.prems(2) b by auto
    show ?thesis
    proof (cases p)
      case None
      with Cons.prems b Inr p obtain es where "upload_blobs st sha key_of blobs es s1 = (r, s')"
        by (auto simp: Let_def)
      from Cons.IH [OF this] Cons.prems(2) k show ?thesis by auto
    next
      case (Some e)
      with Cons.prems b Inr p k show ?thesis by (auto simp: Let_def)
    qed
  qed
qed auto

lemma upload_blobs_ok:
  assumes "upload_blobs st sha key_of blobs entries s = (Inr es, s')"
    and "distinct (map fst blobs)" and "inj_on key_of (set (map fst blobs))"
  shows "\<exists>new. es = entries @ new \<and> map ae_key new = map (key_of \<circ> fst) blobs \<and>
    (\<forall>e\<in>set new. persisted sha (view s') e)"
  using assms
proof (induction blobs arbitrary: entries s)
  case (Cons b blobs)
  obtain f rd where b: "b = (f, rd)" by (cases b)
  with Cons.prems obtain data where rd: "rd = Inr data" by (cases rd) auto
  obtain p s1 where p: "st_put st (key_of f) (Inr data) (int (length data)) s = (p, s1)"
    by (cases "st_put st (key_of f) (Inr data) (int (length data)) s")
  let ?e = "\<lparr>ae_key = key_of f, ae_content_hash = contentHash sha data, ae_size = int (length data)\<rparr>"
  from Cons.prems(1) b rd p have pn: "p = None"
    and rest: "upload_blobs st sha key_of blobs (entries @ [?e]) s1 = (Inr es, s')"
    by (cases p; simp add: Let_def)+
  from Cons.IH [OF rest] Cons.prems(2,3) obtain new where new: "es = (entries @ [?e]) @ new"
    "map ae_key new = map (key_of \<circ> fst) blobs" "\<forall>e\<in>set new. persisted sha (view s') e"
    by auto
  have "key_of f \<notin> key_of ` set (map fst blobs)"
    using Cons.prems(2,3) b by (auto simp: inj_on_def)
  with upload_blobs_keys [OF rest] have "view s' (key_of f) = view s1 (key_of f)" by blast
  with put_ok [of "key_of f" data _ s s1] p pn have "persisted sha (view s') ?e"
    by (simp add: persisted_def)
  with new b show ?case by (intro exI [of _ "?e # new"]) simp
qed simp

lemma commit_stages:
  assumes "CommitArtifacts st sha encode m0 ns j a blobs s = ((r, m), s')"
  obtains (early) "r \<noteq> None" "\<And>k. k \<notin> ArtifactKey ns j a ` set (map fst blobs) \<Longrightarrow> view s' k = view s k"
  | (manifest) es s1 s2 data p where
      "upload_blobs st sha (ArtifactKey ns j a) (sort_key fst blobs) [] s = (Inr es, s1)"
      "view s2 = view s1" "rm_artifacts m = es" "encode m = Some data"
      "rm_content_hash m = computeManifestContentHash sha es"
      "st_put st (ManifestKey ns j a) (Inr data) (int (length data)) s2 = (p, s')" "r = None \<longleftrightarrow> p = None"
proof -
  obtain u s1 where u: "upload_blobs st sha (ArtifactKey ns j a) (sort_key fst blobs) [] s = (u, s1)"
    by (cases "upload_blobs st sha (ArtifactKey ns j a) (sort_key fst blobs) [] s")
  have keys: "view s1 k = view s k" if "k \<notin> ArtifactKey ns j a ` set (map fst blobs)" for k
    using upload_blobs_keys [OF u] that by simp
  show thesis
  proof (cases u)
    case (Inl e)
    with assms u keys show thesis by (intro early) (auto simp: CommitArtifacts_def)
  next
    case (Inr es)
    obtain v s2 where v: "verify_uploads st es s1 = (v, s2)" by (cases "verify_uploads st es s1")
    note view2 = verify_uploads_view [OF v]
    let ?m = "m0\<lparr>rm_artifacts := es, rm_content_hash := computeManifestContentHash sha es\<rparr>"
    show thesis
    proof (cases "v \<noteq> None \<or> encode ?m = None")
      case True
      with assms u Inr v keys view2 show thesis
        by (intro early) (auto simp: CommitArtifacts_def Let_def split: option.splits)
    next
      case False
      then obtain data where enc: "v = None" "encode ?m = Some data" by auto
      obtain p s3 where p: "st_put st (ManifestKey ns j a) (Inr data) (int (length data)) s2 = (p, s3)"
        by (cases "st_put st (ManifestKey ns j a) (Inr data) (int (length data)) s2")
      from assms u Inr v enc p have "m = ?m" "s' = s3" "r = None \<longleftrightarrow> p = None"
        by (cases p; auto simp: CommitArtifacts_def Let_def)+
      with u Inr view2 enc p show thesis by (intro manifest [of es s1 s2 data p]) auto
    qed
  qed
qed

lemma ArtifactKey_inj: "inj (ArtifactKey ns j a)"
  by (auto simp: inj_def ArtifactKey_def)

lemma commit_persisted:
  assumes "upload_blobs st sha (ArtifactKey ns j a) (sort_key fst blobs) [] s = (Inr es, s1)"
    and "distinct (map fst blobs)"
  shows "\<forall>e\<in>set es. persisted sha (view s1) e"
    and "ae_key ` set es = ArtifactKey ns j a ` set (map fst blobs)"
proof -
  have d: "distinct (map fst (sort_key fst blobs))"
    using assms(2) by (simp add: distinct_map)
  show "\<forall>e\<in>set es. persisted sha (view s1) e"
    using upload_blobs_ok [OF assms(1) d inj_on_subset [OF ArtifactKey_inj]] by auto
  obtain new where "es = [] @ new" "map ae_key new = map (ArtifactKey ns j a \<circ> fst) (sort_key fst blobs)"
    using upload_blobs_ok [OF assms(1) d inj_on_subset [OF ArtifactKey_inj]] by auto
  then have "set (map ae_key es) = set (map (ArtifactKey ns j a \<circ> fst) (sort_key fst blobs))" by simp
  then show "ae_key ` set es = ArtifactKey ns j a ` set (map fst blobs)" by (simp add: image_image)
qed

text \<open>
  A manifest becomes visible only together with everything it references: if the manifest
  key changes in a commit, whatever the outcome, all entries are persisted.
\<close>

lemma commit_visible:
  assumes "CommitArtifacts st sha encode m0 ns j a blobs s = ((r, m), s')"
    and "distinct (map fst blobs)" and "''manifest.json'' \<notin> set (map fst blobs)"
    and "r = None \<or> view s' (ManifestKey ns j a) \<noteq> view s (ManifestKey ns j a)"
  shows "\<exists>data. view s' (ManifestKey ns j a) = Some data \<and> encode m = Some data \<and>
    (\<forall>e\<in>set (rm_artifacts m). persisted sha (view s') e) \<and>
    ae_key ` set (rm_artifacts m) = ArtifactKey ns j a ` set (map fst blobs) \<and>
    rm_content_hash m = computeManifestContentHash sha (rm_artifacts m)"
  using assms(1)
proof (cases rule: commit_stages)
  case early
  have "ManifestKey ns j a \<notin> ArtifactKey ns j a ` set (map fst blobs)"
    using assms(3) by (simp add: ManifestKey_ArtifactKey inj_image_mem_iff [OF ArtifactKey_inj])
  with early assms(4) show ?thesis by blast
next
  case (manifest es s1 s2 data p)
  note per = commit_persisted [OF manifest(1) assms(2)]
  have notin: "ManifestKey ns j a \<notin> ae_key ` set es"
    using assms(3) per(2) by (simp add: ManifestKey_ArtifactKey inj_image_mem_iff [OF ArtifactKey_inj])
  have same: "view s1 (ManifestKey ns j a) = view s (ManifestKey ns j a)"
    using upload_blobs_keys [OF manifest(1), of "ManifestKey ns j a"] notin per(2) by simp
  have vis: "view s' (ManifestKey ns j a) = Some data"
  proof (cases p)
    case None
    with put_ok [of "ManifestKey ns j a" data _ s2 s'] manifest(6) show ?thesis by simp
  next
    case (Some e)
    with put_fail [of "ManifestKey ns j a" "Inr data" "int (length data)" s2 e s'] manifest(2,6,7) assms(4) same
    show ?thesis by auto
  qed
  have "persisted sha (view s') e" if "e \<in> set es" for e
  proof -
    from that notin have "ae_key e \<noteq> ManifestKey ns j a" by (metis imageI)
    with put_other [OF manifest(6)] manifest(2) have "view s' (ae_key e) = view s1 (ae_key e)" by simp
    with per(1) that show ?thesis by (auto simp: persisted_def)
  qed
  with vis manifest per(2) show ?thesis by auto
qed

lemma validate_sound:
  assumes "ValidateCommit st sha decode ns j a s = (Inr m, s')"
  shows "(\<exists>data. view s (ManifestKey ns j a) = Some data \<and> decode data = Some m) \<and>
    (\<forall>e\<in>set (rm_artifacts m). persisted sha (view s) e) \<and>
    rm_content_hash m = computeManifestContentHash sha (rm_artifacts m)"
proof -
  let ?k = "ManifestKey ns j a"
  obtain r s1 where x: "st_exists st ?k s = (r, s1)" by (cases "st_exists st ?k s")
  obtain g s2 where g: "st_get st ?k s1 = (g, s2)" by (cases "st_get st ?k s1")
  note views = exists_view [OF x] get_view [OF g]
  from assms x g obtain data where d: "g = Inr data" by (cases r; cases g) (auto simp: ValidateCommit_def Let_def split: if_splits)
  define v where "v m = fst (verify_entries st sha (rm_artifacts m) s2)" for m :: ResultManifest
  define s3 where "s3 m = snd (verify_entries st sha (rm_artifacts m) s2)" for m :: ResultManifest
  have v: "verify_entries st sha (rm_artifacts m) s2 = (v m, s3 m)"
    for m :: ResultManifest by (simp add: v_def s3_def)
  from assms x g d v have m: "decode data = Some m" "v m = None"
    "rm_content_hash m = computeManifestContentHash sha (rm_artifacts m)"
    by (cases r; cases "decode data"; cases "v m";
        auto simp: ValidateCommit_def Let_def split: if_splits option.splits)+
  from get_ok [of ?k s1 data s2] g d views have "view s ?k = Some data" by simp
  moreover have "persisted sha (view s) e" if "e \<in> set (rm_artifacts m)" for e
    using verify_entries_persisted [of sha "rm_artifacts m" s2 "s3 m" e] v [of m] m(2) that views by simp
  ultimately show ?thesis using m by blast
qed

end

end
