(* ===== verification/Paths.thy ===== *)
theory Paths
  imports GoStd
begin

text \<open>
  \<open>path.Clean\<close> and \<open>path.Join\<close> of Go's library (on the systems the operator runs on,
  \<open>filepath\<close> agrees with them), and the cleaning the HTTP multiplexer applies to a request
  path. A path is split at slashes; dot and empty elements vanish, a dot-dot element drops
  the element before it.
\<close>

fun clean_elements :: "bool \<Rightarrow> string list \<Rightarrow> string list \<Rightarrow> string list" where
  "clean_elements rooted stack [] = rev stack"
| "clean_elements rooted stack (e # es) =
     (if e = [] \<or> e = ''.'' then clean_elements rooted stack es
      else if e = ''..'' then
        (case stack of
           [] \<Rightarrow> clean_elements rooted (if rooted then [] else [''..'']) es
         | t # rest \<Rightarrow>
             if t = ''..'' then clean_elements rooted (''..'' # stack) es
             else clean_elements rooted rest es)
      else clean_elements rooted (e # stack) es)"

fun join_slash :: "string list \<Rightarrow> string" where
  "join_slash [] = []"
| "join_slash [x] = x"
| "join_slash (x # y # ys) = x @ CHR ''/'' # join_slash (y # ys)"

definition is_abs :: "string \<Rightarrow> bool" where
  "is_abs p \<longleftrightarrow> HasPrefix p ''/''"

definition path_elements :: "string \<Rightarrow> string list" where
  "path_elements p = clean_elements (is_abs p) [] (Split p (CHR ''/''))"

definition Clean :: "string \<Rightarrow> string" where
  "Clean p =
     (let es = path_elements p
      in if is_abs p then CHR ''/'' # join_slash es else if es = [] then ''.'' else join_slash es)"

text \<open>\<open>Join\<close> drops empty parts and cleans the rest.\<close>

definition PathJoin :: "string list \<Rightarrow> string" where
  "PathJoin parts =
     (let ps = filter (\<lambda>p. p \<noteq> []) parts in if ps = [] then [] else Clean (join_slash ps))"

text \<open>\<open>cleanPath\<close> of \<open>net/http\<close>.\<close>

definition mux_clean :: "string \<Rightarrow> string" where
  "mux_clean p =
     (if p = [] then ''/''
      else let p = (if is_abs p then p else CHR ''/'' # p); np = Clean p
        in if HasSuffix p ''/'' \<and> np \<noteq> ''/'' then np @ ''/'' else np)"

lemma clean_elements_parts:
  "e \<in> set (clean_elements rooted stack es) \<Longrightarrow>
   e \<in> set stack \<or> (e \<in> set es \<and> e \<noteq> [] \<and> e \<noteq> ''.'') \<or> e = ''..''"
  by (induction rooted stack es rule: clean_elements.induct) (auto split: list.splits if_splits)

lemma clean_elements_rooted:
  "\<forall>e\<in>set stack. e \<noteq> ''..'' \<Longrightarrow> e \<in> set (clean_elements True stack es) \<Longrightarrow> e \<noteq> ''..''"
proof (induction "True" stack es rule: clean_elements.induct)
  case (2 stack e es)
  then show ?case by (cases stack) (auto split: if_splits)
qed simp

lemma clean_elements_plain:
  "\<forall>e\<in>set es. e \<noteq> [] \<and> e \<noteq> ''.'' \<and> e \<noteq> ''..'' \<Longrightarrow> clean_elements rooted stack es = rev stack @ es"
  by (induction es arbitrary: stack) auto

text \<open>A cleaned rooted path has no dot, dot-dot or empty element.\<close>

lemma path_elements_rooted:
  assumes "is_abs p" and "e \<in> set (path_elements p)"
  shows "e \<noteq> ''..'' \<and> e \<noteq> ''.'' \<and> e \<noteq> [] \<and> CHR ''/'' \<notin> set e"
proof -
  have "e \<noteq> ''..''" using assms clean_elements_rooted [of "[]" e] by (simp add: path_elements_def)
  moreover from this have "e \<in> set (Split p (CHR ''/'')) \<and> e \<noteq> [] \<and> e \<noteq> ''.''"
    using assms clean_elements_parts [of e True "[]" "Split p (CHR ''/'')"] by (auto simp: path_elements_def)
  ultimately show ?thesis using Split_no_sep by blast
qed

end
