(* ===== verification/Gateway.thy ===== *)
theory Gateway
  imports ArtifactCommit Paths
begin

text \<open>
  The artifact gateway (\<open>internal/gateway\<close>): session tokens, authentication, scope checks
  and the HTTP handlers over a store. A request carries the decoded URL path the
  multiplexer sees; JSON decoding and encoding are parameters; \<open>token\<close> is the random token
  drawn for a request, \<open>None\<close> when the system's random source fails, which panics.
\<close>

subsection \<open>session.go\<close>

record SessionInfo =
  si_job_uid :: uid
  si_attempt_uid :: uid
  si_namespace :: string
  si_expires_at :: instant

type_synonym sessions = "(string \<times> SessionInfo) list"

definition CreateSession ::
  "instant \<Rightarrow> string \<Rightarrow> uid \<Rightarrow> uid \<Rightarrow> string \<Rightarrow> duration \<Rightarrow> sessions \<Rightarrow> sessions" where
  "CreateSession now token jobUID attemptUID ns ttl m =
     AList.update token
       \<lparr>si_job_uid = jobUID, si_attempt_uid = attemptUID, si_namespace = ns,
        si_expires_at = time_add now ttl\<rparr> m"

definition ValidateToken :: "instant \<Rightarrow> sessions \<Rightarrow> string \<Rightarrow> string + SessionInfo" where
  "ValidateToken now m token =
     (case map_of m token of
        None \<Rightarrow> Inl ''invalid session token''
      | Some info \<Rightarrow>
          if time_after now (si_expires_at info) then Inl ''session token expired'' else Inr info)"

subsection \<open>auth.go\<close>

record gw_request =
  gq_method :: string
  gq_path :: string
  gq_authorization :: string
  gq_body :: reader
  gq_length :: int

definition Authenticate :: "instant \<Rightarrow> sessions \<Rightarrow> gw_request \<Rightarrow> string + SessionInfo" where
  "Authenticate now m r =
     (let header = gq_authorization r
      in if header = [] then Inl ''missing Authorization header''
         else if \<not> HasPrefix header ''Bearer '' then Inl ''invalid Authorization header format''
         else ValidateToken now m (TrimPrefix header ''Bearer ''))"

definition AuthorizeScope :: "SessionInfo \<Rightarrow> string \<Rightarrow> uid \<Rightarrow> uid \<Rightarrow> string option" where
  "AuthorizeScope session ns jobUID attemptUID =
     (if si_namespace session \<noteq> ns then Some ''namespace mismatch''
      else if si_job_uid session \<noteq> jobUID then Some ''jobUID mismatch''
      else if si_attempt_uid session \<noteq> attemptUID then Some ''attemptUID mismatch''
      else None)"

subsection \<open>server.go, uploads.go, results.go\<close>

datatype gw_reply = Reply int string | Panicked

record 's gateway =
  gw_store :: 's
  gw_sessions :: sessions

record sessionRequest =
  sr_job_uid :: string
  sr_attempt_uid :: string
  sr_namespace :: string
  sr_ttl_seconds :: int

definition handleHealth :: gw_reply where
  "handleHealth = Reply 200 ''{\"status\":\"ok\"}''"

text \<open>The body is decoded from a reader: a read error is a decoding error.\<close>

definition decode_body :: "(string \<Rightarrow> 'a option) \<Rightarrow> reader \<Rightarrow> 'a option" where
  "decode_body decode body = (case body of Inl e \<Rightarrow> None | Inr data \<Rightarrow> decode data)"

definition session_ttl :: "sessionRequest \<Rightarrow> duration" where
  "session_ttl req = (if sr_ttl_seconds req > 0 then seconds (sr_ttl_seconds req) else 30 * minute)"

definition handleSession ::
  "(string \<Rightarrow> sessionRequest option) \<Rightarrow> (string \<Rightarrow> instant \<Rightarrow> string) \<Rightarrow> instant \<Rightarrow> string option \<Rightarrow>
   gw_request \<Rightarrow> 's gateway \<Rightarrow> gw_reply \<times> 's gateway" where
  "handleSession decode encode now token r g =
     (if gq_method r \<noteq> ''POST'' then (Reply 405 ''method not allowed'', g)
      else case decode_body decode (gq_body r) of
        None \<Rightarrow> (Reply 400 ''invalid request body'', g)
      | Some req \<Rightarrow>
          if sr_job_uid req = [] \<or> sr_attempt_uid req = [] \<or> sr_namespace req = []
          then (Reply 400 ''jobUID, attemptUID, and namespace are required'', g)
          else case token of
            None \<Rightarrow> (Panicked, g)
          | Some token \<Rightarrow>
              (let g = g\<lparr>gw_sessions := CreateSession now token (sr_job_uid req) (sr_attempt_uid req)
                           (sr_namespace req) (session_ttl req) (gw_sessions g)\<rparr>
               in case ValidateToken now (gw_sessions g) token of
                    Inl e \<Rightarrow> (Panicked, g)
                  | Inr info \<Rightarrow> (Reply 201 (encode token (si_expires_at info)), g)))"

text \<open>The checks upload and download share: the session, then the key in its scope.\<close>

definition artifacts_path :: string where "artifacts_path = ''/api/v1/artifacts/''"

definition authorized_key :: "instant \<Rightarrow> sessions \<Rightarrow> gw_request \<Rightarrow> gw_reply + string" where
  "authorized_key now m r =
     (case Authenticate now m r of
        Inl e \<Rightarrow> Inl (Reply 401 (''authentication failed: '' @ e))
      | Inr session \<Rightarrow>
          (let key = TrimPrefix (gq_path r) artifacts_path
           in if key = [] then Inl (Reply 400 ''missing artifact key'')
              else case ParseKey key of
                None \<Rightarrow> Inl (Reply 400 ''invalid key'')
              | Some (ns, jobUID, rest) \<Rightarrow>
                  (let parts = SplitN key (CHR ''/'') 4
                   in if length parts < 4
                      then Inl (Reply 400 ''invalid key: expected namespace/jobUID/attemptUID/filename'')
                      else case AuthorizeScope session ns jobUID (parts ! 2) of
                        Some e \<Rightarrow> Inl (Reply 403 (''authorization failed: '' @ e))
                      | None \<Rightarrow> Inr key)))"

definition HandleUpload ::
  "'s store \<Rightarrow> instant \<Rightarrow> gw_request \<Rightarrow> 's gateway \<Rightarrow> gw_reply \<times> 's gateway" where
  "HandleUpload st now r g =
     (case authorized_key now (gw_sessions g) r of
        Inl reply \<Rightarrow> (reply, g)
      | Inr key \<Rightarrow>
          (case st_put st key (gq_body r) (gq_length r) (gw_store g) of
             (Some e, s) \<Rightarrow> (Reply 500 (''upload failed: '' @ e), g\<lparr>gw_store := s\<rparr>)
           | (None, s) \<Rightarrow> (Reply 201 [], g\<lparr>gw_store := s\<rparr>)))"

definition HandleDownload ::
  "'s store \<Rightarrow> instant \<Rightarrow> gw_request \<Rightarrow> 's gateway \<Rightarrow> gw_reply \<times> 's gateway" where
  "HandleDownload st now r g =
     (case authorized_key now (gw_sessions g) r of
        Inl reply \<Rightarrow> (reply, g)
      | Inr key \<Rightarrow>
          (case st_get st key (gw_store g) of
             (Inl e, s) \<Rightarrow> (Reply 404 (''download failed: '' @ e), g\<lparr>gw_store := s\<rparr>)
           | (Inr data, s) \<Rightarrow> (Reply 200 data, g\<lparr>gw_store := s\<rparr>)))"

definition handleArtifacts ::
  "'s store \<Rightarrow> instant \<Rightarrow> gw_request \<Rightarrow> 's gateway \<Rightarrow> gw_reply \<times> 's gateway" where
  "handleArtifacts st now r g =
     (if gq_method r = ''PUT'' then HandleUpload st now r g
      else if gq_method r = ''GET'' then HandleDownload st now r g
      else (Reply 405 ''method not allowed'', g))"

definition result_key :: "SessionInfo \<Rightarrow> string" where
  "result_key session =
     ArtifactKey (si_namespace session) (si_job_uid session) (si_attempt_uid session) ''result-manifest.json''"

definition HandleResult ::
  "'s store \<Rightarrow> (string \<Rightarrow> ManifestEnvelope option) \<Rightarrow> (ManifestEnvelope \<Rightarrow> string option) \<Rightarrow> instant \<Rightarrow>
   gw_request \<Rightarrow> 's gateway \<Rightarrow> gw_reply \<times> 's gateway" where
  "HandleResult st decode encode now r g =
     (case Authenticate now (gw_sessions g) r of
        Inl e \<Rightarrow> (Reply 401 (''authentication failed: '' @ e), g)
      | Inr session \<Rightarrow>
          (case decode_body decode (gq_body r) of
             None \<Rightarrow> (Reply 400 ''invalid request body'', g)
           | Some envelope \<Rightarrow>
               (case AuthorizeScope session (si_namespace session) (me_job_uid envelope) (me_attempt_uid envelope) of
                  Some e \<Rightarrow> (Reply 403 (''authorization failed: '' @ e), g)
                | None \<Rightarrow>
                    (case encode envelope of
                       None \<Rightarrow> (Reply 500 ''failed to marshal manifest'', g)
                     | Some data \<Rightarrow>
                         (case st_put st (result_key session) (Inr data) (int (length data)) (gw_store g) of
                            (Some e, s) \<Rightarrow> (Reply 500 (''failed to store manifest: '' @ e), g\<lparr>gw_store := s\<rparr>)
                          | (None, s) \<Rightarrow> (Reply 201 [], g\<lparr>gw_store := s\<rparr>))))))"

text \<open>The JSON codecs of the server, and one request with its clock and random draw.\<close>

record codecs =
  cd_session_request :: "string \<Rightarrow> sessionRequest option"
  cd_session_response :: "string \<Rightarrow> instant \<Rightarrow> string"
  cd_envelope :: "string \<Rightarrow> ManifestEnvelope option"
  cd_envelope_out :: "ManifestEnvelope \<Rightarrow> string option"

record gw_call =
  gc_now :: instant
  gc_token_draw :: "string option"
  gc_request :: gw_request

text \<open>
  The multiplexer: a path that is not clean is redirected to its clean form, the artifacts
  route is a prefix, the others are exact.
\<close>

definition ServeHTTP ::
  "'s store \<Rightarrow> codecs \<Rightarrow> 's gateway \<Rightarrow> gw_call \<Rightarrow> gw_reply \<times> 's gateway" where
  "ServeHTTP st cd g call =
     (let r = gc_request call; p = gq_path r
      in if mux_clean p \<noteq> p then (Reply 301 (mux_clean p), g)
         else if p = ''/healthz'' then (handleHealth, g)
         else if p = ''/api/v1/sessions''
         then handleSession (cd_session_request cd) (cd_session_response cd) (gc_now call)
                (gc_token_draw call) r g
         else if HasPrefix p artifacts_path then handleArtifacts st (gc_now call) r g
         else if p = ''/api/v1/results''
         then HandleResult st (cd_envelope cd) (cd_envelope_out cd) (gc_now call) r g
         else (Reply 404 ''404 page not found'', g))"

definition gateway_step :: "'s store \<Rightarrow> codecs \<Rightarrow> 's gateway \<Rightarrow> gw_call \<Rightarrow> 's gateway" where
  "gateway_step st cd g call = snd (ServeHTTP st cd g call)"

subsection \<open>cmd/artifact-gateway\<close>

datatype store_choice = UseMemory | UseS3 S3Store | BadStorage

definition createStore :: "string \<Rightarrow> store_choice" where
  "createStore storagePath =
     (if storagePath = ''memory'' \<or> storagePath = [] then UseMemory
      else if HasPrefix storagePath ''s3://'' then
        (let parts = SplitN (TrimPrefix storagePath ''s3://'') (CHR ''/'') 2
         in if length parts \<noteq> 2 \<or> parts ! 0 = [] \<or> parts ! 1 = [] then BadStorage
            else UseS3 (NewS3Store (''https://'' @ parts ! 0) (parts ! 1) [] []))
      else BadStorage)"

subsection \<open>Scopes\<close>

definition in_scope :: "SessionInfo \<Rightarrow> string \<Rightarrow> bool" where
  "in_scope session key \<longleftrightarrow>
     (\<exists>f. key = ArtifactKey (si_namespace session) (si_job_uid session) (si_attempt_uid session) f)"

definition valid_session :: "instant \<Rightarrow> sessions \<Rightarrow> SessionInfo \<Rightarrow> bool" where
  "valid_session now m session \<longleftrightarrow> (\<exists>token. map_of m token = Some session \<and> \<not> time_after now (si_expires_at session))"

lemma Authenticate_valid: "Authenticate now m r = Inr session \<Longrightarrow> valid_session now m session"
  by (auto simp: Authenticate_def ValidateToken_def valid_session_def Let_def
      split: if_splits option.splits)

lemma SplitN_Suc_Some: "SplitN s c (Suc (Suc n)) = (case cut c s of None \<Rightarrow> [s] | Some (a, b) \<Rightarrow> a # SplitN b c (Suc n))"
  by simp

lemma SplitN_4:
  assumes "\<not> length (SplitN key (CHR ''/'') 4) < 4"
  shows "\<exists>ns j a f. key = ArtifactKey ns j a f \<and> SplitN key (CHR ''/'') 4 = [ns, j, a, f] \<and>
    ParseKey key = Some (ns, j, a @ ''/'' @ f)"
proof -
  have four: "(4::nat) = Suc (Suc (Suc (Suc 0)))" by simp
  from assms obtain ns r1 where 1: "cut (CHR ''/'') key = Some (ns, r1)"
    by (cases "cut (CHR ''/'') key") (auto simp: four)
  from assms 1 obtain j r2 where 2: "cut (CHR ''/'') r1 = Some (j, r2)"
    by (cases "cut (CHR ''/'') r1") (auto simp: four)
  from assms 1 2 obtain a f where 3: "cut (CHR ''/'') r2 = Some (a, f)"
    by (cases "cut (CHR ''/'') r2") (auto simp: four)
  from cut_SomeD [OF 1] cut_SomeD [OF 2] cut_SomeD [OF 3]
  have "key = ArtifactKey ns j a f" "no_slash ns" "no_slash j" by (simp_all add: ArtifactKey_def)
  moreover have "SplitN key (CHR ''/'') 4 = [ns, j, a, f]" using 1 2 3 by (simp add: four)
  ultimately show ?thesis using ParseKey_ArtifactKey [of ns j a f] by blast
qed

lemma authorized_key_scope:
  assumes "authorized_key now m r = Inr key"
  shows "\<exists>session. Authenticate now m r = Inr session \<and> in_scope session key \<and>
    key = TrimPrefix (gq_path r) artifacts_path"
proof -
  from assms obtain session where s: "Authenticate now m r = Inr session"
    by (cases "Authenticate now m r") (auto simp: authorized_key_def)
  let ?k = "TrimPrefix (gq_path r) artifacts_path"
  from assms s have len: "\<not> length (SplitN ?k (CHR ''/'') 4) < 4"
    by (auto simp: authorized_key_def Let_def split: if_splits option.splits)
  from SplitN_4 [OF len] obtain ns j a f where k: "?k = ArtifactKey ns j a f"
    "SplitN ?k (CHR ''/'') 4 = [ns, j, a, f]" "ParseKey ?k = Some (ns, j, a @ ''/'' @ f)" by blast
  from assms s k(2,3) have key: "key = ?k" and auth: "AuthorizeScope session ns j a = None"
    by (auto simp: authorized_key_def Let_def split: if_splits option.splits)
  from auth have "si_namespace session = ns" "si_job_uid session = j" "si_attempt_uid session = a"
    by (auto simp: AuthorizeScope_def split: if_splits)
  with k(1) key s show ?thesis unfolding in_scope_def by blast
qed

subsection \<open>What a request may change\<close>

definition minted_session :: "codecs \<Rightarrow> gw_call \<Rightarrow> SessionInfo option" where
  "minted_session cd call =
     (case decode_body (cd_session_request cd) (gq_body (gc_request call)) of
        None \<Rightarrow> None
      | Some req \<Rightarrow> Some \<lparr>si_job_uid = sr_job_uid req, si_attempt_uid = sr_attempt_uid req,
          si_namespace = sr_namespace req, si_expires_at = time_add (gc_now call) (session_ttl req)\<rparr>)"

lemma handleSession_sessions:
  assumes "handleSession (cd_session_request cd) enc (gc_now call) tok (gc_request call) g = (reply, g')"
    and "session \<in> ran (map_of (gw_sessions g'))"
  shows "session \<in> ran (map_of (gw_sessions g)) \<or> minted_session cd call = Some session"
proof -
  have upd: "session \<in> ran (map_of m) \<or> session = i" if "session \<in> ran (map_of (AList.update t i m))" for t i m
    using that by (auto simp: update_conv' ran_def split: if_splits)
  show ?thesis
  proof (cases "gw_sessions g' = gw_sessions g")
    case True
    with assms(2) show ?thesis by simp
  next
    case False
    with assms(1) obtain req t where
      "decode_body (cd_session_request cd) (gq_body (gc_request call)) = Some req"
      "gw_sessions g' = CreateSession (gc_now call) t (sr_job_uid req) (sr_attempt_uid req)
         (sr_namespace req) (session_ttl req) (gw_sessions g)"
      by (auto simp: handleSession_def Let_def split: if_splits option.splits sum.splits)
    with assms(2) upd show ?thesis by (fastforce simp: CreateSession_def minted_session_def)
  qed
qed

lemma handleSession_store:
  "handleSession dec enc now tok r g = (reply, g') \<Longrightarrow> gw_store g' = gw_store g"
  by (auto simp: handleSession_def Let_def split: if_splits option.splits sum.splits)

lemma handlers_sessions:
  "HandleUpload st now r g = (reply, g') \<Longrightarrow> gw_sessions g' = gw_sessions g"
  "HandleDownload st now r g = (reply, g') \<Longrightarrow> gw_sessions g' = gw_sessions g"
  "HandleResult st dec enc now r g = (reply, g') \<Longrightarrow> gw_sessions g' = gw_sessions g"
  by (auto simp: HandleUpload_def HandleDownload_def HandleResult_def
      split: sum.splits option.splits prod.splits)

lemma ServeHTTP_sessions:
  assumes "ServeHTTP st cd g call = (reply, g')" and "session \<in> ran (map_of (gw_sessions g'))"
  shows "session \<in> ran (map_of (gw_sessions g)) \<or> minted_session cd call = Some session"
  using assms handlers_sessions handleSession_sessions
  by (fastforce simp: ServeHTTP_def handleArtifacts_def Let_def split: if_splits)

context artifact_store
begin

lemma HandleUpload_view:
  assumes "HandleUpload st now r g = (reply, g')" and "view (gw_store g') k \<noteq> view (gw_store g) k"
  shows "\<exists>session. Authenticate now (gw_sessions g) r = Inr session \<and> in_scope session k"
proof -
  from assms obtain key where key: "authorized_key now (gw_sessions g) r = Inr key"
    by (cases "authorized_key now (gw_sessions g) r") (auto simp: HandleUpload_def)
  obtain p s where p: "st_put st key (gq_body r) (gq_length r) (gw_store g) = (p, s)"
    by (cases "st_put st key (gq_body r) (gq_length r) (gw_store g)")
  with assms(1) key have "gw_store g' = s" by (cases p) (auto simp: HandleUpload_def)
  with put_other [OF p] assms(2) have "k = key" by metis
  with authorized_key_scope [OF key] show ?thesis by blast
qed

lemma HandleDownload_view:
  assumes "HandleDownload st now r g = (reply, g')"
  shows "view (gw_store g') = view (gw_store g)"
proof (cases "authorized_key now (gw_sessions g) r")
  case (Inl e)
  with assms show ?thesis by (auto simp: HandleDownload_def)
next
  case (Inr key)
  obtain p s where p: "st_get st key (gw_store g) = (p, s)" by (cases "st_get st key (gw_store g)")
  with assms Inr have "gw_store g' = s" by (cases p) (auto simp: HandleDownload_def)
  with get_view [OF p] show ?thesis by simp
qed

lemma HandleDownload_reply:
  assumes "HandleDownload st now r g = (Reply 200 data, g')"
  shows "\<exists>session key. Authenticate now (gw_sessions g) r = Inr session \<and> in_scope session key \<and>
    key = TrimPrefix (gq_path r) artifacts_path \<and> view (gw_store g) key = Some data"
proof (cases "authorized_key now (gw_sessions g) r")
  case (Inl e)
  then have "e \<noteq> Reply 200 data"
    by (auto simp: authorized_key_def Let_def split: sum.splits if_splits option.splits)
  with Inl assms show ?thesis by (simp add: HandleDownload_def)
next
  case (Inr key)
  obtain p s where p: "st_get st key (gw_store g) = (p, s)" by (cases "st_get st key (gw_store g)")
  with assms Inr have "p = Inr data" by (cases p) (auto simp: HandleDownload_def)
  with get_ok [of key "gw_store g" data s] p have "view (gw_store g) key = Some data" by simp
  with authorized_key_scope [OF Inr] show ?thesis by blast
qed

lemma HandleResult_view:
  assumes "HandleResult st dec enc now r g = (reply, g')" and "view (gw_store g') k \<noteq> view (gw_store g) k"
  shows "\<exists>session. Authenticate now (gw_sessions g) r = Inr session \<and> in_scope session k"
proof -
  from assms obtain session where s: "Authenticate now (gw_sessions g) r = Inr session"
    by (cases "Authenticate now (gw_sessions g) r") (auto simp: HandleResult_def)
  from assms s obtain data p s1 where p:
    "st_put st (result_key session) (Inr data) (int (length data)) (gw_store g) = (p, s1)" "gw_store g' = s1"
    by (auto simp: HandleResult_def split: option.splits prod.splits)
  with put_other [OF p(1)] assms(2) have "k = result_key session" by metis
  with s show ?thesis by (auto simp: in_scope_def result_key_def)
qed

lemma ServeHTTP_view:
  assumes "ServeHTTP st cd g call = (reply, g')" and "view (gw_store g') k \<noteq> view (gw_store g) k"
  shows "\<exists>session\<in>ran (map_of (gw_sessions g)). in_scope session k \<and>
    \<not> time_after (gc_now call) (si_expires_at session)"
proof -
  from assms have "\<exists>session. Authenticate (gc_now call) (gw_sessions g) (gc_request call) = Inr session \<and> in_scope session k"
    by (auto simp: ServeHTTP_def handleArtifacts_def Let_def dest: HandleUpload_view HandleDownload_view
        HandleResult_view handleSession_store split: if_splits)
  then obtain session where s: "Authenticate (gc_now call) (gw_sessions g) (gc_request call) = Inr session"
    "in_scope session k" by blast
  from Authenticate_valid [OF s(1)] s(2) show ?thesis by (auto simp: valid_session_def intro: ranI)
qed

text \<open>A key no session covers, and none is minted for, never changes.\<close>

lemma gateway_run_untouched:
  assumes "\<forall>session\<in>ran (map_of (gw_sessions g)). \<not> in_scope session k"
    and "\<forall>call\<in>set calls. \<forall>session. minted_session cd call = Some session \<longrightarrow> \<not> in_scope session k"
  shows "view (gw_store (foldl (gateway_step st cd) g calls)) k = view (gw_store g) k"
  using assms
proof (induction calls arbitrary: g)
  case (Cons call calls)
  obtain reply g1 where c: "ServeHTTP st cd g call = (reply, g1)" by (cases "ServeHTTP st cd g call")
  have same: "view (gw_store g1) k = view (gw_store g) k"
    using ServeHTTP_view [OF c, of k] Cons.prems(1) by blast
  have "\<forall>session\<in>ran (map_of (gw_sessions g1)). \<not> in_scope session k"
    using ServeHTTP_sessions [OF c] Cons.prems by auto
  from Cons.IH [OF this] Cons.prems(2) same c show ?case by (simp add: gateway_step_def)
qed simp

end

end
