(* ===== verification/StorageProperties.thy ===== *)
theory StorageProperties
  imports Gateway
begin

text \<open>
  Properties of the artifact side: keys, the commit protocol over the in-memory store, and
  what requests to the gateway can read and change.
\<close>

subsection \<open>Keys\<close>

text \<open>Keys isolate attempts and parse back: keys of different namespaces, jobs, attempts or
  file names are different, and parsing an artifact or checkpoint key returns the namespace
  and job it was built from.\<close>

theorem keys_isolate:
  assumes "CHR ''/'' \<notin> set ns" "CHR ''/'' \<notin> set ns'" "CHR ''/'' \<notin> set j" "CHR ''/'' \<notin> set j'"
    and "CHR ''/'' \<notin> set a" "CHR ''/'' \<notin> set a'"
  shows "(ArtifactKey ns j a f = ArtifactKey ns' j' a' f' \<longleftrightarrow> ns = ns' \<and> j = j' \<and> a = a' \<and> f = f') \<and>
    ParseKey (ArtifactKey ns j a f) = Some (ns, j, a @ ''/'' @ f) \<and>
    ParseKey (CheckpointKey ns j n f) = Some (ns, j, ''checkpoints/'' @ show_int n @ ''/'' @ f)"
  using ArtifactKey_inject [OF assms] ParseKey_ArtifactKey [OF assms(1,3)] ParseKey_CheckpointKey [OF assms(1,3)]
  by blast

theorem keys_isolate_witness:
  "ParseKey (ArtifactKey ''ns'' ''job'' ''a1'' ''out.txt'') = Some (''ns'', ''job'', ''a1/out.txt'')"
  using keys_isolate [of "''ns''" "''ns''" "''job''" "''job''" "''a1''" "''a1''" "''out.txt''" "''out.txt''"]
  by simp

text \<open>Every object of a bucket has its own URL, and the key is one path segment of it: the
  escaped key contains no slash and unescaping it gives the key back.\<close>

theorem object_urls_distinct:
  "(objectURL s k = objectURL s k' \<longleftrightarrow> k = k') \<and> CHR ''/'' \<notin> set (PathEscape k) \<and>
   PathUnescape (PathEscape k) = k"
  by (simp add: objectURL_inject PathEscape_no_slash PathUnescape_PathEscape)

subsection \<open>Commit\<close>

lemma memory_verify_entries:
  assumes "\<forall>e\<in>set es. persisted sha (map_of s) e"
  shows "verify_entries MemoryStore sha es s = (None, s)"
  using assms
  by (induction es) (auto simp: MemoryStore_defs persisted_def)

lemma memory_validate:
  assumes "map_of s (ManifestKey ns j a) = Some data" and "decode data = Some m"
    and "\<forall>e\<in>set (rm_artifacts m). persisted sha (map_of s) e"
    and "rm_content_hash m = computeManifestContentHash sha (rm_artifacts m)"
  shows "ValidateCommit MemoryStore sha decode ns j a s = (Inr m, s)"
proof -
  have "st_exists MemoryStore (ManifestKey ns j a) s = (Inr True, s)"
    "st_get MemoryStore (ManifestKey ns j a) s = (Inr data, s)"
    using assms(1) by (simp_all add: MemoryStore_defs)
  with memory_verify_entries [OF assms(3)] assms(2,4) show ?thesis by (simp add: ValidateCommit_def)
qed

text \<open>C25: A successful commit validates. Over the in-memory store, with a codec that decodes
  what it encodes, committing distinct file names other than manifest.json and then
  validating returns exactly the committed manifest, which lists one entry per file.\<close>

theorem commit_then_validate:
  assumes "CommitArtifacts MemoryStore sha encode m0 ns j a blobs s = ((None, m), s')"
    and "\<And>m data. encode m = Some data \<Longrightarrow> decode data = Some m"
    and "distinct (map fst blobs)" and "''manifest.json'' \<notin> set (map fst blobs)"
  shows "ValidateCommit MemoryStore sha decode ns j a s' = (Inr m, s') \<and>
    ae_key ` set (rm_artifacts m) = ArtifactKey ns j a ` set (map fst blobs)"
proof -
  from memory.commit_visible [OF assms(1,3,4)] obtain data where
    d: "map_of s' (ManifestKey ns j a) = Some data" "encode m = Some data"
      "\<forall>e\<in>set (rm_artifacts m). persisted sha (map_of s') e"
      "ae_key ` set (rm_artifacts m) = ArtifactKey ns j a ` set (map fst blobs)"
      "rm_content_hash m = computeManifestContentHash sha (rm_artifacts m)" by blast
  have "decode data = Some m" by (rule assms(2) [OF d(2)])
  from memory_validate [where decode = decode, OF d(1) this d(3,5)] d(4) show ?thesis by blast
qed

text \<open>A toy codec for manifests with one artifact, and an identity hash.\<close>

definition demo_manifest :: ResultManifest where
  "demo_manifest = \<lparr>rm_exit_code = 0, rm_signal = 0, rm_error_category = [],
     rm_artifacts = [\<lparr>ae_key = ''ns/j/a/f'', ae_content_hash = ''sha256:hi'', ae_size = 2\<rparr>],
     rm_checkpoint_key = [], rm_content_hash = ''sha256:sha256:hi''\<rparr>"

definition demo_encode :: "ResultManifest \<Rightarrow> string option" where
  "demo_encode m = (if m = demo_manifest then Some ''one'' else None)"

definition demo_decode :: "string \<Rightarrow> ResultManifest option" where
  "demo_decode s = (if s = ''one'' then Some demo_manifest else None)"

lemma demo_codec: "demo_encode m = Some data \<Longrightarrow> demo_decode data = Some m"
  by (auto simp: demo_encode_def demo_decode_def split: if_splits)

theorem commit_then_validate_witness:
  "fst (ValidateCommit MemoryStore (\<lambda>d. d) demo_decode ''ns'' ''j'' ''a''
     (snd (CommitArtifacts MemoryStore (\<lambda>d. d) demo_encode demo_manifest ''ns'' ''j'' ''a'' [(''f'', Inr ''hi'')] [])))
   = Inr demo_manifest"
proof -
  let ?c = "CommitArtifacts MemoryStore (\<lambda>d. d) demo_encode demo_manifest ''ns'' ''j'' ''a'' [(''f'', Inr ''hi'')] []"
  have "fst ?c = (None, demo_manifest)" by code_simp
  then have c: "?c = ((None, demo_manifest), snd ?c)" by (metis prod.collapse)
  from commit_then_validate [OF c demo_codec] show ?thesis by simp
qed



definition clash_manifest :: ResultManifest where
  "clash_manifest = demo_manifest\<lparr>rm_artifacts := [\<lparr>ae_key = ''ns/j/a/manifest.json'',
     ae_content_hash = ''sha256:hi'', ae_size = 2\<rparr>]\<rparr>"

text \<open>A blob called manifest.json is accepted and then overwritten by the manifest, which is
  stored under the same key: the commit reports success and validation of it fails.\<close>

theorem manifest_name_clash:
  "let c = CommitArtifacts MemoryStore (\<lambda>d. d) (\<lambda>m. Some ''one'') clash_manifest ''ns'' ''j'' ''a''
       [(''manifest.json'', Inr ''hi'')] []
   in fst (fst c) = None \<and> snd (fst c) = clash_manifest \<and>
      isl (fst (ValidateCommit MemoryStore (\<lambda>d. d) (\<lambda>s. Some clash_manifest) ''ns'' ''j'' ''a'' (snd c)))"
  by code_simp

text \<open>Validation is sound: a manifest is returned only when it is the stored one, every
  artifact it lists is stored with the hash it states, and its overall hash is the hash of
  those hashes.\<close>

theorem validate_commit_sound:
  assumes "ValidateCommit MemoryStore sha decode ns j a s = (Inr m, s')"
  shows "(\<exists>data. map_of s (ManifestKey ns j a) = Some data \<and> decode data = Some m) \<and>
    (\<forall>e\<in>set (rm_artifacts m). \<exists>bytes. map_of s (ae_key e) = Some bytes \<and>
       ae_content_hash e = contentHash sha bytes) \<and>
    rm_content_hash m = computeManifestContentHash sha (rm_artifacts m)"
  using memory.validate_sound [OF assms] unfolding persisted_def by blast

theorem validate_commit_sound_witness:
  "\<exists>data. map_of [(''ns/j/a/f'', ''hi''), (''ns/j/a/manifest.json'', ''one'')] (ManifestKey ''ns'' ''j'' ''a'') = Some data"
proof -
  let ?s = "[(''ns/j/a/f'', ''hi''), (''ns/j/a/manifest.json'', ''one'')]"
  have "fst (ValidateCommit MemoryStore (\<lambda>d. d) demo_decode ''ns'' ''j'' ''a'' ?s) = Inr demo_manifest"
    by code_simp
  then have "ValidateCommit MemoryStore (\<lambda>d. d) demo_decode ''ns'' ''j'' ''a'' ?s =
      (Inr demo_manifest, snd (ValidateCommit MemoryStore (\<lambda>d. d) demo_decode ''ns'' ''j'' ''a'' ?s))"
    by (metis prod.collapse)
  from validate_commit_sound [OF this] show ?thesis by blast
qed

subsection \<open>The gateway\<close>

text \<open>C26: Scope safety of the gateway over any sequence of requests (in-memory store; the proof
  uses only the store contract): an object whose key is covered by no session that exists or
  is created on the way never changes.\<close>

theorem gateway_scope_safety:
  assumes "\<forall>session\<in>ran (map_of (gw_sessions g)). \<not> in_scope session k"
    and "\<forall>call\<in>set calls. \<forall>session. minted_session cd call = Some session \<longrightarrow> \<not> in_scope session k"
  shows "map_of (gw_store (foldl (gateway_step MemoryStore cd) g calls)) k = map_of (gw_store g) k"
  using memory.gateway_run_untouched [OF assms] .

text \<open>A single request changes an object only with the token of an unexpired session whose
  namespace, job and attempt are the leading segments of its key, and a download returns
  exactly the stored bytes of a key in the session's scope.\<close>

theorem gateway_request_scope:
  assumes "ServeHTTP MemoryStore cd g call = (reply, g')"
  shows "(map_of (gw_store g') k \<noteq> map_of (gw_store g) k \<longrightarrow>
      (\<exists>session\<in>ran (map_of (gw_sessions g)). in_scope session k \<and>
         \<not> time_after (gc_now call) (si_expires_at session))) \<and>
    (HandleDownload MemoryStore now r g = (Reply 200 data, h) \<longrightarrow>
      (\<exists>session key. Authenticate now (gw_sessions g) r = Inr session \<and> in_scope session key \<and>
         key = TrimPrefix (gq_path r) artifacts_path \<and> map_of (gw_store g) key = Some data))"
  using memory.ServeHTTP_view [OF assms, of k] memory.HandleDownload_reply [of now r g data h] by blast

definition demo_codecs :: codecs where
  "demo_codecs = \<lparr>
     cd_session_request = (\<lambda>s. if s = ''ask'' then Some \<lparr>sr_job_uid = ''j'', sr_attempt_uid = ''a'',
       sr_namespace = ''ns'', sr_ttl_seconds = 60\<rparr> else if s = ''huge'' then Some \<lparr>sr_job_uid = ''j'',
       sr_attempt_uid = ''a'', sr_namespace = ''ns'', sr_ttl_seconds = 9223372037\<rparr> else None),
     cd_session_response = (\<lambda>t e. t), cd_envelope = (\<lambda>s. None), cd_envelope_out = (\<lambda>e. None)\<rparr>"

definition demo_call :: "string \<Rightarrow> string \<Rightarrow> string \<Rightarrow> string \<Rightarrow> gw_call" where
  "demo_call m path auth body =
     \<lparr>gc_now = 0, gc_token_draw = Some ''tok'',
      gc_request = \<lparr>gq_method = m, gq_path = path, gq_authorization = auth, gq_body = Inr body,
        gq_length = int (length body)\<rparr>\<rparr>"

theorem gateway_scope_safety_witness:
  "map_of (gw_store (foldl (gateway_step MemoryStore demo_codecs)
     \<lparr>gw_store = [(''ns/j/b/f'', ''old'')], gw_sessions = []\<rparr>
     [demo_call ''POST'' ''/api/v1/sessions'' [] ''ask'',
      demo_call ''PUT'' ''/api/v1/artifacts/ns/j/b/f'' ''Bearer tok'' ''new''])) ''ns/j/b/f'' = Some ''old''"
proof -
  let ?calls = "[demo_call ''POST'' ''/api/v1/sessions'' [] ''ask'',
      demo_call ''PUT'' ''/api/v1/artifacts/ns/j/b/f'' ''Bearer tok'' ''new'']"
  let ?g = "\<lparr>gw_store = [(''ns/j/b/f'', ''old'')], gw_sessions = []\<rparr>"
  have "\<forall>call\<in>set ?calls. \<forall>session. minted_session demo_codecs call = Some session \<longrightarrow> \<not> in_scope session ''ns/j/b/f''"
    by (auto simp: minted_session_def decode_body_def demo_codecs_def demo_call_def in_scope_def ArtifactKey_def)
  from gateway_scope_safety [OF _ this, of ?g] show ?thesis by simp
qed

theorem gateway_request_scope_witness:
  "map_of (gw_store (snd (ServeHTTP MemoryStore demo_codecs \<lparr>gw_store = [], gw_sessions = []\<rparr>
     (demo_call ''PUT'' ''/api/v1/artifacts/ns/j/b/f'' ''Bearer tok'' ''new'')))) ''ns/j/b/f'' = None"
proof -
  let ?g = "\<lparr>gw_store = [], gw_sessions = []\<rparr> :: memory gateway"
  from gateway_request_scope [where cd = demo_codecs and g = ?g, OF surjective_pairing, THEN conjunct1]
  show ?thesis by fastforce
qed

text \<open>Creating a session needs no credentials: any POST with the three fields yields a token
  for that scope, valid now, whoever sends it.\<close>

theorem sessions_unauthenticated:
  assumes "gq_method r = ''POST''" and "decode_body dec (gq_body r) = Some req"
    and "sr_job_uid req \<noteq> []" and "sr_attempt_uid req \<noteq> []" and "sr_namespace req \<noteq> []"
    and "sr_ttl_seconds req \<le> 9223372036"
  shows "\<exists>body g'. handleSession dec enc now (Some token) r g = (Reply 201 body, g') \<and>
    ValidateToken now (gw_sessions g') token =
      Inr \<lparr>si_job_uid = sr_job_uid req, si_attempt_uid = sr_attempt_uid req,
        si_namespace = sr_namespace req,
        si_expires_at = now + (if sr_ttl_seconds req > 0 then sr_ttl_seconds req * second else 30 * minute)\<rparr>"
proof -
  have "seconds n = n * second" if "0 < n" "n \<le> 9223372036" for n :: int
    using that unfolding seconds_def second_def by (simp add: i64_id in_i64_def)
  with assms show ?thesis
    by (auto simp: handleSession_def ValidateToken_def CreateSession_def session_ttl_def update_conv'
        time_after_def time_add_def minute_def second_def Let_def)
qed

theorem sessions_unauthenticated_witness:
  "\<exists>body g'. handleSession (cd_session_request demo_codecs) (\<lambda>t e. t) 0 (Some ''tok'')
     (gc_request (demo_call ''POST'' ''/api/v1/sessions'' [] ''ask''))
     \<lparr>gw_store = [] :: memory, gw_sessions = []\<rparr> = (Reply 201 body, g')"
  using sessions_unauthenticated [of "gc_request (demo_call ''POST'' ''/api/v1/sessions'' [] ''ask'')"
    "cd_session_request demo_codecs" "\<lparr>sr_job_uid = ''j'', sr_attempt_uid = ''a'',
       sr_namespace = ''ns'', sr_ttl_seconds = 60\<rparr>" "\<lambda>t e. t" 0 "''tok''"
    "\<lparr>gw_store = [] :: memory, gw_sessions = []\<rparr>"]
  by (auto simp: demo_codecs_def demo_call_def decode_body_def)

text \<open>A ttlSeconds whose nanoseconds overflow makes the new session expire in the past; the
  handler then dereferences the missing session and panics.\<close>

theorem session_ttl_overflow_panics:
  "fst (ServeHTTP MemoryStore demo_codecs \<lparr>gw_store = [], gw_sessions = []\<rparr>
     (demo_call ''POST'' ''/api/v1/sessions'' [] ''huge'')) = Panicked"
  by code_simp

end
