(* ===== verification/Json.thy ===== *)
theory Json
  imports GoStd
begin

text \<open>
  The part of \<open>encoding/json\<close> the write-ahead log uses: flat objects of strings and
  64-bit integers, written as \<open>json.Marshal\<close> writes them and read back. Bytes from
  0x80 on are copied as they are, which is what the encoder does for valid UTF-8 text.
  The reader covers the objects the program writes; other JSON text counts as malformed.
\<close>

datatype json = JInt int | JStr string

abbreviation (input) quote_char :: char where "quote_char \<equiv> CHR 0x22"
abbreviation (input) backslash :: char where "backslash \<equiv> CHR 0x5C"
abbreviation (input) newline :: char where "newline \<equiv> CHR 0x0A"

subsection \<open>Strings\<close>

definition hex_digit :: "nat \<Rightarrow> char" where
  "hex_digit d = ''0123456789abcdef'' ! d"

definition json_hex_value :: "char \<Rightarrow> nat option" where
  "json_hex_value c =
     (let n = of_char c :: nat in
      if 48 \<le> n \<and> n \<le> 57 then Some (n - 48)
      else if 97 \<le> n \<and> n \<le> 102 then Some (n - 87)
      else if 65 \<le> n \<and> n \<le> 70 then Some (n - 55) else None)"

definition short_escapes :: "(char \<times> char) list" where
  "short_escapes = [(quote_char, quote_char), (backslash, backslash), (CHR 0x08, CHR ''b''),
     (CHR 0x0C, CHR ''f''), (newline, CHR ''n''), (CHR 0x0D, CHR ''r''), (CHR 0x09, CHR ''t'')]"

definition needs_unicode :: "char \<Rightarrow> bool" where
  "needs_unicode c \<longleftrightarrow> (of_char c :: nat) < 32 \<or> c \<in> {CHR ''<'', CHR ''>'', CHR ''&''}"

definition escape_char :: "char \<Rightarrow> string" where
  "escape_char c =
     (case map_of short_escapes c of
        Some e \<Rightarrow> [backslash, e]
      | None \<Rightarrow>
          if needs_unicode c
          then [backslash, CHR ''u'', CHR ''0'', CHR ''0'', hex_digit (of_char c div 16), hex_digit (of_char c mod 16)]
          else [c])"

definition quote :: "string \<Rightarrow> string" where
  "quote s = quote_char # concat (map escape_char s) @ [quote_char]"

text \<open>One character of a string literal, escaped or not.\<close>

definition parse_char :: "string \<Rightarrow> (char \<times> string) option" where
  "parse_char s =
     (case s of
        [] \<Rightarrow> None
      | c # cs \<Rightarrow>
          if c \<noteq> backslash then (if c = quote_char \<or> (of_char c :: nat) < 32 then None else Some (c, cs))
          else case cs of
            [] \<Rightarrow> None
          | e # cs \<Rightarrow>
              if e = CHR ''u'' then
                (case cs of
                   a # b # h # l # cs \<Rightarrow>
                     (case (json_hex_value h, json_hex_value l) of
                        (Some x, Some y) \<Rightarrow>
                          if a = CHR ''0'' \<and> b = CHR ''0'' \<and> x < 8 then Some (char_of (16 * x + y), cs) else None
                      | _ \<Rightarrow> None)
                 | _ \<Rightarrow> None)
              else if e = CHR ''/'' then Some (e, cs)
              else map_option (\<lambda>c. (c, cs)) (map_of (map prod.swap short_escapes) e))"

lemma parse_char_length: "parse_char s = Some (c, rest) \<Longrightarrow> length rest < length s"
  by (auto simp: parse_char_def split: list.splits if_splits option.splits)

lemma parse_char_append: "parse_char s = Some (c, rest) \<Longrightarrow> parse_char (s @ t) = Some (c, rest @ t)"
  by (auto simp: parse_char_def split: list.splits if_splits option.splits)

text \<open>The characters up to the closing quote.\<close>

function parse_chars :: "string \<Rightarrow> (string \<times> string) option" where
  "parse_chars s =
     (case parse_char s of
        Some (c, rest) \<Rightarrow> map_option (\<lambda>(cs, rest). (c # cs, rest)) (parse_chars rest)
      | None \<Rightarrow>
          (case s of c # rest \<Rightarrow> if c = quote_char then Some ([], rest) else None | [] \<Rightarrow> None))"
  by pat_completeness auto
termination
  by (relation "measure length") (auto dest: parse_char_length)

declare parse_chars.simps [simp del]

lemma parse_chars_length: "parse_chars s = Some (cs, rest) \<Longrightarrow> length rest < length s"
proof (induction s arbitrary: cs rest rule: parse_chars.induct)
  case (1 s)
  show ?case
  proof (cases "parse_char s")
    case None
    with 1 show ?thesis by (auto simp: parse_chars.simps [of s] split: list.splits if_splits)
  next
    case (Some a)
    obtain c r where "a = (c, r)" by (cases a)
    with Some 1 show ?thesis
      by (fastforce simp: parse_chars.simps [of s] dest: parse_char_length)
  qed
qed

lemma parse_chars_append:
  "parse_chars s = Some (cs, rest) \<Longrightarrow> parse_chars (s @ t) = Some (cs, rest @ t)"
proof (induction s arbitrary: cs rest rule: parse_chars.induct)
  case (1 s)
  show ?case
  proof (cases "parse_char s")
    case None
    with "1.prems" obtain r where s: "s = quote_char # r" "cs = []" "rest = r"
      by (auto simp: parse_chars.simps [of s] split: list.splits if_splits)
    then have "parse_char (quote_char # r @ t) = None" by (simp add: parse_char_def)
    with s show ?thesis by (simp add: parse_chars.simps [of "quote_char # r @ t"])
  next
    case (Some a)
    obtain c r where a: "a = (c, r)" by (cases a)
    with Some have step: "parse_char (s @ t) = Some (c, r @ t)" by (simp add: parse_char_append)
    from "1.prems" Some a obtain cs' where cs': "parse_chars r = Some (cs', rest)" "cs = c # cs'"
      by (auto simp: parse_chars.simps [of s])
    from "1.IH" [OF Some a [symmetric] cs'(1)] step cs'(2) show ?thesis
      by (simp add: parse_chars.simps [of "s @ t"])
  qed
qed

lemma json_hex_value_digit: "d < 16 \<Longrightarrow> json_hex_value (hex_digit d) = Some d"
  by (auto simp: hex_digit_def json_hex_value_def less_Suc_eq numeral_eq_Suc nth_Cons')

lemma needs_unicode_small: "needs_unicode c \<Longrightarrow> (of_char c :: nat) < 128"
  by (auto simp: needs_unicode_def)

lemma map_of_short_escapes:
  "map_of short_escapes c = Some e \<Longrightarrow>
     map_of (map prod.swap short_escapes) e = Some c \<and> e \<noteq> CHR ''u'' \<and> e \<noteq> CHR ''/''"
  by (auto simp: short_escapes_def split: if_splits)

lemma parse_escape_char: "parse_char (escape_char c @ rest) = Some (c, rest)"
proof (cases "map_of short_escapes c")
  case (Some e)
  with map_of_short_escapes [OF Some] show ?thesis by (simp add: escape_char_def parse_char_def)
next
  case None
  then have plain: "c \<noteq> quote_char" "c \<noteq> backslash" by (auto simp: short_escapes_def split: if_splits)
  show ?thesis
  proof (cases "needs_unicode c")
    case True
    let ?n = "of_char c :: nat"
    have n: "?n < 128" using True by (rule needs_unicode_small)
    then have "json_hex_value (hex_digit (?n div 16)) = Some (?n div 16)"
      and "json_hex_value (hex_digit (?n mod 16)) = Some (?n mod 16)"
      by (simp_all add: json_hex_value_digit)
    moreover have "?n div 16 < 8" using n by simp
    ultimately show ?thesis using None True
      by (simp add: escape_char_def parse_char_def)
  next
    case False
    with None plain show ?thesis by (simp add: escape_char_def parse_char_def needs_unicode_def)
  qed
qed

lemma parse_quoted: "parse_chars (concat (map escape_char s) @ quote_char # rest) = Some (s, rest)"
proof (induction s)
  case Nil
  have "parse_char (quote_char # rest) = None" by (simp add: parse_char_def)
  then show ?case by (simp add: parse_chars.simps)
next
  case (Cons c s)
  then show ?case
    using parse_escape_char [of c "concat (map escape_char s) @ quote_char # rest"]
    by (simp add: parse_chars.simps [of "escape_char c @ _"])
qed

lemma escape_char_no_newline: "newline \<notin> set (escape_char c)"
proof -
  have "newline \<noteq> hex_digit d" if "d < 16" for d
    using that by (auto simp: hex_digit_def less_Suc_eq numeral_eq_Suc nth_Cons')
  moreover have "(of_char c :: nat) div 16 < 16" 
    by (rule less_mult_imp_div_less) simp
  ultimately show ?thesis
    by (auto simp: escape_char_def short_escapes_def needs_unicode_def split: if_splits option.splits)
qed

lemma quote_no_newline: "newline \<notin> set (quote s)"
  using escape_char_no_newline by (auto simp: quote_def)

subsection \<open>Flat objects\<close>

definition render_value :: "json \<Rightarrow> string" where
  "render_value v = (case v of JInt i \<Rightarrow> show_int i | JStr s \<Rightarrow> quote s)"

definition render_member :: "string \<times> json \<Rightarrow> string" where
  "render_member m = quote (fst m) @ CHR '':'' # render_value (snd m)"

fun render_members :: "(string \<times> json) list \<Rightarrow> string" where
  "render_members [] = ''}''"
| "render_members [m] = render_member m @ ''}''"
| "render_members (m # ms) = render_member m @ CHR '','' # render_members ms"

definition render_object :: "(string \<times> json) list \<Rightarrow> string" where
  "render_object ms = CHR ''{'' # render_members ms"

definition number_chars :: string where "number_chars = ''-0123456789''"

definition parse_value :: "string \<Rightarrow> (json \<times> string) option" where
  "parse_value s =
     (if HasPrefix s [quote_char] then map_option (\<lambda>(cs, rest). (JStr cs, rest)) (parse_chars (tl s))
      else map_option (\<lambda>i. (JInt i, dropWhile (\<lambda>c. c \<in> set number_chars) s))
             (ParseInt 64 (takeWhile (\<lambda>c. c \<in> set number_chars) s)))"

definition parse_member :: "string \<Rightarrow> ((string \<times> json) \<times> string) option" where
  "parse_member s =
     (if \<not> HasPrefix s [quote_char] then None
      else case parse_chars (tl s) of
        Some (k, c # rest) \<Rightarrow>
          if c = CHR '':'' then map_option (\<lambda>(v, rest). ((k, v), rest)) (parse_value rest) else None
      | _ \<Rightarrow> None)"

lemma parse_value_quote: "parse_value (quote_char # s) = map_option (\<lambda>(cs, rest). (JStr cs, rest)) (parse_chars s)"
  by (simp add: parse_value_def HasPrefix_def)

lemma parse_value_number:
  "\<not> HasPrefix s [quote_char] \<Longrightarrow>
     parse_value s = map_option (\<lambda>i. (JInt i, dropWhile (\<lambda>c. c \<in> set number_chars) s))
       (ParseInt 64 (takeWhile (\<lambda>c. c \<in> set number_chars) s))"
  unfolding parse_value_def by (rule if_not_P)

lemma parse_member_quote:
  "parse_member (quote_char # s) =
     (case parse_chars s of
        Some (k, c # rest) \<Rightarrow>
          if c = CHR '':'' then map_option (\<lambda>(v, rest). ((k, v), rest)) (parse_value rest) else None
      | _ \<Rightarrow> None)"
  by (simp add: parse_member_def HasPrefix_def)

lemma parse_value_length: "parse_value s = Some (v, rest) \<Longrightarrow> length rest \<le> length s"
proof (cases "HasPrefix s [quote_char]")
  case True
  then obtain s' where s: "s = quote_char # s'" by (cases s) (auto simp: HasPrefix_def)
  then show "parse_value s = Some (v, rest) \<Longrightarrow> ?thesis"
    by (auto simp: parse_value_quote dest: parse_chars_length)
next
  case False
  show "parse_value s = Some (v, rest) \<Longrightarrow> ?thesis"
    unfolding parse_value_number [OF False] by (auto simp: length_dropWhile_le)
qed

lemma parse_member_length: "parse_member s = Some (m, rest) \<Longrightarrow> length rest < length s"
  by (force simp: parse_member_def split: if_splits option.splits list.splits
      dest!: parse_chars_length parse_value_length)

function parse_members :: "string \<Rightarrow> ((string \<times> json) list \<times> string) option" where
  "parse_members s =
     (case parse_member s of
        Some (m, c # rest) \<Rightarrow>
          if c = CHR ''}'' then Some ([m], rest)
          else if c = CHR '','' then map_option (\<lambda>(ms, rest). (m # ms, rest)) (parse_members rest)
          else None
      | _ \<Rightarrow> None)"
  by pat_completeness auto
termination
  by (relation "measure length") (auto dest: parse_member_length)

declare parse_members.simps [simp del]

text \<open>A whole document: one object and nothing after it.\<close>

definition parse_object :: "string \<Rightarrow> (string \<times> json) list option" where
  "parse_object s =
     (if \<not> HasPrefix s ''{'' then None
      else if tl s = ''}'' then Some []
      else case parse_members (tl s) of Some (ms, []) \<Rightarrow> Some ms | _ \<Rightarrow> None)"

lemma show_int_chars: "set (show_int i) \<subseteq> set number_chars"
proof -
  have "set (show_nat n) \<subseteq> set number_chars" for n
    by (rule subset_trans [OF set_show_nat]) (simp add: number_chars_def)
  moreover have "CHR ''-'' \<in> set number_chars" by (simp add: number_chars_def)
  ultimately show ?thesis unfolding show_int_def by simp
qed

lemma number_span:
  assumes "c \<notin> set number_chars"
  shows "takeWhile (\<lambda>c. c \<in> set number_chars) (show_int i @ c # rest) = show_int i"
    and "dropWhile (\<lambda>c. c \<in> set number_chars) (show_int i @ c # rest) = c # rest"
  using assms show_int_chars [of i] by (auto simp: takeWhile_append dropWhile_append)

fun fits :: "json \<Rightarrow> bool" where
  "fits (JInt i) = in_i64 i"
| "fits (JStr s) = True"

lemma parse_render_value:
  assumes "fits v" and "c \<notin> set number_chars"
  shows "parse_value (render_value v @ c # rest) = Some (v, c # rest)"
proof (cases v)
  case (JInt i)
  have "show_int i \<noteq> []" by (simp add: show_int_def)
  then obtain d ds where d: "show_int i = d # ds" by (cases "show_int i") auto
  with show_int_chars [of i] have "d \<noteq> quote_char" by (auto simp: number_chars_def)
  with d have "\<not> HasPrefix (show_int i @ c # rest) [quote_char]" by (simp add: HasPrefix_def)
  moreover have "ParseInt 64 (show_int i) = Some i"
    using assms(1) JInt by (intro ParseInt_show_int) (simp_all add: in_i64_def)
  ultimately show ?thesis
    using parse_value_number [of "show_int i @ c # rest"]
    unfolding JInt render_value_def json.case number_span [OF assms(2)] by (metis option.map(2))
next
  case (JStr s)
  with parse_quoted [of s "c # rest"] show ?thesis
    by (simp add: parse_value_def render_value_def quote_def HasPrefix_def)
qed

lemma parse_render_member:
  assumes "fits (snd m)" and "c \<notin> set number_chars"
  shows "parse_member (render_member m @ c # rest) = Some (m, c # rest)"
  using parse_quoted [of "fst m" "CHR '':'' # render_value (snd m) @ c # rest"]
    parse_render_value [OF assms, of rest]
  by (simp add: parse_member_def render_member_def quote_def HasPrefix_def)

lemma parse_render_members:
  assumes "ms \<noteq> []" and "\<forall>m\<in>set ms. fits (snd m)"
  shows "parse_members (render_members ms @ rest) = Some (ms, rest)"
  using assms
proof (induction ms rule: render_members.induct)
  case (2 m)
  then have "parse_member (render_member m @ CHR ''}'' # rest) = Some (m, CHR ''}'' # rest)"
    by (intro parse_render_member) (simp_all add: number_chars_def)
  then show ?case by (simp add: parse_members.simps)
next
  case (3 m m' ms)
  let ?tail = "render_members (m' # ms) @ rest"
  have "parse_member (render_member m @ CHR '','' # ?tail) = Some (m, CHR '','' # ?tail)"
    using 3 by (intro parse_render_member) (simp_all add: number_chars_def)
  with 3 show ?case by (simp add: parse_members.simps [of "render_member m @ _"])
qed simp

theorem parse_render_object:
  assumes "ms \<noteq> []" and "\<forall>m\<in>set ms. fits (snd m)"
  shows "parse_object (render_object ms) = Some ms"
proof -
  have "render_members ms \<noteq> ''}''"
    using assms(1) by (cases ms rule: render_members.cases) (auto simp: render_member_def quote_def)
  with parse_render_members [OF assms, of "[]"] show ?thesis
    by (simp add: parse_object_def render_object_def HasPrefix_def)
qed

subsection \<open>Incomplete documents\<close>

text \<open>
  Reading is monotone: a document that was read stays readable, with the same result, when
  text is added behind it. So a proper prefix of a document is never a document, and
  neither is a document with text behind it.
\<close>

lemma parse_value_append:
  assumes "parse_value s = Some (v, rest)" and "rest \<noteq> []"
  shows "parse_value (s @ t) = Some (v, rest @ t)"
proof (cases "HasPrefix s [quote_char]")
  case True
  then obtain s' where s: "s = quote_char # s'" by (cases s) (auto simp: HasPrefix_def)
  with assms(1) obtain cs where "parse_chars s' = Some (cs, rest)" "v = JStr cs"
    by (auto simp: parse_value_quote)
  with s show ?thesis by (simp add: parse_value_quote parse_chars_append)
next
  case False
  let ?P = "\<lambda>c. c \<in> set number_chars"
  from assms(1) False obtain i where i: "ParseInt 64 (takeWhile ?P s) = Some i" "v = JInt i" "rest = dropWhile ?P s"
    unfolding parse_value_number [OF False] map_option_eq_Some prod.inject by metis
  with assms(2) have "\<not> (\<forall>c\<in>set s. ?P c)" by (metis dropWhile_eq_Nil_conv)
  then have span: "takeWhile ?P (s @ t) = takeWhile ?P s" "dropWhile ?P (s @ t) = dropWhile ?P s @ t"
    by (simp_all only: takeWhile_append dropWhile_append if_False)
  have "s \<noteq> []" using assms(2) i(3) by auto
  with False have "\<not> HasPrefix (s @ t) [quote_char]" by (cases s) (simp_all add: HasPrefix_def)
  from parse_value_number [OF this] i show ?thesis unfolding span by simp
qed

lemma parse_member_append:
  assumes "parse_member s = Some (m, rest)" and "rest \<noteq> []"
  shows "parse_member (s @ t) = Some (m, rest @ t)"
proof -
  obtain s' where s: "s = quote_char # s'"
    using assms(1) by (cases s) (auto simp: parse_member_def HasPrefix_def split: if_splits)
  with assms(1) obtain k r where k: "parse_chars s' = Some (k, CHR '':'' # r)"
    and v: "map_option (\<lambda>(v, rest). ((k, v), rest)) (parse_value r) = Some (m, rest)"
    by (auto simp: parse_member_quote split: option.splits list.splits if_splits)
  from v obtain x where x: "parse_value r = Some (x, rest)" "m = (k, x)" by auto
  from parse_chars_append [OF k, of t] parse_value_append [OF x(1) assms(2), of t] s x(2)
  show ?thesis by (simp add: parse_member_quote)
qed

lemma parse_members_append:
  "parse_members s = Some (ms, rest) \<Longrightarrow> parse_members (s @ t) = Some (ms, rest @ t)"
proof (induction s arbitrary: ms rest rule: parse_members.induct)
  case (1 s)
  from "1.prems" obtain m c r where m: "parse_member s = Some (m, c # r)"
    by (auto simp: parse_members.simps [of s] split: option.splits list.splits)
  then have app: "parse_member (s @ t) = Some (m, c # r @ t)"
    using parse_member_append [of s m "c # r" t] by simp
  show ?case
  proof (cases "c = CHR ''}''")
    case True
    with "1.prems" m app show ?thesis by (simp add: parse_members.simps [of s] parse_members.simps [of "s @ t"])
  next
    case False
    with "1.prems" m have c: "c = CHR '',''" by (auto simp: parse_members.simps [of s] split: if_splits)
    with "1.prems" m obtain ms' where ms': "parse_members r = Some (ms', rest)" "ms = m # ms'"
      by (auto simp: parse_members.simps [of s])
    from "1.IH" [OF m refl refl False c ms'(1)] app c ms'(2) show ?thesis
      by (simp add: parse_members.simps [of "s @ t"])
  qed
qed

lemma parse_members_Nil [simp]: "parse_members [] = None"
  by (simp add: parse_members.simps parse_member_def HasPrefix_def)

theorem no_torn_document:
  assumes "parse_object (p @ t) = Some ms" and "p \<noteq> []" and "t \<noteq> []"
  shows "parse_object p = None"
proof (rule ccontr)
  assume "parse_object p \<noteq> None"
  then obtain ns where p: "parse_object p = Some ns" by auto
  obtain q where q: "p = CHR ''{'' # q" using p by (cases p) (auto simp: parse_object_def HasPrefix_def split: if_splits)
  show False
  proof (cases "q = ''}''")
    case True
    with assms(1,3) q have "parse_members (CHR ''}'' # t) \<noteq> None"
      by (auto simp: parse_object_def HasPrefix_def split: option.splits)
    then show False by (simp add: parse_members.simps parse_member_def HasPrefix_def)
  next
    case False
    with p q obtain ns' where "parse_members q = Some (ns', [])"
      by (auto simp: parse_object_def split: if_splits option.splits list.splits)
    then have read: "parse_members (q @ t) = Some (ns', t)" using parse_members_append by fastforce
    have "parse_members ''}'' = None" by code_simp
    with read have "q @ t \<noteq> ''}''" by auto
    with read assms q show False by (auto simp: parse_object_def HasPrefix_def split: list.splits)
  qed
qed

lemma parse_object_Nil [simp]: "parse_object [] = None"
  by (simp add: parse_object_def HasPrefix_def)

lemma no_newline_object: "newline \<notin> set (render_object ms)"
proof -
  have int: "newline \<notin> set (show_int i)" for i using show_int_chars [of i] by (auto simp: number_chars_def)
  have val: "newline \<notin> set (render_value v)" for v
    using quote_no_newline int by (cases v) (auto simp: render_value_def)
  have "newline \<notin> set (render_members ms)"
    by (induction ms rule: render_members.induct) (auto simp: render_member_def quote_no_newline val)
  then show ?thesis by (simp add: render_object_def)
qed

end
