(* ===== verification/Wal.thy ===== *)
theory Wal
  imports Json "HOL-Library.AList"
begin

text \<open>
  The write-ahead log (\<open>wal/record.go\<close>, \<open>wal/writer.go\<close>, \<open>wal/reader.go\<close>).
  The state is the \<open>.wal\<close> directory, file names with their bytes, and the writer's
  fields. Every operation takes the fault that may hit its system calls, so each early
  return of the source is a branch.
\<close>

subsection \<open>Records\<close>

record wal_record =
  rec_seq :: int
  rec_type :: string
  rec_step :: string
  rec_ts :: int
  rec_exit :: "int option"
  rec_output :: string
  rec_attempt :: int
  rec_reason :: string

definition TypeStepBegin :: string where "TypeStepBegin = ''step_begin''"
definition TypeStepEnd :: string where "TypeStepEnd = ''step_end''"
definition TypeStepRetry :: string where "TypeStepRetry = ''step_retry''"
definition TypeStepTimeout :: string where "TypeStepTimeout = ''step_timeout''"
definition TypeJobCancelled :: string where "TypeJobCancelled = ''job_cancelled''"

definition wal_maxFileSize :: int where "wal_maxFileSize = 10485760"

lemmas record_types = TypeStepBegin_def TypeStepEnd_def TypeStepRetry_def TypeStepTimeout_def
  TypeJobCancelled_def

definition blank_record :: wal_record where
  "blank_record = \<lparr>rec_seq = 0, rec_type = [], rec_step = [], rec_ts = 0, rec_exit = None,
     rec_output = [], rec_attempt = 0, rec_reason = []\<rparr>"

text \<open>The members \<open>json.Marshal\<close> writes, in field order; \<open>omitempty\<close> fields only when set.\<close>

definition record_members :: "wal_record \<Rightarrow> (string \<times> json) list" where
  "record_members r =
     [(''seq'', JInt (rec_seq r)), (''type'', JStr (rec_type r))] @
     (if rec_step r = [] then [] else [(''step_id'', JStr (rec_step r))]) @
     [(''ts'', JInt (rec_ts r))] @
     (case rec_exit r of None \<Rightarrow> [] | Some e \<Rightarrow> [(''exit'', JInt e)]) @
     (if rec_output r = [] then [] else [(''output_ref'', JStr (rec_output r))]) @
     (if rec_attempt r = 0 then [] else [(''attempt'', JInt (rec_attempt r))]) @
     (if rec_reason r = [] then [] else [(''reason'', JStr (rec_reason r))])"

definition MarshalRecord :: "wal_record \<Rightarrow> string" where
  "MarshalRecord r = render_object (record_members r)"

fun set_member :: "string \<times> json \<Rightarrow> wal_record \<Rightarrow> wal_record option" where
  "set_member (k, JInt i) r =
     (if k = ''seq'' then Some (r\<lparr>rec_seq := i\<rparr>)
      else if k = ''ts'' then Some (r\<lparr>rec_ts := i\<rparr>)
      else if k = ''exit'' then Some (r\<lparr>rec_exit := Some i\<rparr>)
      else if k = ''attempt'' then Some (r\<lparr>rec_attempt := i\<rparr>)
      else if k \<in> {''type'', ''step_id'', ''output_ref'', ''reason''} then None else Some r)"
| "set_member (k, JStr s) r =
     (if k = ''type'' then Some (r\<lparr>rec_type := s\<rparr>)
      else if k = ''step_id'' then Some (r\<lparr>rec_step := s\<rparr>)
      else if k = ''output_ref'' then Some (r\<lparr>rec_output := s\<rparr>)
      else if k = ''reason'' then Some (r\<lparr>rec_reason := s\<rparr>)
      else if k \<in> {''seq'', ''ts'', ''exit'', ''attempt''} then None else Some r)"

fun set_members :: "(string \<times> json) list \<Rightarrow> wal_record \<Rightarrow> wal_record option" where
  "set_members [] r = Some r"
| "set_members (m # ms) r = (case set_member m r of None \<Rightarrow> None | Some r \<Rightarrow> set_members ms r)"

definition UnmarshalRecord :: "string \<Rightarrow> wal_record option" where
  "UnmarshalRecord line =
     (case parse_object line of None \<Rightarrow> None | Some ms \<Rightarrow> set_members ms blank_record)"

definition fits_record :: "wal_record \<Rightarrow> bool" where
  "fits_record r \<longleftrightarrow> in_i64 (rec_seq r) \<and> in_i64 (rec_ts r) \<and> in_i64 (rec_attempt r) \<and>
     (case rec_exit r of None \<Rightarrow> True | Some e \<Rightarrow> in_i64 e)"

lemma set_record_members: "set_members (record_members r) blank_record = Some r"
  by (cases r; cases "rec_exit r") (auto simp: record_members_def blank_record_def split: option.split)

lemma parse_marshalled: "fits_record r \<Longrightarrow> parse_object (MarshalRecord r) = Some (record_members r)"
  unfolding MarshalRecord_def
  by (rule parse_render_object) (auto simp: record_members_def fits_record_def split: if_splits option.splits)

lemma unmarshal_marshal [simp]: "fits_record r \<Longrightarrow> UnmarshalRecord (MarshalRecord r) = Some r"
  by (simp add: UnmarshalRecord_def parse_marshalled set_record_members)

lemma unmarshal_torn:
  assumes "fits_record r" and "MarshalRecord r = p @ t" and "p \<noteq> []" and "t \<noteq> []"
  shows "UnmarshalRecord p = None"
proof -
  have "parse_object (p @ t) = Some (record_members r)" using parse_marshalled [OF assms(1)] assms(2) by simp
  from no_torn_document [OF this assms(3,4)] show ?thesis by (simp add: UnmarshalRecord_def)
qed

lemma MarshalRecord_shape: "\<exists>b. MarshalRecord r = CHR ''{'' # b" and MarshalRecord_not_Nil [simp]: "MarshalRecord r \<noteq> []"
  by (simp_all add: MarshalRecord_def render_object_def)

lemma MarshalRecord_last: "last (MarshalRecord r) = CHR ''}''"
proof -
  have "render_members ms \<noteq> [] \<and> last (render_members ms) = CHR ''}''" for ms
    by (induction ms rule: render_members.induct) auto
  then show ?thesis by (simp add: MarshalRecord_def render_object_def)
qed

lemma MarshalRecord_no_newline: "newline \<notin> set (MarshalRecord r)"
  by (simp add: MarshalRecord_def no_newline_object)

lemma unmarshal_joined:
  assumes "fits_record r" and "t \<noteq> []"
  shows "UnmarshalRecord (MarshalRecord r @ t) = None"
proof (cases "parse_object (MarshalRecord r @ t)")
  case (Some ms)
  from no_torn_document [OF this MarshalRecord_not_Nil assms(2)] parse_marshalled [OF assms(1)]
  show ?thesis by simp
qed (simp add: UnmarshalRecord_def)

subsection \<open>The directory and the reader\<close>

text \<open>\<open>None\<close>: there is no \<open>.wal\<close> directory. Otherwise its files, by name.\<close>

type_synonym wal_dir = "(string \<times> string) list option"

datatype wal_error = ErrCorrupt string | ErrLine | ErrIO string

datatype read_op = OpMkdir | OpStat string | OpReadDir | OpOpen string

text \<open>\<open>rio op\<close> holds when that call fails.\<close>

type_synonym read_faults = "read_op \<Rightarrow> bool"

definition pad0 :: "nat \<Rightarrow> nat \<Rightarrow> string" where
  "pad0 w n = replicate (w - length (show_nat n)) CHR ''0'' @ show_nat n"

definition walFileName :: "int \<Rightarrow> string" where
  "walFileName num = ''wal-'' @ (if num < 0 then CHR ''-'' # pad0 3 (nat (- num)) else pad0 4 (nat num)) @ ''.log''"

definition is_wal_name :: "string \<Rightarrow> bool" where
  "is_wal_name name \<longleftrightarrow> HasPrefix name ''wal-'' \<and> HasSuffix name ''.log''"

definition listWALFiles :: "read_faults \<Rightarrow> wal_dir \<Rightarrow> wal_error + string list" where
  "listWALFiles rio d =
     (case d of
        None \<Rightarrow> Inr []
      | Some fs \<Rightarrow> if rio OpReadDir then Inl (ErrIO ''readdir'') else Inr (sort (filter is_wal_name (map fst fs))))"

text \<open>\<open>fmt.Sscanf(name, "wal-%04d.log", &n)\<close>: at most four characters are taken for the number.\<close>

definition parseFileNum :: "string \<Rightarrow> int" where
  "parseFileNum name =
     (if \<not> HasPrefix name ''wal-'' then 0
      else let s = take 4 (dropWhile (\<lambda>c. c = CHR '' '') (drop 4 name));
               neg = HasPrefix s ''-'';
               body = (if neg \<or> HasPrefix s ''+'' then tl s else s);
               ds = takeWhile (\<lambda>c. digit_value c \<noteq> None) body
           in case unsigned_value ds of
                None \<Rightarrow> 0
              | Some n \<Rightarrow> if neg then - int n else int n)"

text \<open>
  \<open>bufio.Scanner\<close> with a buffer of 1 MiB: a line that fills the buffer is an error; a last
  line without newline counts as a line.
\<close>

definition max_line :: nat where "max_line = 1048576"

definition dropCR :: "string \<Rightarrow> string" where
  "dropCR l = (if l \<noteq> [] \<and> last l = CHR 0x0D then butlast l else l)"

fun scan_records :: "string list \<Rightarrow> wal_error + wal_record list" where
  "scan_records [] = Inr []"
| "scan_records (l # ls) =
     (if max_line \<le> length l then Inl ErrLine
      else if dropCR l = [] then scan_records ls
      else case UnmarshalRecord (dropCR l) of
        None \<Rightarrow> Inl (ErrCorrupt ''unmarshal'')
      | Some r \<Rightarrow> (case scan_records ls of Inl e \<Rightarrow> Inl e | Inr rs \<Rightarrow> Inr (r # rs)))"

definition scan_content :: "string \<Rightarrow> wal_error + wal_record list" where
  "scan_content s = scan_records (Split s newline)"

definition dir_content :: "wal_dir \<Rightarrow> string \<Rightarrow> string option" where
  "dir_content d name = (case d of None \<Rightarrow> None | Some fs \<Rightarrow> map_of fs name)"

definition readWALFile :: "read_faults \<Rightarrow> wal_dir \<Rightarrow> string \<Rightarrow> wal_error + wal_record list" where
  "readWALFile rio d name =
     (case dir_content d name of
        None \<Rightarrow> Inl (ErrIO ''open'')
      | Some s \<Rightarrow> if rio (OpOpen name) then Inl (ErrIO ''open'') else scan_content s)"

fun read_files :: "read_faults \<Rightarrow> wal_dir \<Rightarrow> string list \<Rightarrow> wal_error + wal_record list" where
  "read_files rio d [] = Inr []"
| "read_files rio d (f # fs) =
     (case readWALFile rio d f of
        Inl e \<Rightarrow> Inl e
      | Inr rs \<Rightarrow> (case read_files rio d fs of Inl e \<Rightarrow> Inl e | Inr qs \<Rightarrow> Inr (rs @ qs)))"

fun check_sequence :: "int \<Rightarrow> wal_record list \<Rightarrow> wal_error option" where
  "check_sequence i [] = None"
| "check_sequence i (r # rs) =
     (if rec_seq r \<noteq> i + 1
      then Some (ErrCorrupt (''expected seq '' @ show_int (i + 1) @ '', got '' @ show_int (rec_seq r)))
      else check_sequence (i + 1) rs)"

definition NewReader :: "read_faults \<Rightarrow> wal_dir \<Rightarrow> wal_error option" where
  "NewReader rio d = (if d = None \<or> rio (OpStat []) then Some (ErrIO ''open dir'') else None)"

definition ReadAll :: "read_faults \<Rightarrow> wal_dir \<Rightarrow> wal_error + wal_record list" where
  "ReadAll rio d =
     (case listWALFiles rio d of
        Inl e \<Rightarrow> Inl e
      | Inr files \<Rightarrow>
          (case read_files rio d files of
             Inl e \<Rightarrow> Inl e
           | Inr rs \<Rightarrow> (case check_sequence 0 rs of Some e \<Rightarrow> Inl e | None \<Rightarrow> Inr rs)))"

subsection \<open>The manifest\<close>

record step_info =
  sp_begin :: int
  sp_end :: int
  sp_exit :: "int option"
  sp_output :: string

record CompletedStep =
  cs_step :: string
  cs_seq :: int
  cs_output :: string

record wal_manifest =
  wm_last_completed :: string
  wm_completed :: "CompletedStep list"
  wm_file_count :: nat
  wm_total_records :: nat

type_synonym step_table = "(string \<rightharpoonup> step_info) \<times> string list"

definition scan_step :: "step_table \<Rightarrow> wal_record \<Rightarrow> step_table" where
  "scan_step t r =
     (let steps = fst t; ids = snd t in
      if rec_type r = TypeStepBegin then
        (steps(rec_step r \<mapsto> \<lparr>sp_begin = rec_seq r, sp_end = 0, sp_exit = None, sp_output = []\<rparr>),
         if steps (rec_step r) = None then ids @ [rec_step r] else ids)
      else if rec_type r = TypeStepEnd then
        (case steps (rec_step r) of
           None \<Rightarrow> t
         | Some s \<Rightarrow>
             (steps(rec_step r \<mapsto> s\<lparr>sp_end := rec_seq r, sp_exit := rec_exit r, sp_output := rec_output r\<rparr>), ids))
      else t)"

definition scan_steps :: "wal_record list \<Rightarrow> step_table" where
  "scan_steps rs = foldl scan_step (Map.empty, []) rs"

definition step_completed :: "step_info \<Rightarrow> bool" where
  "step_completed s \<longleftrightarrow> 0 < sp_end s \<and> sp_exit s = Some 0"

definition completed_entry :: "(string \<rightharpoonup> step_info) \<Rightarrow> string \<Rightarrow> CompletedStep option" where
  "completed_entry steps k =
     (case steps k of
        Some s \<Rightarrow> if step_completed s then Some \<lparr>cs_step = k, cs_seq = sp_end s, cs_output = sp_output s\<rparr> else None
      | None \<Rightarrow> None)"

definition manifest_of :: "nat \<Rightarrow> wal_record list \<Rightarrow> wal_manifest" where
  "manifest_of n rs =
     (let t = scan_steps rs; done_steps = List.map_filter (completed_entry (fst t)) (snd t)
      in \<lparr>wm_last_completed = (if done_steps = [] then [] else cs_step (last done_steps)),
          wm_completed = done_steps, wm_file_count = n, wm_total_records = length rs\<rparr>)"

definition BuildManifest :: "read_faults \<Rightarrow> wal_dir \<Rightarrow> wal_error + wal_manifest" where
  "BuildManifest rio d =
     (case ReadAll rio d of
        Inl e \<Rightarrow> Inl e
      | Inr rs \<Rightarrow>
          (case listWALFiles rio d of Inl e \<Rightarrow> Inl e | Inr files \<Rightarrow> Inr (manifest_of (length files) rs)))"

definition CompletedStepIDs :: "read_faults \<Rightarrow> wal_dir \<Rightarrow> wal_error + string list" where
  "CompletedStepIDs rio d = map_sum id (\<lambda>m. map cs_step (wm_completed m)) (BuildManifest rio d)"

definition LastCompletedStep :: "read_faults \<Rightarrow> wal_dir \<Rightarrow> wal_error + string" where
  "LastCompletedStep rio d = map_sum id wm_last_completed (BuildManifest rio d)"

definition IsStepCompleted :: "read_faults \<Rightarrow> wal_dir \<Rightarrow> string \<Rightarrow> wal_error + bool" where
  "IsStepCompleted rio d k = map_sum id (\<lambda>ids. k \<in> set ids) (CompletedStepIDs rio d)"

subsection \<open>The writer\<close>

datatype log_file = OpenFile string | ClosedFile

record wal_writer =
  ww_seq :: int
  ww_file :: log_file
  ww_num :: int
  ww_size :: int

fun last_seq :: "wal_record list \<Rightarrow> int" where
  "last_seq [] = 0"
| "last_seq (r # rs) = max (rec_seq r) (last_seq rs)"

definition lastSeqInDir :: "read_faults \<Rightarrow> wal_dir \<Rightarrow> string list \<Rightarrow> wal_error + int" where
  "lastSeqInDir rio d files = map_sum id last_seq (read_files rio d files)"

text \<open>\<open>O_CREATE | O_APPEND\<close>: a missing file appears empty.\<close>

definition create_file :: "string \<Rightarrow> wal_dir \<Rightarrow> wal_dir" where
  "create_file name d =
     map_option (\<lambda>fs. case map_of fs name of None \<Rightarrow> AList.update name [] fs | Some _ \<Rightarrow> fs) d"

definition append_file :: "string \<Rightarrow> string \<Rightarrow> wal_dir \<Rightarrow> wal_dir" where
  "append_file name data d =
     map_option (\<lambda>fs. case map_of fs name of None \<Rightarrow> fs | Some s \<Rightarrow> AList.update name (s @ data) fs) d"

definition open_log :: "read_faults \<Rightarrow> wal_writer \<Rightarrow> wal_dir \<Rightarrow> (wal_error + wal_writer) \<times> wal_dir" where
  "open_log rio w d =
     (let name = walFileName (ww_num w) in
      if rio (OpOpen name) then (Inl (ErrIO ''open''), d)
      else (Inr (w\<lparr>ww_file := OpenFile name\<rparr>), create_file name d))"

definition NewWriter :: "read_faults \<Rightarrow> wal_dir \<Rightarrow> (wal_error + wal_writer) \<times> wal_dir" where
  "NewWriter rio d =
     (if rio OpMkdir then (Inl (ErrIO ''mkdir''), d)
      else let d = (case d of None \<Rightarrow> Some [] | Some fs \<Rightarrow> Some fs) in
      case listWALFiles rio d of
        Inl e \<Rightarrow> (Inl e, d)
      | Inr files \<Rightarrow>
          if files = [] then open_log rio \<lparr>ww_seq = 0, ww_file = ClosedFile, ww_num = 1, ww_size = 0\<rparr> d
          else let f = last files in
          (case lastSeqInDir rio d files of
             Inl e \<Rightarrow> (Inl e, d)
           | Inr q \<Rightarrow>
               if rio (OpStat f) then (Inl (ErrIO ''stat''), d)
               else let n = parseFileNum f;
                        sz = (case dir_content d f of None \<Rightarrow> 0 | Some s \<Rightarrow> int (length s));
                        full = wal_maxFileSize \<le> sz
                    in open_log rio \<lparr>ww_seq = q, ww_file = ClosedFile, ww_num = (if full then n + 1 else n),
                         ww_size = (if full then 0 else sz)\<rparr> d))"

text \<open>The system call of an append that fails; \<open>FailWrite n\<close> after \<open>n\<close> bytes.\<close>

datatype append_fault = NoFault | FailSync | FailClose | FailOpen | FailWrite nat | FailFsync

type_synonym wal_state = "wal_writer \<times> wal_dir"

definition rotate_log :: "append_fault \<Rightarrow> wal_state \<Rightarrow> wal_error option \<times> wal_state" where
  "rotate_log flt s =
     (let w = fst s; d = snd s in
      if flt = FailSync \<or> ww_file w = ClosedFile then (Some (ErrIO ''sync''), s)
      else if flt = FailClose then (Some (ErrIO ''close''), w\<lparr>ww_file := ClosedFile\<rparr>, d)
      else let w = w\<lparr>ww_num := ww_num w + 1, ww_size := 0, ww_file := ClosedFile\<rparr>;
               name = walFileName (ww_num w)
           in if flt = FailOpen then (Some (ErrIO ''open''), w, d)
              else (None, w\<lparr>ww_file := OpenFile name\<rparr>, create_file name d))"

definition write_log :: "append_fault \<Rightarrow> string \<Rightarrow> wal_state \<Rightarrow> wal_error option \<times> wal_state" where
  "write_log flt data s =
     (let w = fst s; d = snd s in
      case ww_file w of
        ClosedFile \<Rightarrow> (Some (ErrIO ''write''), s)
      | OpenFile name \<Rightarrow>
          (case flt of
             FailWrite n \<Rightarrow> (Some (ErrIO ''write''), w, append_file name (take n data) d)
           | _ \<Rightarrow> (None, w\<lparr>ww_size := ww_size w + int (length data)\<rparr>, append_file name data d)))"

definition wal_append :: "append_fault \<Rightarrow> wal_record \<Rightarrow> wal_state \<Rightarrow> (wal_error + int) \<times> wal_state" where
  "wal_append flt r s =
     (let data = MarshalRecord r @ [newline];
          (err, s) = (if wal_maxFileSize < ww_size (fst s) + int (length data) then rotate_log flt s else (None, s))
      in case err of
           Some e \<Rightarrow> (Inl e, s)
         | None \<Rightarrow>
             (case write_log flt data s of
                (Some e, s) \<Rightarrow> (Inl e, s)
              | (None, s) \<Rightarrow> (Inr (rec_seq r), s)))"

definition synced_append :: "append_fault \<Rightarrow> wal_record \<Rightarrow> wal_state \<Rightarrow> (wal_error + int) \<times> wal_state" where
  "synced_append flt r s =
     (case wal_append flt r s of
        (Inl e, s) \<Rightarrow> (Inl e, s)
      | (Inr q, s) \<Rightarrow> if flt = FailFsync then (Inl (ErrIO ''fsync''), s) else (Inr q, s))"

definition next_seq :: "wal_state \<Rightarrow> wal_state" where
  "next_seq s = ((fst s)\<lparr>ww_seq := i64 (ww_seq (fst s) + 1)\<rparr>, snd s)"

definition StepBegin :: "append_fault \<Rightarrow> int \<Rightarrow> string \<Rightarrow> wal_state \<Rightarrow> (wal_error + int) \<times> wal_state" where
  "StepBegin flt ts stepID s =
     (let s = next_seq s in
      wal_append flt (blank_record\<lparr>rec_seq := ww_seq (fst s), rec_type := TypeStepBegin,
        rec_step := stepID, rec_ts := ts\<rparr>) s)"

definition StepEnd :: "append_fault \<Rightarrow> int \<Rightarrow> string \<Rightarrow> int \<Rightarrow> string \<Rightarrow> wal_state \<Rightarrow> (wal_error + int) \<times> wal_state" where
  "StepEnd flt ts stepID exitCode outputRef s =
     (let s = next_seq s in
      synced_append flt (blank_record\<lparr>rec_seq := ww_seq (fst s), rec_type := TypeStepEnd,
        rec_step := stepID, rec_ts := ts, rec_exit := Some exitCode, rec_output := outputRef\<rparr>) s)"

definition StepRetry :: "append_fault \<Rightarrow> int \<Rightarrow> string \<Rightarrow> int \<Rightarrow> wal_state \<Rightarrow> (wal_error + int) \<times> wal_state" where
  "StepRetry flt ts stepID n s =
     (let s = next_seq s in
      synced_append flt (blank_record\<lparr>rec_seq := ww_seq (fst s), rec_type := TypeStepRetry,
        rec_step := stepID, rec_ts := ts, rec_attempt := n\<rparr>) s)"

definition StepTimeout :: "append_fault \<Rightarrow> int \<Rightarrow> string \<Rightarrow> wal_state \<Rightarrow> (wal_error + int) \<times> wal_state" where
  "StepTimeout flt ts stepID s =
     (let s = next_seq s in
      synced_append flt (blank_record\<lparr>rec_seq := ww_seq (fst s), rec_type := TypeStepTimeout,
        rec_step := stepID, rec_ts := ts, rec_reason := ''timeout''\<rparr>) s)"

definition JobCancelled :: "append_fault \<Rightarrow> int \<Rightarrow> string \<Rightarrow> wal_state \<Rightarrow> (wal_error + int) \<times> wal_state" where
  "JobCancelled flt ts reason s =
     (let s = next_seq s in
      synced_append flt (blank_record\<lparr>rec_seq := ww_seq (fst s), rec_type := TypeJobCancelled,
        rec_ts := ts, rec_reason := reason\<rparr>) s)"

text \<open>\<open>Sync\<close> and \<open>Close\<close> of the writer; its file is never nil once it is built.\<close>

definition wal_Sync :: "append_fault \<Rightarrow> wal_state \<Rightarrow> wal_error option" where
  "wal_Sync flt s = (if flt = FailFsync \<or> ww_file (fst s) = ClosedFile then Some (ErrIO ''fsync'') else None)"

definition wal_Close :: "append_fault \<Rightarrow> wal_state \<Rightarrow> wal_error option \<times> wal_state" where
  "wal_Close flt s =
     (if flt = FailSync \<or> ww_file (fst s) = ClosedFile then (Some (ErrIO ''sync''), s)
      else (if flt = FailClose then Some (ErrIO ''close'') else None, (fst s)\<lparr>ww_file := ClosedFile\<rparr>, snd s))"

end
