(* ===== verification/WalLog.thy ===== *)
theory WalLog
  imports Wal
begin

text \<open>
  Correctness of the write-ahead log: the directory a writer leaves behind is a list of
  records cut into numbered files, appending adds one record at its end, reading gives the
  records back, and a new writer continues where the last one stopped.
\<close>

subsection \<open>File names\<close>

lemma replicate_small: "replicate 3 c = [c, c, c]" "replicate 2 c = [c, c]" "replicate (Suc 0) c = [c]"
  by (simp_all add: numeral_3_eq_3 numeral_2_eq_2)

lemma show_nat_digits:
  "n < 10 \<Longrightarrow> show_nat n = [digit n]"
  "10 \<le> n \<Longrightarrow> show_nat n = show_nat (n div 10) @ [digit (n mod 10)]"
  by (subst show_nat.simps; simp)+

lemma pad4:
  assumes "n < 10000"
  shows "pad0 4 n = [digit (n div 1000), digit (n div 100 mod 10), digit (n div 10 mod 10), digit (n mod 10)]"
proof -
  have zero: "digit 0 = CHR ''0''" by (simp add: digit_def)
  have div: "n div 10 div 10 = n div 100" "n div 100 div 10 = n div 1000" by (simp_all add: div_mult2_eq [symmetric])
  consider "n < 10" | "10 \<le> n" "n < 100" | "100 \<le> n" "n < 1000" | "1000 \<le> n" by linarith
  then show ?thesis
  proof cases
    case 1
    then show ?thesis by (simp add: pad0_def show_nat_digits(1) zero replicate_small)
  next
    case 2
    then have "show_nat n = [digit (n div 10), digit (n mod 10)]" "n div 100 = 0" "n div 1000 = 0"
      "n div 10 mod 10 = n div 10"
      by (simp_all add: show_nat_digits(2) [of n] show_nat_digits(1) [of "n div 10"])
    then show ?thesis by (simp add: pad0_def zero replicate_small)
  next
    case 3
    then have "show_nat n = [digit (n div 100), digit (n div 10 mod 10), digit (n mod 10)]" "n div 1000 = 0"
      "n div 100 mod 10 = n div 100"
      by (simp_all add: show_nat_digits(2) [of n] show_nat_digits(2) [of "n div 10"]
          show_nat_digits(1) [of "n div 100"] div)
    then show ?thesis by (simp add: pad0_def zero replicate_small)
  next
    case 4
    with assms have "show_nat n =
        [digit (n div 1000), digit (n div 100 mod 10), digit (n div 10 mod 10), digit (n mod 10)]"
      by (simp add: show_nat_digits(2) [of n] show_nat_digits(2) [of "n div 10"]
          show_nat_digits(2) [of "n div 100"] show_nat_digits(1) [of "n div 1000"] div)
    then show ?thesis by (simp add: pad0_def)
  qed
qed

lemma of_char_digit: "d < 10 \<Longrightarrow> of_char (digit d) = (48 + d :: nat)"
  by (auto simp: digit_def less_Suc_eq numeral_eq_Suc nth_Cons')

lemma digit_less: "a < b \<Longrightarrow> b < 10 \<Longrightarrow> digit a < digit b"
  by (simp add: less_char_def of_char_digit)

lemma digit_not_special [simp]:
  "d < 10 \<Longrightarrow> digit d \<noteq> CHR '' ''" "d < 10 \<Longrightarrow> digit d \<noteq> CHR ''-''" "d < 10 \<Longrightarrow> digit d \<noteq> CHR ''+''"
  by (auto dest!: arg_cong [where f = "of_char :: char \<Rightarrow> nat"] simp: of_char_digit)

lemma is_wal_name_file [simp]: "is_wal_name (walFileName n)"
  by (simp add: is_wal_name_def walFileName_def HasPrefix_def HasSuffix_def)

lemma walFileName_digits:
  "n < 10000 \<Longrightarrow> walFileName (int n) = ''wal-'' @ [digit (n div 1000), digit (n div 100 mod 10),
     digit (n div 10 mod 10), digit (n mod 10)] @ ''.log''"
  by (simp add: walFileName_def pad4)

lemma four_digits: "n = 10 * (10 * (10 * (n div 1000) + n div 100 mod 10) + n div 10 mod 10) + n mod 10"
  for n :: nat
proof -
  have "n div 100 = n div 10 div 10" "n div 1000 = n div 10 div 10 div 10" by (simp_all add: div_mult2_eq [symmetric])
  then show ?thesis by (simp only: mult_div_mod_eq)
qed

lemma parse_four_digits:
  assumes "a < 10" and "b < 10" and "c < 10" and "e < 10"
  shows "parseFileNum (''wal-'' @ [digit a, digit b, digit c, digit e] @ ''.log'') =
    int (10 * (10 * (10 * a + b) + c) + e)"
proof -
  let ?ds = "[digit a, digit b, digit c, digit e]"
  have span: "takeWhile (\<lambda>c. digit_value c \<noteq> None) ?ds = ?ds" using assms by simp
  have val: "unsigned_value ?ds = Some (10 * (10 * (10 * a + b) + c) + e)"
    using assms by (simp add: unsigned_value_def)
  have "take 4 (dropWhile (\<lambda>c. c = CHR '' '') (drop 4 (''wal-'' @ ?ds @ ''.log''))) = ?ds"
    using assms by simp
  moreover have "\<not> HasPrefix ?ds ''-''" "\<not> HasPrefix ?ds ''+''" using assms by (simp_all add: HasPrefix_def)
  moreover have "HasPrefix (''wal-'' @ ?ds @ ''.log'') ''wal-''" by (rule HasPrefix_append)
  ultimately show ?thesis unfolding parseFileNum_def Let_def by (simp only: if_False if_True not_True_eq_False
      simp_thms span val option.case)
qed

lemma parseFileNum_walFileName:
  assumes "n < 10000"
  shows "parseFileNum (walFileName (int n)) = int n"
proof -
  have "n div 1000 < 10" using assms by simp
  from parse_four_digits [OF this, of "n div 100 mod 10" "n div 10 mod 10" "n mod 10"] four_digits [of n]
  show ?thesis unfolding walFileName_digits [OF assms] by simp
qed

lemma walFileName_inject:
  "m < 10000 \<Longrightarrow> n < 10000 \<Longrightarrow> walFileName (int m) = walFileName (int n) \<longleftrightarrow> m = n"
  by (metis parseFileNum_walFileName of_nat_eq_iff)

lemma lex10: "10 * x + c < 10 * x' + c' \<Longrightarrow> c < 10 \<Longrightarrow> c' < 10 \<Longrightarrow> x < x' \<or> x = x' \<and> c < c'"
  for x c x' c' :: nat by linarith

lemma lex10_eq: "10 * x + c = 10 * x' + c' \<Longrightarrow> c < 10 \<Longrightarrow> c' < 10 \<Longrightarrow> x = x' \<and> c = c'"
  for x c x' c' :: nat by presburger

lemma digits_less:
  assumes "a < 10" "b < 10" "c < 10" "e < 10" "a' < 10" "b' < 10" "c' < 10" "e' < 10"
    and "10 * (10 * (10 * a + b) + c) + e < 10 * (10 * (10 * a' + b') + c') + (e' :: nat)"
  shows "[digit a, digit b, digit c, digit e] @ t < [digit a', digit b', digit c', digit e'] @ t'"
proof -
  have "a < a' \<or> a = a' \<and> (b < b' \<or> b = b' \<and> (c < c' \<or> c = c' \<and> e < e'))"
    using lex10 [OF assms(9,4,8)] lex10 [of "10 * a + b" c "10 * a' + b'" c'] lex10 [of a b a' b']
      lex10_eq [of "10 * a + b" c "10 * a' + b'" c'] lex10_eq [of a b a' b'] assms(1-8)
    by metis
  with digit_less assms show ?thesis by (elim disjE conjE) simp_all
qed

lemma walFileName_less:
  assumes "m < n" and "n < 10000"
  shows "walFileName (int m) < walFileName (int n)"
proof -
  from assms have m: "m < 10000" by simp
  have hi: "m div 1000 < 10" "n div 1000 < 10" using assms m by simp_all
  have mod: "k mod 10 < 10" for k :: nat by simp
  have "10 * (10 * (10 * (m div 1000) + m div 100 mod 10) + m div 10 mod 10) + m mod 10 <
      10 * (10 * (10 * (n div 1000) + n div 100 mod 10) + n div 10 mod 10) + n mod 10"
    using four_digits [of m] four_digits [of n] assms(1) by simp
  from digits_less [OF hi(1) mod mod mod hi(2) mod mod mod this, of "''.log''" "''.log''"]
  show ?thesis unfolding walFileName_digits [OF m] walFileName_digits [OF assms(2)] by simp
qed

definition log_names :: "nat \<Rightarrow> string list" where
  "log_names n = map (\<lambda>i. walFileName (int i)) [1..<Suc n]"

lemma sort_log_names [simp]:
  assumes "n < 10000"
  shows "sort (log_names n) = log_names n"
proof (rule sorted_sort_id)
  have "walFileName (int i) \<le> walFileName (int j)" if "i < j" "j < Suc n" for i j
    using walFileName_less [of i j] that assms by (simp add: less_imp_le)
  then show "sorted (log_names n)"
    unfolding log_names_def sorted_map by (intro sorted_wrt_mono_rel [OF _ sorted_wrt_upt]) auto
qed

lemma log_names_Suc: "log_names (Suc n) = log_names n @ [walFileName (int (Suc n))]"
  by (simp add: log_names_def)

subsection \<open>Encoded records\<close>

definition enc :: "wal_record \<Rightarrow> string" where "enc r = MarshalRecord r @ [newline]"

definition enc_all :: "wal_record list \<Rightarrow> string" where "enc_all rs = concat (map enc rs)"

text \<open>A record the reader takes back: its numbers fit and its line fits the scan buffer.\<close>

definition good_record :: "wal_record \<Rightarrow> bool" where
  "good_record r \<longleftrightarrow> fits_record r \<and> length (MarshalRecord r) < max_line"

lemma enc_all_simps [simp]: "enc_all [] = []" "enc_all (r # rs) = enc r @ enc_all rs"
  "enc_all (rs @ qs) = enc_all rs @ enc_all qs"
  by (simp_all add: enc_all_def)

lemma dropCR_marshal [simp]: "dropCR (MarshalRecord r) = MarshalRecord r"
  by (simp add: dropCR_def MarshalRecord_last)

lemma Split_enc: "Split (enc r @ t) newline = MarshalRecord r # Split t newline"
  using cut_append [OF MarshalRecord_no_newline, of r t]
  by (simp add: enc_def Split.simps [of "MarshalRecord r @ newline # t"])

lemma scan_enc:
  "good_record r \<Longrightarrow> scan_content (enc r @ t) =
     (case scan_content t of Inl e \<Rightarrow> Inl e | Inr qs \<Rightarrow> Inr (r # qs))"
  by (simp add: scan_content_def Split_enc good_record_def)

lemma scan_enc_all:
  "list_all good_record rs \<Longrightarrow> scan_content (enc_all rs @ t) =
     (case scan_content t of Inl e \<Rightarrow> Inl e | Inr qs \<Rightarrow> Inr (rs @ qs))"
  by (induction rs) (auto simp: scan_enc split: sum.splits)

lemma Split_no_newline: "newline \<notin> set t \<Longrightarrow> Split t newline = [t]"
  by (simp add: Split.simps [of t] cut_None [THEN iffD2])

lemma scan_Nil [simp]: "scan_content [] = Inr []"
  by (simp add: scan_content_def Split_no_newline dropCR_def max_line_def)

lemma check_sequence_append:
  "check_sequence i (xs @ ys) =
     (case check_sequence i xs of Some e \<Rightarrow> Some e | None \<Rightarrow> check_sequence (i + int (length xs)) ys)"
  by (induction i xs rule: check_sequence.induct) (auto simp: algebra_simps split: option.split)

lemma last_seq_sequence:
  "check_sequence i xs = None \<Longrightarrow> 0 \<le> i \<Longrightarrow> last_seq xs = (if xs = [] then 0 else i + int (length xs))"
  by (induction i xs rule: check_sequence.induct) (auto split: if_splits)

lemma last_seq_append: "last_seq (xs @ ys) = max (last_seq xs) (last_seq ys)"
proof -
  have "0 \<le> last_seq zs" for zs by (induction zs) auto
  then show ?thesis by (induction xs) (auto simp: max.assoc)
qed

subsection \<open>The directory as a list of records\<close>

text \<open>
  The log files are \<open>wal-0001\<close> to \<open>wal-n\<close>; file \<open>i\<close> holds the lines of
  the \<open>i\<close>-th part, and the last file may end in bytes that are no complete record.
\<close>

definition wal_files :: "wal_record list list \<Rightarrow> string \<Rightarrow> (string \<times> string) list \<Rightarrow> bool" where
  "wal_files fss tail fs \<longleftrightarrow> distinct (map fst fs) \<and>
     filter is_wal_name (map fst fs) = log_names (length fss) \<and>
     (\<forall>i<length fss. map_of fs (walFileName (int (Suc i))) =
        Some (enc_all (fss ! i) @ (if Suc i = length fss then tail else [])))"

definition wal_disk :: "wal_record list list \<Rightarrow> string \<Rightarrow> wal_dir \<Rightarrow> bool" where
  "wal_disk fss tail d \<longleftrightarrow> (\<exists>fs. d = Some fs \<and> wal_files fss tail fs) \<and>
     fss \<noteq> [] \<and> length fss < 10000 \<and> list_all good_record (concat fss) \<and>
     check_sequence 0 (concat fss) = None"

definition wal_open :: "wal_record list list \<Rightarrow> wal_writer \<Rightarrow> bool" where
  "wal_open fss w \<longleftrightarrow> ww_num w = int (length fss) \<and>
     ww_file w = OpenFile (walFileName (int (length fss))) \<and>
     ww_size w = int (length (enc_all (last fss))) \<and> ww_seq w = int (length (concat fss))"

definition wal_inv :: "wal_record list list \<Rightarrow> wal_state \<Rightarrow> bool" where
  "wal_inv fss s \<longleftrightarrow> wal_disk fss [] (snd s) \<and> wal_open fss (fst s)"

abbreviation (input) no_read_fault :: read_faults where "no_read_fault \<equiv> \<lambda>_. False"

lemma wal_files_last:
  assumes "wal_files fss tail fs" and "fss \<noteq> []"
  shows "map_of fs (walFileName (int (length fss))) = Some (enc_all (last fss) @ tail)"
proof -
  from assms(2) obtain n where n: "length fss = Suc n" by (cases "length fss") auto
  with assms(2) have "last fss = fss ! n" by (simp add: last_conv_nth)
  with assms n show ?thesis by (simp add: wal_files_def)
qed

lemma list_wal_disk: "wal_disk fss tail d \<Longrightarrow> listWALFiles no_read_fault d = Inr (log_names (length fss))"
  by (auto simp: wal_disk_def wal_files_def listWALFiles_def)

lemma read_files_append:
  "read_files rio d (xs @ ys) =
     (case read_files rio d xs of
        Inl e \<Rightarrow> Inl e
      | Inr rs \<Rightarrow> (case read_files rio d ys of Inl e \<Rightarrow> Inl e | Inr qs \<Rightarrow> Inr (rs @ qs)))"
  by (induction xs) (auto split: sum.splits)

lemma read_complete_files:
  assumes "wal_files fss tail fs" and "list_all good_record (concat fss)" and "n < length fss"
  shows "read_files no_read_fault (Some fs) (log_names n) = Inr (concat (take n fss))"
  using assms(3)
proof (induction n)
  case 0
  then show ?case by (simp add: log_names_def)
next
  case (Suc n)
  have good: "list_all good_record (fss ! n)"
    using assms(2) Suc.prems by (auto simp: list_all_iff)
  have "map_of fs (walFileName (int (Suc n))) = Some (enc_all (fss ! n))"
    using assms(1) Suc.prems by (simp add: wal_files_def)
  then have "readWALFile no_read_fault (Some fs) (walFileName (int (Suc n))) = Inr (fss ! n)"
    using scan_enc_all [OF good, of "[]"] by (simp add: readWALFile_def dir_content_def)
  with Suc show ?case by (simp add: log_names_Suc read_files_append take_Suc_conv_app_nth)
qed

text \<open>What reading the whole directory gives: the records, then whatever the tail scans to.\<close>

lemma read_wal_disk:
  assumes "wal_disk fss tail d"
  shows "read_files no_read_fault d (log_names (length fss)) =
    (case scan_content tail of Inl e \<Rightarrow> Inl e | Inr qs \<Rightarrow> Inr (concat fss @ qs))"
proof -
  from assms obtain fs where d: "d = Some fs" "wal_files fss tail fs" "fss \<noteq> []"
    and good: "list_all good_record (concat fss)" by (auto simp: wal_disk_def)
  from d(3) obtain n where n: "length fss = Suc n" by (cases "length fss") auto
  have parts: "concat fss = concat (take n fss) @ last fss"
  proof -
    have "fss = take n fss @ [last fss]" using d(3) n by (metis append_butlast_last_id butlast_conv_take diff_Suc_1)
    from arg_cong [OF this, of concat] show ?thesis by simp
  qed
  have init: "read_files no_read_fault d (log_names n) = Inr (concat (take n fss))"
    using read_complete_files [OF d(2) good, of n] n d(1) by simp
  have "list_all good_record (last fss)" using good parts by simp
  from scan_enc_all [OF this, of tail] wal_files_last [OF d(2,3)] d(1) n
  have "readWALFile no_read_fault d (walFileName (int (Suc n))) =
      (case scan_content tail of Inl e \<Rightarrow> Inl e | Inr qs \<Rightarrow> Inr (last fss @ qs))"
    by (simp add: readWALFile_def dir_content_def)
  with init n parts show ?thesis by (auto simp: log_names_Suc read_files_append split: sum.split)
qed

theorem ReadAll_wal_disk:
  assumes "wal_disk fss tail d"
  shows "ReadAll no_read_fault d =
    (case scan_content tail of
       Inl e \<Rightarrow> Inl e
     | Inr qs \<Rightarrow>
         (case check_sequence (int (length (concat fss))) qs of Some e \<Rightarrow> Inl e | None \<Rightarrow> Inr (concat fss @ qs)))"
  using list_wal_disk [OF assms] read_wal_disk [OF assms] assms
  by (auto simp: ReadAll_def check_sequence_append wal_disk_def split: sum.split option.split)

corollary ReadAll_wal_inv: "wal_inv fss s \<Longrightarrow> ReadAll no_read_fault (snd s) = Inr (concat fss)"
  using ReadAll_wal_disk [of fss "[]"] by (simp add: wal_inv_def)

subsection \<open>Appending\<close>

lemma log_file_listed:
  "wal_files fss tail fs \<Longrightarrow> is_wal_name f \<Longrightarrow> f \<in> set (map fst fs) \<longleftrightarrow> f \<in> set (log_names (length fss))"
  unfolding wal_files_def by (metis (no_types, lifting) mem_Collect_eq set_filter)

lemma append_file_disk:
  assumes "wal_disk fss tail d"
  shows "wal_disk fss (tail @ data) (append_file (walFileName (int (length fss))) data d)"
proof -
  from assms obtain fs where d: "d = Some fs" "wal_files fss tail fs" "fss \<noteq> []" and len: "length fss < 10000"
    by (auto simp: wal_disk_def)
  let ?f = "walFileName (int (length fss))"
  let ?fs = "AList.update ?f (enc_all (last fss) @ tail @ data) fs"
  have cur: "map_of fs ?f = Some (enc_all (last fss) @ tail)" using wal_files_last [OF d(2,3)] .
  then have mem: "?f \<in> fst ` set fs" by (metis domI dom_map_of_conv_image_fst)
  have "wal_files fss (tail @ data) ?fs"
    unfolding wal_files_def
  proof (intro conjI allI impI)
    show "distinct (map fst ?fs)" using d(2) by (simp add: wal_files_def distinct_update)
    show "filter is_wal_name (map fst ?fs) = log_names (length fss)"
      using d(2) mem by (simp add: wal_files_def update_keys)
    fix i assume i: "i < length fss"
    show "map_of ?fs (walFileName (int (Suc i))) =
        Some (enc_all (fss ! i) @ (if Suc i = length fss then tail @ data else []))"
    proof (cases "Suc i = length fss")
      case True
      then have "last fss = fss ! i" using d(3) by (metis diff_Suc_1 last_conv_nth)
      with True show ?thesis by (simp only: update_conv' fun_upd_same if_True simp_thms)
    next
      case False
      then have "walFileName (int (Suc i)) \<noteq> ?f"
        using i len walFileName_inject [of "Suc i" "length fss"] by (simp del: of_nat_Suc)
      with False d(2) i show ?thesis by (simp add: update_conv' wal_files_def)
    qed
  qed
  with assms d cur show ?thesis by (simp add: wal_disk_def append_file_def)
qed

lemma create_file_disk:
  assumes "wal_disk fss [] d" and "Suc (length fss) < 10000"
  shows "wal_disk (fss @ [[]]) [] (create_file (walFileName (int (Suc (length fss)))) d)"
proof -
  from assms(1) obtain fs where d: "d = Some fs" "wal_files fss [] fs" by (auto simp: wal_disk_def)
  let ?f = "walFileName (int (Suc (length fss)))"
  have "walFileName (int k) \<noteq> ?f" if "k \<le> length fss" for k
    using walFileName_inject [of k "Suc (length fss)"] assms(2) that by (simp del: of_nat_Suc)
  then have "?f \<notin> set (log_names (length fss))"
    unfolding log_names_def by (metis (no_types, lifting) atLeastLessThan_iff imageE less_Suc_eq_le set_map set_upt)
  with log_file_listed [OF d(2), of ?f] have new: "?f \<notin> set (map fst fs)" by simp
  then have none: "map_of fs ?f = None" by (simp add: map_of_eq_None_iff image_iff)
  have "wal_files (fss @ [[]]) [] (AList.update ?f [] fs)"
    unfolding wal_files_def
  proof (intro conjI allI impI)
    show "distinct (map fst (AList.update ?f [] fs))" using d(2) by (simp add: wal_files_def distinct_update)
    show "filter is_wal_name (map fst (AList.update ?f [] fs)) = log_names (length (fss @ [[]]))"
      using d(2) new by (simp add: wal_files_def update_keys log_names_Suc)
    fix i assume i: "i < length (fss @ [[]])"
    show "map_of (AList.update ?f [] fs) (walFileName (int (Suc i))) =
        Some (enc_all ((fss @ [[]]) ! i) @ (if Suc i = length (fss @ [[]]) then [] else []))"
    proof (cases "i = length fss")
      case False
      then have "walFileName (int (Suc i)) \<noteq> ?f"
        using i assms(2) walFileName_inject [of "Suc i" "Suc (length fss)"] by (simp del: of_nat_Suc)
      with False d(2) i show ?thesis by (simp add: update_conv' wal_files_def nth_append)
    qed (simp add: update_conv')
  qed
  with assms d none show ?thesis by (simp add: wal_disk_def create_file_def)
qed

text \<open>A complete line at the end of the last file is one more record.\<close>

lemma absorb_line:
  assumes "wal_disk fss (enc r @ tail) d" and "good_record r" and "rec_seq r = int (length (concat fss)) + 1"
  shows "wal_disk (butlast fss @ [last fss @ [r]]) tail d"
proof -
  from assms(1) obtain fs where d: "d = Some fs" "wal_files fss (enc r @ tail) fs" "fss \<noteq> []"
    by (auto simp: wal_disk_def)
  let ?gss = "butlast fss @ [last fss @ [r]]"
  have len: "length ?gss = length fss" using d(3) by simp
  have "concat ?gss = concat (butlast fss @ [last fss]) @ [r]" by simp
  then have records: "concat ?gss = concat fss @ [r]" using d(3) by simp
  have "wal_files ?gss tail fs"
    unfolding wal_files_def len
  proof (intro conjI allI impI)
    fix i assume i: "i < length fss"
    show "map_of fs (walFileName (int (Suc i))) =
        Some (enc_all (?gss ! i) @ (if Suc i = length fss then tail else []))"
    proof (cases "Suc i = length fss")
      case True
      then have "?gss ! i = last fss @ [r]" by (metis diff_Suc_1 length_butlast nth_append_length)
      with wal_files_last [OF d(2,3)] show ?thesis unfolding True by simp
    next
      case False
      then have "i < length (butlast fss)" using i by simp
      then have "?gss ! i = fss ! i" by (simp only: nth_append if_True nth_butlast)
      with False d(2) i show ?thesis by (simp add: wal_files_def)
    qed
  qed (use d(2) in \<open>simp_all add: wal_files_def\<close>)
  moreover have "check_sequence 0 (concat fss @ [r]) = None"
    using assms(1,3) by (simp add: check_sequence_append wal_disk_def)
  ultimately show ?thesis using assms(1,2) d(1,3) len unfolding wal_disk_def records by simp
qed

abbreviation (input) writes_ok :: "append_fault \<Rightarrow> bool" where
  "writes_ok flt \<equiv> flt = NoFault \<or> flt = FailFsync"

text \<open>Where the next line goes: the current file, or a new one.\<close>

definition rotated :: "wal_record list list \<Rightarrow> wal_record \<Rightarrow> wal_record list list" where
  "rotated fss r =
     (if wal_maxFileSize < int (length (enc_all (last fss))) + int (length (enc r)) then fss @ [[]] else fss)"

definition logged :: "wal_record list list \<Rightarrow> wal_record \<Rightarrow> wal_record list list" where
  "logged fss r = butlast (rotated fss r) @ [last (rotated fss r) @ [r]]"

lemma concat_rotated [simp]: "concat (rotated fss r) = concat fss"
  by (simp add: rotated_def)

lemma rotated_not_Nil: "fss \<noteq> [] \<Longrightarrow> rotated fss r \<noteq> []"
  by (simp add: rotated_def)

lemma concat_logged:
  assumes "fss \<noteq> []"
  shows "concat (logged fss r) = concat fss @ [r]"
proof -
  have "concat (logged fss r) = concat (butlast (rotated fss r) @ [last (rotated fss r)]) @ [r]"
    by (simp add: logged_def)
  then show ?thesis using rotated_not_Nil [OF assms] by simp
qed

lemma length_logged: "fss \<noteq> [] \<Longrightarrow> length (logged fss r) \<le> Suc (length fss)"
  by (simp add: logged_def rotated_def)

lemma length_rotated: "length (rotated fss r) \<le> Suc (length fss)"
  by (simp add: rotated_def)

lemma append_rotates:
  assumes "wal_inv fss (w, d)" and "length (rotated fss r) < 10000"
    and "writes_ok flt \<or> (\<exists>n. flt = FailWrite n)"
  obtains w' d' where "wal_inv (rotated fss r) (w', d')"
    and "(if wal_maxFileSize < ww_size w + int (length (enc r)) then rotate_log flt (w\<lparr>ww_seq := q\<rparr>, d)
          else (None, w\<lparr>ww_seq := q\<rparr>, d)) = (None, w'\<lparr>ww_seq := q\<rparr>, d')"
proof (cases "wal_maxFileSize < ww_size w + int (length (enc r))")
  case False
  with assms(1) have "rotated fss r = fss" by (simp add: rotated_def wal_inv_def wal_open_def)
  with assms(1) False that [of w d] show ?thesis by simp
next
  case True
  let ?w = "w\<lparr>ww_num := ww_num w + 1, ww_size := 0, ww_file := OpenFile (walFileName (int (Suc (length fss))))\<rparr>"
  let ?d = "create_file (walFileName (int (Suc (length fss)))) d"
  from assms(1) True have rot: "rotated fss r = fss @ [[]]" by (simp add: rotated_def wal_inv_def wal_open_def)
  with assms(2) have "Suc (length fss) < 10000" by simp
  with assms(1) create_file_disk have inv: "wal_inv (fss @ [[]]) (?w, ?d)"
    by (simp add: wal_inv_def wal_open_def)
  have "rotate_log flt (w\<lparr>ww_seq := q\<rparr>, d) = (None, ?w\<lparr>ww_seq := q\<rparr>, ?d)"
    using assms(1,3) by (auto simp: rotate_log_def wal_inv_def wal_open_def Let_def algebra_simps)
  with inv rot True that show ?thesis by simp
qed

lemma wal_append_ok:
  assumes inv: "wal_inv fss (w, d)" and len: "length (rotated fss r) < 10000" and "writes_ok flt"
    and good: "good_record r" and q: "rec_seq r = ww_seq w + 1"
  shows "\<exists>s'. wal_append flt r (w\<lparr>ww_seq := rec_seq r\<rparr>, d) = (Inr (rec_seq r), s') \<and> wal_inv (logged fss r) s'"
proof -
  from assms(3) have ok: "writes_ok flt \<or> (\<exists>n. flt = FailWrite n)" by blast
  obtain w' d' where inv': "wal_inv (rotated fss r) (w', d')"
    and rot: "(if wal_maxFileSize < ww_size w + int (length (enc r)) then rotate_log flt (w\<lparr>ww_seq := rec_seq r\<rparr>, d)
          else (None, w\<lparr>ww_seq := rec_seq r\<rparr>, d)) = (None, w'\<lparr>ww_seq := rec_seq r\<rparr>, d')"
    by (rule append_rotates [OF inv len ok])
  let ?f = "walFileName (int (length (rotated fss r)))"
  let ?w = "w'\<lparr>ww_seq := rec_seq r, ww_size := ww_size w' + int (length (enc r))\<rparr>"
  from inv' have opened: "ww_file w' = OpenFile ?f" and disk: "wal_disk (rotated fss r) [] d'"
    by (auto simp: wal_inv_def wal_open_def)
  have "write_log flt (enc r) (w'\<lparr>ww_seq := rec_seq r\<rparr>, d') = (None, ?w, append_file ?f (enc r) d')"
    using opened assms(3) by (auto simp: write_log_def)
  with rot have run: "wal_append flt r (w\<lparr>ww_seq := rec_seq r\<rparr>, d) = (Inr (rec_seq r), ?w, append_file ?f (enc r) d')"
    unfolding wal_append_def Let_def by (simp add: enc_def)
  have seq: "rec_seq r = int (length (concat fss)) + 1" using inv q by (simp add: wal_inv_def wal_open_def)
  have "wal_disk (logged fss r) [] (append_file ?f (enc r) d')"
    unfolding logged_def
    by (rule absorb_line [OF _ good]) (use append_file_disk [OF disk, of "enc r"] seq in simp_all)
  moreover have "wal_open (logged fss r) ?w"
  proof -
    have ne: "fss \<noteq> []" using inv by (simp add: wal_inv_def wal_disk_def)
    have "length (logged fss r) = length (rotated fss r)" using rotated_not_Nil [OF ne] by (simp add: logged_def)
    then show ?thesis using inv' seq concat_logged [OF ne, of r]
      by (simp add: wal_open_def wal_inv_def) (simp add: logged_def)
  qed
  ultimately show ?thesis using run by (auto simp: wal_inv_def)
qed

lemma wal_append_torn:
  assumes inv: "wal_inv fss (w, d)" and len: "length (rotated fss r) < 10000"
  shows "\<exists>w' d'. wal_append (FailWrite n) r (w\<lparr>ww_seq := q\<rparr>, d) = (Inl (ErrIO ''write''), w'\<lparr>ww_seq := q\<rparr>, d') \<and>
    wal_open (rotated fss r) w' \<and> wal_disk (rotated fss r) (take n (enc r)) d'"
proof -
  obtain w' d' where inv': "wal_inv (rotated fss r) (w', d')"
    and rot: "(if wal_maxFileSize < ww_size w + int (length (enc r)) then rotate_log (FailWrite n) (w\<lparr>ww_seq := q\<rparr>, d)
          else (None, w\<lparr>ww_seq := q\<rparr>, d)) = (None, w'\<lparr>ww_seq := q\<rparr>, d')"
    by (rule append_rotates [OF inv len, of "FailWrite n" q]) blast
  let ?f = "walFileName (int (length (rotated fss r)))"
  from inv' have opened: "ww_file w' = OpenFile ?f" and disk: "wal_disk (rotated fss r) [] d'"
    by (auto simp: wal_inv_def wal_open_def)
  have "wal_append (FailWrite n) r (w\<lparr>ww_seq := q\<rparr>, d) =
      (Inl (ErrIO ''write''), w'\<lparr>ww_seq := q\<rparr>, append_file ?f (take n (enc r)) d')"
    using rot opened unfolding wal_append_def Let_def by (simp add: enc_def write_log_def)
  with append_file_disk [OF disk, of "take n (enc r)"] inv' show ?thesis
    by (auto simp: wal_inv_def)
qed

text \<open>The file number an append ends with, whether or not the invariant holds.\<close>

lemma wal_append_num:
  assumes "ww_file (fst s) = OpenFile f" and "writes_ok flt"
  shows "ww_num (fst (snd (wal_append flt r s))) =
    ww_num (fst s) + (if wal_maxFileSize < ww_size (fst s) + int (length (enc r)) then 1 else 0)"
  using assms by (auto simp: wal_append_def rotate_log_def write_log_def enc_def Let_def)

subsection \<open>Logging events\<close>

text \<open>The five operations of the writer as events, and the record each one logs.\<close>

datatype wal_event =
  EvBegin string | EvEnd string int string | EvRetry string int | EvTimeout string | EvCancel string

fun event_record :: "int \<Rightarrow> int \<Rightarrow> wal_event \<Rightarrow> wal_record" where
  "event_record q ts (EvBegin k) =
     blank_record\<lparr>rec_seq := q, rec_type := TypeStepBegin, rec_step := k, rec_ts := ts\<rparr>"
| "event_record q ts (EvEnd k e out) =
     blank_record\<lparr>rec_seq := q, rec_type := TypeStepEnd, rec_step := k, rec_ts := ts, rec_exit := Some e,
       rec_output := out\<rparr>"
| "event_record q ts (EvRetry k n) =
     blank_record\<lparr>rec_seq := q, rec_type := TypeStepRetry, rec_step := k, rec_ts := ts, rec_attempt := n\<rparr>"
| "event_record q ts (EvTimeout k) =
     blank_record\<lparr>rec_seq := q, rec_type := TypeStepTimeout, rec_step := k, rec_ts := ts, rec_reason := ''timeout''\<rparr>"
| "event_record q ts (EvCancel why) =
     blank_record\<lparr>rec_seq := q, rec_type := TypeJobCancelled, rec_ts := ts, rec_reason := why\<rparr>"

fun wal_exec :: "append_fault \<Rightarrow> int \<Rightarrow> wal_event \<Rightarrow> wal_state \<Rightarrow> (wal_error + int) \<times> wal_state" where
  "wal_exec flt ts (EvBegin k) s = StepBegin flt ts k s"
| "wal_exec flt ts (EvEnd k e out) s = StepEnd flt ts k e out s"
| "wal_exec flt ts (EvRetry k n) s = StepRetry flt ts k n s"
| "wal_exec flt ts (EvTimeout k) s = StepTimeout flt ts k s"
| "wal_exec flt ts (EvCancel why) s = JobCancelled flt ts why s"

lemma event_record_seq [simp]: "rec_seq (event_record q ts ev) = q"
  by (cases ev) simp_all

lemma wal_exec_append:
  "wal_exec flt ts ev s =
     (let s = next_seq s; r = event_record (ww_seq (fst s)) ts ev
      in if (\<exists>k. ev = EvBegin k) then wal_append flt r s else synced_append flt r s)"
  by (cases ev) (simp_all add: StepBegin_def StepEnd_def StepRetry_def StepTimeout_def JobCancelled_def Let_def)

lemma wal_exec_state: "snd (wal_exec flt ts ev s) =
    snd (wal_append flt (event_record (ww_seq (fst (next_seq s))) ts ev) (next_seq s))"
  by (auto simp: wal_exec_append synced_append_def Let_def split: prod.split sum.split)

definition next_record :: "int \<Rightarrow> wal_event \<Rightarrow> wal_state \<Rightarrow> wal_record" where
  "next_record ts ev s = event_record (ww_seq (fst s) + 1) ts ev"

lemma next_seq_exact:
  assumes "wal_inv fss (w, d)" and "int (length (concat fss)) < max_i64"
  shows "next_seq (w, d) = (w\<lparr>ww_seq := ww_seq w + 1\<rparr>, d)"
  using assms by (simp add: next_seq_def wal_inv_def wal_open_def in_i64_def)

lemma wal_exec_ok:
  assumes "wal_inv fss s" and "length (rotated fss (next_record ts ev s)) < 10000"
    and "int (length (concat fss)) < max_i64" and "good_record (next_record ts ev s)"
  shows "\<exists>s'. wal_exec NoFault ts ev s = (Inr (ww_seq (fst s) + 1), s') \<and>
    wal_inv (logged fss (next_record ts ev s)) s'"
proof -
  obtain w d where s: "s = (w, d)" by (cases s)
  let ?r = "next_record ts ev s"
  have q: "rec_seq ?r = ww_seq w + 1" using s by (simp add: next_record_def)
  obtain s' where s': "wal_append NoFault ?r (w\<lparr>ww_seq := rec_seq ?r\<rparr>, d) = (Inr (rec_seq ?r), s')"
    "wal_inv (logged fss ?r) s'"
    using wal_append_ok [OF _ assms(2) _ assms(4) q, of d NoFault] assms(1) s by auto
  have "wal_exec NoFault ts ev s = (Inr (ww_seq w + 1), s')"
    using s'(1) next_seq_exact [of fss w d] assms(1,3) s q
    by (simp add: wal_exec_append synced_append_def next_record_def Let_def)
  with s' s show ?thesis by auto
qed

type_synonym timed_event = "int \<times> wal_event"

definition wal_step :: "wal_state \<Rightarrow> timed_event \<Rightarrow> wal_state" where
  "wal_step s e = snd (wal_exec NoFault (fst e) (snd e) s)"

fun event_records :: "int \<Rightarrow> timed_event list \<Rightarrow> wal_record list" where
  "event_records q [] = []"
| "event_records q (e # es) = event_record (q + 1) (fst e) (snd e) # event_records (q + 1) es"

lemma length_event_records [simp]: "length (event_records q es) = length es"
  by (induction es arbitrary: q) simp_all

lemma wal_step_num:
  assumes "wal_inv fss s" and "int (length (concat fss)) < max_i64"
  shows "ww_num (fst (wal_step s e)) = int (length (rotated fss (next_record (fst e) (snd e) s)))"
proof -
  obtain w d where s: "s = (w, d)" by (cases s)
  have w: "wal_open fss w" using assms(1) s by (simp add: wal_inv_def)
  then have "ww_file (fst (w\<lparr>ww_seq := ww_seq w + 1\<rparr>, d)) = OpenFile (walFileName (int (length fss)))"
    by (simp add: wal_open_def)
  from wal_append_num [OF this, of NoFault] w s next_seq_exact [of fss w d] assms
  show ?thesis by (simp add: wal_step_def wal_exec_state next_record_def wal_open_def rotated_def)
qed

lemma wal_step_num_mono: "ww_num (fst s) \<le> ww_num (fst (wal_step s e))"
  by (auto simp: wal_step_def wal_exec_state wal_append_def rotate_log_def write_log_def next_seq_def Let_def
      split: log_file.split)

lemma wal_run_num_mono: "ww_num (fst s) \<le> ww_num (fst (foldl wal_step s es))"
proof (induction es arbitrary: s)
  case (Cons e es)
  from wal_step_num_mono [of s e] Cons [of "wal_step s e"] show ?case by simp
qed simp

lemma wal_run:
  assumes "wal_inv fss s" and "int (length (concat fss)) + int (length es) < max_i64"
    and "ww_num (fst (foldl wal_step s es)) < 10000"
    and "list_all good_record (event_records (int (length (concat fss))) es)"
  shows "\<exists>gss. wal_inv gss (foldl wal_step s es) \<and>
    concat gss = concat fss @ event_records (int (length (concat fss))) es"
  using assms
proof (induction es arbitrary: fss s)
  case Nil
  then show ?case by auto
next
  case (Cons e es)
  let ?r = "next_record (fst e) (snd e) s"
  have seq: "ww_seq (fst s) = int (length (concat fss))" and ne: "fss \<noteq> []"
    using Cons.prems(1) by (auto simp: wal_inv_def wal_open_def wal_disk_def)
  have small: "int (length (concat fss)) < max_i64" using Cons.prems(2) by simp
  have "length (rotated fss ?r) < 10000"
    using wal_step_num [OF Cons.prems(1) small, of e] wal_run_num_mono [of "wal_step s e" es] Cons.prems(3) by simp
  moreover have "good_record ?r" using Cons.prems(4) seq by (simp add: next_record_def)
  ultimately have inv: "wal_inv (logged fss ?r) (wal_step s e)"
    using wal_exec_ok [OF Cons.prems(1) _ small, of "fst e" "snd e"] by (auto simp: wal_step_def)
  have log: "concat (logged fss ?r) = concat fss @ [?r]" by (rule concat_logged [OF ne])
  have "\<exists>gss. wal_inv gss (foldl wal_step (wal_step s e) es) \<and>
      concat gss = concat (logged fss ?r) @ event_records (int (length (concat (logged fss ?r)))) es"
    using Cons.prems log by (intro Cons.IH [OF inv]) (simp_all add: algebra_simps)
  with log seq show ?case by (simp add: next_record_def algebra_simps)
qed

subsection \<open>Opening a log\<close>

lemma NewWriter_fresh:
  "\<exists>w. NewWriter no_read_fault None = (Inr w, Some [(walFileName 1, [])]) \<and> wal_inv [[]] (w, Some [(walFileName 1, [])])"
  by (auto simp: NewWriter_def listWALFiles_def open_log_def create_file_def wal_inv_def wal_disk_def
      wal_open_def wal_files_def log_names_def Let_def)

definition resumed :: "wal_record list list \<Rightarrow> wal_record list list" where
  "resumed fss = (if wal_maxFileSize \<le> int (length (enc_all (last fss))) then fss @ [[]] else fss)"

lemma concat_resumed [simp]: "concat (resumed fss) = concat fss"
  by (simp add: resumed_def)

lemma NewWriter_existing:
  assumes "listWALFiles no_read_fault (Some fs) = Inr files" and "files \<noteq> []"
    and "lastSeqInDir no_read_fault (Some fs) files = Inr q"
    and "dir_content (Some fs) (last files) = Some c" and "parseFileNum (last files) = n"
  shows "NewWriter no_read_fault (Some fs) =
    (let full = wal_maxFileSize \<le> int (length c)
     in open_log no_read_fault \<lparr>ww_seq = q, ww_file = ClosedFile, ww_num = (if full then n + 1 else n),
          ww_size = (if full then 0 else int (length c))\<rparr> (Some fs))"
  using assms by (simp add: NewWriter_def Let_def)

theorem NewWriter_resume:
  assumes "wal_disk fss [] d" and "length (resumed fss) < 10000"
  shows "\<exists>w d'. NewWriter no_read_fault d = (Inr w, d') \<and> wal_inv (resumed fss) (w, d')"
proof -
  from assms(1) obtain fs where d: "d = Some fs" "wal_files fss [] fs" "fss \<noteq> []" and len: "length fss < 10000"
    by (auto simp: wal_disk_def)
  from d(3) obtain n where n: "length fss = Suc n" by (cases "length fss") auto
  let ?f = "walFileName (int (length fss))"
  have names: "log_names (length fss) \<noteq> []" "last (log_names (length fss)) = ?f"
    using n by (simp_all add: log_names_Suc)
  have content: "dir_content d ?f = Some (enc_all (last fss))"
    using wal_files_last [OF d(2,3)] d(1) by (simp add: dir_content_def)
  have "check_sequence 0 (concat fss) = None" using assms(1) by (simp add: wal_disk_def)
  from last_seq_sequence [OF this] have q: "last_seq (concat fss) = int (length (concat fss))" by simp
  have seq: "lastSeqInDir no_read_fault d (log_names (length fss)) = Inr (int (length (concat fss)))"
    using read_wal_disk [OF assms(1)] q by (simp add: lastSeqInDir_def)
  have exists: "map_of fs ?f \<noteq> None" using content d(1) by (simp add: dir_content_def)
  have run: "NewWriter no_read_fault d =
    (let full = wal_maxFileSize \<le> int (length (enc_all (last fss)))
     in open_log no_read_fault \<lparr>ww_seq = int (length (concat fss)), ww_file = ClosedFile,
          ww_num = (if full then int (length fss) + 1 else int (length fss)),
          ww_size = (if full then 0 else int (length (enc_all (last fss))))\<rparr> d)"
    unfolding d(1)
    by (rule NewWriter_existing [where files = "log_names (length fss)"])
      (use list_wal_disk [OF assms(1)] names seq content parseFileNum_walFileName [OF len] d(1) in simp_all)
  show ?thesis
  proof (cases "wal_maxFileSize \<le> int (length (enc_all (last fss)))")
    case True
    with assms(2) have "Suc (length fss) < 10000" by (simp add: resumed_def)
    note disk = create_file_disk [OF assms(1) this]
    let ?w = "\<lparr>ww_seq = int (length (concat fss)), ww_file = OpenFile (walFileName (int (Suc (length fss)))),
        ww_num = int (Suc (length fss)), ww_size = 0\<rparr>"
    have "NewWriter no_read_fault d = (Inr ?w, create_file (walFileName (int (Suc (length fss)))) d)"
      unfolding run Let_def open_log_def using True by (simp add: add.commute)
    with disk True show ?thesis by (simp add: wal_inv_def wal_open_def resumed_def)
  next
    case False
    let ?w = "\<lparr>ww_seq = int (length (concat fss)), ww_file = OpenFile ?f,
        ww_num = int (length fss), ww_size = int (length (enc_all (last fss)))\<rparr>"
    have "create_file ?f d = d" using exists d(1) by (auto simp: create_file_def)
    then have "NewWriter no_read_fault d = (Inr ?w, d)"
      unfolding run Let_def open_log_def using False by simp
    with assms(1) False show ?thesis by (simp add: wal_inv_def wal_open_def resumed_def)
  qed
qed

end
