(* ===== verification/StepLog.thy ===== *)
theory StepLog
  imports WalLog
begin

text \<open>
  What a recovering process learns from the log. The abstract specification is an automaton
  over the logged events that keeps the state of each step; the manifest the reader builds
  from the directory is that automaton's state. The locale \<open>event_log\<close> is the contract
  the runner and the runtime rely on: a log that keeps the events in order.
\<close>

subsection \<open>The specification: the state of each step\<close>

datatype step_state = Started | Ended int string

fun spec_event :: "wal_event \<Rightarrow> (string \<rightharpoonup> step_state) \<Rightarrow> (string \<rightharpoonup> step_state)" where
  "spec_event (EvBegin k) st = st(k \<mapsto> Started)"
| "spec_event (EvEnd k e out) st = (if st k = None then st else st(k \<mapsto> Ended e out))"
| "spec_event (EvRetry k n) st = st"
| "spec_event (EvTimeout k) st = st"
| "spec_event (EvCancel why) st = st"

definition spec_run :: "(string \<rightharpoonup> step_state) \<Rightarrow> wal_event list \<Rightarrow> (string \<rightharpoonup> step_state)" where
  "spec_run st evs = fold spec_event evs st"

text \<open>The steps a run may skip, with their outputs.\<close>

definition finished :: "(string \<rightharpoonup> step_state) \<Rightarrow> (string \<rightharpoonup> string)" where
  "finished st k = (case st k of Some (Ended e out) \<Rightarrow> if e = 0 then Some out else None | _ \<Rightarrow> None)"

lemma spec_run_simps [simp]:
  "spec_run st [] = st"
  "spec_run st (e # es) = spec_run (spec_event e st) es"
  "spec_run st (es @ es') = spec_run (spec_run st es) es'"
  by (simp_all add: spec_run_def)

lemma finished_event:
  "finished (spec_event (EvBegin k) st) = (finished st)(k := None)"
  "finished (spec_event (EvRetry k n) st) = finished st"
  "finished (spec_event (EvTimeout k) st) = finished st"
  "finished (spec_event (EvCancel w) st) = finished st"
  "st k \<noteq> None \<Longrightarrow> finished (spec_event (EvEnd k e out) st) = (finished st)(k := if e = 0 then Some out else None)"
  "st k = None \<Longrightarrow> finished (spec_event (EvEnd k e out) st) = finished st"
  by (auto simp: finished_def fun_eq_iff split: option.split step_state.split)

subsection \<open>The manifest computes the specification\<close>

fun state_of_info :: "step_info \<Rightarrow> step_state" where
  "state_of_info s =
     (if 0 < sp_end s then (case sp_exit s of Some e \<Rightarrow> Ended e (sp_output s) | None \<Rightarrow> Started) else Started)"

definition table_state :: "step_table \<Rightarrow> (string \<rightharpoonup> step_state)" where
  "table_state t = map_option state_of_info \<circ> fst t"

lemma table_state_event:
  assumes "0 < q"
  shows "table_state (scan_step t (event_record q ts ev)) = spec_event ev (table_state t)"
proof (cases ev)
  case (EvEnd k e out)
  have upd: "state_of_info (s\<lparr>sp_end := q, sp_exit := Some e, sp_output := out\<rparr>) = Ended e out" for s
    using assms by simp
  show ?thesis
  proof (cases "fst t k")
    case None
    with EvEnd show ?thesis
      by (simp add: table_state_def scan_step_def record_types blank_record_def Let_def)
  next
    case (Some s)
    with EvEnd upd show ?thesis
      by (simp add: table_state_def scan_step_def record_types blank_record_def Let_def fun_eq_iff
          del: state_of_info.simps)
  qed
qed (auto simp: table_state_def scan_step_def record_types blank_record_def fun_eq_iff Let_def)

definition table_ok :: "step_table \<Rightarrow> bool" where
  "table_ok t \<longleftrightarrow> distinct (snd t) \<and> set (snd t) = dom (fst t)"

lemma table_ok_step: "table_ok t \<Longrightarrow> table_ok (scan_step t r)"
  by (cases "rec_type r = TypeStepBegin"; cases "rec_type r = TypeStepEnd")
    (auto simp: table_ok_def scan_step_def record_types Let_def split: option.splits if_splits)

lemma table_ok_run: "table_ok t \<Longrightarrow> table_ok (foldl scan_step t rs)"
  by (induction rs arbitrary: t) (simp_all add: table_ok_step)

lemma table_ok_scan: "table_ok (scan_steps rs)"
  unfolding scan_steps_def by (rule table_ok_run) (simp add: table_ok_def)

lemma table_state_run:
  "0 \<le> q \<Longrightarrow> table_state (foldl scan_step t (event_records q es)) = spec_run (table_state t) (map snd es)"
  by (induction es arbitrary: q t) (simp_all add: table_state_event)

definition log_state :: "wal_record list \<Rightarrow> (string \<rightharpoonup> step_state)" where
  "log_state rs = table_state (scan_steps rs)"

lemma log_state_Nil [simp]: "log_state [] = Map.empty"
  by (simp add: log_state_def scan_steps_def table_state_def)

lemma log_state_append:
  "0 \<le> q \<Longrightarrow> log_state (rs @ event_records q es) = spec_run (log_state rs) (map snd es)"
  by (simp add: log_state_def scan_steps_def table_state_run)

lemma completed_entry_iff:
  "completed_entry steps k = Some c \<longleftrightarrow>
     cs_step c = k \<and> (\<exists>s. steps k = Some s \<and> step_completed s \<and> cs_seq c = sp_end s \<and> cs_output c = sp_output s)"
  by (cases c) (auto simp: completed_entry_def split: option.split)

lemma set_map_filter: "set (List.map_filter f xs) = {y. \<exists>x\<in>set xs. f x = Some y}"
  by (induction xs) (auto simp: List.map_filter_simps split: option.split)

text \<open>The manifest lists each finished step once, with its output.\<close>

lemma manifest_completed:
  "(\<exists>c\<in>set (wm_completed (manifest_of n rs)). cs_step c = k \<and> cs_output c = out) \<longleftrightarrow>
     finished (log_state rs) k = Some out"
proof -
  let ?t = "scan_steps rs"
  have ids: "set (snd ?t) = dom (fst ?t)" using table_ok_scan [of rs] by (simp add: table_ok_def)
  have "(\<exists>c\<in>set (wm_completed (manifest_of n rs)). cs_step c = k \<and> cs_output c = out) \<longleftrightarrow>
      (\<exists>s. fst ?t k = Some s \<and> step_completed s \<and> sp_output s = out)"
  proof
    assume "\<exists>c\<in>set (wm_completed (manifest_of n rs)). cs_step c = k \<and> cs_output c = out"
    then show "\<exists>s. fst ?t k = Some s \<and> step_completed s \<and> sp_output s = out"
      by (auto simp: manifest_of_def Let_def set_map_filter completed_entry_iff)
  next
    assume "\<exists>s. fst ?t k = Some s \<and> step_completed s \<and> sp_output s = out"
    then obtain s where s: "fst ?t k = Some s" "step_completed s" "sp_output s = out" by blast
    then have "completed_entry (fst ?t) k = Some \<lparr>cs_step = k, cs_seq = sp_end s, cs_output = out\<rparr>"
      by (simp add: completed_entry_def)
    moreover from s ids have "k \<in> set (snd ?t)" by blast
    ultimately show "\<exists>c\<in>set (wm_completed (manifest_of n rs)). cs_step c = k \<and> cs_output c = out"
      by (auto simp: manifest_of_def Let_def set_map_filter intro!: exI)
  qed
  also have "\<dots> \<longleftrightarrow> finished (log_state rs) k = Some out"
    by (auto simp: finished_def log_state_def table_state_def step_completed_def split: option.splits if_splits)
  finally show ?thesis .
qed

lemma manifest_distinct: "distinct (map cs_step (wm_completed (manifest_of n rs)))"
proof -
  have "distinct (map cs_step (List.map_filter (completed_entry f) ks)) \<and>
      cs_step ` set (List.map_filter (completed_entry f) ks) \<subseteq> set ks" if "distinct ks" for f ks
    using that
    by (induction ks) (auto simp: List.map_filter_simps completed_entry_def split: option.splits if_splits)
  moreover have "distinct (snd (scan_steps rs))" using table_ok_scan [of rs] by (simp add: table_ok_def)
  ultimately show ?thesis by (simp add: manifest_of_def Let_def)
qed

subsection \<open>The contract of the log\<close>

text \<open>
  A log takes events, reads back as records, and has room for a given continuation.
\<close>

locale event_log =
  fixes put :: "'s \<Rightarrow> timed_event \<Rightarrow> 's"
    and records :: "'s \<Rightarrow> wal_record list"
    and room :: "'s \<Rightarrow> timed_event list \<Rightarrow> bool"
  assumes records_put: "room s (e # es) \<Longrightarrow>
      records (put s e) = records s @ [event_record (int (length (records s)) + 1) (fst e) (snd e)]"
    and room_put: "room s (e # es) \<Longrightarrow> room (put s e) es"
begin

lemma records_run:
  "room s es \<Longrightarrow> records (foldl put s es) = records s @ event_records (int (length (records s))) es"
  by (induction es arbitrary: s) (simp_all add: records_put room_put add.commute)

lemma room_run: "room s (es @ es') \<Longrightarrow> room (foldl put s es) es'"
  by (induction es arbitrary: s) (auto dest: room_put)

lemma state_run: "room s es \<Longrightarrow> log_state (records (foldl put s es)) = spec_run (log_state (records s)) (map snd es)"
  by (simp add: records_run log_state_append)

end

definition log_records :: "wal_state \<Rightarrow> wal_record list" where
  "log_records s = (case ReadAll no_read_fault (snd s) of Inr rs \<Rightarrow> rs | Inl e \<Rightarrow> [])"

definition log_room :: "wal_state \<Rightarrow> timed_event list \<Rightarrow> bool" where
  "log_room s es \<longleftrightarrow> (\<exists>fss. wal_inv fss s \<and> int (length (concat fss)) + int (length es) < max_i64 \<and>
     ww_num (fst (foldl wal_step s es)) < 10000 \<and>
     list_all good_record (event_records (int (length (concat fss))) es))"

lemma log_records_inv: "wal_inv fss s \<Longrightarrow> log_records s = concat fss"
  by (simp add: log_records_def ReadAll_wal_inv)

interpretation wal: event_log wal_step log_records log_room
proof
  fix s :: wal_state and e es
  assume "log_room s (e # es)"
  then obtain fss where fss: "wal_inv fss s" "int (length (concat fss)) + int (length (e # es)) < max_i64"
    "ww_num (fst (foldl wal_step s (e # es))) < 10000"
    "list_all good_record (event_records (int (length (concat fss))) (e # es))"
    unfolding log_room_def by blast
  have "ww_num (fst (wal_step s e)) < 10000"
    using fss(3) wal_run_num_mono [of "wal_step s e" es] by simp
  with wal_run [OF fss(1), of "[e]"] fss obtain gss where gss: "wal_inv gss (wal_step s e)"
    "concat gss = concat fss @ [event_record (int (length (concat fss)) + 1) (fst e) (snd e)]" by auto
  then show "log_records (wal_step s e) =
      log_records s @ [event_record (int (length (log_records s)) + 1) (fst e) (snd e)]"
    using fss(1) by (simp add: log_records_inv)
  show "log_room (wal_step s e) es"
    unfolding log_room_def
    by (rule exI [of _ gss]) (use gss fss in \<open>simp add: algebra_simps\<close>)
qed

end
