(* ===== verification/Protect.thy ===== *)
theory Protect
  imports GoStd
begin

text \<open>
  Retries and timeouts of local steps (\<open>protect/retry.go\<close>, \<open>protect/timeout.go\<close>).
  The protected function and the clock are the environment: \<open>fn n\<close> is the error of the
  \<open>n\<close>-th call, \<open>wait n d\<close> the error of the context when it ends during the delay
  \<open>d\<close> after that call.
\<close>

datatype BackoffType = NoBackoff | ExponentialBackoff

datatype step_error = DeadlineExceeded | Canceled | StepError string

record RetryConfig =
  rc_max_attempts :: int
  rc_initial_delay :: duration
  rc_max_delay :: duration
  rc_backoff :: BackoffType
  rc_retry_on :: "(step_error \<Rightarrow> bool) option"

definition DefaultRetryConfig :: RetryConfig where
  "DefaultRetryConfig = \<lparr>rc_max_attempts = 1, rc_initial_delay = 0, rc_max_delay = 0,
     rc_backoff = NoBackoff, rc_retry_on = None\<rparr>"

text \<open>A deadline is added only for a positive timeout; \<open>None\<close> is the context itself.\<close>

definition ApplyStepTimeout :: "instant \<Rightarrow> instant option \<Rightarrow> duration \<Rightarrow> instant option" where
  "ApplyStepTimeout now deadline timeout =
     (if timeout \<le> 0 then deadline
      else Some (case deadline of None \<Rightarrow> time_add now timeout | Some t \<Rightarrow> min t (time_add now timeout)))"

definition ApplyJobTimeout :: "instant \<Rightarrow> instant option \<Rightarrow> duration \<Rightarrow> instant option" where
  "ApplyJobTimeout = ApplyStepTimeout"

definition IsTimeout :: "step_error \<Rightarrow> bool" where
  "IsTimeout e \<longleftrightarrow> e = DeadlineExceeded"

text \<open>\<open>cfg.InitialDelay << (attempt - 1)\<close> on a signed 64-bit duration.\<close>

definition shift_left :: "duration \<Rightarrow> nat \<Rightarrow> duration" where
  "shift_left d n = i64 (d * 2 ^ n)"

definition retry_delay :: "RetryConfig \<Rightarrow> nat \<Rightarrow> duration" where
  "retry_delay cfg attempt =
     (if rc_backoff cfg = ExponentialBackoff then
        let d = shift_left (rc_initial_delay cfg) (attempt - 1)
        in if 0 < rc_max_delay cfg \<and> rc_max_delay cfg < d then rc_max_delay cfg else d
      else rc_initial_delay cfg)"

definition may_retry :: "RetryConfig \<Rightarrow> step_error \<Rightarrow> bool" where
  "may_retry cfg e \<longleftrightarrow> (case rc_retry_on cfg of None \<Rightarrow> True | Some f \<Rightarrow> f e)"

type_synonym step_calls = "nat \<Rightarrow> step_error option"
type_synonym step_waits = "nat \<Rightarrow> duration \<Rightarrow> step_error option"

text \<open>
  The loop from the \<open>n\<close>-th attempt on, with \<open>m\<close> attempts in all: the number of
  attempts made, the final error, and the announced retries with their delays.
\<close>

function execute_from ::
  "RetryConfig \<Rightarrow> step_calls \<Rightarrow> step_waits \<Rightarrow> nat \<Rightarrow> nat \<Rightarrow> (nat \<times> step_error option) \<times> (nat \<times> duration) list" where
  "execute_from cfg fn wait m n =
     (case fn n of
        None \<Rightarrow> ((n, None), [])
      | Some e \<Rightarrow>
          if m \<le> n then ((m, Some e), [])
          else if \<not> may_retry cfg e then ((n, Some e), [])
          else let d = retry_delay cfg n in
            (case wait n d of
               Some e \<Rightarrow> ((n, Some e), [(n + 1, d)])
             | None \<Rightarrow>
                 (case execute_from cfg fn wait m (n + 1) of (r, ws) \<Rightarrow> (r, (n + 1, d) # ws))))"
  by pat_completeness auto
termination
  by (relation "measure (\<lambda>(cfg, fn, wait, m, n). m - n)") auto

declare execute_from.simps [simp del]

definition max_attempts :: "RetryConfig \<Rightarrow> nat" where
  "max_attempts cfg = (if rc_max_attempts cfg \<le> 0 then 1 else nat (rc_max_attempts cfg))"

definition Execute ::
  "RetryConfig \<Rightarrow> step_calls \<Rightarrow> step_waits \<Rightarrow> (nat \<times> step_error option) \<times> (nat \<times> duration) list" where
  "Execute cfg fn wait = execute_from cfg fn wait (max_attempts cfg) 1"

text \<open>
  What the loop promises: it stops at the first success, at the last attempt, at an error
  that is not retried, or when the context ends during a delay; every call before failed
  with an error that is retried, and every retry was announced in order.
\<close>

definition executed ::
  "RetryConfig \<Rightarrow> step_calls \<Rightarrow> step_waits \<Rightarrow> nat \<Rightarrow> nat \<Rightarrow> nat \<Rightarrow> step_error option \<Rightarrow> (nat \<times> duration) list \<Rightarrow> bool" where
  "executed cfg fn wait m n k err ws \<longleftrightarrow>
     n \<le> k \<and> k \<le> m \<and>
     (\<forall>i. n \<le> i \<and> i < k \<longrightarrow> (\<exists>e. fn i = Some e \<and> may_retry cfg e) \<and> wait i (retry_delay cfg i) = None) \<and>
     (let tried = map (\<lambda>i. (Suc i, retry_delay cfg i)) [n..<k] in
      (fn k = None \<and> err = None \<and> ws = tried) \<or>
      (err \<noteq> None \<and> fn k = err \<and> (k = m \<or> \<not> may_retry cfg (the err)) \<and> ws = tried) \<or>
      (\<exists>e. fn k = Some e \<and> may_retry cfg e \<and> k < m \<and> wait k (retry_delay cfg k) = err \<and> err \<noteq> None \<and>
         ws = tried @ [(Suc k, retry_delay cfg k)]))"

lemma execute_from_executed:
  "n \<le> m \<Longrightarrow> execute_from cfg fn wait m n = ((k, err), ws) \<Longrightarrow> executed cfg fn wait m n k err ws"
proof (induction "m - n" arbitrary: n k err ws)
  case 0
  then have "m = n" by simp
  with "0.prems" show ?case
    by (auto simp: execute_from.simps [of cfg fn wait n n] executed_def split: option.splits)
next
  case (Suc x)
  then have lt: "n < m" by simp
  show ?case
  proof (cases "fn n")
    case None
    with Suc.prems show ?thesis by (auto simp: execute_from.simps [of cfg fn wait m n] executed_def)
  next
    case (Some e)
    show ?thesis
    proof (cases "may_retry cfg e \<and> wait n (retry_delay cfg n) = None")
      case False
      with Some lt Suc.prems show ?thesis
        by (cases "may_retry cfg e")
          (auto simp: execute_from.simps [of cfg fn wait m n] executed_def Let_def split: option.splits)
    next
      case True
      obtain k' err' ws' where rest: "execute_from cfg fn wait m (n + 1) = ((k', err'), ws')"
        by (metis surj_pair)
      with Some True lt Suc.prems have r: "k = k'" "err = err'" "ws = (n + 1, retry_delay cfg n) # ws'"
        by (auto simp: execute_from.simps [of cfg fn wait m n] Let_def)
      have "executed cfg fn wait m (n + 1) k' err' ws'"
        using Suc.hyps lt rest by (intro Suc.hyps(1)) auto
      then have tail: "Suc n \<le> k" "k \<le> m"
        "\<forall>i. Suc n \<le> i \<and> i < k \<longrightarrow> (\<exists>e. fn i = Some e \<and> may_retry cfg e) \<and> wait i (retry_delay cfg i) = None"
        and out: "let tried = map (\<lambda>i. (Suc i, retry_delay cfg i)) [Suc n..<k] in
          (fn k = None \<and> err = None \<and> ws' = tried) \<or>
          (err \<noteq> None \<and> fn k = err \<and> (k = m \<or> \<not> may_retry cfg (the err)) \<and> ws' = tried) \<or>
          (\<exists>e. fn k = Some e \<and> may_retry cfg e \<and> k < m \<and> wait k (retry_delay cfg k) = err \<and> err \<noteq> None \<and>
             ws' = tried @ [(Suc k, retry_delay cfg k)])"
        using r by (simp_all add: executed_def)
      have upt: "[n..<k] = n # [Suc n..<k]" using tail(1) by (simp add: upt_conv_Cons)
      have first: "\<forall>i. n \<le> i \<and> i < k \<longrightarrow> (\<exists>e. fn i = Some e \<and> may_retry cfg e) \<and> wait i (retry_delay cfg i) = None"
        using tail(3) Some True by (metis le_antisym not_less_eq_eq)
      show ?thesis unfolding executed_def upt
        using tail(1,2) first out r(3) by (auto simp: Let_def)
    qed
  qed
qed

lemma max_attempts_pos: "1 \<le> max_attempts cfg"
  by (auto simp: max_attempts_def)

lemma Execute_executed:
  "Execute cfg fn wait = ((k, err), ws) \<Longrightarrow> executed cfg fn wait (max_attempts cfg) 1 k err ws"
  unfolding Execute_def by (rule execute_from_executed [OF max_attempts_pos])

lemma retry_delay_exact:
  assumes "rc_backoff cfg = ExponentialBackoff" and "0 \<le> rc_initial_delay cfg"
    and "rc_initial_delay cfg * 2 ^ (n - 1) \<le> max_i64"
  shows "retry_delay cfg n =
    (let d = rc_initial_delay cfg * 2 ^ (n - 1)
     in if 0 < rc_max_delay cfg then min (rc_max_delay cfg) d else d)"
proof -
  have "0 \<le> rc_initial_delay cfg * 2 ^ (n - 1)" using assms(2) by simp
  with assms(3) have "in_i64 (rc_initial_delay cfg * 2 ^ (n - 1))" by (simp add: in_i64_def)
  with assms(1) show ?thesis by (auto simp: retry_delay_def shift_left_def Let_def)
qed

end
