(* ===== verification/Runtime.thy ===== *)
theory Runtime
  imports StepLog Protect
begin

text \<open>
  The durable runtime (\<open>runtime/runtime.go\<close>, \<open>runtime/step.go\<close>): steps are
  journaled in the write-ahead log, retried under a policy, and skipped after a restart
  when the log says they finished. Tracing and metrics have no effect on the result; only
  the error of setting them up is kept. \<open>agent_loop\<close> is the sequence of steps the
  reference agent (\<open>experiment/v3/cmd/test-agent/main.go\<close>) runs.
\<close>

record runtime =
  rt_recovery :: bool
  rt_completed :: "string \<rightharpoonup> CompletedStep"
  rt_outputs :: "string \<rightharpoonup> string"
  rt_wal :: wal_state

datatype runtime_error = WALWriterError wal_error | WALReaderError wal_error | ObserveError string

text \<open>The loop over the manifest's entries: later entries win.\<close>

fun load_completed :: "CompletedStep list \<Rightarrow> (string \<rightharpoonup> CompletedStep) \<Rightarrow> (string \<rightharpoonup> CompletedStep)" where
  "load_completed [] m = m"
| "load_completed (c # cs) m = load_completed cs (m(cs_step c \<mapsto> c))"

definition recover_steps :: "read_faults \<Rightarrow> wal_dir \<Rightarrow> wal_error + (string \<rightharpoonup> CompletedStep)" where
  "recover_steps rio d =
     (case NewReader rio d of
        Some e \<Rightarrow> Inl e
      | None \<Rightarrow> map_sum id (\<lambda>m. load_completed (wm_completed m) Map.empty) (BuildManifest rio d))"

definition runtime_New ::
  "read_faults \<Rightarrow> string option \<Rightarrow> bool \<Rightarrow> wal_dir \<Rightarrow> (runtime_error + runtime) \<times> wal_dir" where
  "runtime_New rio observe recovery d =
     (case NewWriter rio d of
        (Inl e, d) \<Rightarrow> (Inl (WALWriterError e), d)
      | (Inr w, d) \<Rightarrow>
          (case (if recovery then recover_steps rio d else Inr Map.empty) of
             Inl e \<Rightarrow> (Inl (WALReaderError e), d)
           | Inr done_steps \<Rightarrow>
               (case observe of
                  Some e \<Rightarrow> (Inl (ObserveError e), d)
                | None \<Rightarrow> (Inr \<lparr>rt_recovery = recovery, rt_completed = done_steps,
                     rt_outputs = map_option cs_output \<circ> done_steps, rt_wal = (w, d)\<rparr>, d))))"

text \<open>
  The environment of one step: its calls and waits, the fault that hits each record, the
  clock, and the state of the job's context afterwards. Log errors are ignored, as in the
  source.
\<close>

record step_env =
  se_calls :: step_calls
  se_waits :: step_waits
  se_fault :: "wal_event \<Rightarrow> append_fault"
  se_ts :: int
  se_ctx_err :: "step_error option"

definition journal :: "step_env \<Rightarrow> wal_event \<Rightarrow> wal_state \<Rightarrow> wal_state" where
  "journal env ev s = snd (wal_exec (se_fault env ev) (se_ts env) ev s)"

definition step_skipped :: "runtime \<Rightarrow> string \<Rightarrow> bool" where
  "step_skipped rt k \<longleftrightarrow> rt_recovery rt \<and> rt_completed rt k \<noteq> None"

definition Step :: "RetryConfig \<Rightarrow> step_env \<Rightarrow> string \<Rightarrow> runtime \<Rightarrow> step_error option \<times> runtime" where
  "Step cfg env k rt =
     (if step_skipped rt k then (None, rt)
      else
        let s = journal env (EvBegin k) (rt_wal rt);
            ((n, err), ws) = Execute cfg (se_calls env) (se_waits env);
            s = fold (\<lambda>w. journal env (EvRetry k (int (fst w)))) ws s;
            s = (case err of
                   None \<Rightarrow> journal env (EvEnd k 0 []) s
                 | Some e \<Rightarrow> if IsTimeout e then journal env (EvTimeout k) s else s)
        in (case err of None \<Rightarrow> se_ctx_err env | Some e \<Rightarrow> Some e, rt\<lparr>rt_wal := s\<rparr>))"

fun error_text :: "step_error \<Rightarrow> string" where
  "error_text DeadlineExceeded = ''context deadline exceeded''"
| "error_text Canceled = ''context canceled''"
| "error_text (StepError s) = s"

text \<open>
  \<open>Run\<close>: the job function, then the record of a cancelled job. \<open>ctx_err\<close> is the
  state of the job's context when the function returned.
\<close>

definition Run ::
  "(runtime \<Rightarrow> step_error option \<times> runtime) \<Rightarrow> step_error option \<Rightarrow> append_fault \<Rightarrow> int \<Rightarrow>
   runtime \<Rightarrow> step_error option \<times> runtime" where
  "Run fn ctx_err flt ts rt =
     (case fn rt of
        (err, rt) \<Rightarrow>
          (case ctx_err of
             None \<Rightarrow> (err, rt)
           | Some c \<Rightarrow>
               (if err = None then Some c else err,
                rt\<lparr>rt_wal := snd (JobCancelled flt ts (error_text c) (rt_wal rt))\<rparr>)))"

type_synonym agent_step = "string \<times> RetryConfig \<times> step_env"

text \<open>The ids whose function was called, beside the result.\<close>

fun agent_loop :: "agent_step list \<Rightarrow> runtime \<Rightarrow> (step_error option \<times> string list) \<times> runtime" where
  "agent_loop [] rt = ((None, []), rt)"
| "agent_loop ((k, cfg, env) # steps) rt =
     (let called = (if step_skipped rt k then [] else [k]) in
      case Step cfg env k rt of
        (Some e, rt) \<Rightarrow> ((Some e, called), rt)
      | (None, rt) \<Rightarrow> (case agent_loop steps rt of ((e, ks), rt) \<Rightarrow> ((e, called @ ks), rt)))"

subsection \<open>The log of a step\<close>

definition step_events :: "RetryConfig \<Rightarrow> step_env \<Rightarrow> string \<Rightarrow> wal_event list" where
  "step_events cfg env k =
     (case Execute cfg (se_calls env) (se_waits env) of
        ((n, err), ws) \<Rightarrow>
          EvBegin k # map (\<lambda>w. EvRetry k (int (fst w))) ws @
          (case err of None \<Rightarrow> [EvEnd k 0 []] | Some e \<Rightarrow> if IsTimeout e then [EvTimeout k] else []))"

definition faultless :: "step_env \<Rightarrow> bool" where
  "faultless env \<longleftrightarrow> (\<forall>ev. se_fault env ev = NoFault)"

definition timed :: "step_env \<Rightarrow> wal_event list \<Rightarrow> timed_event list" where
  "timed env evs = map (Pair (se_ts env)) evs"

lemma map_snd_timed [simp]: "map snd (timed env evs) = evs"
  by (simp add: timed_def comp_def)

lemma journal_step: "faultless env \<Longrightarrow> journal env ev s = wal_step s (se_ts env, ev)"
  by (simp add: journal_def wal_step_def faultless_def)

lemma journal_fold:
  "faultless env \<Longrightarrow> fold (\<lambda>x. journal env (f x)) xs s = foldl wal_step s (timed env (map f xs))"
  by (induction xs arbitrary: s) (simp_all add: journal_step timed_def)

lemma Step_wal:
  assumes "faultless env" and "\<not> step_skipped rt k"
  shows "rt_wal (snd (Step cfg env k rt)) = foldl wal_step (rt_wal rt) (timed env (step_events cfg env k))"
proof -
  obtain n err ws where x: "Execute cfg (se_calls env) (se_waits env) = ((n, err), ws)" by (metis surj_pair)
  show ?thesis
    using assms(2) x
    by (cases err) (auto simp: Step_def step_events_def Let_def journal_step [OF assms(1)]
        journal_fold [OF assms(1)] timed_def)
qed

lemma Step_keeps [keeps]:
  "rt_recovery (snd (Step cfg env k rt)) = rt_recovery rt"
  "rt_completed (snd (Step cfg env k rt)) = rt_completed rt"
  "step_skipped rt k \<Longrightarrow> Step cfg env k rt = (None, rt)"
  by (auto simp: Step_def Let_def split: prod.split)

lemma Step_result:
  "\<not> step_skipped rt k \<Longrightarrow> fst (Step cfg env k rt) = None \<longleftrightarrow>
     snd (fst (Execute cfg (se_calls env) (se_waits env))) = None \<and> se_ctx_err env = None"
  by (auto simp: Step_def Let_def split: prod.split option.split)

lemma step_skipped_Step [simp]: "step_skipped (snd (Step cfg env k rt)) k' = step_skipped rt k'"
  by (simp add: step_skipped_def Step_keeps)

lemma spec_retries [simp]: "spec_run st (map (\<lambda>w. EvRetry k (f w)) ws) = st"
  by (induction ws) simp_all

lemma finished_upd: "finished (st(k \<mapsto> Ended 0 out)) = (finished st)(k \<mapsto> out)"
  by (simp add: finished_def fun_eq_iff)

lemma step_events_finished:
  assumes "snd (fst (Execute cfg (se_calls env) (se_waits env))) = None"
  shows "finished (spec_run st (step_events cfg env k)) = (finished st)(k \<mapsto> [])"
  using assms by (auto simp: step_events_def finished_upd fun_eq_iff finished_def split: prod.split)

subsection \<open>Recovery\<close>

lemma load_completed_eq:
  "distinct (map cs_step cs) \<Longrightarrow>
     load_completed cs m k = (case find (\<lambda>c. cs_step c = k) cs of Some c \<Rightarrow> Some c | None \<Rightarrow> m k)"
proof (induction cs arbitrary: m)
  case (Cons c cs)
  have "find (\<lambda>c'. cs_step c' = k) cs = None" if "cs_step c = k"
    using Cons.prems that by (simp add: find_None_iff) (metis image_eqI)
  with Cons show ?case by (auto split: option.split)
qed simp

lemma recover_steps_log:
  assumes "wal_inv fss s"
  shows "\<exists>m. recover_steps no_read_fault (snd s) = Inr m \<and>
    map_option cs_output \<circ> m = finished (log_state (concat fss))"
proof -
  have disk: "wal_disk fss [] (snd s)" using assms by (simp add: wal_inv_def)
  then have reader: "NewReader no_read_fault (snd s) = None" by (auto simp: NewReader_def wal_disk_def)
  let ?m = "manifest_of (length (log_names (length fss))) (concat fss)"
  have man: "BuildManifest no_read_fault (snd s) = Inr ?m"
    using ReadAll_wal_inv [OF assms] list_wal_disk [OF disk] by (simp add: BuildManifest_def)
  let ?l = "load_completed (wm_completed ?m) Map.empty"
  have "map_option cs_output (?l k) = finished (log_state (concat fss)) k" for k
  proof (cases "find (\<lambda>c. cs_step c = k) (wm_completed ?m)")
    case None
    then have "\<not> (\<exists>c\<in>set (wm_completed ?m). cs_step c = k)" by (simp add: find_None_iff)
    then have "finished (log_state (concat fss)) k = None"
      using manifest_completed [of "length (log_names (length fss))" "concat fss" k] by fastforce
    with None show ?thesis by (simp add: load_completed_eq [OF manifest_distinct])
  next
    case (Some c)
    then have "c \<in> set (wm_completed ?m)" "cs_step c = k" by (auto dest: find_SomeD)
    then have "finished (log_state (concat fss)) k = Some (cs_output c)"
      using manifest_completed [of "length (log_names (length fss))" "concat fss" k "cs_output c"] by blast
    with Some show ?thesis by (simp add: load_completed_eq [OF manifest_distinct])
  qed
  with reader man show ?thesis by (auto simp: recover_steps_def fun_eq_iff)
qed

text \<open>Restarting on a log: the writer resumes and the finished steps are known.\<close>

lemma runtime_New_recovers:
  assumes "wal_disk fss [] d" and "length (resumed fss) < 10000"
  shows "\<exists>rt d'. runtime_New no_read_fault None True d = (Inr rt, d') \<and> rt_recovery rt \<and>
    map_option cs_output \<circ> rt_completed rt = finished (log_state (concat fss)) \<and>
    wal_inv (resumed fss) (rt_wal rt)"
proof -
  obtain w d' where w: "NewWriter no_read_fault d = (Inr w, d')" "wal_inv (resumed fss) (w, d')"
    using NewWriter_resume [OF assms] by blast
  with recover_steps_log [OF w(2)] show ?thesis by (auto simp: runtime_New_def)
qed

subsection \<open>Running the agent's steps\<close>

definition succeeds :: "agent_step \<Rightarrow> bool" where
  "succeeds x \<longleftrightarrow> (case x of (k, cfg, env) \<Rightarrow> faultless env \<and> se_ctx_err env = None \<and>
     snd (fst (Execute cfg (se_calls env) (se_waits env))) = None)"

definition agent_events :: "runtime \<Rightarrow> agent_step list \<Rightarrow> timed_event list" where
  "agent_events rt steps =
     concat (map (\<lambda>(k, cfg, env). timed env (step_events cfg env k))
       (filter (\<lambda>x. \<not> step_skipped rt (fst x)) steps))"

lemma agent_events_cong: "(\<And>k. step_skipped rt k = step_skipped rt' k) \<Longrightarrow> agent_events rt steps = agent_events rt' steps"
  by (simp add: agent_events_def)

lemma agent_loop_success:
  assumes "list_all succeeds steps"
  shows "\<exists>rt'. agent_loop steps rt = ((None, filter (\<lambda>k. \<not> step_skipped rt k) (map fst steps)), rt') \<and>
    rt_wal rt' = foldl wal_step (rt_wal rt) (agent_events rt steps) \<and>
    rt_recovery rt' = rt_recovery rt \<and> rt_completed rt' = rt_completed rt"
  using assms
proof (induction steps arbitrary: rt)
  case Nil
  then show ?case by (simp add: agent_events_def)
next
  case (Cons x steps)
  obtain k cfg env where x: "x = (k, cfg, env)" by (cases x)
  have ok: "faultless env" "se_ctx_err env = None" "snd (fst (Execute cfg (se_calls env) (se_waits env))) = None"
    using Cons.prems x by (auto simp: succeeds_def)
  let ?rt = "snd (Step cfg env k rt)"
  have res: "Step cfg env k rt = (None, ?rt)"
  proof (cases "step_skipped rt k")
    case True
    then show ?thesis by (simp add: Step_keeps)
  next
    case False
    with ok show ?thesis using Step_result [of rt k cfg env] by (metis prod.collapse)
  qed
  obtain rt' where rt': "agent_loop steps ?rt = ((None, filter (\<lambda>k. \<not> step_skipped ?rt k) (map fst steps)), rt')"
    "rt_wal rt' = foldl wal_step (rt_wal ?rt) (agent_events ?rt steps)"
    "rt_recovery rt' = rt_recovery ?rt" "rt_completed rt' = rt_completed ?rt"
    using Cons.IH [of ?rt] Cons.prems by auto
  have ev: "agent_events ?rt steps = agent_events rt steps" by (rule agent_events_cong) simp
  have "rt_wal rt' = foldl wal_step (rt_wal rt) (agent_events rt (x # steps))"
    using rt'(2) ev x Step_wal [OF ok(1), of rt k cfg] Step_keeps(3) [of rt k cfg env]
    by (cases "step_skipped rt k") (simp_all add: agent_events_def)
  moreover obtain rt1 where rt1: "Step cfg env k rt = (None, rt1)" "?rt = rt1" using res by simp
  then have "agent_loop (x # steps) rt =
      ((None, filter (\<lambda>k. \<not> step_skipped rt k) (map fst (x # steps))), rt')"
    using rt'(1) x by (simp add: Let_def step_skipped_Step [of cfg env k rt, unfolded rt1(2)])
  ultimately show ?case using rt'(3,4) by (auto simp: Step_keeps)
qed

lemma agent_events_finished:
  assumes "list_all succeeds steps"
    and "\<And>k. step_skipped rt k \<Longrightarrow> finished st k \<noteq> None" and "k \<in> fst ` set steps"
  shows "finished (spec_run st (map snd (agent_events rt steps))) k \<noteq> None"
proof -
  have mono: "finished (spec_run st (map snd (agent_events rt steps))) j \<noteq> None"
    if "list_all succeeds steps" "finished st j \<noteq> None \<or> j \<in> {k \<in> fst ` set steps. \<not> step_skipped rt k}"
    for j steps st
    using that
  proof (induction steps arbitrary: st)
    case Nil
    then show ?case by (simp add: agent_events_def)
  next
    case (Cons x steps)
    obtain k cfg env where x: "x = (k, cfg, env)" by (cases x)
    have ok: "snd (fst (Execute cfg (se_calls env) (se_waits env))) = None"
      using Cons.prems(1) x by (auto simp: succeeds_def)
    show ?case
    proof (cases "step_skipped rt k")
      case True
      then have "agent_events rt (x # steps) = agent_events rt steps" using x by (simp add: agent_events_def)
      with Cons True x show ?thesis by auto
    next
      case False
      then have ev: "agent_events rt (x # steps) = timed env (step_events cfg env k) @ agent_events rt steps"
        using x by (simp add: agent_events_def)
      have "finished (spec_run st (step_events cfg env k)) j \<noteq> None \<or>
          j \<in> {k \<in> fst ` set steps. \<not> step_skipped rt k}"
        using Cons.prems(2) x step_events_finished [OF ok, of st k] by auto
      with Cons.IH [of "spec_run st (step_events cfg env k)"] Cons.prems(1) ev show ?thesis by simp
    qed
  qed
  show ?thesis using assms by (intro mono) auto
qed

end
