(* ===== verification/Runner.thy ===== *)
theory Runner
  imports Runtime Paths
begin

text \<open>
  The in-Pod runner (\<open>internal/runner/runner.go\<close>) and its hook server
  (\<open>internal/runner/hookserver.go\<close>): agents announce their steps over a socket, the
  runner journals them in the write-ahead log and answers whether a step is already done.
  The runner's mutex makes each call atomic; Go's random map iteration is the argument
  \<open>perm\<close>, and JSON decoding of requests is the argument \<open>hook_codec\<close>.
\<close>

record runner =
  rn_work_dir :: string
  rn_recovery :: bool
  rn_completed :: "(string \<times> CompletedStep) list"
  rn_outputs :: "(string \<times> string) list"
  rn_hooks :: bool
  rn_wal :: wal_state

datatype runner_error = RunnerWALWriter wal_error | RunnerWALReader wal_error | RunnerManifest wal_error
  | RunnerStepBegin wal_error | RunnerStepEnd wal_error | RunnerClose wal_error

fun load_steps ::
  "CompletedStep list \<Rightarrow> (string \<times> CompletedStep) list \<times> (string \<times> string) list \<Rightarrow>
   (string \<times> CompletedStep) list \<times> (string \<times> string) list" where
  "load_steps [] m = m"
| "load_steps (c # cs) m =
     load_steps cs (AList.update (cs_step c) c (fst m), AList.update (cs_step c) (cs_output c) (snd m))"

definition NewRunner :: "read_faults \<Rightarrow> string \<Rightarrow> bool \<Rightarrow> wal_dir \<Rightarrow> (runner_error + runner) \<times> wal_dir" where
  "NewRunner rio work_dir recovery d =
     (case NewWriter rio d of
        (Inl e, d) \<Rightarrow> (Inl (RunnerWALWriter e), d)
      | (Inr w, d) \<Rightarrow>
          (let r = \<lparr>rn_work_dir = work_dir, rn_recovery = recovery, rn_completed = [], rn_outputs = [],
                     rn_hooks = False, rn_wal = (w, d)\<rparr>
           in if \<not> recovery then (Inr r, d)
           else case NewReader rio d of
             Some e \<Rightarrow> (Inl (RunnerWALReader e), d)
           | None \<Rightarrow>
               (case BuildManifest rio d of
                  Inl e \<Rightarrow> (Inl (RunnerManifest e), d)
                | Inr m \<Rightarrow>
                    (let (cs, os) = load_steps (wm_completed m) ([], [])
                     in (Inr (r\<lparr>rn_completed := cs, rn_outputs := os\<rparr>), d)))))"

record StepBeginResponse =
  br_skipped :: bool
  br_cached_output :: string
  br_seq :: int

record StepEndResponse =
  er_seq :: int
  er_synced :: bool

definition HandleStepBegin ::
  "append_fault \<Rightarrow> int \<Rightarrow> string \<Rightarrow> runner \<Rightarrow> (runner_error + StepBeginResponse) \<times> runner" where
  "HandleStepBegin flt ts k r =
     (case (if rn_recovery r then map_of (rn_completed r) k else None) of
        Some c \<Rightarrow> (Inr \<lparr>br_skipped = True, br_cached_output = cs_output c, br_seq = 0\<rparr>, r)
      | None \<Rightarrow>
          (case StepBegin flt ts k (rn_wal r) of
             (Inl e, s) \<Rightarrow> (Inl (RunnerStepBegin e), r\<lparr>rn_wal := s\<rparr>)
           | (Inr q, s) \<Rightarrow> (Inr \<lparr>br_skipped = False, br_cached_output = [], br_seq = q\<rparr>, r\<lparr>rn_wal := s\<rparr>)))"

definition output_ref :: "(string \<Rightarrow> string) \<Rightarrow> string \<Rightarrow> string" where
  "output_ref sha256hex out = ''sha256:'' @ sha256hex out"

definition HandleStepEnd ::
  "(string \<Rightarrow> string) \<Rightarrow> append_fault \<Rightarrow> int \<Rightarrow> string \<Rightarrow> int \<Rightarrow> string \<Rightarrow> runner \<Rightarrow>
   (runner_error + StepEndResponse) \<times> runner" where
  "HandleStepEnd sha256hex flt ts k exit_code out r =
     (let ref = output_ref sha256hex out in
      case StepEnd flt ts k exit_code ref (rn_wal r) of
        (Inl e, s) \<Rightarrow> (Inl (RunnerStepEnd e), r\<lparr>rn_wal := s\<rparr>)
      | (Inr q, s) \<Rightarrow>
          (Inr \<lparr>er_seq = q, er_synced = True\<rparr>,
           r\<lparr>rn_wal := s, rn_outputs := AList.update k ref (rn_outputs r)\<rparr>))"

subsection \<open>The environment of the agent process\<close>

fun latest_step :: "CompletedStep list \<Rightarrow> int \<Rightarrow> string \<Rightarrow> string" where
  "latest_step [] m best = best"
| "latest_step (c # cs) m best =
     (if m < cs_seq c then latest_step cs (cs_seq c) (cs_step c) else latest_step cs m best)"

fun join_comma :: "string list \<Rightarrow> string" where
  "join_comma [] = []"
| "join_comma [x] = x"
| "join_comma (x # y # ys) = x @ CHR '','' # join_comma (y # ys)"

definition outputs_json :: "(string \<times> string) list \<Rightarrow> string" where
  "outputs_json os = render_object (map (\<lambda>k. (k, JStr (the (map_of os k)))) (sort (map fst os)))"

definition PrepareEnvironment ::
  "((string \<times> CompletedStep) list \<Rightarrow> (string \<times> CompletedStep) list) \<Rightarrow> runner \<Rightarrow> (string \<times> string) list" where
  "PrepareEnvironment perm r =
     (''AF_WAL_SOCKET'', PathJoin [rn_work_dir r, ''.wal'', ''af.sock'']) #
     (if \<not> rn_recovery r then
        [(''AF_RECOVERY_MODE'', ''false''), (''AF_LAST_COMPLETED_STEP'', []), (''AF_COMPLETED_STEPS'', []),
         (''AF_STEP_OUTPUTS'', ''{}'')]
      else
        [(''AF_RECOVERY_MODE'', ''true''),
         (''AF_COMPLETED_STEPS'', join_comma (map fst (perm (rn_completed r)))),
         (''AF_LAST_COMPLETED_STEP'', latest_step (map snd (perm (rn_completed r))) 0 []),
         (''AF_STEP_OUTPUTS'', outputs_json (rn_outputs r))])"

text \<open>
  Waiting for activation: each poll finds the context ended or not, and the file's
  contents if it can be read. \<open>None\<close> after the given polls: still waiting.
\<close>

record poll =
  po_ctx_err :: "step_error option"
  po_file :: "string option"

datatype 'a activation = ActivationCancelled step_error | ActivationMalformed | Activated 'a

fun WaitForActivation :: "(string \<Rightarrow> 'a option) \<Rightarrow> poll list \<Rightarrow> 'a activation option" where
  "WaitForActivation decode [] = None"
| "WaitForActivation decode (p # ps) =
     (case po_ctx_err p of
        Some e \<Rightarrow> Some (ActivationCancelled e)
      | None \<Rightarrow>
          (case po_file p of
             Some data \<Rightarrow>
               Some (case decode data of None \<Rightarrow> ActivationMalformed | Some spec \<Rightarrow> Activated spec)
           | None \<Rightarrow> WaitForActivation decode ps))"

record CheckpointManifest =
  cm_schema :: nat
  cm_job_uid :: string
  cm_attempt_uid :: string
  cm_seq :: int
  cm_progress :: wal_manifest
  cm_created :: string
  cm_version :: string

definition BuildCheckpointManifest ::
  "read_faults \<Rightarrow> string \<Rightarrow> string \<Rightarrow> string \<Rightarrow> int \<Rightarrow> runner \<Rightarrow> runner_error + CheckpointManifest" where
  "BuildCheckpointManifest rio now job attempt q r =
     (case NewReader rio (snd (rn_wal r)) of
        Some e \<Rightarrow> Inl (RunnerWALReader e)
      | None \<Rightarrow>
          (case BuildManifest rio (snd (rn_wal r)) of
             Inl e \<Rightarrow> Inl (RunnerManifest e)
           | Inr m \<Rightarrow>
               Inr \<lparr>cm_schema = 2, cm_job_uid = job, cm_attempt_uid = attempt, cm_seq = q, cm_progress = m,
                 cm_created = now, cm_version = ''v2.0.0''\<rparr>))"

text \<open>Stopping the hook server never fails.\<close>

definition runner_Close :: "append_fault \<Rightarrow> runner \<Rightarrow> runner_error option \<times> runner" where
  "runner_Close flt r =
     (let r = r\<lparr>rn_hooks := False\<rparr> in
      case wal_Sync flt (rn_wal r) of
        Some e \<Rightarrow> (Some (RunnerClose e), r)
      | None \<Rightarrow>
          (case wal_Close flt (rn_wal r) of
             (e, s) \<Rightarrow> (map_option RunnerClose e, r\<lparr>rn_wal := s\<rparr>)))"

subsection \<open>The hook server\<close>

record rpc_request =
  rq_method :: string
  rq_params :: string
  rq_id :: string

datatype rpc_body = RpcBegin StepBeginResponse | RpcEnd StepEndResponse | RpcError int string

record rpc_response =
  rs_body :: rpc_body
  rs_id :: "string option"

text \<open>Decoding of a request and of the parameters of the two methods.\<close>

record hook_codec =
  hc_request :: "string \<Rightarrow> rpc_request option"
  hc_begin :: "string \<Rightarrow> string option"
  hc_end :: "string \<Rightarrow> (string \<times> int \<times> string) option"

record hook_env =
  he_sha :: "string \<Rightarrow> string"
  he_fault :: append_fault
  he_ts :: int
  he_error_text :: "runner_error \<Rightarrow> string"

definition handleConn :: "hook_codec \<Rightarrow> hook_env \<Rightarrow> string \<Rightarrow> runner \<Rightarrow> rpc_response \<times> runner" where
  "handleConn hc env input r =
     (case hc_request hc input of
        None \<Rightarrow> (\<lparr>rs_body = RpcError (-32700) ''parse error'', rs_id = None\<rparr>, r)
      | Some req \<Rightarrow>
          (let (body, r) =
             (if rq_method req = ''step_begin'' then
                (case hc_begin hc (rq_params req) of
                   None \<Rightarrow> (RpcError (-32602) ''invalid params'', r)
                 | Some k \<Rightarrow>
                     (case HandleStepBegin (he_fault env) (he_ts env) k r of
                        (Inl e, r) \<Rightarrow> (RpcError (-32000) (he_error_text env e), r)
                      | (Inr res, r) \<Rightarrow> (RpcBegin res, r)))
              else if rq_method req = ''step_end'' then
                (case hc_end hc (rq_params req) of
                   None \<Rightarrow> (RpcError (-32602) ''invalid params'', r)
                 | Some (k, e, out) \<Rightarrow>
                     (case HandleStepEnd (he_sha env) (he_fault env) (he_ts env) k e out r of
                        (Inl err, r) \<Rightarrow> (RpcError (-32000) (he_error_text env err), r)
                      | (Inr res, r) \<Rightarrow> (RpcEnd res, r)))
              else (RpcError (-32601) ''method not found'', r))
           in (\<lparr>rs_body = body, rs_id = Some (rq_id req)\<rparr>, r)))"

text \<open>Connections are served one request each, in some order.\<close>

definition serve :: "hook_codec \<Rightarrow> runner \<Rightarrow> hook_env \<times> string \<Rightarrow> runner" where
  "serve hc r c = snd (handleConn hc (fst c) (snd c) r)"

subsection \<open>Recovery of a runner\<close>

lemma load_steps_completed: "map_of (fst (load_steps cs m)) = load_completed cs (map_of (fst m))"
  by (induction cs m rule: load_steps.induct) (simp_all add: update_conv' fun_upd_def)

lemma NewRunner_recovers:
  assumes "wal_disk fss [] d" and "length (resumed fss) < 10000"
  shows "\<exists>r d'. NewRunner no_read_fault dir True d = (Inr r, d') \<and> rn_recovery r \<and>
    map_option cs_output \<circ> map_of (rn_completed r) = finished (log_state (concat fss)) \<and>
    wal_inv (resumed fss) (rn_wal r)"
proof -
  obtain w d' where w: "NewWriter no_read_fault d = (Inr w, d')" "wal_inv (resumed fss) (w, d')"
    using NewWriter_resume [OF assms] by blast
  obtain m where m: "recover_steps no_read_fault d' = Inr m" "map_option cs_output \<circ> m = finished (log_state (concat fss))"
    using recover_steps_log [OF w(2)] by auto
  then obtain man where man: "NewReader no_read_fault d' = None" "BuildManifest no_read_fault d' = Inr man"
    "m = load_completed (wm_completed man) Map.empty"
    by (cases "BuildManifest no_read_fault d'") (auto simp: recover_steps_def split: option.splits)
  have "map_of (fst (load_steps (wm_completed man) ([], []))) = m"
    using man(3) by (simp add: load_steps_completed)
  with w m(2) man show ?thesis by (simp add: NewRunner_def split_beta)
qed

text \<open>Which step a recovered runner skips, and with what.\<close>

lemma HandleStepBegin_answer:
  "(\<exists>out. fst (HandleStepBegin flt ts k r) = Inr \<lparr>br_skipped = True, br_cached_output = out, br_seq = 0\<rparr> \<and>
     (map_option cs_output \<circ> map_of (rn_completed r)) k = Some out \<and> snd (HandleStepBegin flt ts k r) = r) \<or>
   ((rn_recovery r \<longrightarrow> map_of (rn_completed r) k = None) \<and>
    rn_wal (snd (HandleStepBegin flt ts k r)) = snd (wal_exec flt ts (EvBegin k) (rn_wal r)))"
  by (auto simp: HandleStepBegin_def split: option.splits sum.splits prod.splits if_splits)

text \<open>The events a connection logs.\<close>

definition conn_events :: "hook_codec \<Rightarrow> hook_env \<Rightarrow> string \<Rightarrow> runner \<Rightarrow> timed_event list" where
  "conn_events hc env input r =
     (case hc_request hc input of
        None \<Rightarrow> []
      | Some req \<Rightarrow>
          if rq_method req = ''step_begin'' then
            (case hc_begin hc (rq_params req) of
               Some k \<Rightarrow>
                 if rn_recovery r \<and> map_of (rn_completed r) k \<noteq> None then [] else [(he_ts env, EvBegin k)]
             | None \<Rightarrow> [])
          else if rq_method req = ''step_end'' then
            (case hc_end hc (rq_params req) of
               Some (k, e, out) \<Rightarrow> [(he_ts env, EvEnd k e (output_ref (he_sha env) out))]
             | None \<Rightarrow> [])
          else [])"

lemma HandleStepBegin_keeps [keeps]:
  "rn_recovery (snd (HandleStepBegin flt ts k r)) = rn_recovery r"
  "rn_completed (snd (HandleStepBegin flt ts k r)) = rn_completed r"
  by (auto simp: HandleStepBegin_def split: option.split sum.split prod.split)

lemma HandleStepEnd_keeps [keeps]:
  "rn_recovery (snd (HandleStepEnd sha flt ts k e out r)) = rn_recovery r"
  "rn_completed (snd (HandleStepEnd sha flt ts k e out r)) = rn_completed r"
  by (auto simp: HandleStepEnd_def Let_def split: sum.split prod.split)

lemma serve_keeps [keeps]:
  "rn_recovery (serve hc r c) = rn_recovery r" "rn_completed (serve hc r c) = rn_completed r"
  using HandleStepBegin_keeps HandleStepEnd_keeps
  by (auto simp: serve_def handleConn_def Let_def split: option.split sum.split prod.split)
    (metis snd_conv)+

lemma serve_wal:
  assumes "he_fault (fst c) = NoFault"
  shows "rn_wal (serve hc r c) = foldl wal_step (rn_wal r) (conn_events hc (fst c) (snd c) r)"
  using assms
  by (auto simp: serve_def handleConn_def conn_events_def HandleStepBegin_def HandleStepEnd_def wal_step_def Let_def
      split: option.splits sum.splits prod.splits if_splits)

fun session_events :: "hook_codec \<Rightarrow> runner \<Rightarrow> (hook_env \<times> string) list \<Rightarrow> timed_event list" where
  "session_events hc r [] = []"
| "session_events hc r (c # cs) = conn_events hc (fst c) (snd c) r @ session_events hc (serve hc r c) cs"

lemma session_wal:
  "\<forall>c\<in>set cs. he_fault (fst c) = NoFault \<Longrightarrow>
     rn_wal (foldl (serve hc) r cs) = foldl wal_step (rn_wal r) (session_events hc r cs)"
  by (induction cs arbitrary: r) (simp_all add: serve_wal)

end
