(* ===== verification/RuntimeProperties.thy ===== *)
theory RuntimeProperties
  imports Runner
begin

text \<open>
  Properties of durable execution: the write-ahead log keeps the history, a restart resumes
  exactly what is unfinished, and what the log does not survive.
\<close>

subsection \<open>Helpers\<close>

lemma dropCR_prefix: "\<exists>m\<le>length p. dropCR p = take m p"
proof (cases "p \<noteq> [] \<and> last p = CHR 0x0D")
  case True
  then show ?thesis by (intro exI [of _ "length p - 1"]) (simp add: dropCR_def butlast_conv_take)
next
  case False
  then show ?thesis by (intro exI [of _ "length p"]) (auto simp: dropCR_def)
qed

lemma scan_torn:
  assumes "fits_record r" and "0 < n" and "n < length (MarshalRecord r)" and "n < max_line"
  shows "scan_content (take n (enc r)) = Inl (ErrCorrupt ''unmarshal'')"
proof -
  let ?l = "MarshalRecord r" let ?p = "take n ?l"
  have enc: "take n (enc r) = ?p" using assms(3) by (simp add: enc_def)
  obtain b where b: "?l = CHR ''{'' # b" using MarshalRecord_shape by blast
  obtain m where m: "m \<le> n" "dropCR ?p = take m ?l"
    using dropCR_prefix [of ?p] assms(3) by (auto simp: min_def)
  have "dropCR ?p \<noteq> []"
  proof
    assume "dropCR ?p = []"
    moreover have "?p = CHR ''{'' # take (n - 1) b" using assms(2) b by (cases n) simp_all
    ultimately show False by (cases "take (n - 1) b") (auto simp: dropCR_def split: if_splits)
  qed
  with m have ne: "take m ?l \<noteq> []" by simp
  have "drop m ?l \<noteq> []" using m(1) assms(3) by simp
  from unmarshal_torn [OF assms(1) append_take_drop_id [symmetric] ne this] m(2)
  have none: "UnmarshalRecord (dropCR ?p) = None" by simp
  have "newline \<notin> set ?p" using MarshalRecord_no_newline by (meson in_set_takeD)
  then have "Split ?p newline = [?p]" by (rule Split_no_newline)
  moreover have "\<not> max_line \<le> length ?p" using assms(3,4) by simp
  ultimately show ?thesis using none \<open>dropCR ?p \<noteq> []\<close> unfolding enc
    by (simp only: scan_content_def scan_records.simps if_False option.case)
qed

lemma NewWriter_scan_error:
  assumes "wal_disk fss tail d" and "scan_content tail = Inl e"
  shows "NewWriter no_read_fault d = (Inl e, d)"
proof -
  from assms(1) obtain fs where d: "d = Some fs" "fss \<noteq> []" by (auto simp: wal_disk_def)
  then have "log_names (length fss) \<noteq> []" by (cases "length fss") (auto simp: log_names_Suc)
  moreover have "lastSeqInDir no_read_fault d (log_names (length fss)) = Inl e"
    using read_wal_disk [OF assms(1)] assms(2) by (simp add: lastSeqInDir_def)
  ultimately show ?thesis using list_wal_disk [OF assms(1)] d(1) by (simp add: NewWriter_def)
qed

lemma wal_append_any:
  assumes inv: "wal_inv fss (w, d)" and len: "length (rotated fss r) < 10000"
  shows "\<exists>w' d'. wal_append NoFault r (w\<lparr>ww_seq := q\<rparr>, d) = (Inr (rec_seq r), w', d') \<and>
    wal_disk (rotated fss r) (enc r) d'"
proof -
  obtain w' d' where inv': "wal_inv (rotated fss r) (w', d')"
    and rot: "(if wal_maxFileSize < ww_size w + int (length (enc r)) then rotate_log NoFault (w\<lparr>ww_seq := q\<rparr>, d)
          else (None, w\<lparr>ww_seq := q\<rparr>, d)) = (None, w'\<lparr>ww_seq := q\<rparr>, d')"
    by (rule append_rotates [OF inv len, of NoFault q]) blast
  let ?f = "walFileName (int (length (rotated fss r)))"
  from inv' have opened: "ww_file w' = OpenFile ?f" and disk: "wal_disk (rotated fss r) [] d'"
    by (auto simp: wal_inv_def wal_open_def)
  have "\<exists>w''. wal_append NoFault r (w\<lparr>ww_seq := q\<rparr>, d) = (Inr (rec_seq r), w'', append_file ?f (enc r) d')"
    using rot opened unfolding wal_append_def Let_def by (simp add: enc_def write_log_def)
  with append_file_disk [OF disk, of "enc r"] show ?thesis by auto
qed

subsection \<open>Records that fit a line\<close>

lemma length_concat_bound: "(\<And>x. x \<in> set xs \<Longrightarrow> length (f x) \<le> n) \<Longrightarrow> length (concat (map f xs)) \<le> n * length xs"
proof (induction xs)
  case (Cons x xs)
  then have "length (f x) \<le> n" "length (concat (map f xs)) \<le> n * length xs" by simp_all
  then show ?case by simp
qed simp

lemma length_quote: "length (quote s) \<le> 2 + 6 * length s"
proof -
  have "length (escape_char c) \<le> 6" for c by (simp add: escape_char_def split: option.split)
  then have "length (concat (map escape_char s)) \<le> 6 * length s" by (rule length_concat_bound)
  then show ?thesis by (simp add: quote_def)
qed

lemma length_show_nat: "n < 10 ^ Suc m \<Longrightarrow> length (show_nat n) \<le> Suc m"
proof (induction m arbitrary: n)
  case 0
  then show ?case by (simp add: show_nat_digits)
next
  case (Suc m)
  show ?case
  proof (cases "n < 10")
    case True
    then show ?thesis by (simp add: show_nat_digits)
  next
    case False
    then have "n div 10 < 10 ^ Suc m" using Suc.prems by (simp add: less_mult_imp_div_less)
    with Suc.IH False show ?thesis by (simp add: show_nat_digits(2) [of n])
  qed
qed

lemma length_show_int:
  assumes "in_i64 i"
  shows "length (show_int i) \<le> 20"
proof -
  have "nat \<bar>i\<bar> < 10 ^ Suc 18" using assms unfolding in_i64_def by (simp add: nat_less_iff) arith
  from length_show_nat [OF this] show ?thesis by (auto simp: show_int_def)
qed

fun event_size :: "wal_event \<Rightarrow> nat" where
  "event_size (EvBegin k) = length k"
| "event_size (EvEnd k e out) = length k + length out"
| "event_size (EvRetry k n) = length k"
| "event_size (EvTimeout k) = length k"
| "event_size (EvCancel why) = length why"

fun event_number :: "wal_event \<Rightarrow> int" where
  "event_number (EvEnd k e out) = e"
| "event_number (EvRetry k n) = n"
| "event_number _ = 0"

definition short_event :: "timed_event \<Rightarrow> bool" where
  "short_event e \<longleftrightarrow> in_i64 (fst e) \<and> in_i64 (event_number (snd e)) \<and> event_size (snd e) \<le> 100000"

lemma length_member: "length (render_member m) \<le> 3 + 6 * length (fst m) + length (render_value (snd m))"
  using length_quote [of "fst m"] by (simp add: render_member_def)

lemma length_members:
  "length (render_members ms) \<le> 1 + sum_list (map (\<lambda>m. 4 + 6 * length (fst m) + length (render_value (snd m))) ms)"
proof (induction ms rule: render_members.induct)
  case (2 m)
  with length_member [of m] show ?case by simp
next
  case (3 m m' ms)
  with length_member [of m] show ?case by simp
qed simp

fun value_bound :: "json \<Rightarrow> nat" where
  "value_bound (JInt i) = 20"
| "value_bound (JStr s) = 2 + 6 * length s"

lemma length_value: "fits v \<Longrightarrow> length (render_value v) \<le> value_bound v"
  using length_quote length_show_int by (cases v) (simp_all add: render_value_def)

lemma length_object:
  assumes "\<forall>m\<in>set ms. fits (snd m)"
  shows "length (render_object ms) \<le> 2 + sum_list (map (\<lambda>m. 4 + 6 * length (fst m) + value_bound (snd m)) ms)"
proof -
  have "sum_list (map (\<lambda>m. 4 + 6 * length (fst m) + length (render_value (snd m))) ms) \<le>
      sum_list (map (\<lambda>m. 4 + 6 * length (fst m) + value_bound (snd m)) ms)"
    using assms length_value by (intro sum_list_mono) auto
  with length_members [of ms] show ?thesis by (simp add: render_object_def)
qed

lemma good_event_record:
  assumes "short_event e" and "in_i64 q"
  shows "good_record (event_record q (fst e) (snd e))"
proof -
  let ?r = "event_record q (fst e) (snd e)"
  have fits: "fits_record ?r"
    using assms by (cases "snd e") (simp_all add: short_event_def fits_record_def blank_record_def in_i64_def)
  then have "\<forall>m\<in>set (record_members ?r). fits (snd m)"
    by (auto simp: record_members_def fits_record_def split: if_splits option.splits)
  note length_object [OF this]
  moreover have "sum_list (map (\<lambda>m. 4 + 6 * length (fst m) + value_bound (snd m)) (record_members ?r)) \<le>
      2000 + 6 * event_size (snd e)"
    by (cases "snd e") (simp_all add: record_members_def blank_record_def record_types)
  ultimately show ?thesis using assms fits
    by (simp add: good_record_def MarshalRecord_def max_line_def short_event_def)
qed

lemma good_event_records:
  assumes "list_all short_event es" and "0 \<le> q" and "q + int (length es) \<le> max_i64"
  shows "list_all good_record (event_records q es)"
  using assms
proof (induction es arbitrary: q)
  case (Cons e es)
  then have "in_i64 (q + 1)" by (simp add: in_i64_def)
  with Cons good_event_record show ?case by simp
qed simp

lemma wal_step_num_Suc: "ww_num (fst (wal_step s e)) \<le> ww_num (fst s) + 1"
  by (auto simp: wal_step_def wal_exec_state wal_append_def rotate_log_def write_log_def next_seq_def Let_def
      split: log_file.split)

lemma wal_run_num: "ww_num (fst (foldl wal_step s es)) \<le> ww_num (fst s) + int (length es)"
proof (induction es arbitrary: s)
  case (Cons e es)
  from Cons [of "wal_step s e"] wal_step_num_Suc [of s e] show ?case by simp
qed simp

text \<open>Short events always have room while the file numbers last.\<close>

lemma log_room_short:
  assumes "wal_inv fss s" and "list_all short_event es" and "length fss + length es < 10000"
    and "length (concat fss) < 1000000000000"
  shows "log_room s es"
  unfolding log_room_def
proof (intro exI [of _ fss] conjI)
  show "ww_num (fst (foldl wal_step s es)) < 10000"
    using wal_run_num [of s es] assms(1,3) by (simp add: wal_inv_def wal_open_def)
  show "list_all good_record (event_records (int (length (concat fss))) es)"
    using assms(2-4) by (intro good_event_records) simp_all
qed (use assms in simp_all)

subsection \<open>The log keeps the history\<close>

text \<open>C31: The log on disk is the history. Whatever events are logged without fault, across file
  rotations, reading the directory gives the old records followed by one numbered record
  per event, and the manifest built from it lists a step with an output exactly when the
  step automaton, run over the events, ends with that step finished with that output.\<close>

theorem wal_refines_history:
  assumes "log_room s es"
  shows "ReadAll no_read_fault (snd (foldl wal_step s es)) =
      Inr (log_records s @ event_records (int (length (log_records s))) es) \<and>
    (\<exists>m. BuildManifest no_read_fault (snd (foldl wal_step s es)) = Inr m \<and>
      (\<forall>k out. (\<exists>c\<in>set (wm_completed m). cs_step c = k \<and> cs_output c = out) \<longleftrightarrow>
         finished (spec_run (log_state (log_records s)) (map snd es)) k = Some out))"
proof -
  let ?s = "foldl wal_step s es"
  have "log_room ?s []" using wal.room_run [of s es "[]"] assms by simp
  then obtain fss where inv: "wal_inv fss ?s" by (auto simp: log_room_def)
  note read = ReadAll_wal_inv [OF inv]
  have recs: "concat fss = log_records s @ event_records (int (length (log_records s))) es"
    using wal.records_run [OF assms] by (simp add: log_records_inv [OF inv])
  have "wal_disk fss [] (snd ?s)" using inv by (simp add: wal_inv_def)
  from list_wal_disk [OF this] read
  have "BuildManifest no_read_fault (snd ?s) = Inr (manifest_of (length (log_names (length fss))) (concat fss))"
    by (simp add: BuildManifest_def)
  moreover have "log_state (concat fss) = spec_run (log_state (log_records s)) (map snd es)"
    using wal.state_run [OF assms] by (simp add: log_records_inv [OF inv])
  ultimately show ?thesis using read recs manifest_completed by auto
qed

definition fresh_log :: wal_state where
  "fresh_log = (\<lparr>ww_seq = 0, ww_file = OpenFile (walFileName 1), ww_num = 1, ww_size = 0\<rparr>, Some [(walFileName 1, [])])"

lemma fresh_log_inv: "wal_inv [[]] fresh_log"
  by (auto simp: fresh_log_def wal_inv_def wal_disk_def wal_open_def wal_files_def log_names_def)

definition demo_events :: "timed_event list" where
  "demo_events = [(5, EvBegin ''a''), (6, EvBegin ''b''), (7, EvEnd ''b'' 0 ''x''), (8, EvEnd ''a'' 1 ''y'')]"

lemma demo_room: "log_room fresh_log demo_events"
  by (rule log_room_short [OF fresh_log_inv]) (simp_all add: demo_events_def short_event_def in_i64_def)

theorem wal_refines_history_witness:
  "\<exists>m. BuildManifest no_read_fault (snd (foldl wal_step fresh_log demo_events)) = Inr m \<and>
     (\<exists>c\<in>set (wm_completed m). cs_step c = ''b'' \<and> cs_output c = ''x'')"
proof -
  have "log_records fresh_log = []" using log_records_inv [OF fresh_log_inv] by simp
  moreover have "finished (spec_run Map.empty (map snd demo_events)) ''b'' = Some ''x''" by code_simp
  ultimately show ?thesis using wal_refines_history [OF demo_room] by auto
qed

subsection \<open>Restart\<close>

text \<open>C32: Durable execution. A process that restarts in recovery mode on a log, and runs steps
  that succeed, calls exactly the functions of the steps the log does not show as finished,
  in their order; afterwards every step of the program is finished in the log, so another
  restart calls none of them.\<close>

theorem restart_runs_unfinished:
  assumes "wal_disk fss [] d" and "length (resumed fss) < 10000"
    and "runtime_New no_read_fault None True d = (Inr rt, d')"
    and "list_all succeeds steps" and "log_room (rt_wal rt) (agent_events rt steps)"
  shows "\<exists>rt'. agent_loop steps rt =
      ((None, filter (\<lambda>k. finished (log_state (concat fss)) k = None) (map fst steps)), rt') \<and>
    (\<forall>k\<in>fst ` set steps. finished (log_state (log_records (rt_wal rt'))) k \<noteq> None)"
proof -
  have rt: "rt_recovery rt" "map_option cs_output \<circ> rt_completed rt = finished (log_state (concat fss))"
    "wal_inv (resumed fss) (rt_wal rt)"
    using runtime_New_recovers [OF assms(1,2)] assms(3) by auto
  have skip: "step_skipped rt k \<longleftrightarrow> finished (log_state (concat fss)) k \<noteq> None" for k
    using rt(1) fun_cong [OF rt(2) [symmetric], of k] by (auto simp: step_skipped_def)
  obtain rt' where rt': "agent_loop steps rt = ((None, filter (\<lambda>k. \<not> step_skipped rt k) (map fst steps)), rt')"
    "rt_wal rt' = foldl wal_step (rt_wal rt) (agent_events rt steps)"
    using agent_loop_success [OF assms(4)] by blast
  have "log_records (rt_wal rt) = concat fss" using log_records_inv [OF rt(3)] by simp
  with wal.state_run [OF assms(5)] rt'(2)
  have st: "log_state (log_records (rt_wal rt')) =
      spec_run (log_state (concat fss)) (map snd (agent_events rt steps))" by simp
  have "\<forall>k\<in>fst ` set steps. finished (log_state (log_records (rt_wal rt'))) k \<noteq> None"
    unfolding st using agent_events_finished [OF assms(4)] skip by blast
  with rt'(1) skip show ?thesis by simp
qed

definition demo_step :: "string \<Rightarrow> agent_step" where
  "demo_step k = (k, DefaultRetryConfig, \<lparr>se_calls = (\<lambda>n. None), se_waits = (\<lambda>n d. None),
     se_fault = (\<lambda>ev. NoFault), se_ts = 9, se_ctx_err = None\<rparr>)"

lemma demo_step_succeeds: "succeeds (demo_step k)"
  by (simp add: demo_step_def succeeds_def faultless_def Execute_def execute_from.simps)

definition crashed_log :: wal_state where
  "crashed_log = foldl wal_step fresh_log [(1, EvBegin ''a''), (2, EvEnd ''a'' 0 []), (3, EvBegin ''b'')]"

lemma crashed_log_inv:
  "\<exists>fss. wal_inv fss crashed_log \<and> concat fss = event_records 0 [(1, EvBegin ''a''), (2, EvEnd ''a'' 0 []), (3, EvBegin ''b'')]
     \<and> length fss < 5"
proof -
  let ?es = "[(1, EvBegin ''a''), (2, EvEnd ''a'' 0 []), (3, EvBegin ''b'')]"
  have short: "list_all short_event ?es" by (simp add: short_event_def in_i64_def)
  then have good: "list_all good_record (event_records (int (length (concat ([[]] :: wal_record list list)))) ?es)"
    by (intro good_event_records) simp_all
  have num: "ww_num (fst (foldl wal_step fresh_log ?es)) \<le> 4"
    using wal_run_num [of fresh_log ?es] by (simp add: fresh_log_def)
  then have "ww_num (fst (foldl wal_step fresh_log ?es)) < 10000" by simp
  from wal_run [OF fresh_log_inv _ this good] obtain gss where
    "wal_inv gss crashed_log" "concat gss = event_records 0 ?es"
    unfolding crashed_log_def by auto
  moreover from this(1) num have "length gss < 5" by (simp add: wal_inv_def wal_open_def crashed_log_def)
  ultimately show ?thesis by blast
qed

theorem restart_runs_unfinished_witness:
  "\<exists>rt d'. runtime_New no_read_fault None True (snd crashed_log) = (Inr rt, d') \<and>
     snd (fst (agent_loop [demo_step ''a'', demo_step ''b'', demo_step ''c''] rt)) = [''b'', ''c'']"
proof -
  let ?steps = "[demo_step ''a'', demo_step ''b'', demo_step ''c'']"
  obtain fss where fss: "wal_inv fss crashed_log" "length fss < 5"
    and recs: "concat fss = event_records 0 [(1, EvBegin ''a''), (2, EvEnd ''a'' 0 []), (3, EvBegin ''b'')]"
    using crashed_log_inv by blast
  then have disk: "wal_disk fss [] (snd crashed_log)" and len: "length (resumed fss) < 10000"
    by (simp_all add: wal_inv_def resumed_def)
  obtain rt d' where new: "runtime_New no_read_fault None True (snd crashed_log) = (Inr rt, d')"
    and inv: "wal_inv (resumed fss) (rt_wal rt)"
    using runtime_New_recovers [OF disk len] by blast
  have "agent_events rt ?steps = concat (map (\<lambda>k. [(9, EvBegin k), (9, EvEnd k 0 [])])
      (filter (\<lambda>k. \<not> step_skipped rt k) [''a'', ''b'', ''c'']))"
    by (simp add: agent_events_def demo_step_def timed_def step_events_def Execute_def execute_from.simps)
  then have "list_all short_event (agent_events rt ?steps)" and "length (agent_events rt ?steps) \<le> 6"
    by (simp_all add: short_event_def in_i64_def)
  moreover have "length (concat (resumed fss)) = 3" using recs by simp
  moreover have "length (resumed fss) \<le> 5" using fss(2) by (simp add: resumed_def)
  ultimately have room: "log_room (rt_wal rt) (agent_events rt ?steps)"
    by (intro log_room_short [OF inv]) simp_all
  have "list_all succeeds ?steps" by (simp add: demo_step_succeeds)
  from restart_runs_unfinished [OF disk len new this room] obtain rt' where
    "agent_loop ?steps rt = ((None, filter (\<lambda>k. finished (log_state (concat fss)) k = None) (map fst ?steps)), rt')"
    by blast
  moreover have "finished (log_state (concat fss)) ''a'' = Some []" "finished (log_state (concat fss)) ''b'' = None"
    "finished (log_state (concat fss)) ''c'' = None"
    unfolding recs by code_simp+
  ultimately have "snd (fst (agent_loop ?steps rt)) = [''b'', ''c'']" by (simp add: demo_step_def)
  with new show ?thesis by blast
qed

subsection \<open>What the log does not survive\<close>

text \<open>C40: A crash in the middle of a record is fatal. When the machine stops after a proper part
  of a record's bytes, neither the reader nor the writer opens the log again: the job
  cannot be resumed, although every earlier record is intact.\<close>

theorem torn_record_blocks_restart:
  assumes "wal_inv fss s" and "length (rotated fss (next_record ts ev s)) < 10000"
    and "int (length (concat fss)) < max_i64" and "fits_record (next_record ts ev s)"
    and "0 < n" and "n < length (MarshalRecord (next_record ts ev s))" and "n < max_line"
  shows "let d = snd (snd (wal_exec (FailWrite n) ts ev s)) in
    ReadAll no_read_fault d = Inl (ErrCorrupt ''unmarshal'') \<and>
    NewWriter no_read_fault d = (Inl (ErrCorrupt ''unmarshal''), d)"
proof -
  obtain w d where s: "s = (w, d)" by (cases s)
  let ?r = "next_record ts ev s"
  have bump: "next_seq s = (w\<lparr>ww_seq := ww_seq w + 1\<rparr>, d)"
    using next_seq_exact [of fss w d] assms(1,3) s by simp
  obtain w' d' where torn: "wal_append (FailWrite n) ?r (w\<lparr>ww_seq := ww_seq w + 1\<rparr>, d) =
      (Inl (ErrIO ''write''), w'\<lparr>ww_seq := ww_seq w + 1\<rparr>, d')"
    and disk: "wal_disk (rotated fss ?r) (take n (enc ?r)) d'"
    using wal_append_torn [of fss w d ?r n "ww_seq w + 1"] assms(1,2) s by blast
  have "snd (snd (wal_exec (FailWrite n) ts ev s)) = d'"
    using torn bump s by (simp add: wal_exec_state next_record_def)
  moreover note scan = scan_torn [OF assms(4-7)]
  have "ReadAll no_read_fault d' = Inl (ErrCorrupt ''unmarshal'')"
    using ReadAll_wal_disk [OF disk] scan by simp
  ultimately show ?thesis using NewWriter_scan_error [OF disk scan] by simp
qed

theorem torn_record_blocks_restart_witness:
  "ReadAll no_read_fault (snd (snd (wal_exec (FailWrite 4) 1 (EvBegin ''a'') fresh_log))) =
     Inl (ErrCorrupt ''unmarshal'')"
proof -
  let ?r = "next_record 1 (EvBegin ''a'') fresh_log"
  have "good_record ?r"
    using good_event_record [of "(1, EvBegin ''a'')" 1]
    by (simp add: next_record_def fresh_log_def short_event_def in_i64_def)
  then have "fits_record ?r" by (simp add: good_record_def)
  moreover have "length (MarshalRecord ?r) = 48 \<or> 4 < length (MarshalRecord ?r)"
  proof -
    have "MarshalRecord ?r = render_object (record_members ?r)" by (simp add: MarshalRecord_def)
    moreover have "record_members ?r = (''seq'', JInt 1) # tl (record_members ?r)"
      by (simp add: record_members_def next_record_def fresh_log_def)
    moreover have "length (render_object ((''seq'', JInt 1) # ms)) > 4" for ms
      by (cases ms) (simp_all add: render_object_def render_member_def quote_def escape_char_def
          short_escapes_def needs_unicode_def)
    ultimately show ?thesis by metis
  qed
  moreover have "length (rotated [[]] ?r) < 10000" by (simp add: rotated_def)
  ultimately show ?thesis
    using torn_record_blocks_restart [OF fresh_log_inv, of 1 "EvBegin ''a''" 4] by (auto simp: max_line_def Let_def)
qed

text \<open>A failed append burns its sequence number. If one append fails without writing anything
  and the next one succeeds, the log has a gap and is corrupt for every later reader:
  recovery fails from then on. The runtime ignores append errors, so its steps go on
  reporting success.\<close>

theorem failed_append_blocks_recovery:
  assumes "wal_inv fss s" and "length (rotated fss (next_record ts ev s)) < 9999"
    and "int (length (concat fss)) + 2 < max_i64"
    and "good_record (event_record (int (length (concat fss)) + 2) ts' ev')"
  shows "fst (wal_exec NoFault ts' ev' (snd (wal_exec (FailWrite 0) ts ev s))) = Inr (int (length (concat fss)) + 2) \<and>
    (\<exists>msg. recover_steps no_read_fault (snd (snd (wal_exec NoFault ts' ev' (snd (wal_exec (FailWrite 0) ts ev s))))) =
       Inl (ErrCorrupt msg))"
proof -
  obtain w d where s: "s = (w, d)" by (cases s)
  let ?r = "next_record ts ev s" let ?q = "int (length (concat fss))"
  have q: "ww_seq w = ?q" using assms(1) s by (simp add: wal_inv_def wal_open_def)
  have bump: "next_seq s = (w\<lparr>ww_seq := ?q + 1\<rparr>, d)"
    using next_seq_exact [of fss w d] assms(1,3) s q by simp
  obtain w' d' where fail: "wal_append (FailWrite 0) ?r (w\<lparr>ww_seq := ?q + 1\<rparr>, d) =
      (Inl (ErrIO ''write''), w'\<lparr>ww_seq := ?q + 1\<rparr>, d')"
    and opened: "wal_open (rotated fss ?r) w'" and disk: "wal_disk (rotated fss ?r) [] d'"
    using wal_append_torn [of fss w d ?r 0 "?q + 1"] assms(1,2) s by fastforce
  have s1: "snd (wal_exec (FailWrite 0) ts ev s) = (w'\<lparr>ww_seq := ?q + 1\<rparr>, d')"
    using fail bump s q by (simp add: wal_exec_state next_record_def)
  let ?r' = "event_record (?q + 2) ts' ev'" let ?gss = "rotated fss ?r"
  have inv': "wal_inv ?gss (w', d')" using opened disk by (simp add: wal_inv_def)
  have len: "length (rotated ?gss ?r') < 10000" using length_rotated [of ?gss ?r'] assms(2) by simp
  obtain w'' d'' where app: "wal_append NoFault ?r' (w'\<lparr>ww_seq := ?q + 2\<rparr>, d') = (Inr (rec_seq ?r'), w'', d'')"
    and disk': "wal_disk (rotated ?gss ?r') (enc ?r') d''"
    using wal_append_any [OF inv' len, of "?q + 2"] by blast
  have bump': "next_seq (w'\<lparr>ww_seq := ?q + 1\<rparr>, d') = (w'\<lparr>ww_seq := ?q + 2\<rparr>, d')"
    using assms(3) by (simp add: next_seq_def in_i64_def)
  have exec: "wal_exec NoFault ts' ev' (w'\<lparr>ww_seq := ?q + 1\<rparr>, d') = (Inr (?q + 2), w'', d'')"
    unfolding wal_exec_append bump' using app by (simp add: Let_def synced_append_def)
  have "scan_content (enc ?r') = Inr [?r']" using scan_enc [OF assms(4), of "[]"] by simp
  then have "\<exists>msg. ReadAll no_read_fault d'' = Inl (ErrCorrupt msg)"
    using ReadAll_wal_disk [OF disk'] by simp
  moreover have "NewReader no_read_fault d'' = None" using disk' by (auto simp: NewReader_def wal_disk_def)
  ultimately show ?thesis using exec s1 by (auto simp: recover_steps_def BuildManifest_def)
qed

theorem failed_append_blocks_recovery_witness:
  "\<exists>msg. recover_steps no_read_fault (snd (snd (wal_exec NoFault 2 (EvBegin ''b'')
     (snd (wal_exec (FailWrite 0) 1 (EvEnd ''a'' 0 []) fresh_log))))) = Inl (ErrCorrupt msg)"
proof -
  have "good_record (event_record (int (length (concat ([[]] :: wal_record list list))) + 2) 2 (EvBegin ''b''))"
    using good_event_record [of "(2, EvBegin ''b'')" 2] by (simp add: short_event_def in_i64_def)
  from failed_append_blocks_recovery [OF fresh_log_inv _ _ this, of 1 "EvEnd ''a'' 0 []"]
  show ?thesis by (simp add: rotated_def)
qed

subsection \<open>Retries\<close>

text \<open>C34: The retry loop ends for every policy, function and clock, after at least one and at
  most MaxAttempts calls (one when it is not positive). It succeeds exactly when its last
  call did; all calls before failed; it gives up early only on an error that is not retried
  or when the context ends during a delay; retries are announced as 2, 3, and so on.\<close>

theorem retry_loop_contract:
  assumes "Execute cfg fn wait = ((k, err), ws)"
  shows "1 \<le> k \<and> k \<le> max_attempts cfg \<and> (err = None \<longleftrightarrow> fn k = None) \<and>
    (\<forall>i. 1 \<le> i \<and> i < k \<longrightarrow> fn i \<noteq> None) \<and>
    (\<exists>m. k \<le> m \<and> m \<le> Suc k \<and> map fst ws = [2..<Suc m]) \<and>
    (fn k \<noteq> None \<and> k < max_attempts cfg \<longrightarrow>
       \<not> may_retry cfg (the (fn k)) \<or> wait k (retry_delay cfg k) \<noteq> None)"
proof -
  note ex = Execute_executed [OF assms, unfolded executed_def Let_def]
  have bounds: "1 \<le> k" "k \<le> max_attempts cfg" and before: "\<forall>i. 1 \<le> i \<and> i < k \<longrightarrow> fn i \<noteq> None"
    using ex by auto
  have tried: "map fst (map (\<lambda>i. (Suc i, retry_delay cfg i)) [1..<k]) = [2..<Suc k]"
    by (simp add: map_Suc_upt comp_def numeral_2_eq_2 del: upt_Suc)
  have "err = None \<longleftrightarrow> fn k = None" using ex by auto
  moreover have "\<exists>m. k \<le> m \<and> m \<le> Suc k \<and> map fst ws = [2..<Suc m]"
  proof -
    from ex consider "ws = map (\<lambda>i. (Suc i, retry_delay cfg i)) [1..<k]"
      | "ws = map (\<lambda>i. (Suc i, retry_delay cfg i)) [1..<k] @ [(Suc k, retry_delay cfg k)]" by blast
    then show ?thesis
    proof cases
      case 1
      with tried show ?thesis by (intro exI [of _ k]) simp
    next
      case 2
      then have "map fst ws = [2..<Suc k] @ [Suc k]" using tried by simp
      also have "\<dots> = [2..<Suc (Suc k)]" using bounds(1) by simp
      finally show ?thesis by (intro exI [of _ "Suc k"]) simp
    qed
  qed
  moreover have "fn k \<noteq> None \<and> k < max_attempts cfg \<longrightarrow>
      \<not> may_retry cfg (the (fn k)) \<or> wait k (retry_delay cfg k) \<noteq> None"
    using ex by auto
  ultimately show ?thesis using bounds before by blast
qed

theorem retry_loop_contract_witness:
  "let fn = (\<lambda>n. if n < 3 then Some (StepError ''e'') else None);
       cfg = DefaultRetryConfig\<lparr>rc_max_attempts := 5\<rparr>
   in fn (fst (fst (Execute cfg fn (\<lambda>n d. None)))) = None"
proof -
  let ?fn = "\<lambda>n :: nat. if n < 3 then Some (StepError ''e'') else None"
  let ?cfg = "DefaultRetryConfig\<lparr>rc_max_attempts := 5\<rparr>"
  have "snd (fst (Execute ?cfg ?fn (\<lambda>n d. None))) = None" by code_simp
  moreover obtain k err ws where x: "Execute ?cfg ?fn (\<lambda>n d. None) = ((k, err), ws)" by (metis surj_pair)
  ultimately show ?thesis using retry_loop_contract [OF x] unfolding Let_def by simp
qed

text \<open>The exponential delay of a local retry is shifted on 64 bits before the cap is
  applied. While it fits it is the capped doubling; from the sixty-fifth attempt on it is
  zero whatever the configuration says, and before that it may be negative: the step is
  retried without any delay.\<close>

theorem retry_delay_wraps:
  assumes "rc_backoff cfg = ExponentialBackoff" and "65 \<le> n"
  shows "retry_delay cfg n = 0 \<and>
    (\<exists>cfg'. rc_initial_delay cfg' = second \<and> rc_max_delay cfg' = minute \<and> retry_delay cfg' 35 < 0)"
proof
  have "n - 1 = 64 + (n - 65)" using assms(2) by simp
  then have "(2 :: int) ^ (n - 1) = 2 ^ 64 * 2 ^ (n - 65)" by (simp only: power_add)
  then have eq: "rc_initial_delay cfg * 2 ^ (n - 1) =
      (rc_initial_delay cfg * 2 ^ (n - 65)) * 18446744073709551616" by simp
  have "i64 (y * 18446744073709551616) = 0" for y by (simp add: i64_def)
  then have "shift_left (rc_initial_delay cfg) (n - 1) = 0" unfolding shift_left_def eq .
  with assms(1) show "retry_delay cfg n = 0" by (simp add: retry_delay_def)
  let ?c = "\<lparr>rc_max_attempts = 40, rc_initial_delay = second, rc_max_delay = minute,
      rc_backoff = ExponentialBackoff, rc_retry_on = None\<rparr>"
  have "retry_delay ?c 35 < 0" by code_simp
  then show "\<exists>cfg'. rc_initial_delay cfg' = second \<and> rc_max_delay cfg' = minute \<and> retry_delay cfg' 35 < 0"
    by (intro exI [of _ ?c]) simp
qed

theorem retry_delay_wraps_witness:
  "retry_delay \<lparr>rc_max_attempts = 80, rc_initial_delay = second, rc_max_delay = minute,
      rc_backoff = ExponentialBackoff, rc_retry_on = None\<rparr> 70 = 0"
  by (rule retry_delay_wraps [THEN conjunct1]) simp_all

subsection \<open>The hook protocol\<close>

text \<open>C33: What an agent announced is what a restarted runner answers. After any sequence of
  connections served without log faults, a runner restarted on the same directory answers
  step_begin with the cached output, and logs nothing, exactly for the steps the
  specification shows as finished after the session.\<close>

theorem runner_recovers_session:
  assumes "\<forall>c\<in>set cs. he_fault (fst c) = NoFault" and "log_room (rn_wal r) (session_events hc r cs)"
    and "ww_num (fst (rn_wal (foldl (serve hc) r cs))) < 9999"
  shows "\<exists>r' d. NewRunner no_read_fault dir True (snd (rn_wal (foldl (serve hc) r cs))) = (Inr r', d) \<and>
    (\<forall>k out flt ts. (HandleStepBegin flt ts k r' =
         (Inr \<lparr>br_skipped = True, br_cached_output = out, br_seq = 0\<rparr>, r')) \<longleftrightarrow>
       finished (spec_run (log_state (log_records (rn_wal r))) (map snd (session_events hc r cs))) k = Some out)"
proof -
  let ?s = "rn_wal (foldl (serve hc) r cs)"
  have run: "?s = foldl wal_step (rn_wal r) (session_events hc r cs)" using session_wal [OF assms(1)] .
  have "log_room ?s []" unfolding run using wal.room_run [of "rn_wal r" "session_events hc r cs" "[]"] assms(2) by simp
  then obtain fss where inv: "wal_inv fss ?s" by (auto simp: log_room_def)
  then have disk: "wal_disk fss [] (snd ?s)" and len: "length (resumed fss) < 10000"
    using assms(3) by (auto simp: wal_inv_def wal_open_def resumed_def)
  obtain r' d where new: "NewRunner no_read_fault dir True (snd ?s) = (Inr r', d)" "rn_recovery r'"
    and done_steps: "map_option cs_output \<circ> map_of (rn_completed r') = finished (log_state (concat fss))"
    using NewRunner_recovers [OF disk len, of dir] by blast
  have st: "log_state (concat fss) = spec_run (log_state (log_records (rn_wal r))) (map snd (session_events hc r cs))"
    using wal.state_run [OF assms(2), folded run] log_records_inv [OF inv] by simp
  have "(HandleStepBegin flt ts k r' = (Inr \<lparr>br_skipped = True, br_cached_output = out, br_seq = 0\<rparr>, r')) \<longleftrightarrow>
      finished (log_state (concat fss)) k = Some out" for k out flt ts
    using new(2) fun_cong [OF done_steps [symmetric], of k]
    by (cases "map_of (rn_completed r') k") (auto simp: HandleStepBegin_def split: sum.split prod.split)
  with new(1) st show ?thesis by auto
qed

definition demo_hooks :: hook_codec where
  "demo_hooks = \<lparr>
     hc_request = (\<lambda>s. if s = ''b'' then Some \<lparr>rq_method = ''step_begin'', rq_params = ''p'', rq_id = ''1''\<rparr>
       else if s = ''e'' then Some \<lparr>rq_method = ''step_end'', rq_params = ''p'', rq_id = ''2''\<rparr> else None),
     hc_begin = (\<lambda>s. Some ''a''), hc_end = (\<lambda>s. Some (''a'', 0, ''out''))\<rparr>"

definition demo_hook_env :: hook_env where
  "demo_hook_env = \<lparr>he_sha = (\<lambda>s. ''ff''), he_fault = NoFault, he_ts = 3, he_error_text = (\<lambda>e. [])\<rparr>"

definition demo_runner :: runner where
  "demo_runner = \<lparr>rn_work_dir = ''/w'', rn_recovery = False, rn_completed = [], rn_outputs = [], rn_hooks = True,
     rn_wal = fresh_log\<rparr>"

theorem runner_recovers_session_witness:
  "\<exists>r d. NewRunner no_read_fault ''/w'' True
      (snd (rn_wal (foldl (serve demo_hooks) demo_runner [(demo_hook_env, ''b''), (demo_hook_env, ''e'')]))) = (Inr r, d) \<and>
    fst (HandleStepBegin NoFault 9 ''a'' r) =
      Inr \<lparr>br_skipped = True, br_cached_output = ''sha256:ff'', br_seq = 0\<rparr>"
proof -
  let ?cs = "[(demo_hook_env, ''b''), (demo_hook_env, ''e'')]"
  have ev: "session_events demo_hooks demo_runner ?cs = [(3, EvBegin ''a''), (3, EvEnd ''a'' 0 ''sha256:ff'')]"
    using serve_keeps(1) [of demo_hooks demo_runner]
    by (simp add: conn_events_def demo_hooks_def demo_hook_env_def demo_runner_def output_ref_def)
  have wal: "rn_wal demo_runner = fresh_log" by (simp add: demo_runner_def)
  have faults: "\<forall>c\<in>set ?cs. he_fault (fst c) = NoFault" by (simp add: demo_hook_env_def)
  have room: "log_room (rn_wal demo_runner) (session_events demo_hooks demo_runner ?cs)"
    unfolding ev wal by (rule log_room_short [OF fresh_log_inv]) (simp_all add: short_event_def in_i64_def)
  have num: "ww_num (fst (rn_wal (foldl (serve demo_hooks) demo_runner ?cs))) < 9999"
    unfolding session_wal [OF faults] ev wal
    using wal_run_num [of fresh_log "[(3, EvBegin ''a''), (3, EvEnd ''a'' 0 ''sha256:ff'')]"]
    by (simp add: fresh_log_def)
  have "finished (spec_run (log_state (log_records (rn_wal demo_runner)))
      (map snd (session_events demo_hooks demo_runner ?cs))) ''a'' = Some ''sha256:ff''"
    unfolding ev wal using log_records_inv [OF fresh_log_inv] by (simp add: finished_def)
  with runner_recovers_session [OF faults room num, of "''/w''"] show ?thesis by (metis fst_conv)
qed

subsection \<open>The last completed step\<close>

text \<open>The log and the runner disagree on the step completed last. With two interleaved steps
  the manifest names the one that began last, while the environment prepared from the same
  manifest names the one that ended last.\<close>

theorem last_completed_diverges:
  "let rs = event_records 0 [(1, EvBegin ''a''), (2, EvBegin ''b''), (3, EvEnd ''b'' 0 ''x''), (4, EvEnd ''a'' 0 ''y'')];
       m = manifest_of 1 rs
   in wm_last_completed m = ''b'' \<and> latest_step (wm_completed m) 0 [] = ''a''"
  by code_simp

end
