(* ===== verification/Archive.thy ===== *)
theory Archive
  imports Paths "HOL-Library.Sublist"
begin

text \<open>
  Workspace archives: creation and extraction in the runner
  (\<open>internal/runner/archive.go\<close>) and in the checkpoint package
  (\<open>internal/checkpoint/tar.go\<close>). A file tree maps the elements of an absolute path
  to what is there; the tar and gzip encodings are parameters, a walk is the list of what it
  visits. File modes are not modelled, and there are no symbolic links in an extraction
  target: extraction itself never makes one.
\<close>

datatype node = Dir | File string

type_synonym tree = "string list \<rightharpoonup> node"

text \<open>
  The system calls that may fail; a fault carries the bytes a failing write has already
  written.
\<close>

datatype fs_op = FsMkdir "string list" | FsCreate "string list" | FsWrite "string list"
  | FsSync "string list" | FsClose "string list" | FsRead "string list"

type_synonym fs_faults = "fs_op \<rightharpoonup> nat"

subsection \<open>Walking a workspace\<close>

datatype walk_kind = WalkDir | WalkFile string | WalkLink string | WalkSocket | WalkSpecial

record walk_entry =
  we_path :: string
  we_kind :: walk_kind

datatype tar_kind = TarDir | TarFile string | TarLink string | TarSpecial

record tar_entry =
  te_name :: string
  te_kind :: tar_kind

fun tar_kind_of :: "walk_kind \<Rightarrow> tar_kind" where
  "tar_kind_of WalkDir = TarDir"
| "tar_kind_of (WalkFile data) = TarFile data"
| "tar_kind_of (WalkLink t) = TarLink t"
| "tar_kind_of WalkSocket = TarSpecial"
| "tar_kind_of WalkSpecial = TarSpecial"

definition PathDir :: "string \<Rightarrow> string" where
  "PathDir p = (let es = path_elements p in
     if is_abs p then CHR ''/'' # join_slash (butlast es)
     else if length es \<le> 1 then ''.'' else join_slash (butlast es))"

text \<open>A link may point only into the work directory.\<close>

definition link_target :: "string \<Rightarrow> string \<Rightarrow> string" where
  "link_target path link = (if is_abs link then Clean link else PathJoin [PathDir path, link])"

definition inside :: "string \<Rightarrow> string \<Rightarrow> bool" where
  "inside dir p \<longleftrightarrow> HasPrefix p (dir @ ''/'') \<or> p = dir"

fun archive_entries :: "string \<Rightarrow> walk_entry list \<Rightarrow> string + tar_entry list" where
  "archive_entries dir [] = Inr []"
| "archive_entries dir (e # es) =
     (let path = dir @ ''/'' @ we_path e;
          next_entries = archive_entries dir es
      in case we_kind e of
           WalkLink link \<Rightarrow>
             if \<not> inside dir (link_target path link) then Inl (''archive: symlink '' @ we_path e @ '' points outside workdir'')
             else map_sum id (\<lambda>ts. \<lparr>te_name = we_path e, te_kind = TarLink link\<rparr> # ts) next_entries
         | WalkSocket \<Rightarrow> next_entries
         | k \<Rightarrow> map_sum id (\<lambda>ts. \<lparr>te_name = we_path e, te_kind = tar_kind_of k\<rparr> # ts) next_entries)"

definition maxArchiveDefaultBytes :: int where "maxArchiveDefaultBytes = 1073741824"

definition archive_limit :: "int \<Rightarrow> int" where
  "archive_limit n = (if n \<le> 0 then maxArchiveDefaultBytes else n)"

text \<open>\<open>CreateArchive\<close>: the bytes written, or the error.\<close>

definition CreateArchive ::
  "(tar_entry list \<Rightarrow> string) \<Rightarrow> string \<Rightarrow> int \<Rightarrow> walk_entry list \<Rightarrow> string + string" where
  "CreateArchive pack dir max_bytes walk =
     (case archive_entries dir walk of
        Inl e \<Rightarrow> Inl e
      | Inr ts \<Rightarrow>
          if archive_limit max_bytes < int (length (pack ts)) then Inl ''archive: exceeded maximum size limit''
          else Inr (pack ts))"

text \<open>\<open>TarWorkspace\<close> of the checkpoint package: no link check, and exit-code files are left out.\<close>

definition last_element :: "string \<Rightarrow> string" where
  "last_element p = last (Split p (CHR ''/''))"

definition kept_entries :: "walk_entry list \<Rightarrow> walk_entry list" where
  "kept_entries walk = filter (\<lambda>e. last_element (we_path e) \<noteq> ''.exit-code'') walk"

definition entry_headers :: "walk_entry list \<Rightarrow> tar_entry list" where
  "entry_headers walk =
     map (\<lambda>e. \<lparr>te_name = we_path e, te_kind = tar_kind_of (we_kind e)\<rparr>)
       (filter (\<lambda>e. we_kind e \<noteq> WalkSocket) walk)"

definition tar_entries :: "walk_entry list \<Rightarrow> tar_entry list" where
  "tar_entries walk = entry_headers (kept_entries walk)"

definition TarWorkspace :: "(tar_entry list \<Rightarrow> string) \<Rightarrow> walk_entry list \<Rightarrow> string" where
  "TarWorkspace pack walk = pack (tar_entries walk)"

subsection \<open>Extraction\<close>

text \<open>\<open>os.MkdirAll\<close>: every prefix of the path becomes a directory unless one is a file.\<close>

definition mkdir_all :: "fs_faults \<Rightarrow> string list \<Rightarrow> tree \<Rightarrow> string option \<times> tree" where
  "mkdir_all xf p t =
     (if xf (FsMkdir p) \<noteq> None then (Some ''mkdir'', t)
      else if list_ex (\<lambda>n. case t (take n p) of Some (File x) \<Rightarrow> True | _ \<Rightarrow> False) [0..<Suc (length p)]
      then (Some ''mkdir: not a directory'', t)
      else (None, \<lambda>q. if take (length q) p = q then Some Dir else t q))"

text \<open>Creating and writing one file; an existing file is truncated, a directory is an error.\<close>

definition write_entry :: "fs_faults \<Rightarrow> string list \<Rightarrow> string \<Rightarrow> tree \<Rightarrow> string option \<times> tree" where
  "write_entry xf p data t =
     (if xf (FsCreate p) \<noteq> None \<or> t p = Some Dir then (Some ''create'', t)
      else case xf (FsWrite p) of
        Some n \<Rightarrow> (Some ''write'', t(p \<mapsto> File (take n data)))
      | None \<Rightarrow> (if xf (FsClose p) \<noteq> None then Some ''close'' else None, t(p \<mapsto> File data)))"

definition extract_entry :: "fs_faults \<Rightarrow> string \<Rightarrow> tar_kind \<Rightarrow> tree \<Rightarrow> string option \<times> tree" where
  "extract_entry xf target k t =
     (let p = path_elements target in
      case k of
        TarDir \<Rightarrow> mkdir_all xf p t
      | TarFile data \<Rightarrow>
          (case mkdir_all xf (butlast p) t of
             (Some e, t) \<Rightarrow> (Some e, t)
           | (None, t) \<Rightarrow> write_entry xf p data t)
      | _ \<Rightarrow> (None, t))"

definition has_dotdot :: "string \<Rightarrow> bool" where
  "has_dotdot name \<longleftrightarrow> ''..'' \<in> set (Split name (CHR ''/''))"

text \<open>\<open>ExtractArchive\<close> over what the tar reader yields: entries until it ends or fails.\<close>

fun extract_items :: "fs_faults \<Rightarrow> string \<Rightarrow> (string + tar_entry) list \<Rightarrow> tree \<Rightarrow> string option \<times> tree" where
  "extract_items xf dir [] t = (None, t)"
| "extract_items xf dir (Inl e # items) t = (Some (''extract: tar next: '' @ e), t)"
| "extract_items xf dir (Inr h # items) t =
     (let name = te_name h; target = PathJoin [dir, name] in
      if is_abs name then (Some (''extract: illegal absolute path in tar: '' @ name), t)
      else if has_dotdot name then (Some (''extract: path traversal in tar: '' @ name), t)
      else if \<not> inside dir target then (Some (''extract: path escape detected: '' @ name), t)
      else case extract_entry xf target (te_kind h) t of
        (Some e, t) \<Rightarrow> (Some (''extract: '' @ e), t)
      | (None, t) \<Rightarrow> extract_items xf dir items t)"

definition ExtractArchive ::
  "(string \<Rightarrow> string + (string + tar_entry) list) \<Rightarrow> fs_faults \<Rightarrow> string \<Rightarrow> int \<Rightarrow> string \<Rightarrow> tree \<Rightarrow> string option \<times> tree" where
  "ExtractArchive unpack xf dir max_bytes data t =
     (case unpack (take (nat (archive_limit max_bytes)) data) of
        Inl e \<Rightarrow> (Some (''extract: gzip reader: '' @ e), t)
      | Inr items \<Rightarrow> extract_items xf dir items t)"

definition validateTarPath :: "string \<Rightarrow> string option" where
  "validateTarPath name =
     (if is_abs name then Some (''checkpoint: illegal absolute path in tar: '' @ name)
      else if has_dotdot name then Some (''checkpoint: path traversal in tar: '' @ name)
      else None)"

fun untar_items :: "fs_faults \<Rightarrow> string \<Rightarrow> (string + tar_entry) list \<Rightarrow> tree \<Rightarrow> string option \<times> tree" where
  "untar_items xf dir [] t = (None, t)"
| "untar_items xf dir (Inl e # items) t = (Some (''checkpoint: tar next: '' @ e), t)"
| "untar_items xf dir (Inr h # items) t =
     (case validateTarPath (te_name h) of
        Some e \<Rightarrow> (Some e, t)
      | None \<Rightarrow>
          (case extract_entry xf (PathJoin [dir, te_name h]) (te_kind h) t of
             (Some e, t) \<Rightarrow> (Some (''checkpoint: '' @ e), t)
           | (None, t) \<Rightarrow> untar_items xf dir items t))"

definition UntarWorkspace ::
  "(string \<Rightarrow> string + (string + tar_entry) list) \<Rightarrow> fs_faults \<Rightarrow> string \<Rightarrow> string \<Rightarrow> tree \<Rightarrow> string option \<times> tree" where
  "UntarWorkspace unpack xf dir data t =
     (case unpack data of
        Inl e \<Rightarrow> (Some (''checkpoint: gzip reader: '' @ e), t)
      | Inr items \<Rightarrow> untar_items xf dir items t)"

subsection \<open>Where extraction writes\<close>

lemma Split_append: "Split (a @ c # b) c = Split a c @ Split b c"
proof (induction a c rule: Split.induct)
  case (1 a c)
  show ?case
  proof (cases "cut c a")
    case None
    then have "c \<notin> set a" by (simp add: cut_None)
    then show ?thesis using None cut_append [of c a b] by (simp add: Split.simps [of a] Split.simps [of "a @ c # b"])
  next
    case (Some xy)
    obtain x y where xy: "xy = (x, y)" by (cases xy)
    with Some have a: "a = x @ c # y" "c \<notin> set x" by (auto dest: cut_SomeD)
    then have "cut c (a @ c # b) = Some (x, y @ c # b)" using cut_append [of c x "y @ c # b"] by simp
    with "1.IH" [OF Some, of x y] Some xy show ?thesis
      by (simp add: Split.simps [of a] Split.simps [of "a @ c # b"])
  qed
qed

lemma Split_single: "c \<notin> set x \<Longrightarrow> Split x c = [x]"
  by (simp add: Split.simps [of x] cut_None [THEN iffD2])

lemma Split_join:
  "es \<noteq> [] \<Longrightarrow> \<forall>e\<in>set es. CHR ''/'' \<notin> set e \<Longrightarrow> Split (join_slash es) (CHR ''/'') = es"
  by (induction es rule: join_slash.induct) (simp_all add: Split_single Split_append)

lemma clean_elements_append:
  "clean_elements rooted stack (xs @ ys) = clean_elements rooted (rev (clean_elements rooted stack xs)) ys"
  by (induction rooted stack xs rule: clean_elements.induct) (auto split: list.split)

lemma clean_elements_forward:
  "''..'' \<notin> set es \<Longrightarrow> clean_elements rooted stack es = rev stack @ filter (\<lambda>e. e \<noteq> [] \<and> e \<noteq> ''.'') es"
  by (induction es arbitrary: stack) auto

lemma path_elements_Clean:
  assumes "is_abs p"
  shows "path_elements (Clean p) = path_elements p"
proof -
  let ?es = "path_elements p"
  have ok: "\<forall>e\<in>set ?es. e \<noteq> ''..'' \<and> e \<noteq> ''.'' \<and> e \<noteq> [] \<and> CHR ''/'' \<notin> set e"
    using path_elements_rooted [OF assms] by blast
  have c: "Clean p = CHR ''/'' # join_slash ?es" using assms by (simp add: Clean_def)
  have sp: "Split (CHR ''/'' # join_slash ?es) (CHR ''/'') = [] # Split (join_slash ?es) (CHR ''/'')"
    using Split_append [of "[]" "CHR ''/''" "join_slash ?es"] by (simp add: Split_single)
  show ?thesis
  proof (cases "?es = []")
    case True
    then have "Clean p = ''/''" "Split ''/'' (CHR ''/'') = [[], []]" using c sp by (simp_all add: Split_single)
    then show ?thesis using True by (simp add: path_elements_def [of "''/''"] is_abs_def HasPrefix_def)
  next
    case False
    then have "Split (join_slash ?es) (CHR ''/'') = ?es" using ok by (intro Split_join) blast+
    have "is_abs (Clean p)" using c by (simp add: is_abs_def HasPrefix_def)
    then have "path_elements (Clean p) = clean_elements True [] (Split (Clean p) (CHR ''/''))"
      by (simp add: path_elements_def [of "Clean p"])
    also have "\<dots> = clean_elements True [] ?es"
      using c sp \<open>Split (join_slash ?es) (CHR ''/'') = ?es\<close> by simp
    also have "\<dots> = ?es" using clean_elements_plain [of ?es True "[]"] ok by simp
    finally show ?thesis .
  qed
qed

definition name_elements :: "string \<Rightarrow> string list" where
  "name_elements name = filter (\<lambda>e. e \<noteq> [] \<and> e \<noteq> ''.'') (Split name (CHR ''/''))"

text \<open>A name without dot-dot elements stays below the directory it is joined to.\<close>

lemma target_elements:
  assumes "is_abs dir" and "\<not> has_dotdot name"
  shows "path_elements (PathJoin [dir, name]) = path_elements dir @ name_elements name"
proof -
  have dir: "dir \<noteq> []" using assms(1) by (auto simp: is_abs_def HasPrefix_def)
  show ?thesis
  proof (cases "name = []")
    case True
    then have "PathJoin [dir, name] = Clean dir" using dir by (simp add: PathJoin_def)
    with True assms(1) show ?thesis by (simp add: path_elements_Clean name_elements_def Split_single)
  next
    case False
    let ?p = "dir @ CHR ''/'' # name"
    have join: "PathJoin [dir, name] = Clean ?p" using dir False by (simp add: PathJoin_def)
    have abs: "is_abs ?p" using assms(1) dir by (cases dir) (auto simp: is_abs_def HasPrefix_def)
    have "path_elements ?p = clean_elements True (rev (path_elements dir)) (Split name (CHR ''/''))"
      using abs assms(1) by (simp add: path_elements_def Split_append clean_elements_append)
    also have "\<dots> = path_elements dir @ name_elements name"
      using assms(2) by (simp add: clean_elements_forward has_dotdot_def name_elements_def)
    finally show ?thesis using join path_elements_Clean [OF abs] by simp
  qed
qed

text \<open>An extraction changes nothing outside its directory, except that the directory's own
  parents become directories.\<close>

definition below :: "string list \<Rightarrow> string list \<Rightarrow> bool" where
  "below d q \<longleftrightarrow> take (length d) q = d"

definition confined :: "string list \<Rightarrow> tree \<Rightarrow> tree \<Rightarrow> bool" where
  "confined d t t' \<longleftrightarrow> (\<forall>q. below d q \<or> t' q = t q \<or> (below q d \<and> t' q = Some Dir))"

lemma confined_refl [simp]: "confined d t t"
  by (simp add: confined_def)

lemma confined_trans: "confined d t t1 \<Longrightarrow> confined d t1 t2 \<Longrightarrow> confined d t t2"
  unfolding confined_def by metis

lemma below_append [simp]: "below d (d @ r)"
  by (simp add: below_def)

lemma mkdir_all_confined:
  assumes "mkdir_all xf (d @ r) t = (e, t')"
  shows "confined d t t'"
proof -
  have prefix: "below d q \<or> below q d" if q: "take (length q) (d @ r) = q" for q
  proof (cases "length q \<le> length d")
    case True
    with q show ?thesis by (simp add: below_def)
  next
    case False
    with q have "q = d @ take (length q - length d) r" by simp
    then have "take (length d) q = take (length d) (d @ take (length q - length d) r)" by (rule arg_cong)
    then show ?thesis by (simp add: below_def)
  qed
  show ?thesis
  proof (cases "t' = t")
    case False
    with assms have "t' = (\<lambda>q. if take (length q) (d @ r) = q then Some Dir else t q)"
      by (simp add: mkdir_all_def del: take_append split: if_splits)
    with prefix show ?thesis unfolding confined_def by metis
  qed simp
qed

lemma mkdir_parent_confined:
  assumes "mkdir_all xf (butlast (d @ r)) t = (e, t')"
  shows "confined d t t'"
proof (cases "r = []")
  case False
  with assms show ?thesis by (simp add: butlast_append mkdir_all_confined)
next
  case True
  have "below q d" if "take (length q) (butlast d) = q" for q
    using that by (metis below_def butlast_conv_take min.cobounded1 take_take length_take min_def)
  with True assms show ?thesis by (auto simp: mkdir_all_def confined_def split: if_splits)
qed

lemma write_entry_confined: "write_entry xf (d @ r) data t = (e, t') \<Longrightarrow> confined d t t'"
  by (auto simp: write_entry_def confined_def split: if_splits option.splits)

lemma extract_entry_confined:
  assumes "path_elements target = d @ r" and "extract_entry xf target k t = (e, t')"
  shows "confined d t t'"
proof (cases k)
  case (TarFile data)
  obtain e1 t1 where mk: "mkdir_all xf (butlast (d @ r)) t = (e1, t1)" by (metis surj_pair)
  note parent = mkdir_parent_confined [OF mk]
  show ?thesis
  proof (cases e1)
    case None
    with TarFile assms mk have "write_entry xf (d @ r) data t1 = (e, t')" by (simp add: extract_entry_def)
    with parent show ?thesis by (blast intro: confined_trans write_entry_confined)
  next
    case (Some x)
    with TarFile assms mk parent show ?thesis by (simp add: extract_entry_def)
  qed
qed (use assms mkdir_all_confined in \<open>auto simp: extract_entry_def\<close>)

lemma extract_items_confined:
  "is_abs dir \<Longrightarrow> extract_items xf dir items t = (e, t') \<Longrightarrow> confined (path_elements dir) t t'"
proof (induction xf dir items t rule: extract_items.induct)
  case (3 xf dir h items t)
  let ?target = "PathJoin [dir, te_name h]"
  show ?case
  proof (cases "is_abs (te_name h) \<or> has_dotdot (te_name h) \<or> \<not> inside dir ?target")
    case True
    with "3.prems" show ?thesis by (auto simp: Let_def split: if_splits)
  next
    case False
    obtain e1 t1 where x: "extract_entry xf ?target (te_kind h) t = (e1, t1)" by (metis surj_pair)
    have c: "confined (path_elements dir) t t1"
      using extract_entry_confined [OF target_elements x] "3.prems"(1) False by blast
    show ?thesis
    proof (cases e1)
      case None
      with False x "3.prems" have "extract_items xf dir items t1 = (e, t')" by (simp add: Let_def)
      with "3.IH" [OF refl refl] False x None "3.prems"(1) have "confined (path_elements dir) t1 t'" by auto
      with c show ?thesis by (rule confined_trans)
    next
      case (Some y)
      with False x "3.prems" c show ?thesis by (simp add: Let_def)
    qed
  qed
qed auto

lemma untar_items_confined:
  "is_abs dir \<Longrightarrow> untar_items xf dir items t = (e, t') \<Longrightarrow> confined (path_elements dir) t t'"
proof (induction xf dir items t rule: untar_items.induct)
  case (3 xf dir h items t)
  show ?case
  proof (cases "validateTarPath (te_name h)")
    case (Some x)
    with "3.prems" show ?thesis by simp
  next
    case None
    then have dots: "\<not> has_dotdot (te_name h)" by (auto simp: validateTarPath_def split: if_splits)
    obtain e1 t1 where x: "extract_entry xf (PathJoin [dir, te_name h]) (te_kind h) t = (e1, t1)" by (metis surj_pair)
    have c: "confined (path_elements dir) t t1"
      using extract_entry_confined [OF target_elements x] "3.prems"(1) dots by blast
    show ?thesis
    proof (cases e1)
      case None
      with \<open>validateTarPath (te_name h) = None\<close> x "3" c show ?thesis
        by (auto intro: confined_trans)
    next
      case (Some y)
      with None x "3.prems" c show ?thesis by simp
    qed
  qed
qed auto

subsection \<open>Restoring what was archived\<close>

text \<open>What a walk of a workspace is: names relative to it, without dot elements, each once,
  and only directories have anything below them.\<close>

definition entry_path :: "walk_entry \<Rightarrow> string list" where
  "entry_path e = Split (we_path e) (CHR ''/'')"

definition plain_entry :: "walk_entry \<Rightarrow> bool" where
  "plain_entry e \<longleftrightarrow> (\<forall>x\<in>set (entry_path e). x \<noteq> [] \<and> x \<noteq> ''.'' \<and> x \<noteq> ''..'')"

definition node_of :: "walk_entry \<Rightarrow> node option" where
  "node_of e = (case we_kind e of WalkDir \<Rightarrow> Some Dir | WalkFile data \<Rightarrow> Some (File data) | _ \<Rightarrow> None)"

definition is_walk :: "walk_entry list \<Rightarrow> bool" where
  "is_walk walk \<longleftrightarrow> distinct (map entry_path walk) \<and> list_all plain_entry walk \<and>
     (\<forall>e\<in>set walk. \<forall>e'\<in>set walk. below (entry_path e) (entry_path e') \<longrightarrow> e \<noteq> e' \<longrightarrow> we_kind e = WalkDir)"

text \<open>What extraction must not find in the way of an entry.\<close>

definition clear_path :: "tree \<Rightarrow> string list \<Rightarrow> node \<Rightarrow> bool" where
  "clear_path t p n \<longleftrightarrow>
     (\<forall>k<length p. \<forall>x. t (take k p) \<noteq> Some (File x)) \<and>
     (case n of Dir \<Rightarrow> (\<forall>x. t p \<noteq> Some (File x)) | File data \<Rightarrow> t p \<noteq> Some Dir)"

definition restores :: "string list \<Rightarrow> walk_entry list \<Rightarrow> tree \<Rightarrow> tree \<Rightarrow> bool" where
  "restores d walk t t' \<longleftrightarrow>
     (\<forall>e\<in>set walk. \<forall>n. node_of e = Some n \<longrightarrow> t' (d @ entry_path e) = Some n) \<and>
     (\<forall>q. t' q = t q \<or>
        (\<exists>e\<in>set walk. \<exists>n. node_of e = Some n \<and>
           (if q = d @ entry_path e then t' q = Some n else below q (d @ entry_path e) \<and> t' q = Some Dir)))"

lemma name_elements_entry: "plain_entry e \<Longrightarrow> name_elements (we_path e) = entry_path e"
  by (auto simp: name_elements_def plain_entry_def entry_path_def filter_id_conv)

lemma plain_no_dotdot: "plain_entry e \<Longrightarrow> \<not> has_dotdot (we_path e)"
  by (auto simp: has_dotdot_def plain_entry_def entry_path_def)

lemma plain_not_abs: "plain_entry e \<Longrightarrow> \<not> is_abs (we_path e)"
proof
  assume "plain_entry e" "is_abs (we_path e)"
  then obtain b where "we_path e = CHR ''/'' # b" by (cases "we_path e") (auto simp: is_abs_def HasPrefix_def)
  then have "[] \<in> set (entry_path e)"
    using Split_append [of "[]" "CHR ''/''" b] by (simp add: entry_path_def Split_single)
  with \<open>plain_entry e\<close> show False by (auto simp: plain_entry_def)
qed

lemma entry_path_not_Nil [simp]: "entry_path e \<noteq> []"
  by (simp add: entry_path_def Split.simps [of "we_path e"] split: option.split prod.split)

lemma mkdir_all_clear:
  assumes "\<forall>k\<le>length p. \<forall>x. t (take k p) \<noteq> Some (File x)"
  shows "mkdir_all Map.empty p t = (None, \<lambda>q. if below q p then Some Dir else t q)"
proof -
  have "\<not> list_ex (\<lambda>n. case t (take n p) of Some (File x) \<Rightarrow> True | _ \<Rightarrow> False) [0..<Suc (length p)]"
    using assms by (auto simp: list_ex_iff split: option.splits node.splits simp del: upt_Suc)
  then show ?thesis by (simp add: mkdir_all_def below_def del: upt_Suc)
qed

lemma below_prefix: "below d q \<longleftrightarrow> prefix d q"
  by (metis append_eq_conv_conj below_def prefix_def take_is_prefix)

lemma below_butlast:
  assumes "p \<noteq> []"
  shows "below q (butlast p) \<longleftrightarrow> below q p \<and> q \<noteq> p"
proof -
  obtain ps x where p: "p = ps @ [x]" using assms by (cases p rule: rev_cases) auto
  show ?thesis
    unfolding p below_prefix by (auto simp: prefix_snoc dest: prefix_length_le)
qed

lemma extract_entry_clear:
  assumes "path_elements target = p" "p \<noteq> []" "clear_path t p n"
    and "k = (case n of Dir \<Rightarrow> TarDir | File data \<Rightarrow> TarFile data)"
  shows "extract_entry Map.empty target k t =
     (None, \<lambda>q. if q = p then Some n else if below q p then Some Dir else t q)"
proof (cases n)
  case Dir
  have "\<forall>k\<le>length p. \<forall>x. t (take k p) \<noteq> Some (File x)"
    using assms(3) Dir by (auto simp: clear_path_def le_less)
  with Dir assms show ?thesis
    by (auto simp: extract_entry_def mkdir_all_clear below_def)
next
  case (File data)
  have "\<forall>k\<le>length (butlast p). \<forall>x. t (take k (butlast p)) \<noteq> Some (File x)"
  proof (intro allI impI)
    fix k x assume "k \<le> length (butlast p)"
    then have "k < length p" using assms(2) by (cases p) (auto split: if_splits)
    moreover from this have "take k (butlast p) = take k p" by (rule take_butlast)
    ultimately show "t (take k (butlast p)) \<noteq> Some (File x)" using assms(3) by (simp add: clear_path_def)
  qed
  with File assms show ?thesis
    by (auto simp: extract_entry_def mkdir_all_clear below_butlast write_entry_def clear_path_def)
qed

lemma tar_entry_untar:
  assumes "is_abs dir" and "plain_entry e" and "node_of e = Some n"
    and "clear_path t (path_elements dir @ entry_path e) n"
  shows "untar_items Map.empty dir (map Inr (entry_headers (e # es))) t =
     untar_items Map.empty dir (map Inr (entry_headers es))
       (\<lambda>q. if q = path_elements dir @ entry_path e then Some n
            else if below q (path_elements dir @ entry_path e) then Some Dir else t q)"
proof -
  have "path_elements (PathJoin [dir, we_path e]) = path_elements dir @ entry_path e"
    using target_elements plain_no_dotdot name_elements_entry assms(1,2) by metis
  moreover have "tar_kind_of (we_kind e) = (case n of Dir \<Rightarrow> TarDir | File data \<Rightarrow> TarFile data)"
    using assms(3) by (cases "we_kind e") (auto simp: node_of_def)
  ultimately have "extract_entry Map.empty (PathJoin [dir, we_path e]) (tar_kind_of (we_kind e)) t =
      (None, \<lambda>q. if q = path_elements dir @ entry_path e then Some n
            else if below q (path_elements dir @ entry_path e) then Some Dir else t q)"
    using assms(4) by (intro extract_entry_clear) auto
  moreover have "we_kind e \<noteq> WalkSocket" using assms(3) by (auto simp: node_of_def)
  ultimately show ?thesis
    using assms(2) by (simp add: entry_headers_def validateTarPath_def plain_not_abs plain_no_dotdot)
qed

lemma tar_entry_skipped:
  assumes "plain_entry e" and "node_of e = None"
  shows "untar_items Map.empty dir (map Inr (entry_headers (e # es))) t =
     untar_items Map.empty dir (map Inr (entry_headers es)) t"
  using assms by (cases "we_kind e")
    (simp_all add: entry_headers_def validateTarPath_def plain_not_abs plain_no_dotdot node_of_def
       extract_entry_def Let_def)

lemma is_walk_Cons: "is_walk (e # es) \<Longrightarrow> plain_entry e \<and> is_walk es"
  by (auto simp: is_walk_def)

lemma restores_Cons:
  assumes walk: "is_walk (e # es)" and n: "node_of e = Some n"
    and t1: "t1 = (\<lambda>q. if q = d @ entry_path e then Some n
        else if below q (d @ entry_path e) then Some Dir else t q)"
    and rest: "restores d es t1 t'"
  shows "restores d (e # es) t t'"
proof -
  let ?p = "d @ entry_path e"
  have other: "e' \<noteq> e" "entry_path e' \<noteq> entry_path e" if "e' \<in> set es" for e'
    using walk imageI [OF that, of entry_path] by (auto simp: is_walk_def)
  have dirs: "n = Dir" if "e' \<in> set es" "below ?p (d @ entry_path e')" for e'
  proof -
    have "below (entry_path e) (entry_path e')" using that(2) by (simp add: below_prefix)
    with walk that(1) other [OF that(1)] have "we_kind e = WalkDir" by (auto simp: is_walk_def)
    with n show ?thesis by (simp add: node_of_def)
  qed
  have here: "t' ?p = Some n"
  proof (cases "t' ?p = t1 ?p")
    case False
    with rest obtain e' n' where e': "e' \<in> set es" "node_of e' = Some n'"
        "if ?p = d @ entry_path e' then t' ?p = Some n' else below ?p (d @ entry_path e') \<and> t' ?p = Some Dir"
      unfolding restores_def by blast
    with other dirs show ?thesis by (auto split: if_splits)
  qed (simp add: t1)
  have frame: "t' q = t q \<or> (\<exists>x\<in>set (e # es). \<exists>m. node_of x = Some m \<and>
      (if q = d @ entry_path x then t' q = Some m else below q (d @ entry_path x) \<and> t' q = Some Dir))" for q
  proof (cases "q = ?p \<or> t' q \<noteq> t1 q")
    case True
    with here n rest show ?thesis unfolding restores_def by (metis list.set_intros)
  next
    case False
    with n show ?thesis by (auto simp: t1 split: if_splits)
  qed
  show ?thesis using rest here n frame by (auto simp: restores_def)
qed

lemma clear_path_after:
  assumes walk: "is_walk (e # es)" and n: "node_of e = Some n"
    and t1: "t1 = (\<lambda>q. if q = d @ entry_path e then Some n
        else if below q (d @ entry_path e) then Some Dir else t q)"
    and e': "e' \<in> set es" "node_of e' = Some n'" and clear: "clear_path t (d @ entry_path e') n'"
  shows "clear_path t1 (d @ entry_path e') n'"
proof -
  let ?p = "d @ entry_path e" and ?p' = "d @ entry_path e'"
  have other: "e' \<noteq> e" "?p' \<noteq> ?p" using walk imageI [OF e'(1), of entry_path] by (auto simp: is_walk_def)
  have up: "n = Dir" if "below ?p ?p'"
  proof -
    have "below (entry_path e) (entry_path e')" using that by (simp add: below_prefix)
    with walk e'(1) other(1) have "we_kind e = WalkDir" by (auto simp: is_walk_def)
    with n show ?thesis by (simp add: node_of_def)
  qed
  have down: "n' = Dir" if "below ?p' ?p"
  proof -
    have "below (entry_path e') (entry_path e)" using that by (simp add: below_prefix)
    with walk e'(1) other(1) have "we_kind e' = WalkDir" by (auto simp: is_walk_def)
    with e'(2) show ?thesis by (simp add: node_of_def)
  qed
  have "t1 (take k ?p') \<noteq> Some (File x)" if "k < length ?p'" for k x
  proof -
    have "below (take k ?p') ?p'" unfolding below_prefix by (rule take_is_prefix)
    with up clear that show ?thesis by (auto simp: t1 clear_path_def simp del: take_append)
  qed
  moreover have "case n' of Dir \<Rightarrow> \<forall>x. t1 ?p' \<noteq> Some (File x) | File data \<Rightarrow> t1 ?p' \<noteq> Some Dir"
    using other down clear by (cases n') (auto simp: t1 clear_path_def)
  ultimately show ?thesis by (simp add: clear_path_def)
qed

theorem untar_restores:
  assumes "is_abs dir" and "is_walk walk"
    and "\<forall>e\<in>set walk. \<forall>n. node_of e = Some n \<longrightarrow> clear_path t (path_elements dir @ entry_path e) n"
  shows "\<exists>t'. untar_items Map.empty dir (map Inr (entry_headers walk)) t = (None, t') \<and>
    restores (path_elements dir) walk t t'"
  using assms
proof (induction walk arbitrary: t)
  case Nil
  show ?case by (simp add: entry_headers_def restores_def)
next
  case (Cons e es)
  note plain = is_walk_Cons [OF Cons.prems(2)]
  show ?case
  proof (cases "node_of e")
    case None
    with Cons.IH [of t] Cons.prems plain tar_entry_skipped [OF conjunct1 [OF plain] None]
    show ?thesis by (auto simp: restores_def)
  next
    case (Some n)
    let ?t1 = "\<lambda>q. if q = path_elements dir @ entry_path e then Some n
            else if below q (path_elements dir @ entry_path e) then Some Dir else t q"
    have "\<forall>e'\<in>set es. \<forall>n'. node_of e' = Some n' \<longrightarrow> clear_path ?t1 (path_elements dir @ entry_path e') n'"
      using clear_path_after [OF Cons.prems(2) Some refl] Cons.prems(3) by simp
    with Cons.IH [of ?t1] Cons.prems(1) plain obtain t' where
      t': "untar_items Map.empty dir (map Inr (entry_headers es)) ?t1 = (None, t')"
        "restores (path_elements dir) es ?t1 t'" by auto
    have "untar_items Map.empty dir (map Inr (entry_headers (e # es))) t = (None, t')"
      using tar_entry_untar [OF Cons.prems(1) conjunct1 [OF plain] Some] Cons.prems(3) Some t'(1) by simp
    with restores_Cons [OF Cons.prems(2) Some refl t'(2)] show ?thesis by blast
  qed
qed

text \<open>The runner's extraction does the same on entries that pass its checks.\<close>

lemma extract_like_untar:
  assumes "untar_items xf dir (map Inr ts) t = (None, t')"
    and "\<forall>h\<in>set ts. \<not> is_abs (te_name h) \<and> \<not> has_dotdot (te_name h) \<and> inside dir (PathJoin [dir, te_name h])"
  shows "extract_items xf dir (map Inr ts) t = (None, t')"
  using assms
proof (induction ts arbitrary: t)
  case (Cons h ts)
  then show ?case
    by (cases "extract_entry xf (PathJoin [dir, te_name h]) (te_kind h) t")
      (auto simp: validateTarPath_def split: option.splits)
qed simp

lemma join_slash_append:
  "a \<noteq> [] \<Longrightarrow> b \<noteq> [] \<Longrightarrow> join_slash (a @ b) = join_slash a @ CHR ''/'' # join_slash b"
  by (induction a rule: join_slash.induct) (auto simp: neq_Nil_conv)

lemma join_inside:
  assumes "is_abs dir" and "Clean dir = dir" and "dir \<noteq> ''/''" and "plain_entry e"
  shows "inside dir (PathJoin [dir, we_path e])"
proof -
  have dir: "dir = CHR ''/'' # join_slash (path_elements dir)" using assms(1,2) by (simp add: Clean_def)
  with assms(3) have ne: "path_elements dir \<noteq> []" by auto
  have els: "path_elements (PathJoin [dir, we_path e]) = path_elements dir @ entry_path e"
    using target_elements plain_no_dotdot name_elements_entry assms(1,4) by metis
  obtain p where p: "PathJoin [dir, we_path e] = Clean p" "is_abs p"
    using assms(1) by (cases dir) (auto simp: PathJoin_def is_abs_def HasPrefix_def split: if_splits)
  then have "PathJoin [dir, we_path e] = CHR ''/'' # join_slash (path_elements dir @ entry_path e)"
    using els path_elements_Clean [OF p(2)] by (simp add: Clean_def)
  then have "PathJoin [dir, we_path e] = dir @ CHR ''/'' # join_slash (entry_path e)"
    using dir join_slash_append [OF ne entry_path_not_Nil [of e]] by simp
  then show ?thesis by (simp add: inside_def HasPrefix_def)
qed

text \<open>An archive that was created holds every entry of the walk but the sockets.\<close>

lemma archive_entries_headers: "archive_entries dir walk = Inr ts \<Longrightarrow> ts = entry_headers walk"
proof (induction walk arbitrary: ts)
  case (Cons e es)
  then obtain ts' where "archive_entries dir es = Inr ts'"
    by (cases "archive_entries dir es") (auto simp: Let_def split: walk_kind.splits if_splits)
  with Cons show ?case
    by (auto simp: entry_headers_def Let_def split: walk_kind.splits if_splits)
qed (simp add: entry_headers_def)

theorem extract_restores:
  assumes "is_abs dir" and "Clean dir = dir" and "dir \<noteq> ''/''" and "is_walk walk"
    and "\<forall>e\<in>set walk. \<forall>n. node_of e = Some n \<longrightarrow> clear_path t (path_elements dir @ entry_path e) n"
  shows "\<exists>t'. extract_items Map.empty dir (map Inr (entry_headers walk)) t = (None, t') \<and>
    restores (path_elements dir) walk t t'"
proof -
  obtain t' where "untar_items Map.empty dir (map Inr (entry_headers walk)) t = (None, t')"
    "restores (path_elements dir) walk t t'" using untar_restores [OF assms(1,4,5)] by blast
  moreover have "\<forall>h\<in>set (entry_headers walk). \<not> is_abs (te_name h) \<and> \<not> has_dotdot (te_name h) \<and>
      inside dir (PathJoin [dir, te_name h])"
    using assms(4) join_inside [OF assms(1-3)] plain_no_dotdot plain_not_abs
    by (auto simp: entry_headers_def is_walk_def list_all_iff)
  ultimately show ?thesis using extract_like_untar by blast
qed

end
