(* ===== verification/Checkpoints.thy ===== *)
theory Checkpoints
  imports ArtifactStore Archive
begin

text \<open>
  Checkpoints in an artifact store (\<open>internal/runner/checkpoint.go\<close>,
  \<open>internal/runner/restore.go\<close>): creation, the choice of the latest one, and its
  restoration. Checkpoints are ordered by attempt ordinal, then sequence number: the type
  \<open>ckpt_rank\<close>. \<open>sort.Slice\<close> is the parameter \<open>srt\<close>: some sorted permutation.
\<close>

datatype ckpt_rank = Rank (rank_ordinal: int) (rank_seq: int)

instantiation ckpt_rank :: linorder
begin

definition less_eq_ckpt_rank :: "ckpt_rank \<Rightarrow> ckpt_rank \<Rightarrow> bool" where
  "a \<le> b \<longleftrightarrow> rank_ordinal a < rank_ordinal b \<or> (rank_ordinal a = rank_ordinal b \<and> rank_seq a \<le> rank_seq b)"

definition less_ckpt_rank :: "ckpt_rank \<Rightarrow> ckpt_rank \<Rightarrow> bool" where
  "a < b \<longleftrightarrow> rank_ordinal a < rank_ordinal b \<or> (rank_ordinal a = rank_ordinal b \<and> rank_seq a < rank_seq b)"

instance
  by standard (auto simp: less_eq_ckpt_rank_def less_ckpt_rank_def ckpt_rank.expand)

end

record ckptEntry =
  ce_rank :: ckpt_rank
  ce_key :: string

definition checkpoint_prefix :: "string \<Rightarrow> uid \<Rightarrow> string" where
  "checkpoint_prefix ns jobUID = ns @ ''/'' @ jobUID @ ''/checkpoints/''"

definition checkpoint_file :: "int \<Rightarrow> string" where
  "checkpoint_file seq = ''ckpt-'' @ show_int seq @ ''.tar.gz''"

definition CreateCheckpoint ::
  "'s store \<Rightarrow> (tar_entry list \<Rightarrow> string) \<Rightarrow> string \<Rightarrow> uid \<Rightarrow> string \<Rightarrow> walk_entry list \<Rightarrow> int \<Rightarrow> int \<Rightarrow> 's \<Rightarrow>
   string option \<times> 's" where
  "CreateCheckpoint st pack ns jobUID workDir walk ordinal seq s =
     (case CreateArchive pack workDir 0 walk of
        Inl e \<Rightarrow> (Some (''checkpoint: create archive: '' @ e), s)
      | Inr data \<Rightarrow>
          (case st_put st (CheckpointKey ns jobUID ordinal (checkpoint_file seq)) (Inr data) (int (length data)) s of
             (Some e, s) \<Rightarrow> (Some (''checkpoint: upload: '' @ e), s)
           | (None, s) \<Rightarrow> (None, s)))"

text \<open>The periodic loop ignores failures and counts every tick.\<close>

fun checkpoint_ticks ::
  "'s store \<Rightarrow> (tar_entry list \<Rightarrow> string) \<Rightarrow> string \<Rightarrow> uid \<Rightarrow> string \<Rightarrow> int \<Rightarrow> int \<Rightarrow> walk_entry list list \<Rightarrow> 's \<Rightarrow> 's" where
  "checkpoint_ticks st pack ns jobUID workDir ordinal seq [] s = s"
| "checkpoint_ticks st pack ns jobUID workDir ordinal seq (walk # walks) s =
     checkpoint_ticks st pack ns jobUID workDir ordinal (i64 (seq + 1)) walks
       (snd (CreateCheckpoint st pack ns jobUID workDir walk ordinal seq s))"

definition parse_checkpoint_key :: "string \<Rightarrow> string \<Rightarrow> ckptEntry option" where
  "parse_checkpoint_key pfx k =
     (case SplitN (TrimPrefix k pfx) (CHR ''/'') 2 of
        [o_str, filename] \<Rightarrow>
          (case ParseInt 32 o_str of
             None \<Rightarrow> None
           | Some ord \<Rightarrow>
               (case Atoi (TrimSuffix (TrimPrefix filename ''ckpt-'') ''.tar.gz'') of
                  None \<Rightarrow> None
                | Some q \<Rightarrow> Some \<lparr>ce_rank = Rank ord q, ce_key = k\<rparr>))
      | _ \<Rightarrow> None)"

definition LatestCheckpoint ::
  "(ckptEntry list \<Rightarrow> ckptEntry list) \<Rightarrow> 's store \<Rightarrow> string \<Rightarrow> uid \<Rightarrow> 's \<Rightarrow> (string + (int \<times> string)) \<times> 's" where
  "LatestCheckpoint srt st ns jobUID s =
     (case st_list st (checkpoint_prefix ns jobUID) s of
        (Inl e, s) \<Rightarrow> (Inl (''checkpoint: list: '' @ e), s)
      | (Inr keys, s) \<Rightarrow>
          (Inr (case srt (List.map_filter (parse_checkpoint_key (checkpoint_prefix ns jobUID)) keys) of
                  [] \<Rightarrow> (- 1, [])
                | e # es \<Rightarrow> (rank_ordinal (ce_rank e), ce_key e)), s))"

definition RestoreCheckpoint ::
  "(ckptEntry list \<Rightarrow> ckptEntry list) \<Rightarrow> 's store \<Rightarrow> (string \<Rightarrow> string + (string + tar_entry) list) \<Rightarrow> fs_faults \<Rightarrow>
   string \<Rightarrow> uid \<Rightarrow> string \<Rightarrow> 's \<Rightarrow> tree \<Rightarrow> (string + int) \<times> 's \<times> tree" where
  "RestoreCheckpoint srt st unpack xf ns jobUID workDir s t =
     (case LatestCheckpoint srt st ns jobUID s of
        (Inl e, s) \<Rightarrow> (Inl (''restore: find latest: '' @ e), s, t)
      | (Inr (ordinal, key), s) \<Rightarrow>
          if ordinal < 0 then (Inr (- 1), s, t)
          else case st_get st key s of
            (Inl e, s) \<Rightarrow> (Inl (''restore: download checkpoint '' @ key @ '': '' @ e), s, t)
          | (Inr data, s) \<Rightarrow>
              (case ExtractArchive unpack xf workDir 0 data t of
                 (Some e, t) \<Rightarrow> (Inl (''restore: extract checkpoint: '' @ e), s, t)
               | (None, t) \<Rightarrow> (Inr ordinal, s, t)))"

subsection \<open>The latest checkpoint\<close>

definition sorts_checkpoints :: "(ckptEntry list \<Rightarrow> ckptEntry list) \<Rightarrow> bool" where
  "sorts_checkpoints srt \<longleftrightarrow>
     (\<forall>es. set (srt es) = set es \<and> sorted_wrt (\<lambda>a b. ce_rank b \<le> ce_rank a) (srt es))"

text \<open>A sort that satisfies it: insertion sort on the ranks, greatest first.\<close>

definition rank_sort :: "ckptEntry list \<Rightarrow> ckptEntry list" where
  "rank_sort es = rev (sort_key ce_rank es)"

lemma rank_sort: "sorts_checkpoints rank_sort"
proof -
  have "sorted_wrt (\<lambda>a b. ce_rank b \<le> ce_rank a) (rank_sort es)" for es
    using sorted_sort_key [of ce_rank es] unfolding rank_sort_def sorted_wrt_rev sorted_map .
  then show ?thesis by (simp add: sorts_checkpoints_def rank_sort_def)
qed

lemma parse_created:
  assumes "in_i32 ordinal" and "in_i64 seq"
  shows "parse_checkpoint_key (checkpoint_prefix ns j) (CheckpointKey ns j ordinal (checkpoint_file seq)) =
    Some \<lparr>ce_rank = Rank ordinal seq, ce_key = CheckpointKey ns j ordinal (checkpoint_file seq)\<rparr>"
proof -
  have key: "CheckpointKey ns j ordinal (checkpoint_file seq) =
      checkpoint_prefix ns j @ show_int ordinal @ CHR ''/'' # checkpoint_file seq"
    by (simp add: CheckpointKey_def checkpoint_prefix_def)
  have trim: "TrimPrefix (CheckpointKey ns j ordinal (checkpoint_file seq)) (checkpoint_prefix ns j) =
      show_int ordinal @ CHR ''/'' # checkpoint_file seq"
    unfolding key by (rule TrimPrefix_append)
  have "SplitN (show_int ordinal @ CHR ''/'' # checkpoint_file seq) (CHR ''/'') 2 = [show_int ordinal, checkpoint_file seq]"
    using cut_append [OF slash_notin_show_int, of ordinal "checkpoint_file seq"] by (simp add: numeral_2_eq_2)
  moreover have "TrimSuffix (TrimPrefix (checkpoint_file seq) ''ckpt-'') ''.tar.gz'' = show_int seq"
    unfolding checkpoint_file_def TrimPrefix_append TrimSuffix_append by (rule refl)
  moreover have "ParseInt 32 (show_int ordinal) = Some ordinal"
    using assms(1) by (intro ParseInt_show_int) (simp_all add: in_i32_def)
  moreover have "Atoi (show_int seq) = Some seq"
    using assms(2) unfolding Atoi_def by (intro ParseInt_show_int) (simp_all add: in_i64_def)
  ultimately show ?thesis using trim by (simp add: parse_checkpoint_key_def)
qed

lemma parse_checkpoint_key_key: "parse_checkpoint_key pfx k = Some e \<Longrightarrow> ce_key e = k"
  by (auto simp: parse_checkpoint_key_def split: list.splits option.splits)

lemma srt_first:
  assumes "sorts_checkpoints srt"
  shows "srt es = [] \<longleftrightarrow> es = []"
    and "srt es = e # rest \<Longrightarrow> e \<in> set es \<and> ce_rank e = Max (ce_rank ` set es)"
proof -
  have set: "set (srt es) = set es" and sorted: "sorted_wrt (\<lambda>a b. ce_rank b \<le> ce_rank a) (srt es)"
    using assms by (auto simp: sorts_checkpoints_def)
  then show "srt es = [] \<longleftrightarrow> es = []" by auto
  show "e \<in> set es \<and> ce_rank e = Max (ce_rank ` set es)" if "srt es = e # rest"
    using that set sorted by (auto intro!: Max_eqI [symmetric])
qed

text \<open>What is visible under the prefix, as entries.\<close>

definition checkpoint_entries :: "string \<Rightarrow> string list \<Rightarrow> ckptEntry list" where
  "checkpoint_entries pfx keys = List.map_filter (parse_checkpoint_key pfx) (filter (\<lambda>k. HasPrefix k pfx) keys)"

lemma checkpoint_entries_iff:
  "e \<in> set (checkpoint_entries pfx keys) \<longleftrightarrow>
     (\<exists>k\<in>set keys. HasPrefix k pfx \<and> parse_checkpoint_key pfx k = Some e)"
  by (auto simp: checkpoint_entries_def List.map_filter_def image_iff)

lemma HasPrefix_created: "HasPrefix (CheckpointKey ns j ordinal f) (checkpoint_prefix ns j)"
proof -
  have "CheckpointKey ns j ordinal f = checkpoint_prefix ns j @ show_int ordinal @ CHR ''/'' # f"
    by (simp add: CheckpointKey_def checkpoint_prefix_def)
  then show ?thesis by (metis HasPrefix_append)
qed

context artifact_store
begin

lemma latest_is_max:
  assumes "sorts_checkpoints srt" and "LatestCheckpoint srt st ns j s = (Inr (ordinal, key), s')"
  shows "view s' = view s"
    and "(key = [] \<and> ordinal = - 1 \<and>
         (\<forall>k. view s k \<noteq> None \<longrightarrow> HasPrefix k (checkpoint_prefix ns j) \<longrightarrow>
              parse_checkpoint_key (checkpoint_prefix ns j) k = None)) \<or>
       (\<exists>e. view s key \<noteq> None \<and> HasPrefix key (checkpoint_prefix ns j) \<and>
         parse_checkpoint_key (checkpoint_prefix ns j) key = Some e \<and> rank_ordinal (ce_rank e) = ordinal \<and>
         (\<forall>k e'. view s k \<noteq> None \<longrightarrow> HasPrefix k (checkpoint_prefix ns j) \<longrightarrow>
              parse_checkpoint_key (checkpoint_prefix ns j) k = Some e' \<longrightarrow> ce_rank e' \<le> ce_rank e))"
proof -
  let ?pfx = "checkpoint_prefix ns j"
  obtain keys where keys: "st_list st ?pfx s = (Inr keys, s')"
    using assms(2) by (auto simp: LatestCheckpoint_def split: prod.splits sum.splits)
  show "view s' = view s" using list_view [OF keys] .
  let ?es = "List.map_filter (parse_checkpoint_key ?pfx) keys"
  have es: "e \<in> set ?es \<longleftrightarrow> (\<exists>k. view s k \<noteq> None \<and> HasPrefix k ?pfx \<and> parse_checkpoint_key ?pfx k = Some e)" for e
    using list_ok [OF keys] by (auto simp: List.map_filter_def) force
  show "(key = [] \<and> ordinal = - 1 \<and>
         (\<forall>k. view s k \<noteq> None \<longrightarrow> HasPrefix k ?pfx \<longrightarrow> parse_checkpoint_key ?pfx k = None)) \<or>
       (\<exists>e. view s key \<noteq> None \<and> HasPrefix key ?pfx \<and>
         parse_checkpoint_key ?pfx key = Some e \<and> rank_ordinal (ce_rank e) = ordinal \<and>
         (\<forall>k e'. view s k \<noteq> None \<longrightarrow> HasPrefix k ?pfx \<longrightarrow>
              parse_checkpoint_key ?pfx k = Some e' \<longrightarrow> ce_rank e' \<le> ce_rank e))"
  proof (cases "srt ?es")
    case Nil
    then have "?es = []" using srt_first(1) [OF assms(1)] by simp
    with es have "\<forall>k. view s k \<noteq> None \<longrightarrow> HasPrefix k ?pfx \<longrightarrow> parse_checkpoint_key ?pfx k = None"
      by (metis empty_iff list.set(1) not_None_eq)
    with assms(2) keys Nil show ?thesis by (simp add: LatestCheckpoint_def)
  next
    case (Cons e rest)
    note first = srt_first(2) [OF assms(1) Cons]
    have "ce_rank e' \<le> ce_rank e" if "e' \<in> set ?es" for e' using first that by simp
    moreover from assms(2) keys Cons have res: "ordinal = rank_ordinal (ce_rank e)" "key = ce_key e"
      by (auto simp: LatestCheckpoint_def)
    moreover obtain k where k: "view s k \<noteq> None" "HasPrefix k ?pfx" "parse_checkpoint_key ?pfx k = Some e"
      using first es by blast
    moreover have "k = key" using res(2) parse_checkpoint_key_key [OF k(3)] by simp
    ultimately show ?thesis using es by blast
  qed
qed

end

lemma memory_latest_max:
  fixes s :: memory
  assumes "sorts_checkpoints srt"
  shows "let es = checkpoint_entries (checkpoint_prefix ns j) (map fst s)
    in if es = [] then LatestCheckpoint srt MemoryStore ns j s = (Inr (- 1, []), s)
       else \<exists>e\<in>set es. LatestCheckpoint srt MemoryStore ns j s = (Inr (rank_ordinal (ce_rank e), ce_key e), s) \<and>
         ce_rank e = Max (ce_rank ` set es) \<and> map_of s (ce_key e) \<noteq> None"
proof -
  let ?pfx = "checkpoint_prefix ns j"
  let ?es = "List.map_filter (parse_checkpoint_key ?pfx) (sort (filter (\<lambda>k. HasPrefix k ?pfx) (map fst s)))"
  let ?all = "checkpoint_entries ?pfx (map fst s)"
  have list: "st_list MemoryStore ?pfx s = (Inr (sort (filter (\<lambda>k. HasPrefix k ?pfx) (map fst s))), s)"
    by (simp add: MemoryStore_defs)
  have set: "set ?es = set ?all" by (simp add: checkpoint_entries_def List.map_filter_def)
  show ?thesis
  proof (cases "srt ?es")
    case Nil
    then have "?all = []" using srt_first(1) [OF assms] set by (metis set_empty)
    with Nil list show ?thesis by (simp add: LatestCheckpoint_def)
  next
    case (Cons e rest)
    have e: "e \<in> set ?all" "ce_rank e = Max (ce_rank ` set ?all)" using srt_first(2) [OF assms Cons] set by simp_all
    then obtain k where "k \<in> set (map fst s)" "parse_checkpoint_key ?pfx k = Some e"
      by (auto simp: checkpoint_entries_iff)
    then have view: "map_of s (ce_key e) \<noteq> None" using parse_checkpoint_key_key [of ?pfx k e] by (simp add: map_of_eq_None_iff)
    have answer: "LatestCheckpoint srt MemoryStore ns j s = (Inr (rank_ordinal (ce_rank e), ce_key e), s)"
      using list Cons by (simp add: LatestCheckpoint_def)
    have ne: "?all \<noteq> []" using e(1) by auto
    show ?thesis unfolding Let_def if_not_P [OF ne]
      by (rule bexI [of _ e]) (use view answer e in blast)+
  qed
qed

end
