(* ===== verification/JsonIndent.thy ===== *)
theory JsonIndent
  imports Json
begin

text \<open>
  \<open>json.MarshalIndent\<close> of a flat object with the indentation of two blanks the program
  uses. A decoder skips blanks between tokens: \<open>compact\<close> removes those outside string
  literals, as \<open>json.Compact\<close> does, and \<open>parse_object\<close> reads the rest.
\<close>

definition is_blank :: "char \<Rightarrow> bool" where
  "is_blank c \<longleftrightarrow> c = CHR '' '' \<or> c = CHR 0x09 \<or> c = newline \<or> c = CHR 0x0D"

datatype lex_mode = Outside | InString | AfterBackslash

fun lex_step :: "lex_mode \<Rightarrow> char \<Rightarrow> lex_mode" where
  "lex_step Outside c = (if c = quote_char then InString else Outside)"
| "lex_step InString c = (if c = quote_char then Outside else if c = backslash then AfterBackslash else InString)"
| "lex_step AfterBackslash c = InString"

fun compact_from :: "lex_mode \<Rightarrow> string \<Rightarrow> string" where
  "compact_from m [] = []"
| "compact_from m (c # cs) =
     (if m = Outside \<and> is_blank c then compact_from m cs else c # compact_from (lex_step m c) cs)"

definition compact :: "string \<Rightarrow> string" where
  "compact s = compact_from Outside s"

definition indented_member :: "string \<times> json \<Rightarrow> string" where
  "indented_member m = newline # ''  '' @ quote (fst m) @ '': '' @ render_value (snd m)"

fun indented_members :: "(string \<times> json) list \<Rightarrow> string" where
  "indented_members [] = ''}''"
| "indented_members [m] = indented_member m @ newline # ''}''"
| "indented_members (m # ms) = indented_member m @ CHR '','' # indented_members ms"

definition render_indented :: "(string \<times> json) list \<Rightarrow> string" where
  "render_indented ms = CHR ''{'' # indented_members ms"

subsection \<open>Compacting an indented object\<close>

lemma compact_escape:
  "compact_from InString (escape_char c @ rest) = escape_char c @ compact_from InString rest"
proof (cases "map_of short_escapes c")
  case (Some e)
  then show ?thesis by (simp add: escape_char_def)
next
  case None
  then have plain: "c \<noteq> quote_char" "c \<noteq> backslash" by (auto simp: short_escapes_def split: if_splits)
  have "hex_digit d \<noteq> quote_char \<and> hex_digit d \<noteq> backslash" if "d < 16" for d
    using that by (auto simp: hex_digit_def less_Suc_eq numeral_eq_Suc nth_Cons')
  moreover have "(of_char c :: nat) div 16 < 16"
    by (rule less_mult_imp_div_less) simp
  ultimately show ?thesis using None plain by (simp add: escape_char_def)
qed

lemma compact_quoted:
  "compact_from Outside (quote s @ rest) = quote s @ compact_from Outside rest"
proof -
  have "compact_from InString (concat (map escape_char s) @ quote_char # rest) =
      concat (map escape_char s) @ quote_char # compact_from Outside rest"
    by (induction s) (simp_all add: compact_escape)
  then show ?thesis by (simp add: quote_def is_blank_def)
qed

lemma compact_plain:
  "\<forall>c\<in>set s. \<not> is_blank c \<and> c \<noteq> quote_char \<Longrightarrow> compact_from Outside (s @ rest) = s @ compact_from Outside rest"
  by (induction s) auto

lemma compact_value: "compact_from Outside (render_value v @ rest) = render_value v @ compact_from Outside rest"
proof (cases v)
  case (JInt i)
  have "\<forall>c\<in>set number_chars. \<not> is_blank c \<and> c \<noteq> quote_char" by (simp add: number_chars_def is_blank_def)
  with show_int_chars [of i] have "\<forall>c\<in>set (show_int i). \<not> is_blank c \<and> c \<noteq> quote_char" by blast
  with JInt show ?thesis by (simp add: render_value_def compact_plain)
qed (simp add: render_value_def compact_quoted)

lemma compact_member:
  "compact_from Outside (indented_member m @ rest) = render_member m @ compact_from Outside rest"
  by (simp add: indented_member_def render_member_def is_blank_def compact_quoted compact_value)

lemma compact_members: "compact_from Outside (indented_members ms) = render_members ms"
  by (induction ms rule: render_members.induct) (simp_all add: compact_member is_blank_def)

lemma compact_indented: "compact (render_indented ms) = render_object ms"
  by (simp add: compact_def render_indented_def render_object_def compact_members is_blank_def)

theorem parse_indented_object:
  "ms \<noteq> [] \<Longrightarrow> \<forall>m\<in>set ms. fits (snd m) \<Longrightarrow> parse_object (compact (render_indented ms)) = Some ms"
  by (simp add: compact_indented parse_render_object)

end
