(* ===== verification/FsCheckpoint.thy ===== *)
theory FsCheckpoint
  imports Archive JsonIndent
begin

text \<open>
  The filesystem checkpoint store (\<open>internal/checkpoint/store.go\<close>,
  \<open>internal/checkpoint/fs.go\<close>). Its volume and the workspace volume are two trees, as
  the Pod mounts them. A save is a sequence of system calls, each of which a fault may
  stop: what a failed save leaves behind is also what a crash at that call leaves. The
  file digest is the parameter \<open>sha\<close>, the tar reader the parameter \<open>unpack\<close>. Manifests
  carry no completed steps: no caller sets them.
\<close>

record ckpt_manifest =
  mf_SchemaVersion :: int
  mf_JobName :: string
  mf_AttemptNumber :: int
  mf_CheckpointSeq :: int
  mf_SHA256 :: string
  mf_CreatedAt :: string

definition manifest_members :: "ckpt_manifest \<Rightarrow> (string \<times> json) list" where
  "manifest_members m =
     [(''schemaVersion'', JInt (mf_SchemaVersion m)), (''jobName'', JStr (mf_JobName m)),
      (''attemptNumber'', JInt (mf_AttemptNumber m)), (''checkpointSeq'', JInt (mf_CheckpointSeq m)),
      (''sha256'', JStr (mf_SHA256 m)), (''createdAt'', JStr (mf_CreatedAt m))]"

definition MarshalManifest :: "ckpt_manifest \<Rightarrow> string" where
  "MarshalManifest m = render_indented (manifest_members m)"

definition blank_manifest :: ckpt_manifest where
  "blank_manifest = \<lparr>mf_SchemaVersion = 0, mf_JobName = [], mf_AttemptNumber = 0, mf_CheckpointSeq = 0,
     mf_SHA256 = [], mf_CreatedAt = []\<rparr>"

fun set_manifest_member :: "string \<times> json \<Rightarrow> ckpt_manifest \<Rightarrow> ckpt_manifest option" where
  "set_manifest_member (k, JInt i) m =
     (if k = ''schemaVersion'' then Some (m\<lparr>mf_SchemaVersion := i\<rparr>)
      else if k = ''attemptNumber'' then Some (m\<lparr>mf_AttemptNumber := i\<rparr>)
      else if k = ''checkpointSeq'' then Some (m\<lparr>mf_CheckpointSeq := i\<rparr>)
      else if k \<in> {''jobName'', ''sha256'', ''createdAt'', ''completedSteps''} then None else Some m)"
| "set_manifest_member (k, JStr s) m =
     (if k = ''jobName'' then Some (m\<lparr>mf_JobName := s\<rparr>)
      else if k = ''sha256'' then Some (m\<lparr>mf_SHA256 := s\<rparr>)
      else if k = ''createdAt'' then Some (m\<lparr>mf_CreatedAt := s\<rparr>)
      else if k \<in> {''schemaVersion'', ''attemptNumber'', ''checkpointSeq'', ''completedSteps''} then None else Some m)"

fun set_manifest_members :: "(string \<times> json) list \<Rightarrow> ckpt_manifest \<Rightarrow> ckpt_manifest option" where
  "set_manifest_members [] m = Some m"
| "set_manifest_members (x # xs) m =
     (case set_manifest_member x m of None \<Rightarrow> None | Some m \<Rightarrow> set_manifest_members xs m)"

definition UnmarshalManifest :: "string \<Rightarrow> ckpt_manifest option" where
  "UnmarshalManifest data =
     (case parse_object (compact data) of None \<Rightarrow> None | Some ms \<Rightarrow> set_manifest_members ms blank_manifest)"

definition fits_manifest :: "ckpt_manifest \<Rightarrow> bool" where
  "fits_manifest m \<longleftrightarrow> in_i64 (mf_SchemaVersion m) \<and> in_i64 (mf_AttemptNumber m) \<and> in_i64 (mf_CheckpointSeq m)"

lemma unmarshal_manifest [simp]: "fits_manifest m \<Longrightarrow> UnmarshalManifest (MarshalManifest m) = Some m"
proof -
  assume "fits_manifest m"
  then have "parse_object (compact (render_indented (manifest_members m))) = Some (manifest_members m)"
    by (intro parse_indented_object) (auto simp: manifest_members_def fits_manifest_def)
  moreover have "set_manifest_members (manifest_members m) blank_manifest = Some m"
    by (cases m) (simp add: manifest_members_def blank_manifest_def)
  ultimately show ?thesis by (simp add: UnmarshalManifest_def MarshalManifest_def)
qed

subsection \<open>The files of a job\<close>

definition jobDir :: "string \<Rightarrow> string \<Rightarrow> string" where
  "jobDir baseDir jobName = PathJoin [baseDir, jobName]"

definition ckptDir :: "string \<Rightarrow> string \<Rightarrow> int \<Rightarrow> string" where
  "ckptDir baseDir jobName seq = PathJoin [jobDir baseDir jobName, ''ckpt-'' @ show_int seq]"

definition workspace_path :: "string \<Rightarrow> string \<Rightarrow> int \<Rightarrow> string list" where
  "workspace_path baseDir jobName seq = path_elements (PathJoin [ckptDir baseDir jobName seq, ''workspace.tar.gz''])"

definition manifest_path :: "string \<Rightarrow> string \<Rightarrow> int \<Rightarrow> string list" where
  "manifest_path baseDir jobName seq = path_elements (PathJoin [ckptDir baseDir jobName seq, ''manifest.json''])"

definition latest_path :: "string \<Rightarrow> string \<Rightarrow> string list" where
  "latest_path baseDir jobName = path_elements (PathJoin [jobDir baseDir jobName, ''LATEST''])"

text \<open>Write a whole file and flush it; it is truncated first.\<close>

definition writeAndSync :: "fs_faults \<Rightarrow> string list \<Rightarrow> string \<Rightarrow> tree \<Rightarrow> string option \<times> tree" where
  "writeAndSync xf p data t =
     (if xf (FsCreate p) \<noteq> None \<or> t p = Some Dir then (Some ''create'', t)
      else case xf (FsWrite p) of
        Some n \<Rightarrow> (Some ''write'', t(p \<mapsto> File (take n data)))
      | None \<Rightarrow>
          (if xf (FsSync p) \<noteq> None then Some ''sync''
           else if xf (FsClose p) \<noteq> None then Some ''close'' else None, t(p \<mapsto> File data)))"

datatype read_outcome = ReadMissing | ReadFailed | ReadData string

definition ReadFile :: "fs_faults \<Rightarrow> string list \<Rightarrow> tree \<Rightarrow> read_outcome" where
  "ReadFile xf p t =
     (if xf (FsRead p) \<noteq> None then ReadFailed
      else case t p of None \<Rightarrow> ReadMissing | Some Dir \<Rightarrow> ReadFailed | Some (File data) \<Rightarrow> ReadData data)"

definition file_digest :: "(string \<Rightarrow> string) \<Rightarrow> string \<Rightarrow> string" where
  "file_digest sha data = ''sha256:'' @ sha data"

definition HashFile :: "(string \<Rightarrow> string) \<Rightarrow> fs_faults \<Rightarrow> string list \<Rightarrow> tree \<Rightarrow> string + string" where
  "HashFile sha xf p t =
     (case ReadFile xf p t of
        ReadData data \<Rightarrow> Inr (file_digest sha data)
      | _ \<Rightarrow> Inl ''checkpoint: open for hash'')"

definition FSStore_Save ::
  "(string \<Rightarrow> string) \<Rightarrow> fs_faults \<Rightarrow> string \<Rightarrow> string \<Rightarrow> int \<Rightarrow> ckpt_manifest \<Rightarrow> string \<Rightarrow> tree \<Rightarrow>
   string option \<times> tree" where
  "FSStore_Save sha xf baseDir jobName seq m workspace t =
     (case mkdir_all xf (path_elements (ckptDir baseDir jobName seq)) t of
        (Some e, t) \<Rightarrow> (Some ''checkpoint: mkdir'', t)
      | (None, t) \<Rightarrow>
     (case writeAndSync xf (workspace_path baseDir jobName seq) workspace t of
        (Some e, t) \<Rightarrow> (Some (''checkpoint: write workspace: '' @ e), t)
      | (None, t) \<Rightarrow>
     (case HashFile sha xf (workspace_path baseDir jobName seq) t of
        Inl e \<Rightarrow> (Some (''checkpoint: hash workspace: '' @ e), t)
      | Inr hash \<Rightarrow>
     (case writeAndSync xf (manifest_path baseDir jobName seq) (MarshalManifest (m\<lparr>mf_SHA256 := hash\<rparr>)) t of
        (Some e, t) \<Rightarrow> (Some (''checkpoint: write manifest: '' @ e), t)
      | (None, t) \<Rightarrow>
     (case writeAndSync xf (latest_path baseDir jobName) (show_int seq) t of
        (Some e, t) \<Rightarrow> (Some (''checkpoint: write LATEST: '' @ e), t)
      | (None, t) \<Rightarrow> (None, t))))))"

subsection \<open>Reading back\<close>

definition readLatestSeq :: "fs_faults \<Rightarrow> string \<Rightarrow> string \<Rightarrow> tree \<Rightarrow> string + int" where
  "readLatestSeq xf baseDir jobName t =
     (case ReadFile xf (latest_path baseDir jobName) t of
        ReadMissing \<Rightarrow> Inr (- 1)
      | ReadFailed \<Rightarrow> Inl ''checkpoint: read LATEST''
      | ReadData data \<Rightarrow>
          (case Atoi (TrimSpace data) of None \<Rightarrow> Inl ''checkpoint: parse LATEST'' | Some seq \<Rightarrow> Inr seq))"

definition readManifest :: "fs_faults \<Rightarrow> string list \<Rightarrow> tree \<Rightarrow> string + ckpt_manifest" where
  "readManifest xf p t =
     (case ReadFile xf p t of
        ReadData data \<Rightarrow>
          (case UnmarshalManifest data of None \<Rightarrow> Inl ''checkpoint: unmarshal manifest'' | Some m \<Rightarrow> Inr m)
      | _ \<Rightarrow> Inl ''checkpoint: read manifest.json'')"

definition RestoreLatest ::
  "(string \<Rightarrow> string) \<Rightarrow> (string \<Rightarrow> string + (string + tar_entry) list) \<Rightarrow> fs_faults \<Rightarrow> string \<Rightarrow> string \<Rightarrow> tree \<Rightarrow>
   string \<Rightarrow> tree \<Rightarrow> (string + ckpt_manifest option) \<times> tree" where
  "RestoreLatest sha unpack xf baseDir jobName t destDir ws =
     (case readLatestSeq xf baseDir jobName t of
        Inl e \<Rightarrow> (Inl e, ws)
      | Inr seq \<Rightarrow>
          if seq < 0 then (Inr None, ws)
          else case readManifest xf (manifest_path baseDir jobName seq) t of
            Inl e \<Rightarrow> (Inl (''checkpoint: read manifest seq '' @ show_int seq @ '': '' @ e), ws)
          | Inr m \<Rightarrow>
              (case HashFile sha xf (workspace_path baseDir jobName seq) t of
                 Inl e \<Rightarrow> (Inl (''checkpoint: hash workspace seq '' @ show_int seq @ '': '' @ e), ws)
               | Inr hash \<Rightarrow>
                   if hash \<noteq> mf_SHA256 m
                   then (Inl (''checkpoint: integrity check failed for seq '' @ show_int seq), ws)
                   else case ReadFile xf (workspace_path baseDir jobName seq) t of
                     ReadData data \<Rightarrow>
                       (case UntarWorkspace unpack xf destDir data ws of
                          (Some e, ws) \<Rightarrow> (Inl (''checkpoint: untar workspace seq '' @ show_int seq @ '': '' @ e), ws)
                        | (None, ws) \<Rightarrow> (Inr (Some m), ws))
                   | _ \<Rightarrow> (Inl (''checkpoint: open workspace seq '' @ show_int seq), ws)))"

definition GetLatestManifest ::
  "fs_faults \<Rightarrow> string \<Rightarrow> string \<Rightarrow> tree \<Rightarrow> string + ckpt_manifest option" where
  "GetLatestManifest xf baseDir jobName t =
     (case readLatestSeq xf baseDir jobName t of
        Inl e \<Rightarrow> Inl e
      | Inr seq \<Rightarrow>
          if seq < 0 then Inr None
          else case readManifest xf (manifest_path baseDir jobName seq) t of
            Inl e \<Rightarrow> Inl (''checkpoint: read manifest seq '' @ show_int seq @ '': '' @ e)
          | Inr m \<Rightarrow> Inr (Some m))"

subsection \<open>The paths are apart\<close>

lemma is_abs_join: "is_abs dir \<Longrightarrow> is_abs (PathJoin [dir, name])"
  by (cases dir) (auto simp: is_abs_def HasPrefix_def PathJoin_def Clean_def Let_def)

lemma ckpt_name: "\<not> has_dotdot (''ckpt-'' @ show_int seq)"
    "name_elements (''ckpt-'' @ show_int seq) = [''ckpt-'' @ show_int seq]"
proof -
  have "Split (''ckpt-'' @ show_int seq) (CHR ''/'') = [''ckpt-'' @ show_int seq]"
    by (rule Split_single) (use slash_notin_show_int [of seq] in simp)
  then show "\<not> has_dotdot (''ckpt-'' @ show_int seq)" "name_elements (''ckpt-'' @ show_int seq) = [''ckpt-'' @ show_int seq]"
    by (simp_all add: has_dotdot_def name_elements_def)
qed

lemma file_names [simp]:
  "\<not> has_dotdot ''workspace.tar.gz''" "\<not> has_dotdot ''manifest.json''" "\<not> has_dotdot ''LATEST''"
  "name_elements ''workspace.tar.gz'' = [''workspace.tar.gz'']" "name_elements ''manifest.json'' = [''manifest.json'']"
  "name_elements ''LATEST'' = [''LATEST'']"
  by (simp_all add: has_dotdot_def name_elements_def Split_single)

lemma job_paths:
  assumes "is_abs b" and "\<not> has_dotdot j"
  shows "path_elements (ckptDir b j seq) = path_elements b @ name_elements j @ [''ckpt-'' @ show_int seq]"
    and "workspace_path b j seq = path_elements b @ name_elements j @ [''ckpt-'' @ show_int seq, ''workspace.tar.gz'']"
    and "manifest_path b j seq = path_elements b @ name_elements j @ [''ckpt-'' @ show_int seq, ''manifest.json'']"
    and "latest_path b j = path_elements b @ name_elements j @ [''LATEST'']"
proof -
  note abs = is_abs_join [OF assms(1), of j]
  have job: "path_elements (jobDir b j) = path_elements b @ name_elements j"
    using target_elements [OF assms] by (simp add: jobDir_def)
  show dir: "path_elements (ckptDir b j seq) = path_elements b @ name_elements j @ [''ckpt-'' @ show_int seq]"
    using target_elements [OF abs ckpt_name(1)] job
    unfolding ckptDir_def jobDir_def ckpt_name(2) append_assoc by simp
  have abs2: "is_abs (ckptDir b j seq)" using abs is_abs_join unfolding ckptDir_def jobDir_def by blast
  show "workspace_path b j seq = path_elements b @ name_elements j @ [''ckpt-'' @ show_int seq, ''workspace.tar.gz'']"
    and "manifest_path b j seq = path_elements b @ name_elements j @ [''ckpt-'' @ show_int seq, ''manifest.json'']"
    using target_elements [OF abs2, of "''workspace.tar.gz''"] target_elements [OF abs2, of "''manifest.json''"] dir
    by (simp_all add: workspace_path_def manifest_path_def)
  show "latest_path b j = path_elements b @ name_elements j @ [''LATEST'']"
    using target_elements [of "jobDir b j" "''LATEST''"] abs job by (simp add: latest_path_def jobDir_def)
qed

lemma paths_apart:
  assumes "is_abs b" and "\<not> has_dotdot j"
  shows "workspace_path b j s \<noteq> manifest_path b j s'" "workspace_path b j s \<noteq> latest_path b j"
    "manifest_path b j s \<noteq> latest_path b j"
    "workspace_path b j s = workspace_path b j s' \<longleftrightarrow> s = s'" "manifest_path b j s = manifest_path b j s' \<longleftrightarrow> s = s'"
    "\<not> below (workspace_path b j s) (path_elements (ckptDir b j s'))"
    "\<not> below (manifest_path b j s) (path_elements (ckptDir b j s'))"
    "\<not> below (latest_path b j) (path_elements (ckptDir b j s'))"
  using assms by (auto simp: job_paths below_prefix)

subsection \<open>What a save changes\<close>

lemma mkdir_all_other: "mkdir_all xf p t = (e, t') \<Longrightarrow> \<not> below q p \<Longrightarrow> t' q = t q"
  by (auto simp: mkdir_all_def below_def split: if_splits)

lemma writeAndSync_other: "writeAndSync xf p data t = (e, t') \<Longrightarrow> q \<noteq> p \<Longrightarrow> t' q = t q"
  by (auto simp: writeAndSync_def split: if_splits option.splits)

lemma writeAndSync_done: "writeAndSync xf p data t = (None, t') \<Longrightarrow> t' = t(p \<mapsto> File data)"
  by (auto simp: writeAndSync_def split: if_splits option.splits)

lemma writeAndSync_create: "writeAndSync xf p data t = (Some e, t') \<Longrightarrow>
    xf (FsWrite p) = None \<Longrightarrow> xf (FsSync p) = None \<Longrightarrow> xf (FsClose p) = None \<Longrightarrow> t' = t"
  by (auto simp: writeAndSync_def split: if_splits)

lemma HashFile_ok: "HashFile sha xf p t = Inr h \<Longrightarrow> \<exists>data. t p = Some (File data) \<and> h = file_digest sha data"
  by (auto simp: HashFile_def ReadFile_def split: if_splits option.splits node.splits read_outcome.splits)

text \<open>The steps of a save, each with the tree it leaves.\<close>

lemma save_cases:
  assumes "FSStore_Save sha xf b j s m data t = (r, t')"
  obtains (mkdir) e where "mkdir_all xf (path_elements (ckptDir b j s)) t = (Some e, t')" "r \<noteq> None"
  | (work) t1 e where "mkdir_all xf (path_elements (ckptDir b j s)) t = (None, t1)"
      "writeAndSync xf (workspace_path b j s) data t1 = (Some e, t')" "r \<noteq> None"
  | (hash) t1 e where "mkdir_all xf (path_elements (ckptDir b j s)) t = (None, t1)"
      "writeAndSync xf (workspace_path b j s) data t1 = (None, t')" "r \<noteq> None"
  | (man) t1 t2 e m' where "mkdir_all xf (path_elements (ckptDir b j s)) t = (None, t1)"
      "writeAndSync xf (workspace_path b j s) data t1 = (None, t2)"
      "writeAndSync xf (manifest_path b j s) m' t2 = (Some e, t')" "r \<noteq> None"
  | (latest) t1 t2 t3 where "mkdir_all xf (path_elements (ckptDir b j s)) t = (None, t1)"
      "writeAndSync xf (workspace_path b j s) data t1 = (None, t2)"
      "writeAndSync xf (manifest_path b j s) (MarshalManifest (m\<lparr>mf_SHA256 := file_digest sha data\<rparr>)) t2 = (None, t3)"
      "\<exists>e. writeAndSync xf (latest_path b j) (show_int s) t3 = (e, t') \<and> (r = None \<longleftrightarrow> e = None)"
proof -
  obtain e1 t1 where 1: "mkdir_all xf (path_elements (ckptDir b j s)) t = (e1, t1)" by (metis surj_pair)
  obtain e2 t2 where 2: "writeAndSync xf (workspace_path b j s) data t1 = (e2, t2)" by (metis surj_pair)
  show thesis
  proof (cases "e1 = None \<and> e2 = None")
    case False
    with assms 1 2 mkdir work show thesis by (auto simp: FSStore_Save_def split: option.splits)
  next
    case True
    note t2 = writeAndSync_done [OF 2 [unfolded conjunct2 [OF True]]]
    show thesis
    proof (cases "HashFile sha xf (workspace_path b j s) t2")
      case (Inl x)
      with assms 1 2 True hash show thesis by (simp add: FSStore_Save_def) (metis option.distinct(1))
    next
      case (Inr h)
      then have h: "h = file_digest sha data" using HashFile_ok [OF Inr] t2 by simp
      obtain e3 t3 where 3: "writeAndSync xf (manifest_path b j s) (MarshalManifest (m\<lparr>mf_SHA256 := h\<rparr>)) t2 = (e3, t3)"
        by (metis surj_pair)
      obtain e4 t4 where 4: "writeAndSync xf (latest_path b j) (show_int s) t3 = (e4, t4)" by (metis surj_pair)
      show thesis
      proof (cases e3)
        case None
        with assms 1 2 3 4 True Inr have "t4 = t'" "r = None \<longleftrightarrow> e4 = None"
          by (auto simp: FSStore_Save_def split: option.splits)
        with 1 2 3 4 True None h latest show thesis by blast
      next
        case (Some x)
        with assms 1 2 3 True Inr have "t3 = t'" "r \<noteq> None" by (auto simp: FSStore_Save_def)
        with 1 2 3 True Some man show thesis by blast
      qed
    qed
  qed
qed

text \<open>The three files of a finished save.\<close>

lemma save_done:
  assumes "is_abs b" and "\<not> has_dotdot j" and "FSStore_Save sha xf b j s m data t = (None, t')"
  shows "t' (workspace_path b j s) = Some (File data)"
    and "t' (manifest_path b j s) = Some (File (MarshalManifest (m\<lparr>mf_SHA256 := file_digest sha data\<rparr>)))"
    and "t' (latest_path b j) = Some (File (show_int s))"
  using assms(3)
proof (atomize (full), cases rule: save_cases)
  case (latest t1 t2 t3)
  note apart = paths_apart [OF assms(1,2)]
  from latest(4) have l: "writeAndSync xf (latest_path b j) (show_int s) t3 = (None, t')" by auto
  note steps = writeAndSync_done [OF latest(2)] writeAndSync_done [OF latest(3)] writeAndSync_done [OF l]
  show "t' (workspace_path b j s) = Some (File data) \<and>
    t' (manifest_path b j s) = Some (File (MarshalManifest (m\<lparr>mf_SHA256 := file_digest sha data\<rparr>))) \<and>
    t' (latest_path b j) = Some (File (show_int s))"
    unfolding steps using apart(1-3) by (simp add: not_sym)
qed auto

text \<open>A save leaves the archives and manifests of other sequence numbers alone.\<close>

lemma save_other:
  assumes "is_abs b" and "\<not> has_dotdot j" and "FSStore_Save sha xf b j s m data t = (r, t')" and "s' \<noteq> s"
  shows "t' (workspace_path b j s') = t (workspace_path b j s')"
    and "t' (manifest_path b j s') = t (manifest_path b j s')"
proof -
  note apart = paths_apart [OF assms(1,2)]
  have other: "t' q = t q" if q: "\<not> below q (path_elements (ckptDir b j s))" "q \<noteq> workspace_path b j s"
      "q \<noteq> manifest_path b j s" "q \<noteq> latest_path b j" for q
    using assms(3)
  proof (cases rule: save_cases)
    case (latest t1 t2 t3)
    from latest(4) obtain e where "writeAndSync xf (latest_path b j) (show_int s) t3 = (e, t')" by blast
    with latest q show ?thesis by (metis mkdir_all_other writeAndSync_other)
  qed (use q in \<open>metis mkdir_all_other writeAndSync_other\<close>)+
  show "t' (workspace_path b j s') = t (workspace_path b j s')"
    by (rule other) (use apart assms(4) in auto)
  show "t' (manifest_path b j s') = t (manifest_path b j s')"
    by (rule other) (use apart assms(4) apart(1) [THEN not_sym] in auto)
qed

text \<open>Unless the pointer was opened for writing, a failed save leaves it alone.\<close>

lemma save_latest_kept:
  assumes "is_abs b" and "\<not> has_dotdot j" and "FSStore_Save sha xf b j s m data t = (Some e, t')"
    and "xf (FsWrite (latest_path b j)) = None" "xf (FsSync (latest_path b j)) = None" "xf (FsClose (latest_path b j)) = None"
  shows "t' (latest_path b j) = t (latest_path b j)"
proof -
  note apart = paths_apart [OF assms(1,2)]
  have up: "t1 (latest_path b j) = t (latest_path b j)"
    if "mkdir_all xf (path_elements (ckptDir b j s)) t = (x, t1)" for x t1
    using mkdir_all_other [OF that] apart by blast
  have work: "t2 (latest_path b j) = t1 (latest_path b j)"
    if "writeAndSync xf (workspace_path b j s) d t1 = (x, t2)" for x t1 t2 d
    using writeAndSync_other [OF that] apart by metis
  have man: "t2 (latest_path b j) = t1 (latest_path b j)"
    if "writeAndSync xf (manifest_path b j s) d t1 = (x, t2)" for x t1 t2 d
    using writeAndSync_other [OF that] apart by metis
  show ?thesis using assms(3)
  proof (cases rule: save_cases)
    case (latest t1 t2 t3)
    from latest(4) obtain e' where "writeAndSync xf (latest_path b j) (show_int s) t3 = (Some e', t')" by auto
    from writeAndSync_create [OF this assms(4-6)] have "t' = t3" .
    with up [OF latest(1)] work [OF latest(2)] man [OF latest(3)] show ?thesis by simp
  qed (use up work man in \<open>metis\<close>)+
qed

text \<open>A restore looks at the pointer and at the two files it names.\<close>

lemma ReadFile_cong: "t p = t' p \<Longrightarrow> ReadFile xf p t = ReadFile xf p t'"
  by (simp add: ReadFile_def)

lemma restore_cong:
  assumes "t (latest_path b j) = t' (latest_path b j)"
    and "\<And>s. readLatestSeq Map.empty b j t = Inr s \<Longrightarrow>
      t (manifest_path b j s) = t' (manifest_path b j s) \<and> t (workspace_path b j s) = t' (workspace_path b j s)"
  shows "RestoreLatest sha unpack xf b j t dest ws = RestoreLatest sha unpack xf b j t' dest ws"
    and "GetLatestManifest xf b j t = GetLatestManifest xf b j t'"
proof -
  have latest: "readLatestSeq xf b j t = readLatestSeq xf b j t'"
    using ReadFile_cong [of t "latest_path b j" t' xf, OF assms(1)] by (simp add: readLatestSeq_def)
  have same: "ReadFile xf (manifest_path b j s) t = ReadFile xf (manifest_path b j s) t' \<and>
      ReadFile xf (workspace_path b j s) t = ReadFile xf (workspace_path b j s) t'"
    if "readLatestSeq xf b j t = Inr s" "\<not> s < 0" for s
  proof -
    have "readLatestSeq Map.empty b j t = Inr s"
      using that(1) by (cases "xf (FsRead (latest_path b j))") (simp_all add: readLatestSeq_def ReadFile_def)
    with assms(2) [of s] show ?thesis by (blast intro: ReadFile_cong)
  qed
  have "RestoreLatest sha unpack xf b j t dest ws = RestoreLatest sha unpack xf b j t' dest ws \<and>
      GetLatestManifest xf b j t = GetLatestManifest xf b j t'"
  proof (cases "readLatestSeq xf b j t")
    case (Inl e)
    moreover from this latest have "readLatestSeq xf b j t' = Inl e" by simp
    ultimately show ?thesis by (simp add: RestoreLatest_def GetLatestManifest_def)
  next
    case (Inr s)
    then have seq: "readLatestSeq xf b j t = Inr s" "readLatestSeq xf b j t' = Inr s" using latest by simp_all
    show ?thesis
    proof (cases "s < 0")
      case False
      note files = same [OF Inr False]
      then have man: "readManifest xf (manifest_path b j s) t = readManifest xf (manifest_path b j s) t'"
        and hash: "HashFile sha xf (workspace_path b j s) t = HashFile sha xf (workspace_path b j s) t'"
        by (simp_all add: readManifest_def HashFile_def)
      show ?thesis
        unfolding RestoreLatest_def GetLatestManifest_def seq sum.case man hash conjunct2 [OF files] by simp
    qed (simp add: seq RestoreLatest_def GetLatestManifest_def)
  qed
  then show "RestoreLatest sha unpack xf b j t dest ws = RestoreLatest sha unpack xf b j t' dest ws"
    and "GetLatestManifest xf b j t = GetLatestManifest xf b j t'" by blast+
qed

lemma dropWhile_none: "\<forall>c\<in>set s. \<not> P c \<Longrightarrow> dropWhile P s = s"
  by (cases s) auto

lemma TrimSpace_show_int [simp]: "TrimSpace (show_int s) = show_int s"
proof -
  have "\<not> is_space c" if "c \<in> set (show_int s)" for c
  proof -
    have "c \<in> set number_chars" using that show_int_chars by blast
    then show ?thesis by (auto simp: number_chars_def is_space_def)
  qed
  then have "dropWhile is_space (show_int s) = show_int s" "dropWhile is_space (rev (show_int s)) = rev (show_int s)"
    by (simp_all add: dropWhile_none)
  then show ?thesis by (simp add: TrimSpace_def)
qed

lemma readLatestSeq_written:
  assumes "t (latest_path b j) = Some (File (show_int s))" and "in_i64 s" and "xf (FsRead (latest_path b j)) = None"
  shows "readLatestSeq xf b j t = Inr s"
proof -
  have "Atoi (show_int s) = Some s"
    using assms(2) unfolding Atoi_def by (intro ParseInt_show_int) (simp_all add: in_i64_def)
  with assms show ?thesis by (simp add: readLatestSeq_def ReadFile_def)
qed

text \<open>The volume holds a complete checkpoint, and its pointer names it.\<close>

definition holds_checkpoint ::
  "(string \<Rightarrow> string) \<Rightarrow> string \<Rightarrow> string \<Rightarrow> int \<Rightarrow> ckpt_manifest \<Rightarrow> string \<Rightarrow> tree \<Rightarrow> bool" where
  "holds_checkpoint sha b j s m data t \<longleftrightarrow>
     t (latest_path b j) = Some (File (show_int s)) \<and> t (workspace_path b j s) = Some (File data) \<and>
     t (manifest_path b j s) = Some (File (MarshalManifest (m\<lparr>mf_SHA256 := file_digest sha data\<rparr>)))"

lemma restore_held:
  assumes "holds_checkpoint sha b j s m data t" and "0 \<le> s" and "in_i64 s" and "fits_manifest m"
  shows "RestoreLatest sha unpack Map.empty b j t dest ws =
    (case UntarWorkspace unpack Map.empty dest data ws of
       (Some e, ws) \<Rightarrow> (Inl (''checkpoint: untar workspace seq '' @ show_int s @ '': '' @ e), ws)
     | (None, ws) \<Rightarrow> (Inr (Some (m\<lparr>mf_SHA256 := file_digest sha data\<rparr>)), ws))"
    and "GetLatestManifest Map.empty b j t = Inr (Some (m\<lparr>mf_SHA256 := file_digest sha data\<rparr>))"
proof -
  have latest: "readLatestSeq Map.empty b j t = Inr s"
    using readLatestSeq_written assms(1,3) by (simp add: holds_checkpoint_def)
  have "fits_manifest (m\<lparr>mf_SHA256 := x\<rparr>)" for x using assms(4) by (simp add: fits_manifest_def)
  then have man: "readManifest Map.empty (manifest_path b j s) t = Inr (m\<lparr>mf_SHA256 := file_digest sha data\<rparr>)"
    using assms(1) by (simp add: readManifest_def ReadFile_def holds_checkpoint_def)
  have work: "ReadFile Map.empty (workspace_path b j s) t = ReadData data"
    using assms(1) by (simp add: ReadFile_def holds_checkpoint_def)
  show "RestoreLatest sha unpack Map.empty b j t dest ws =
    (case UntarWorkspace unpack Map.empty dest data ws of
       (Some e, ws) \<Rightarrow> (Inl (''checkpoint: untar workspace seq '' @ show_int s @ '': '' @ e), ws)
     | (None, ws) \<Rightarrow> (Inr (Some (m\<lparr>mf_SHA256 := file_digest sha data\<rparr>)), ws))"
    using assms(2) by (simp add: RestoreLatest_def latest man work HashFile_def)
  show "GetLatestManifest Map.empty b j t = Inr (Some (m\<lparr>mf_SHA256 := file_digest sha data\<rparr>))"
    using assms(2) by (simp add: GetLatestManifest_def latest man)
qed

lemma restore_nothing:
  assumes "t (latest_path b j) = None"
  shows "RestoreLatest sha unpack Map.empty b j t dest ws = (Inr None, ws)"
    and "GetLatestManifest Map.empty b j t = Inr None"
  using assms by (simp_all add: RestoreLatest_def GetLatestManifest_def readLatestSeq_def ReadFile_def)

lemma save_holds:
  assumes "is_abs b" and "\<not> has_dotdot j" and "FSStore_Save sha xf b j s m data t = (None, t')"
  shows "holds_checkpoint sha b j s m data t'"
  using save_done [OF assms] by (simp add: holds_checkpoint_def)

text \<open>A save that fails, with no fault in the writing of the pointer, keeps a checkpoint of
  another number.\<close>

lemma failed_save_holds:
  assumes "is_abs b" and "\<not> has_dotdot j" and "FSStore_Save sha xf b j s m data t = (Some e, t')"
    and "xf (FsWrite (latest_path b j)) = None" "xf (FsSync (latest_path b j)) = None" "xf (FsClose (latest_path b j)) = None"
    and "holds_checkpoint sha b j s0 m0 data0 t" and "s0 \<noteq> s"
  shows "holds_checkpoint sha b j s0 m0 data0 t'"
  using save_latest_kept [OF assms(1-6)] save_other [OF assms(1-3), of s0] assms(7,8)
  by (simp add: holds_checkpoint_def)

end
