(* ===== verification/AgentRunner.thy ===== *)
theory AgentRunner
  imports FsCheckpoint Runner PodBuilder
begin

text \<open>
  The command \<open>agent-runner\<close> (\<open>cmd/agent-runner/main.go\<close>): its flags, the restore run of
  an init container, and the sidecar that checkpoints the workspace. The sidecar's loop is
  a list of events, one per \<open>select\<close>; what the walk of the workspace yields, the clock and
  the faults come with each event. Connections of the hook server are events of the same list.
\<close>

subsection \<open>Flags\<close>

text \<open>\<open>strconv.ParseInt(s, 0, 64)\<close>, which \<open>flag.IntVar\<close> uses: a base prefix and underscores
  between digits are allowed.\<close>

definition base_digit :: "char \<Rightarrow> nat option" where
  "base_digit c =
     (let n = of_char (lower_char c) :: nat in
      if 48 \<le> n \<and> n \<le> 57 then Some (n - 48) else if 97 \<le> n \<and> n \<le> 122 then Some (n - 87) else None)"

fun based_value :: "nat \<Rightarrow> nat \<Rightarrow> string \<Rightarrow> nat option" where
  "based_value base acc [] = Some acc"
| "based_value base acc (c # cs) =
     (if c = CHR ''_'' then based_value base acc cs
      else case base_digit c of
        None \<Rightarrow> None
      | Some d \<Rightarrow> if d < base then based_value base (base * acc + d) cs else None)"

definition split_base :: "string \<Rightarrow> nat \<times> string" where
  "split_base s =
     (case s of
        [] \<Rightarrow> (10, s)
      | z # rest \<Rightarrow>
          if z \<noteq> CHR ''0'' then (10, s)
          else case rest of
            x # y # ys \<Rightarrow>
              (if lower_char x = CHR ''b'' then (2, y # ys)
               else if lower_char x = CHR ''o'' then (8, y # ys)
               else if lower_char x = CHR ''x'' then (16, y # ys) else (8, rest))
          | _ \<Rightarrow> (8, rest))"

datatype under = UStart | UDigit | UScore | UOther

fun underscore_scan :: "bool \<Rightarrow> under \<Rightarrow> string \<Rightarrow> bool" where
  "underscore_scan hex u [] \<longleftrightarrow> u \<noteq> UScore"
| "underscore_scan hex u (c # cs) \<longleftrightarrow>
     (if digit_value c \<noteq> None \<or> (hex \<and> lower_char c \<in> set ''abcdef'') then underscore_scan hex UDigit cs
      else if c = CHR ''_'' then u = UDigit \<and> underscore_scan hex UScore cs
      else u \<noteq> UScore \<and> underscore_scan hex UOther cs)"

definition underscoreOK :: "string \<Rightarrow> bool" where
  "underscoreOK s =
     (case s of
        z # x # rest \<Rightarrow>
          if z = CHR ''0'' \<and> lower_char x \<in> set ''box'' then underscore_scan (lower_char x = CHR ''x'') UDigit rest
          else underscore_scan False UStart s
      | _ \<Rightarrow> underscore_scan False UStart s)"

definition ParseInt0 :: "string \<Rightarrow> int option" where
  "ParseInt0 s =
     (let neg = HasPrefix s ''-''; body = (if neg \<or> HasPrefix s ''+'' then tl s else s);
          (base, digits) = split_base body
      in if body = [] \<or> (CHR ''_'' \<in> set digits \<and> \<not> underscoreOK body) then None
         else case based_value base 0 digits of
           None \<Rightarrow> None
         | Some n \<Rightarrow> (let v = (if neg then - int n else int n) in if in_i64 v then Some v else None))"

record runner_flags =
  rf_mode :: string
  rf_work_dir :: string
  rf_checkpoint_dir :: string
  rf_job_name :: string
  rf_attempt_number :: int
  rf_interval :: int

definition default_flags :: runner_flags where
  "default_flags = \<lparr>rf_mode = ''sidecar'', rf_work_dir = ''/workspace'', rf_checkpoint_dir = ''/checkpoints'',
     rf_job_name = [], rf_attempt_number = 1, rf_interval = 30\<rparr>"

definition set_flag :: "string \<Rightarrow> string \<Rightarrow> runner_flags \<Rightarrow> runner_flags option" where
  "set_flag name v fl =
     (if name = ''mode'' then Some (fl\<lparr>rf_mode := v\<rparr>)
      else if name = ''work-dir'' then Some (fl\<lparr>rf_work_dir := v\<rparr>)
      else if name = ''checkpoint-dir'' then Some (fl\<lparr>rf_checkpoint_dir := v\<rparr>)
      else if name = ''job-name'' then Some (fl\<lparr>rf_job_name := v\<rparr>)
      else if name = ''attempt-number'' then map_option (\<lambda>i. fl\<lparr>rf_attempt_number := i\<rparr>) (ParseInt0 v)
      else if name = ''checkpoint-interval'' then map_option (\<lambda>i. fl\<lparr>rf_interval := i\<rparr>) (ParseInt0 v)
      else None)"

definition flag_names :: "string list" where
  "flag_names = [''mode'', ''work-dir'', ''checkpoint-dir'', ''job-name'', ''attempt-number'', ''checkpoint-interval'']"

datatype flag_error = FlagHelp | FlagBadSyntax | FlagUndefined | FlagNeedsArgument | FlagInvalidValue

text \<open>\<open>flag.Parse\<close>: flags up to the first argument that is none, or up to a double dash.\<close>

fun parse_flags :: "string list \<Rightarrow> runner_flags \<Rightarrow> flag_error + runner_flags" where
  "parse_flags [] fl = Inr fl"
| "parse_flags (s # rest) fl =
     (if length s < 2 \<or> \<not> HasPrefix s ''-'' then Inr fl
      else if s = ''--'' then Inr fl
      else
        (let body = (if HasPrefix s ''--'' then drop 2 s else drop 1 s);
             (name, val) = (case cut (CHR ''='') body of None \<Rightarrow> (body, None) | Some (n, v) \<Rightarrow> (n, Some v))
         in if body = [] \<or> HasPrefix body ''-'' \<or> HasPrefix body ''='' then Inl FlagBadSyntax
            else if name \<notin> set flag_names then Inl (if name = ''help'' \<or> name = ''h'' then FlagHelp else FlagUndefined)
            else case val of
              Some v \<Rightarrow>
                (case set_flag name v fl of None \<Rightarrow> Inl FlagInvalidValue | Some fl \<Rightarrow> parse_flags rest fl)
            | None \<Rightarrow>
                (case rest of
                   [] \<Rightarrow> Inl FlagNeedsArgument
                 | v # others \<Rightarrow>
                     (case set_flag name v fl of None \<Rightarrow> Inl FlagInvalidValue | Some fl \<Rightarrow> parse_flags others fl))))"

subsection \<open>Restore\<close>

definition runRestore ::
  "(string \<Rightarrow> string) \<Rightarrow> (string \<Rightarrow> string + (string + tar_entry) list) \<Rightarrow> fs_faults \<Rightarrow>
   string \<Rightarrow> string \<Rightarrow> string \<Rightarrow> tree \<Rightarrow> tree \<Rightarrow> string option \<times> tree" where
  "runRestore sha unpack xf jobName workDir checkpointDir t ws =
     (case RestoreLatest sha unpack xf checkpointDir jobName t workDir ws of
        (Inl e, ws) \<Rightarrow> (Some (''restore latest checkpoint: '' @ e), ws)
      | (Inr m, ws) \<Rightarrow> (None, ws))"

subsection \<open>The sidecar\<close>

text \<open>One checkpoint: faults of the temporary file, what the walk yields, the time, and the
  faults of the store.\<close>

record snap =
  sn_temp :: "string option"
  sn_walk :: "string + walk_entry list"
  sn_seek :: "string option"
  sn_now :: string
  sn_faults :: fs_faults

definition snap_manifest :: "string \<Rightarrow> int \<Rightarrow> int \<Rightarrow> string \<Rightarrow> ckpt_manifest" where
  "snap_manifest jobName attempt seq now =
     \<lparr>mf_SchemaVersion = 1, mf_JobName = jobName, mf_AttemptNumber = attempt, mf_CheckpointSeq = seq,
      mf_SHA256 = [], mf_CreatedAt = now\<rparr>"

definition doCheckpoint ::
  "(string \<Rightarrow> string) \<Rightarrow> (tar_entry list \<Rightarrow> string) \<Rightarrow> string \<Rightarrow> string \<Rightarrow> int \<Rightarrow> int \<Rightarrow> snap \<Rightarrow> tree \<Rightarrow>
   string option \<times> tree" where
  "doCheckpoint sha pack baseDir jobName attempt seq sn t =
     (case sn_temp sn of
        Some e \<Rightarrow> (Some (''create temp file: '' @ e), t)
      | None \<Rightarrow>
     (case sn_walk sn of
        Inl e \<Rightarrow> (Some (''tar workspace: '' @ e), t)
      | Inr walk \<Rightarrow>
     (case sn_seek sn of
        Some e \<Rightarrow> (Some (''seek temp file: '' @ e), t)
      | None \<Rightarrow>
     (case FSStore_Save sha (sn_faults sn) baseDir jobName seq (snap_manifest jobName attempt seq (sn_now sn))
             (TarWorkspace pack walk) t of
        (Some e, t) \<Rightarrow> (Some (''save checkpoint: '' @ e), t)
      | (None, t) \<Rightarrow> (None, t)))))"

text \<open>A tick finds the exit-code file or not; with it, a second and last checkpoint follows.
  The shutdown and the end both close the runner.\<close>

datatype sidecar_event =
    SideTick snap "(snap \<times> append_fault) option"
  | SideShutdown snap append_fault
  | SideConn hook_env string

record sidecar =
  sc_seq :: int
  sc_store :: tree
  sc_runner :: runner
  sc_done :: bool

definition checkpoint_next ::
  "(string \<Rightarrow> string) \<Rightarrow> (tar_entry list \<Rightarrow> string) \<Rightarrow> string \<Rightarrow> string \<Rightarrow> int \<Rightarrow> snap \<Rightarrow> sidecar \<Rightarrow> sidecar" where
  "checkpoint_next sha pack baseDir jobName attempt sn sc =
     (let q = i64 (sc_seq sc + 1) in
      sc\<lparr>sc_seq := q, sc_store := snd (doCheckpoint sha pack baseDir jobName attempt q sn (sc_store sc))\<rparr>)"

definition sidecar_close :: "append_fault \<Rightarrow> sidecar \<Rightarrow> sidecar" where
  "sidecar_close flt sc = sc\<lparr>sc_runner := snd (runner_Close flt (sc_runner sc)), sc_done := True\<rparr>"

fun sidecar_loop ::
  "(string \<Rightarrow> string) \<Rightarrow> (tar_entry list \<Rightarrow> string) \<Rightarrow> hook_codec \<Rightarrow> string \<Rightarrow> string \<Rightarrow> int \<Rightarrow>
   sidecar_event list \<Rightarrow> sidecar \<Rightarrow> sidecar" where
  "sidecar_loop sha pack hc baseDir jobName attempt [] sc = sc"
| "sidecar_loop sha pack hc baseDir jobName attempt (SideConn env input # es) sc =
     sidecar_loop sha pack hc baseDir jobName attempt es (sc\<lparr>sc_runner := serve hc (sc_runner sc) (env, input)\<rparr>)"
| "sidecar_loop sha pack hc baseDir jobName attempt (SideShutdown sn flt # es) sc =
     sidecar_close flt (checkpoint_next sha pack baseDir jobName attempt sn sc)"
| "sidecar_loop sha pack hc baseDir jobName attempt (SideTick sn fin # es) sc =
     (let sc = checkpoint_next sha pack baseDir jobName attempt sn sc in
      case fin of
        None \<Rightarrow> sidecar_loop sha pack hc baseDir jobName attempt es sc
      | Some (sn', flt) \<Rightarrow> sidecar_close flt (checkpoint_next sha pack baseDir jobName attempt sn' sc))"

text \<open>A ticker panics on an interval that is not positive.\<close>

datatype sidecar_error = SideNewRunner runner_error | SideListen string | SideTickerPanic

definition runSidecar ::
  "(string \<Rightarrow> string) \<Rightarrow> (tar_entry list \<Rightarrow> string) \<Rightarrow> hook_codec \<Rightarrow> read_faults \<Rightarrow> string option \<Rightarrow>
   string \<Rightarrow> string \<Rightarrow> string \<Rightarrow> int \<Rightarrow> int \<Rightarrow> sidecar_event list \<Rightarrow> wal_dir \<Rightarrow> tree \<Rightarrow> sidecar_error + sidecar" where
  "runSidecar sha pack hc rio listen_err jobName workDir checkpointDir attempt interval events d t =
     (case NewRunner rio workDir (d \<noteq> None) d of
        (Inl e, d) \<Rightarrow> Inl (SideNewRunner e)
      | (Inr r, d) \<Rightarrow>
          (case listen_err of
             Some e \<Rightarrow> Inl (SideListen e)
           | None \<Rightarrow>
               if seconds interval \<le> 0 then Inl SideTickerPanic
               else Inr (sidecar_loop sha pack hc checkpointDir jobName attempt events
                      \<lparr>sc_seq = 0, sc_store = t, sc_runner = r\<lparr>rn_hooks := True\<rparr>, sc_done = False\<rparr>)))"

subsection \<open>main\<close>

text \<open>What the command does with its arguments: how it ends at once, or which run it starts.\<close>

datatype runner_main =
    MainFlagError flag_error
  | MainFatal string
  | MainRestore string string string
  | MainSidecar string string string int int

definition agent_runner_main :: "string list \<Rightarrow> runner_main" where
  "agent_runner_main args =
     (case parse_flags args default_flags of
        Inl e \<Rightarrow> MainFlagError e
      | Inr fl \<Rightarrow>
          if rf_job_name fl = [] then MainFatal ''--job-name is required''
          else if rf_mode fl = ''restore'' then MainRestore (rf_job_name fl) (rf_work_dir fl) (rf_checkpoint_dir fl)
          else if rf_mode fl = ''sidecar''
          then MainSidecar (rf_job_name fl) (rf_work_dir fl) (rf_checkpoint_dir fl) (rf_attempt_number fl) (rf_interval fl)
          else MainFatal (''unknown mode: '' @ rf_mode fl))"

subsection \<open>What a sidecar leaves behind\<close>

text \<open>The checkpoints a run attempts, in order, as far as it gets.\<close>

fun snaps_of :: "sidecar_event list \<Rightarrow> snap list" where
  "snaps_of [] = []"
| "snaps_of (SideConn env input # es) = snaps_of es"
| "snaps_of (SideShutdown sn flt # es) = [sn]"
| "snaps_of (SideTick sn None # es) = sn # snaps_of es"
| "snaps_of (SideTick sn (Some fin) # es) = [sn, fst fin]"

fun save_run ::
  "(string \<Rightarrow> string) \<Rightarrow> (tar_entry list \<Rightarrow> string) \<Rightarrow> string \<Rightarrow> string \<Rightarrow> int \<Rightarrow> int \<Rightarrow> snap list \<Rightarrow> tree \<Rightarrow> tree" where
  "save_run sha pack b j attempt q [] t = t"
| "save_run sha pack b j attempt q (sn # sns) t =
     save_run sha pack b j attempt (i64 (q + 1)) sns (snd (doCheckpoint sha pack b j attempt (i64 (q + 1)) sn t))"

text \<open>The last of them that reported success: the promise of the run.\<close>

fun last_good ::
  "(string \<Rightarrow> string) \<Rightarrow> (tar_entry list \<Rightarrow> string) \<Rightarrow> string \<Rightarrow> string \<Rightarrow> int \<Rightarrow> int \<Rightarrow> snap list \<Rightarrow> tree \<Rightarrow>
   (int \<times> snap) option \<Rightarrow> (int \<times> snap) option" where
  "last_good sha pack b j attempt q [] t g = g"
| "last_good sha pack b j attempt q (sn # sns) t g =
     (let r = doCheckpoint sha pack b j attempt (i64 (q + 1)) sn t in
      last_good sha pack b j attempt (i64 (q + 1)) sns (snd r) (if fst r = None then Some (i64 (q + 1), sn) else g))"

lemma sidecar_store:
  "sc_store (sidecar_loop sha pack hc b j attempt es sc) =
     save_run sha pack b j attempt (sc_seq sc) (snaps_of es) (sc_store sc)"
  by (induction es arbitrary: sc rule: snaps_of.induct)
    (auto simp: Let_def checkpoint_next_def sidecar_close_def)

text \<open>Faults that spare the pointer file once it is open.\<close>

definition spares_latest :: "string \<Rightarrow> string \<Rightarrow> snap \<Rightarrow> bool" where
  "spares_latest b j sn \<longleftrightarrow>
     sn_faults sn (FsWrite (latest_path b j)) = None \<and> sn_faults sn (FsSync (latest_path b j)) = None \<and>
     sn_faults sn (FsClose (latest_path b j)) = None"

definition good_held ::
  "(string \<Rightarrow> string) \<Rightarrow> (tar_entry list \<Rightarrow> string) \<Rightarrow> string \<Rightarrow> string \<Rightarrow> int \<Rightarrow> int \<Rightarrow> (int \<times> snap) option \<Rightarrow> tree \<Rightarrow> bool" where
  "good_held sha pack b j attempt q g t \<longleftrightarrow>
     (case g of
        None \<Rightarrow> t (latest_path b j) = None
      | Some (s, sn) \<Rightarrow> 0 \<le> s \<and> s \<le> q \<and>
          (\<exists>walk. sn_walk sn = Inr walk \<and>
             holds_checkpoint sha b j s (snap_manifest j attempt s (sn_now sn)) (TarWorkspace pack walk) t))"

lemma doCheckpoint_ok:
  assumes "is_abs b" and "\<not> has_dotdot j" and "doCheckpoint sha pack b j attempt q sn t = (None, t')" and "0 \<le> q"
  shows "good_held sha pack b j attempt q (Some (q, sn)) t'"
proof -
  obtain walk where walk: "sn_walk sn = Inr walk"
    using assms(3) by (auto simp: doCheckpoint_def split: option.splits sum.splits)
  with assms(3) have "FSStore_Save sha (sn_faults sn) b j q (snap_manifest j attempt q (sn_now sn))
      (TarWorkspace pack walk) t = (None, t')"
    by (auto simp: doCheckpoint_def split: option.splits prod.splits)
  from save_holds [OF assms(1,2) this] walk assms(4) show ?thesis by (simp add: good_held_def)
qed

lemma doCheckpoint_failed:
  assumes "is_abs b" and "\<not> has_dotdot j" and "doCheckpoint sha pack b j attempt q sn t = (Some e, t')"
    and "spares_latest b j sn" and "good_held sha pack b j attempt q' g t" and "q' < q"
  shows "good_held sha pack b j attempt q g t'"
proof (cases "t' = t")
  case True
  with assms(5,6) show ?thesis by (auto simp: good_held_def split: option.splits)
next
  case False
  obtain walk where walk: "sn_walk sn = Inr walk" "sn_temp sn = None" "sn_seek sn = None"
    using assms(3) False by (auto simp: doCheckpoint_def split: option.splits sum.splits)
  with assms(3) obtain e' where save: "FSStore_Save sha (sn_faults sn) b j q
      (snap_manifest j attempt q (sn_now sn)) (TarWorkspace pack walk) t = (Some e', t')"
    by (auto simp: doCheckpoint_def split: option.splits prod.splits)
  note spare = assms(4) [unfolded spares_latest_def]
  show ?thesis
  proof (cases g)
    case None
    with assms(5) save_latest_kept [OF assms(1,2) save] spare show ?thesis by (simp add: good_held_def)
  next
    case (Some p)
    obtain s sn0 where p: "p = (s, sn0)" by (cases p)
    with Some assms(5,6) failed_save_holds [OF assms(1,2) save] spare show ?thesis
      by (auto simp: good_held_def)
  qed
qed

lemma save_run_held:
  assumes "is_abs b" and "\<not> has_dotdot j" and "list_all (spares_latest b j) sns"
    and "0 \<le> q" and "q + int (length sns) \<le> max_i64" and "good_held sha pack b j attempt q g t"
  shows "good_held sha pack b j attempt (q + int (length sns)) (last_good sha pack b j attempt q sns t g)
    (save_run sha pack b j attempt q sns t)"
  using assms(3-)
proof (induction sns arbitrary: q t g)
  case (Cons sn sns)
  have q: "i64 (q + 1) = q + 1" using Cons.prems(2,3) by (intro i64_id) (simp add: in_i64_def)
  obtain r t' where r: "doCheckpoint sha pack b j attempt (q + 1) sn t = (r, t')" by (metis surj_pair)
  have "good_held sha pack b j attempt (q + 1) (if r = None then Some (q + 1, sn) else g) t'"
  proof (cases r)
    case None
    with doCheckpoint_ok [OF assms(1,2) r [unfolded None]] Cons.prems(2) show ?thesis by simp
  next
    case (Some e)
    with doCheckpoint_failed [OF assms(1,2) r [unfolded Some], of q g] Cons.prems show ?thesis by simp
  qed
  from Cons.IH [OF _ _ _ this] Cons.prems q r show ?case by (cases r) (simp_all add: algebra_simps)
qed simp

end
