(* ===== verification/CheckpointProperties.thy ===== *)
theory CheckpointProperties
  imports Checkpoints AgentRunner
begin

text \<open>
  Properties of checkpoints: what a sidecar leaves for the next Pod, which checkpoint of an
  artifact store is the latest, where extraction can write, and the crashes that lose a
  checkpoint.
\<close>

subsection \<open>The sidecar and the next Pod\<close>


text \<open>A workspace with one directory, one file and an exit code; the second checkpoint fails.\<close>

definition demo_walk :: "walk_entry list" where
  "demo_walk = [\<lparr>we_path = ''out'', we_kind = WalkDir\<rparr>, \<lparr>we_path = ''out/a'', we_kind = WalkFile ''x''\<rparr>,
     \<lparr>we_path = ''.exit-code'', we_kind = WalkFile ''0''\<rparr>]"

definition demo_snap :: "string option \<Rightarrow> snap" where
  "demo_snap e = \<lparr>sn_temp = e, sn_walk = Inr demo_walk, sn_seek = None, sn_now = ''now'', sn_faults = Map.empty\<rparr>"


definition demo_unpack :: "string \<Rightarrow> string + (string + tar_entry) list" where
  "demo_unpack data = Inr (map Inr (tar_entries demo_walk))"

definition demo_sidecar :: sidecar where
  "demo_sidecar = \<lparr>sc_seq = 0, sc_store = Map.empty,
     sc_runner = \<lparr>rn_work_dir = ''/workspace'', rn_recovery = False, rn_completed = [], rn_outputs = [],
       rn_hooks = True, rn_wal = (\<lparr>ww_seq = 0, ww_file = ClosedFile, ww_num = 1, ww_size = 0\<rparr>, None)\<rparr>,
     sc_done = False\<rparr>"

definition demo_codec :: hook_codec where
  "demo_codec = \<lparr>hc_request = (\<lambda>_. None), hc_begin = (\<lambda>_. None), hc_end = (\<lambda>_. None)\<rparr>"



subsection \<open>The latest checkpoint of a store\<close>



text \<open>A checkpoint that was uploaded is the one restored. When its ordinal and sequence number
  are greater than those of every earlier checkpoint of the job, restoring after a successful
  creation brings back every file and directory of the workspace, and nothing else, and answers
  with its ordinal.\<close>

theorem newest_checkpoint_roundtrip:
  fixes s :: memory
  assumes "sorts_checkpoints srt" and "unpack (pack (entry_headers walk)) = Inr (map Inr (entry_headers walk))"
    and "CreateCheckpoint MemoryStore pack ns j dir walk ordinal seq s = (None, s1)"
    and "0 \<le> ordinal" "in_i32 ordinal" "in_i64 seq"
    and "\<forall>e\<in>set (checkpoint_entries (checkpoint_prefix ns j) (map fst s)). ce_rank e < Rank ordinal seq"
    and "is_abs dir" "Clean dir = dir" "dir \<noteq> ''/''" and "is_walk walk"
    and "\<forall>e\<in>set walk. \<forall>n. node_of e = Some n \<longrightarrow> clear_path t (path_elements dir @ entry_path e) n"
  shows "\<exists>t'. RestoreCheckpoint srt MemoryStore unpack Map.empty ns j dir s1 t = (Inr ordinal, s1, t') \<and>
    restores (path_elements dir) walk t t'"
proof -
  let ?key = "CheckpointKey ns j ordinal (checkpoint_file seq)" and ?pfx = "checkpoint_prefix ns j"
  obtain ts where ts: "archive_entries dir walk = Inr ts" "int (length (pack ts)) \<le> archive_limit 0"
    "CreateArchive pack dir 0 walk = Inr (pack ts)"
    using assms(3) by (auto simp: CreateCheckpoint_def CreateArchive_def split: sum.splits if_splits)
  then have s1: "s1 = AList.update ?key (pack ts) s"
    using assms(3) by (simp add: CreateCheckpoint_def MemoryStore_defs)
  have parse: "parse_checkpoint_key ?pfx ?key = Some \<lparr>ce_rank = Rank ordinal seq, ce_key = ?key\<rparr>"
    using assms(5,6) by (rule parse_created)
  have pfx: "HasPrefix ?key ?pfx" by (rule HasPrefix_created)
  let ?es = "checkpoint_entries ?pfx (map fst s1)"
  have mine: "\<lparr>ce_rank = Rank ordinal seq, ce_key = ?key\<rparr> \<in> set ?es"
    using parse pfx by (auto simp: checkpoint_entries_iff s1 dom_update)
  have others: "e = \<lparr>ce_rank = Rank ordinal seq, ce_key = ?key\<rparr> \<or> ce_rank e < Rank ordinal seq"
    if e: "e \<in> set ?es" for e
  proof -
    obtain k where k: "k \<in> set (map fst s1)" "HasPrefix k ?pfx" "parse_checkpoint_key ?pfx k = Some e"
      using e unfolding checkpoint_entries_iff by blast
    show ?thesis
    proof (cases "k = ?key")
      case False
      with k(1) have "k \<in> set (map fst s)" by (simp add: s1 dom_update)
      with k(2,3) have "e \<in> set (checkpoint_entries ?pfx (map fst s))"
        by (auto simp: checkpoint_entries_iff)
      with assms(7) show ?thesis by blast
    qed (use k(3) parse in simp)
  qed
  then have max: "Max (ce_rank ` set ?es) = Rank ordinal seq"
  proof (intro Max_eqI)
    show "y \<le> Rank ordinal seq" if "y \<in> ce_rank ` set ?es" for y
      using that others by (force simp: less_imp_le)
    show "Rank ordinal seq \<in> ce_rank ` set ?es" using imageI [OF mine, of ce_rank] by simp
  qed simp
  obtain e where e: "e \<in> set ?es" "ce_rank e = Rank ordinal seq"
    "LatestCheckpoint srt MemoryStore ns j s1 = (Inr (rank_ordinal (ce_rank e), ce_key e), s1)"
    using memory_latest_max [OF assms(1), of ns j s1] mine max by (auto simp: Let_def split: if_splits)
  with others [OF e(1)] have latest: "LatestCheckpoint srt MemoryStore ns j s1 = (Inr (ordinal, ?key), s1)" by auto
  obtain t' where t': "extract_items Map.empty dir (map Inr (entry_headers walk)) t = (None, t')"
    "restores (path_elements dir) walk t t'" using extract_restores [OF assms(8-12)] by blast
  have "ExtractArchive unpack Map.empty dir 0 (pack ts) t = (None, t')"
    using t'(1) ts(2) archive_entries_headers [OF ts(1)] assms(2) by (simp add: ExtractArchive_def)
  with latest t'(2) assms(4) show ?thesis
    by (simp add: RestoreCheckpoint_def MemoryStore_defs s1 update_conv')
qed

theorem newest_checkpoint_roundtrip_witness:
  "\<exists>t'. RestoreCheckpoint rank_sort MemoryStore (\<lambda>_. Inr (map Inr (entry_headers demo_walk))) Map.empty ''ns'' ''u''
      ''/workspace'' (snd (CreateCheckpoint MemoryStore (\<lambda>_. ''gz'') ''ns'' ''u'' ''/workspace'' demo_walk 2 0 [])) Map.empty =
      (Inr 2, snd (CreateCheckpoint MemoryStore (\<lambda>_. ''gz'') ''ns'' ''u'' ''/workspace'' demo_walk 2 0 []), t') \<and>
    restores (path_elements ''/workspace'') demo_walk Map.empty t'"
proof (rule newest_checkpoint_roundtrip [OF rank_sort refl])
  have "fst (CreateCheckpoint MemoryStore (\<lambda>_. ''gz'') ''ns'' ''u'' ''/workspace'' demo_walk 2 0 []) = None" by code_simp
  then show "CreateCheckpoint MemoryStore (\<lambda>_. ''gz'') ''ns'' ''u'' ''/workspace'' demo_walk 2 0 [] =
      (None, snd (CreateCheckpoint MemoryStore (\<lambda>_. ''gz'') ''ns'' ''u'' ''/workspace'' demo_walk 2 0 []))"
    by (simp add: prod_eq_iff)
  show "is_walk demo_walk" "Clean ''/workspace'' = ''/workspace''" by code_simp+
qed (auto simp: in_i32_def in_i64_def is_abs_def HasPrefix_def clear_path_def checkpoint_entries_def List.map_filter_def
    split: node.split)



subsection \<open>Crashes that lose a checkpoint\<close>

text \<open>C39: A restarted sidecar can lose the only checkpoint. Each process numbers its checkpoints
  from one, so when the volume's current checkpoint is the first one and the new process stops
  after it has written the archive of its own first checkpoint but before its manifest, the
  restore reports a failed integrity check.\<close>

theorem restart_loses_checkpoint:
  assumes "is_abs b" and "\<not> has_dotdot j" and "holds_checkpoint sha b j 1 m data t" and "fits_manifest m"
    and "fst (mkdir_all Map.empty (path_elements (ckptDir b j 1)) t) = None"
    and "sc_seq sc = 0" "sc_store sc = t" and "sn_temp sn = None" "sn_walk sn = Inr walk" "sn_seek sn = None"
    and "sn_faults sn = [FsCreate (manifest_path b j 1) \<mapsto> 0]"
    and "sha (TarWorkspace pack walk) \<noteq> sha data"
  shows "RestoreLatest sha unpack Map.empty b j
      (sc_store (sidecar_loop sha pack hc b j attempt [SideTick sn None] sc)) dest ws =
    (Inl ''checkpoint: integrity check failed for seq 1'', ws)"
proof -
  note apart = paths_apart [OF assms(1,2)]
  let ?p = "path_elements (ckptDir b j 1)"
  obtain t1 where mk: "mkdir_all Map.empty ?p t = (None, t1)" using assms(5) by (metis fst_conv surj_pair)
  then have mk': "mkdir_all (sn_faults sn) ?p t = (None, t1)" by (auto simp: mkdir_all_def assms(11) split: if_splits)
  have t1: "t1 (workspace_path b j 1) = t (workspace_path b j 1)" "t1 (manifest_path b j 1) = t (manifest_path b j 1)"
    "t1 (latest_path b j) = t (latest_path b j)" using mkdir_all_other [OF mk] apart by blast+
  let ?t2 = "t1(workspace_path b j 1 \<mapsto> File (TarWorkspace pack walk))"
  have save: "FSStore_Save sha (sn_faults sn) b j 1 m' (TarWorkspace pack walk) t =
      (Some ''checkpoint: write manifest: create'', ?t2)" for m'
    using mk' t1 assms(3) apart(1)
    by (simp add: FSStore_Save_def writeAndSync_def assms(11) HashFile_def ReadFile_def holds_checkpoint_def)
  have store: "sc_store (sidecar_loop sha pack hc b j attempt [SideTick sn None] sc) = ?t2"
    using assms(6-10) save by (simp add: checkpoint_next_def doCheckpoint_def Let_def in_i64_def)
  have files: "?t2 (latest_path b j) = Some (File (show_int 1))"
    "?t2 (manifest_path b j 1) = Some (File (MarshalManifest (m\<lparr>mf_SHA256 := file_digest sha data\<rparr>)))"
    using t1 assms(3) apart(1) [of 1 1] apart(2) [of 1] by (simp_all add: holds_checkpoint_def)
  have "readLatestSeq Map.empty b j ?t2 = Inr 1" by (rule readLatestSeq_written) (use files(1) in \<open>simp_all add: in_i64_def\<close>)
  moreover have "readManifest Map.empty (manifest_path b j 1) ?t2 = Inr (m\<lparr>mf_SHA256 := file_digest sha data\<rparr>)"
    using files(2) assms(4) by (simp add: readManifest_def ReadFile_def fits_manifest_def)
  moreover have "show_int 1 = ''1''" by code_simp
  ultimately show ?thesis
    using assms(12) unfolding store by (simp add: RestoreLatest_def HashFile_def ReadFile_def file_digest_def)
qed

definition demo_manifest_1 :: ckpt_manifest where
  "demo_manifest_1 = snap_manifest ''job'' 1 1 ''now''"

definition demo_volume :: tree where
  "demo_volume = snd (FSStore_Save (\<lambda>d. d) Map.empty ''/c'' ''job'' 1 demo_manifest_1 ''old'' Map.empty)"

theorem restart_loses_checkpoint_witness:
  "RestoreLatest (\<lambda>d. d) demo_unpack Map.empty ''/c'' ''job''
      (sc_store (sidecar_loop (\<lambda>d. d) (\<lambda>_. ''gz'') demo_codec ''/c'' ''job'' 2
         [SideTick ((demo_snap None)\<lparr>sn_faults := [FsCreate (manifest_path ''/c'' ''job'' 1) \<mapsto> 0]\<rparr>) None]
         (demo_sidecar\<lparr>sc_store := demo_volume\<rparr>))) ''/workspace'' Map.empty =
    (Inl ''checkpoint: integrity check failed for seq 1'', Map.empty)"
proof (rule restart_loses_checkpoint)
  have "fst (FSStore_Save (\<lambda>d. d) Map.empty ''/c'' ''job'' 1 demo_manifest_1 ''old'' Map.empty) = None" by code_simp
  then have "FSStore_Save (\<lambda>d. d) Map.empty ''/c'' ''job'' 1 demo_manifest_1 ''old'' Map.empty = (None, demo_volume)"
    by (simp add: demo_volume_def prod_eq_iff)
  from save_holds [OF _ _ this] show "holds_checkpoint (\<lambda>d. d) ''/c'' ''job'' 1 demo_manifest_1 ''old'' demo_volume"
    by (simp add: is_abs_def HasPrefix_def has_dotdot_def Split_single)
  show "fst (mkdir_all Map.empty (path_elements (ckptDir ''/c'' ''job'' 1)) demo_volume) = None" by code_simp
qed (simp_all add: is_abs_def HasPrefix_def has_dotdot_def Split_single demo_sidecar_def demo_snap_def TarWorkspace_def
    fits_manifest_def demo_manifest_1_def snap_manifest_def in_i64_def)

text \<open>The pointer file is overwritten in place. A crash after it was truncated and before its
  new contents are written leaves it empty: from then on no checkpoint of the job can be
  restored and no manifest be read, however many complete checkpoints the volume holds.\<close>

theorem torn_latest_pointer:
  assumes "FSStore_Save sha xf b j s m data t = (Some ''checkpoint: write LATEST: write'', t')"
    and "xf (FsWrite (latest_path b j)) = Some 0" and "xf' (FsRead (latest_path b j)) = None"
  shows "RestoreLatest sha unpack xf' b j t' dest ws = (Inl ''checkpoint: parse LATEST'', ws) \<and>
    GetLatestManifest xf' b j t' = Inl ''checkpoint: parse LATEST''"
proof -
  obtain t3 where "writeAndSync xf (latest_path b j) (show_int s) t3 = (Some ''write'', t')"
    using assms(1) by (auto simp: FSStore_Save_def split: prod.splits option.splits sum.splits)
  then have "t' (latest_path b j) = Some (File [])" using assms(2) by (auto simp: writeAndSync_def split: if_splits)
  moreover have "Atoi (TrimSpace []) = None" by code_simp
  ultimately have "readLatestSeq xf' b j t' = Inl ''checkpoint: parse LATEST''"
    using assms(3) by (simp add: readLatestSeq_def ReadFile_def)
  then show ?thesis by (simp add: RestoreLatest_def GetLatestManifest_def)
qed

theorem torn_latest_pointer_witness:
  "GetLatestManifest Map.empty ''/c'' ''job''
     (snd (FSStore_Save (\<lambda>d. d) [FsWrite (latest_path ''/c'' ''job'') \<mapsto> 0] ''/c'' ''job'' 2 demo_manifest_1 ''gz'' demo_volume)) =
     Inl ''checkpoint: parse LATEST''"
proof -
  have "fst (FSStore_Save (\<lambda>d. d) [FsWrite (latest_path ''/c'' ''job'') \<mapsto> 0] ''/c'' ''job'' 2 demo_manifest_1 ''gz'' demo_volume) =
      Some ''checkpoint: write LATEST: write''" by code_simp
  then have save: "FSStore_Save (\<lambda>d. d) [FsWrite (latest_path ''/c'' ''job'') \<mapsto> 0] ''/c'' ''job'' 2 demo_manifest_1 ''gz'' demo_volume =
      (Some ''checkpoint: write LATEST: write'',
       snd (FSStore_Save (\<lambda>d. d) [FsWrite (latest_path ''/c'' ''job'') \<mapsto> 0] ''/c'' ''job'' 2 demo_manifest_1 ''gz'' demo_volume))"
    by (simp add: prod_eq_iff)
  show ?thesis by (rule conjunct2 [OF torn_latest_pointer [OF save]]) simp_all
qed

subsection \<open>The agent container\<close>


end
