(* ===== verification/JobModel.thy ===== *)
theory JobModel
  imports GoStd
begin

text \<open>
  The data of the database-backed system (\<open>internal/model/model.go\<close>): states of jobs and
  attempts with their transition tables, job specifications, their validation and defaults.
  Parsing of a duration is the parameter \<open>parse_duration\<close>. The table of a terminated job
  is missing in the source: it has no transitions.
\<close>

subsection \<open>States\<close>

datatype job_state = JobPending | JobScheduled | JobRunning | JobCompleted | JobFailed
  | JobTerminated | JobClaiming | JobActivating | JobRecovering

definition validJobTransitions :: "(job_state \<times> job_state list) list" where
  "validJobTransitions =
     [(JobPending, [JobScheduled, JobClaiming, JobTerminated]),
      (JobScheduled, [JobRunning, JobFailed, JobTerminated]),
      (JobRunning, [JobCompleted, JobFailed, JobScheduled, JobRecovering, JobTerminated]),
      (JobCompleted, []),
      (JobFailed, []),
      (JobClaiming, [JobActivating, JobScheduled, JobTerminated]),
      (JobActivating, [JobRunning, JobFailed, JobTerminated]),
      (JobRecovering, [JobRunning, JobFailed, JobTerminated])]"

datatype attempt_state = AttemptNew | AttemptExecuting | AttemptCompleted | AttemptFailed | AttemptTimedOut

definition validAttemptTransitions :: "(attempt_state \<times> attempt_state list) list" where
  "validAttemptTransitions =
     [(AttemptNew, [AttemptExecuting]),
      (AttemptExecuting, [AttemptCompleted, AttemptFailed, AttemptTimedOut])]"

text \<open>\<open>CanTransitionTo\<close>: membership in the row of the table, a missing row being empty.\<close>

definition table_allows :: "('s \<times> 's list) list \<Rightarrow> 's \<Rightarrow> 's \<Rightarrow> bool" where
  "table_allows table s target \<longleftrightarrow>
     (case map_of table s of None \<Rightarrow> False | Some targets \<Rightarrow> target \<in> set targets)"

definition JobCanTransitionTo :: "job_state \<Rightarrow> job_state \<Rightarrow> bool" where
  "JobCanTransitionTo = table_allows validJobTransitions"

definition AttemptCanTransitionTo :: "attempt_state \<Rightarrow> attempt_state \<Rightarrow> bool" where
  "AttemptCanTransitionTo = table_allows validAttemptTransitions"

definition job_over :: "job_state \<Rightarrow> bool" where
  "job_over s \<longleftrightarrow> s = JobCompleted \<or> s = JobFailed \<or> s = JobTerminated"

definition attempt_over :: "attempt_state \<Rightarrow> bool" where
  "attempt_over s \<longleftrightarrow> s = AttemptCompleted \<or> s = AttemptFailed \<or> s = AttemptTimedOut"

lemma job_over_iff: "job_over s \<longleftrightarrow> (\<forall>t. \<not> JobCanTransitionTo s t)"
  by (cases s) (auto simp: job_over_def JobCanTransitionTo_def table_allows_def validJobTransitions_def)

lemma attempt_over_iff: "attempt_over s \<longleftrightarrow> (\<forall>t. \<not> AttemptCanTransitionTo s t)"
  by (cases s) (auto simp: attempt_over_def AttemptCanTransitionTo_def table_allows_def validAttemptTransitions_def)

lemma can_terminate: "\<not> job_over s \<Longrightarrow> JobCanTransitionTo s JobTerminated"
  by (cases s) (auto simp: job_over_def JobCanTransitionTo_def table_allows_def validJobTransitions_def)

lemma job_transitions [simp]:
  "JobCanTransitionTo JobPending JobScheduled" "JobCanTransitionTo JobScheduled JobRunning"
  "JobCanTransitionTo JobRunning JobCompleted" "JobCanTransitionTo JobRunning JobFailed"
  "JobCanTransitionTo JobRunning JobScheduled"
  by (simp_all add: JobCanTransitionTo_def table_allows_def validJobTransitions_def)

lemma attempt_transitions [simp]:
  "AttemptCanTransitionTo AttemptNew AttemptExecuting" "AttemptCanTransitionTo AttemptExecuting AttemptCompleted"
  "AttemptCanTransitionTo AttemptExecuting AttemptFailed" "AttemptCanTransitionTo AttemptExecuting AttemptTimedOut"
  by (simp_all add: AttemptCanTransitionTo_def table_allows_def validAttemptTransitions_def)

lemma never_new_again: "\<not> AttemptCanTransitionTo s AttemptNew"
  by (cases s) (auto simp: AttemptCanTransitionTo_def table_allows_def validAttemptTransitions_def)

lemma executing_from_new: "AttemptCanTransitionTo s AttemptExecuting \<Longrightarrow> s = AttemptNew"
  by (cases s) (auto simp: AttemptCanTransitionTo_def table_allows_def validAttemptTransitions_def)

subsection \<open>Job specifications\<close>

definition model_L0Process :: string where "model_L0Process = ''L0Process''"
definition model_L1GVisor :: string where "model_L1GVisor = ''L1GVisor''"
definition model_L2Firecracker :: string where "model_L2Firecracker = ''L2Firecracker''"
definition model_L3Docker :: string where "model_L3Docker = ''L3Docker''"

lemmas model_level_defs = model_L0Process_def model_L1GVisor_def model_L2Firecracker_def model_L3Docker_def

record JobSpec =
  sp_name :: string
  sp_image :: string
  sp_prompt :: string
  sp_timeout :: string
  sp_cpu :: string
  sp_memory :: string
  sp_artifacts :: "string list"
  sp_env :: "(string \<times> string) list"
  sp_max_retries :: int
  sp_isolation :: string
  sp_step_enabled :: bool
  sp_step_protocol :: string
  sp_pool_ref :: string

definition TimeoutDuration :: "(string \<Rightarrow> duration option) \<Rightarrow> JobSpec \<Rightarrow> duration" where
  "TimeoutDuration parse_duration spec =
     (case parse_duration (sp_timeout spec) of None \<Rightarrow> 5 * minute | Some d \<Rightarrow> d)"

definition default_to :: "string \<Rightarrow> string \<Rightarrow> string" where
  "default_to d s = (if s = [] then d else s)"

definition fill_defaults :: "JobSpec \<Rightarrow> JobSpec" where
  "fill_defaults spec = spec
     \<lparr>sp_max_retries := (if sp_max_retries spec < 0 then 0 else sp_max_retries spec),
      sp_timeout := default_to ''5m'' (sp_timeout spec),
      sp_cpu := default_to ''1'' (sp_cpu spec),
      sp_memory := default_to ''512m'' (sp_memory spec),
      sp_isolation := default_to model_L1GVisor (sp_isolation spec),
      sp_step_enabled := (if sp_step_protocol spec = [] then True else sp_step_enabled spec),
      sp_step_protocol := default_to ''env'' (sp_step_protocol spec),
      sp_pool_ref := default_to ''default'' (sp_pool_ref spec)\<rparr>"

definition ValidateJobSpec :: "JobSpec \<Rightarrow> string + JobSpec" where
  "ValidateJobSpec spec =
     (if sp_name spec = [] then Inl ''name is required''
      else if sp_image spec = [] then Inl ''image is required''
      else if sp_prompt spec = [] then Inl ''prompt is required''
      else Inr (fill_defaults spec))"

definition DefaultJobSpec :: JobSpec where
  "DefaultJobSpec = \<lparr>sp_name = [], sp_image = [], sp_prompt = [], sp_timeout = ''5m'', sp_cpu = ''1'', sp_memory = ''512m'',
     sp_artifacts = [], sp_env = [], sp_max_retries = 0, sp_isolation = model_L1GVisor, sp_step_enabled = True,
     sp_step_protocol = ''env'', sp_pool_ref = ''default''\<rparr>"

definition ValidateIsolationLevel :: "string \<Rightarrow> string option" where
  "ValidateIsolationLevel level =
     (if level \<in> {model_L0Process, model_L1GVisor, model_L2Firecracker, model_L3Docker} then None
      else Some (''invalid isolation level: '' @ level))"

lemma default_to_not_Nil [simp]: "d \<noteq> [] \<Longrightarrow> default_to d s \<noteq> []"
  by (simp add: default_to_def)

lemma default_to_set [simp]: "s \<noteq> [] \<Longrightarrow> default_to d s = s"
  by (simp add: default_to_def)

lemma validated_fields:
  assumes "ValidateJobSpec spec = Inr spec'"
  shows "sp_name spec' = sp_name spec \<and> sp_name spec' \<noteq> []" "sp_image spec' = sp_image spec \<and> sp_image spec' \<noteq> []"
    "sp_prompt spec' = sp_prompt spec \<and> sp_prompt spec' \<noteq> []"
    "sp_max_retries spec' = max 0 (sp_max_retries spec)" "sp_timeout spec' \<noteq> []" "sp_cpu spec' \<noteq> []"
    "sp_memory spec' \<noteq> []" "sp_isolation spec' = default_to model_L1GVisor (sp_isolation spec)"
    "sp_step_protocol spec' \<noteq> []" "sp_pool_ref spec' \<noteq> []"
proof -
  have "spec' = fill_defaults spec" "sp_name spec \<noteq> []" "sp_image spec \<noteq> []" "sp_prompt spec \<noteq> []"
    using assms by (simp_all add: ValidateJobSpec_def split: if_splits)
  then show "sp_name spec' = sp_name spec \<and> sp_name spec' \<noteq> []" "sp_image spec' = sp_image spec \<and> sp_image spec' \<noteq> []"
    "sp_prompt spec' = sp_prompt spec \<and> sp_prompt spec' \<noteq> []"
    "sp_max_retries spec' = max 0 (sp_max_retries spec)" "sp_timeout spec' \<noteq> []" "sp_cpu spec' \<noteq> []"
    "sp_memory spec' \<noteq> []" "sp_isolation spec' = default_to model_L1GVisor (sp_isolation spec)"
    "sp_step_protocol spec' \<noteq> []" "sp_pool_ref spec' \<noteq> []"
    by (simp_all add: fill_defaults_def)
qed

lemma complete_spec:
  assumes "sp_name spec \<noteq> []" "sp_image spec \<noteq> []" "sp_prompt spec \<noteq> []" "0 \<le> sp_max_retries spec"
    "sp_timeout spec \<noteq> []" "sp_cpu spec \<noteq> []" "sp_memory spec \<noteq> []" "sp_isolation spec \<noteq> []"
    "sp_step_protocol spec \<noteq> []" "sp_pool_ref spec \<noteq> []"
  shows "ValidateJobSpec spec = Inr spec"
proof -
  have "fill_defaults spec = spec" using assms by (cases spec) (simp add: fill_defaults_def)
  with assms(1-3) show ?thesis by (simp add: ValidateJobSpec_def)
qed

lemma validate_idempotent:
  assumes "ValidateJobSpec spec = Inr spec'"
  shows "ValidateJobSpec spec' = Inr spec'"
proof (rule complete_spec)
  note v = validated_fields [OF assms]
  show "sp_name spec' \<noteq> []" "sp_image spec' \<noteq> []" "sp_prompt spec' \<noteq> []" using v(1-3) by blast+
  show "0 \<le> sp_max_retries spec'" "sp_isolation spec' \<noteq> []" using v(4,8) by (simp_all add: model_level_defs)
qed (use validated_fields [OF assms] in blast)+

end
