(* ===== verification/JobStore.thy ===== *)
theory JobStore
  imports JobModel
begin

text \<open>
  The SQL store (\<open>internal/store/store.go\<close>). A table is the list of its rows in insertion
  order, with the primary keys, unique and foreign keys of the schema checked by the
  insertions; rows that an \<open>ORDER BY\<close> does not separate come in table order. Each call gets
  its fault, the clock, a fresh identifier and the rows other transactions have locked. A
  transaction is atomic: it may fail without a trace, and its commit may happen although the
  answer is lost. Specifications are stored as values: their JSON is read back as written.
\<close>

subsection \<open>Tables\<close>

record job_row =
  jr_id :: string
  jr_spec :: JobSpec
  jr_state :: job_state
  jr_created :: instant
  jr_updated :: instant

record attempt_row =
  ar_id :: string
  ar_job :: string
  ar_number :: int
  ar_worker :: string
  ar_state :: attempt_state
  ar_started :: instant
  ar_finished :: "instant option"
  ar_heartbeat :: instant
  ar_checkpoint :: "string option"
  ar_pool :: "(string \<times> int \<times> bool) option"
  ar_last_step :: "string option"
  ar_step_count :: int

record checkpoint_row =
  ck_id :: string
  ck_attempt :: string
  ck_job :: string
  ck_step :: int
  ck_data :: string
  ck_created :: instant

datatype entity = JobEntity | AttemptEntity

datatype any_state = JobS job_state | AttemptS attempt_state

record transition_row =
  tn_id :: string
  tn_entity :: entity
  tn_entity_id :: string
  tn_from :: any_state
  tn_to :: any_state
  tn_trigger :: string
  tn_created :: instant

record artifact_row =
  at_id :: string
  at_job :: string
  at_name :: string
  at_data :: string

record log_row =
  lg_id :: string
  lg_job :: string
  lg_attempt :: string
  lg_content :: string
  lg_created :: instant

record pool_spec =
  pl_min :: int
  pl_max :: int
  pl_up :: rat
  pl_down :: rat
  pl_step :: int
  pl_cooldown :: int
  pl_image :: string
  pl_cpu :: string
  pl_memory :: string
  pl_runtime :: string

record pool_row =
  pw_id :: string
  pw_name :: string
  pw_spec :: pool_spec
  pw_total :: int
  pw_idle :: int
  pw_claimed :: int
  pw_last_scale :: "instant option"
  pw_ready :: bool
  pw_created :: instant
  pw_updated :: instant

datatype pod_state = PodIdle | PodClaimed | PodTerminating

record pool_pod_row =
  pp_id :: string
  pp_pool :: string
  pp_state :: pod_state
  pp_job :: "string option"
  pp_runtime :: string
  pp_image :: string
  pp_version :: int
  pp_created :: instant
  pp_claimed_at :: "instant option"

record policy_spec =
  pc_allowed :: "string list"
  pc_default :: string
  pc_force :: "string option"
  pc_max_jobs :: int
  pc_max_pool :: int

record policy_row =
  py_id :: string
  py_name :: string
  py_namespace :: string
  py_spec :: policy_spec
  py_created :: instant

record step_row =
  sw_id :: string
  sw_job :: string
  sw_attempt :: string
  sw_step :: string
  sw_seq :: int
  sw_type :: string
  sw_exit :: "int option"
  sw_output :: string
  sw_created :: instant

record db =
  db_jobs :: "job_row list"
  db_attempts :: "attempt_row list"
  db_checkpoints :: "checkpoint_row list"
  db_transitions :: "transition_row list"
  db_artifacts :: "artifact_row list"
  db_logs :: "log_row list"
  db_pools :: "pool_row list"
  db_pods :: "pool_pod_row list"
  db_policies :: "policy_row list"
  db_steps :: "step_row list"

definition empty_db :: db where
  "empty_db = \<lparr>db_jobs = [], db_attempts = [], db_checkpoints = [], db_transitions = [], db_artifacts = [],
     db_logs = [], db_pools = [], db_pods = [], db_policies = [], db_steps = []\<rparr>"

subsection \<open>Calls\<close>

datatype db_error = DbFailed | NoRows | DuplicateKey | MissingParent | StateMismatch

datatype db_fault = DbFine | DbDown | DbAnswerLost

record db_call =
  dc_fault :: db_fault
  dc_now :: instant
  dc_id :: string
  dc_locked :: "string list"

text \<open>One statement or one transaction that may change the database, and one query.\<close>

definition db_exec :: "db_call \<Rightarrow> (db \<Rightarrow> db_error + 'a \<times> db) \<Rightarrow> db \<Rightarrow> (db_error + 'a) \<times> db" where
  "db_exec c f d =
     (if dc_fault c = DbDown then (Inl DbFailed, d)
      else case f d of
        Inl e \<Rightarrow> (Inl e, d)
      | Inr (x, d') \<Rightarrow> (if dc_fault c = DbAnswerLost then Inl DbFailed else Inr x, d'))"

definition db_query :: "db_call \<Rightarrow> (db \<Rightarrow> db_error + 'a) \<Rightarrow> db \<Rightarrow> (db_error + 'a) \<times> db" where
  "db_query c f d = (if dc_fault c = DbFine then f d else Inl DbFailed, d)"

definition insert_unique :: "('r \<Rightarrow> 'k) \<Rightarrow> 'r \<Rightarrow> 'r list \<Rightarrow> db_error + 'r list" where
  "insert_unique key r rs = (if key r \<in> key ` set rs then Inl DuplicateKey else Inr (rs @ [r]))"

definition update_where :: "('r \<Rightarrow> bool) \<Rightarrow> ('r \<Rightarrow> 'r) \<Rightarrow> 'r list \<Rightarrow> 'r list" where
  "update_where P f rs = map (\<lambda>r. if P r then f r else r) rs"

definition has_job :: "db \<Rightarrow> string \<Rightarrow> bool" where
  "has_job d j \<longleftrightarrow> j \<in> jr_id ` set (db_jobs d)"

definition has_attempt :: "db \<Rightarrow> string \<Rightarrow> bool" where
  "has_attempt d a \<longleftrightarrow> a \<in> ar_id ` set (db_attempts d)"

definition find_job :: "db \<Rightarrow> string \<Rightarrow> job_row option" where
  "find_job d j = find (\<lambda>r. jr_id r = j) (db_jobs d)"

definition find_attempt :: "db \<Rightarrow> string \<Rightarrow> attempt_row option" where
  "find_attempt d a = find (\<lambda>r. ar_id r = a) (db_attempts d)"

subsection \<open>Jobs\<close>

definition CreateJob :: "db_call \<Rightarrow> JobSpec \<Rightarrow> db \<Rightarrow> (db_error + job_row) \<times> db" where
  "CreateJob c spec = db_exec c (\<lambda>d.
     let r = \<lparr>jr_id = dc_id c, jr_spec = spec, jr_state = JobPending, jr_created = dc_now c, jr_updated = dc_now c\<rparr>
     in map_sum id (\<lambda>rs. (r, d\<lparr>db_jobs := rs\<rparr>)) (insert_unique jr_id r (db_jobs d)))"

definition GetJob :: "db_call \<Rightarrow> string \<Rightarrow> db \<Rightarrow> (db_error + job_row) \<times> db" where
  "GetJob c j = db_query c (\<lambda>d. case find_job d j of None \<Rightarrow> Inl NoRows | Some r \<Rightarrow> Inr r)"

definition ListJobs :: "db_call \<Rightarrow> db \<Rightarrow> (db_error + job_row list) \<times> db" where
  "ListJobs c = db_query c (\<lambda>d. Inr (sort_key (\<lambda>r. - jr_created r) (db_jobs d)))"

definition log_transition :: "db_call \<Rightarrow> entity \<Rightarrow> string \<Rightarrow> any_state \<Rightarrow> any_state \<Rightarrow> string \<Rightarrow> db \<Rightarrow> db_error + db" where
  "log_transition c kind i from_state to_state trigger d =
     map_sum id (\<lambda>rs. d\<lparr>db_transitions := rs\<rparr>)
       (insert_unique tn_id
          \<lparr>tn_id = dc_id c, tn_entity = kind, tn_entity_id = i, tn_from = from_state, tn_to = to_state,
           tn_trigger = trigger, tn_created = dc_now c\<rparr> (db_transitions d))"

definition set_job_state :: "string \<Rightarrow> job_state \<Rightarrow> instant \<Rightarrow> db \<Rightarrow> db" where
  "set_job_state j s now d =
     d\<lparr>db_jobs := update_where (\<lambda>r. jr_id r = j) (\<lambda>r. r\<lparr>jr_state := s, jr_updated := now\<rparr>) (db_jobs d)\<rparr>"

definition TransitionJobState ::
  "db_call \<Rightarrow> string \<Rightarrow> job_state \<Rightarrow> job_state \<Rightarrow> string \<Rightarrow> db \<Rightarrow> (db_error + unit) \<times> db" where
  "TransitionJobState c j from_state to_state trigger = db_exec c (\<lambda>d.
     case find_job d j of
       None \<Rightarrow> Inl NoRows
     | Some r \<Rightarrow>
         if jr_state r \<noteq> from_state then Inl StateMismatch
         else map_sum id (Pair ())
           (log_transition c JobEntity j (JobS from_state) (JobS to_state) trigger
              (set_job_state j to_state (dc_now c) d)))"

subsection \<open>Attempts\<close>

text \<open>Creating an attempt is two statements: the next number is read, then the row is inserted.\<close>

definition attempts_of :: "db \<Rightarrow> string \<Rightarrow> attempt_row list" where
  "attempts_of d j = filter (\<lambda>r. ar_job r = j) (db_attempts d)"

definition NextAttemptNumber :: "db_call \<Rightarrow> string \<Rightarrow> db \<Rightarrow> (db_error + int) \<times> db" where
  "NextAttemptNumber c j = db_query c (\<lambda>d. Inr (fold max (map ar_number (attempts_of d j)) 0 + 1))"

definition InsertAttempt :: "db_call \<Rightarrow> string \<Rightarrow> string \<Rightarrow> int \<Rightarrow> db \<Rightarrow> (db_error + attempt_row) \<times> db" where
  "InsertAttempt c j worker n = db_exec c (\<lambda>d.
     let r = \<lparr>ar_id = dc_id c, ar_job = j, ar_number = n, ar_worker = worker, ar_state = AttemptNew,
              ar_started = dc_now c, ar_finished = None, ar_heartbeat = dc_now c, ar_checkpoint = None,
              ar_pool = None, ar_last_step = None, ar_step_count = 0\<rparr>
     in if \<not> has_job d j then Inl MissingParent
        else map_sum id (\<lambda>rs. (r, d\<lparr>db_attempts := rs\<rparr>)) (insert_unique ar_id r (db_attempts d)))"

definition update_attempt :: "string \<Rightarrow> (attempt_row \<Rightarrow> attempt_row) \<Rightarrow> db \<Rightarrow> db" where
  "update_attempt a f d = d\<lparr>db_attempts := update_where (\<lambda>r. ar_id r = a) f (db_attempts d)\<rparr>"

text \<open>The oldest new attempt whose row no other transaction has locked; its state is not changed.\<close>

definition ClaimScheduledAttempt :: "db_call \<Rightarrow> string \<Rightarrow> db \<Rightarrow> (db_error + attempt_row option) \<times> db" where
  "ClaimScheduledAttempt c worker = db_exec c (\<lambda>d.
     case filter (\<lambda>r. ar_id r \<notin> set (dc_locked c))
            (sort_key ar_started (filter (\<lambda>r. ar_state r = AttemptNew) (db_attempts d))) of
       [] \<Rightarrow> Inr (None, d)
     | r # rs \<Rightarrow>
         Inr (Some (r\<lparr>ar_worker := worker\<rparr>), update_attempt (ar_id r) (\<lambda>r. r\<lparr>ar_worker := worker\<rparr>) d))"

definition TransitionAttemptState ::
  "db_call \<Rightarrow> string \<Rightarrow> attempt_state \<Rightarrow> attempt_state \<Rightarrow> string \<Rightarrow> db \<Rightarrow> (db_error + unit) \<times> db" where
  "TransitionAttemptState c a from_state to_state trigger = db_exec c (\<lambda>d.
     case find_attempt d a of
       None \<Rightarrow> Inl NoRows
     | Some r \<Rightarrow>
         if ar_state r \<noteq> from_state then Inl StateMismatch
         else map_sum id (Pair ())
           (log_transition c AttemptEntity a (AttemptS from_state) (AttemptS to_state) trigger
              (update_attempt a (\<lambda>r. if attempt_over to_state then r\<lparr>ar_state := to_state, ar_finished := Some (dc_now c)\<rparr>
                                     else r\<lparr>ar_state := to_state\<rparr>) d)))"

definition UpdateHeartbeat :: "db_call \<Rightarrow> string \<Rightarrow> db \<Rightarrow> (db_error + unit) \<times> db" where
  "UpdateHeartbeat c a = db_exec c (\<lambda>d. Inr ((), update_attempt a (\<lambda>r. r\<lparr>ar_heartbeat := dc_now c\<rparr>) d))"

definition FindStaleAttempts :: "db_call \<Rightarrow> duration \<Rightarrow> db \<Rightarrow> (db_error + attempt_row list) \<times> db" where
  "FindStaleAttempts c threshold = db_query c (\<lambda>d.
     Inr (filter (\<lambda>r. ar_state r = AttemptExecuting \<and> threshold < dc_now c - ar_heartbeat r) (db_attempts d)))"

definition GetAttempts :: "db_call \<Rightarrow> string \<Rightarrow> db \<Rightarrow> (db_error + attempt_row list) \<times> db" where
  "GetAttempts c j = db_query c (\<lambda>d. Inr (sort_key ar_number (attempts_of d j)))"

definition CountAttempts :: "db_call \<Rightarrow> string \<Rightarrow> db \<Rightarrow> (db_error + int) \<times> db" where
  "CountAttempts c j = db_query c (\<lambda>d. Inr (int (length (attempts_of d j))))"

definition UpdateAttemptPoolInfo :: "db_call \<Rightarrow> string \<Rightarrow> string \<Rightarrow> int \<Rightarrow> bool \<Rightarrow> db \<Rightarrow> (db_error + unit) \<times> db" where
  "UpdateAttemptPoolInfo c a pool latency warm = db_exec c (\<lambda>d.
     Inr ((), update_attempt a (\<lambda>r. r\<lparr>ar_pool := Some (pool, latency, warm)\<rparr>) d))"

definition UpdateAttemptStepProgress :: "db_call \<Rightarrow> string \<Rightarrow> string \<Rightarrow> int \<Rightarrow> db \<Rightarrow> (db_error + unit) \<times> db" where
  "UpdateAttemptStepProgress c a last_step n = db_exec c (\<lambda>d.
     Inr ((), update_attempt a (\<lambda>r. r\<lparr>ar_last_step := Some last_step, ar_step_count := n\<rparr>) d))"

subsection \<open>Checkpoints, artifacts, logs, transitions and steps\<close>

definition SaveCheckpoint :: "db_call \<Rightarrow> string \<Rightarrow> string \<Rightarrow> int \<Rightarrow> string \<Rightarrow> db \<Rightarrow> (db_error + unit) \<times> db" where
  "SaveCheckpoint c a j step data = db_exec c (\<lambda>d.
     if \<not> has_attempt d a \<or> \<not> has_job d j then Inl MissingParent
     else map_sum id (\<lambda>rs. ((), d\<lparr>db_checkpoints := rs\<rparr>))
       (insert_unique ck_id \<lparr>ck_id = dc_id c, ck_attempt = a, ck_job = j, ck_step = step, ck_data = data,
          ck_created = dc_now c\<rparr> (db_checkpoints d)))"

definition GetLatestCheckpoint :: "db_call \<Rightarrow> string \<Rightarrow> db \<Rightarrow> (db_error + checkpoint_row option) \<times> db" where
  "GetLatestCheckpoint c j = db_query c (\<lambda>d.
     Inr (case sort_key (\<lambda>r. - ck_step r)
                 (sort_key (\<lambda>r. - ck_created r) (filter (\<lambda>r. ck_job r = j) (db_checkpoints d))) of
            [] \<Rightarrow> None | r # rs \<Rightarrow> Some r))"

definition SaveArtifact :: "db_call \<Rightarrow> string \<Rightarrow> string \<Rightarrow> string \<Rightarrow> db \<Rightarrow> (db_error + unit) \<times> db" where
  "SaveArtifact c j name data = db_exec c (\<lambda>d.
     if \<not> has_job d j then Inl MissingParent
     else if list_ex (\<lambda>r. at_job r = j \<and> at_name r = name) (db_artifacts d)
     then Inr ((), d\<lparr>db_artifacts :=
       update_where (\<lambda>r. at_job r = j \<and> at_name r = name) (\<lambda>r. r\<lparr>at_data := data\<rparr>) (db_artifacts d)\<rparr>)
     else map_sum id (\<lambda>rs. ((), d\<lparr>db_artifacts := rs\<rparr>))
       (insert_unique at_id \<lparr>at_id = dc_id c, at_job = j, at_name = name, at_data = data\<rparr> (db_artifacts d)))"

definition GetArtifact :: "db_call \<Rightarrow> string \<Rightarrow> string \<Rightarrow> db \<Rightarrow> (db_error + string) \<times> db" where
  "GetArtifact c j name = db_query c (\<lambda>d.
     case find (\<lambda>r. at_job r = j \<and> at_name r = name) (db_artifacts d) of None \<Rightarrow> Inl NoRows | Some r \<Rightarrow> Inr (at_data r))"

definition ListArtifacts :: "db_call \<Rightarrow> string \<Rightarrow> db \<Rightarrow> (db_error + string list) \<times> db" where
  "ListArtifacts c j = db_query c (\<lambda>d. Inr (map at_name (filter (\<lambda>r. at_job r = j) (db_artifacts d))))"

definition SaveLog :: "db_call \<Rightarrow> string \<Rightarrow> string \<Rightarrow> string \<Rightarrow> db \<Rightarrow> (db_error + unit) \<times> db" where
  "SaveLog c j a content = db_exec c (\<lambda>d.
     if \<not> has_job d j \<or> \<not> has_attempt d a then Inl MissingParent
     else map_sum id (\<lambda>rs. ((), d\<lparr>db_logs := rs\<rparr>))
       (insert_unique lg_id \<lparr>lg_id = dc_id c, lg_job = j, lg_attempt = a, lg_content = content,
          lg_created = dc_now c\<rparr> (db_logs d)))"

definition GetLogs :: "db_call \<Rightarrow> string \<Rightarrow> db \<Rightarrow> (db_error + string list) \<times> db" where
  "GetLogs c j = db_query c (\<lambda>d.
     Inr (map lg_content (sort_key lg_created (filter (\<lambda>r. lg_job r = j) (db_logs d)))))"

definition GetTransitions :: "db_call \<Rightarrow> entity \<Rightarrow> string \<Rightarrow> db \<Rightarrow> (db_error + transition_row list) \<times> db" where
  "GetTransitions c kind i = db_query c (\<lambda>d.
     Inr (sort_key tn_created (filter (\<lambda>r. tn_entity r = kind \<and> tn_entity_id r = i) (db_transitions d))))"

definition SaveStepProgress ::
  "db_call \<Rightarrow> string \<Rightarrow> string \<Rightarrow> string \<Rightarrow> int \<Rightarrow> string \<Rightarrow> int option \<Rightarrow> string \<Rightarrow> db \<Rightarrow> (db_error + unit) \<times> db" where
  "SaveStepProgress c j a step seq kind exit_code output = db_exec c (\<lambda>d.
     if \<not> has_job d j \<or> \<not> has_attempt d a then Inl MissingParent
     else map_sum id (\<lambda>rs. ((), d\<lparr>db_steps := rs\<rparr>))
       (insert_unique sw_id \<lparr>sw_id = dc_id c, sw_job = j, sw_attempt = a, sw_step = step, sw_seq = seq, sw_type = kind,
          sw_exit = exit_code, sw_output = output, sw_created = dc_now c\<rparr> (db_steps d)))"

definition GetStepProgress :: "db_call \<Rightarrow> string \<Rightarrow> db \<Rightarrow> (db_error + step_row list) \<times> db" where
  "GetStepProgress c a = db_query c (\<lambda>d. Inr (sort_key sw_seq (filter (\<lambda>r. sw_attempt r = a) (db_steps d))))"

definition GetCompletedSteps :: "db_call \<Rightarrow> string \<Rightarrow> db \<Rightarrow> (db_error + string list) \<times> db" where
  "GetCompletedSteps c a = db_query c (\<lambda>d.
     Inr (sort (remdups (map sw_step (filter (\<lambda>r. sw_attempt r = a \<and> sw_type r = ''completed'') (db_steps d))))))"

subsection \<open>Pools and policies\<close>

definition CreateSandboxPool :: "db_call \<Rightarrow> string \<Rightarrow> pool_spec \<Rightarrow> db \<Rightarrow> (db_error + pool_row) \<times> db" where
  "CreateSandboxPool c name spec = db_exec c (\<lambda>d.
     let r = \<lparr>pw_id = dc_id c, pw_name = name, pw_spec = spec, pw_total = 0, pw_idle = 0, pw_claimed = 0,
              pw_last_scale = None, pw_ready = False, pw_created = dc_now c, pw_updated = dc_now c\<rparr>
     in if name \<in> pw_name ` set (db_pools d) then Inl DuplicateKey
        else map_sum id (\<lambda>rs. (r, d\<lparr>db_pools := rs\<rparr>)) (insert_unique pw_id r (db_pools d)))"

definition GetSandboxPool :: "db_call \<Rightarrow> string \<Rightarrow> db \<Rightarrow> (db_error + pool_row) \<times> db" where
  "GetSandboxPool c name = db_query c (\<lambda>d.
     case find (\<lambda>r. pw_name r = name) (db_pools d) of None \<Rightarrow> Inl NoRows | Some r \<Rightarrow> Inr r)"

definition ListSandboxPools :: "db_call \<Rightarrow> db \<Rightarrow> (db_error + pool_row list) \<times> db" where
  "ListSandboxPools c = db_query c (\<lambda>d. Inr (sort_key pw_created (db_pools d)))"

definition UpdateSandboxPoolStatus ::
  "db_call \<Rightarrow> string \<Rightarrow> int \<Rightarrow> int \<Rightarrow> int \<Rightarrow> bool \<Rightarrow> db \<Rightarrow> (db_error + unit) \<times> db" where
  "UpdateSandboxPoolStatus c name tot idle claimed ready = db_exec c (\<lambda>d.
     Inr ((), d\<lparr>db_pools := update_where (\<lambda>r. pw_name r = name)
       (\<lambda>r. r\<lparr>pw_total := tot, pw_idle := idle, pw_claimed := claimed, pw_ready := ready, pw_updated := dc_now c\<rparr>)
       (db_pools d)\<rparr>))"

definition CreatePoolPod :: "db_call \<Rightarrow> string \<Rightarrow> string \<Rightarrow> string \<Rightarrow> db \<Rightarrow> (db_error + pool_pod_row) \<times> db" where
  "CreatePoolPod c pool rtc img = db_exec c (\<lambda>d.
     let r = \<lparr>pp_id = dc_id c, pp_pool = pool, pp_state = PodIdle, pp_job = None, pp_runtime = rtc, pp_image = img,
              pp_version = 1, pp_created = dc_now c, pp_claimed_at = None\<rparr>
     in if pool \<notin> pw_id ` set (db_pools d) then Inl MissingParent
        else map_sum id (\<lambda>rs. (r, d\<lparr>db_pods := rs\<rparr>)) (insert_unique pp_id r (db_pods d)))"

definition claim_pod_row :: "string \<Rightarrow> instant \<Rightarrow> pool_pod_row \<Rightarrow> pool_pod_row" where
  "claim_pod_row j now r =
     r\<lparr>pp_state := PodClaimed, pp_job := Some j, pp_version := pp_version r + 1, pp_claimed_at := Some now\<rparr>"

definition StoreClaimPoolPod :: "db_call \<Rightarrow> string \<Rightarrow> string \<Rightarrow> db \<Rightarrow> (db_error + pool_pod_row option) \<times> db" where
  "StoreClaimPoolPod c pool j = db_exec c (\<lambda>d.
     case find (\<lambda>r. pp_state r = PodIdle \<and> pp_pool r = pool \<and> pp_id r \<notin> set (dc_locked c)) (db_pods d) of
       None \<Rightarrow> Inr (None, d)
     | Some r \<Rightarrow>
         Inr (Some (claim_pod_row j (dc_now c) r),
              d\<lparr>db_pods := update_where (\<lambda>x. pp_id x = pp_id r) (claim_pod_row j (dc_now c)) (db_pods d)\<rparr>))"

definition ReleasePoolPod :: "db_call \<Rightarrow> string \<Rightarrow> db \<Rightarrow> (db_error + unit) \<times> db" where
  "ReleasePoolPod c p = db_exec c (\<lambda>d.
     Inr ((), d\<lparr>db_pods := update_where (\<lambda>r. pp_id r = p)
       (\<lambda>r. r\<lparr>pp_state := PodTerminating, pp_version := pp_version r + 1\<rparr>) (db_pods d)\<rparr>))"

definition ListPoolPods :: "db_call \<Rightarrow> string \<Rightarrow> db \<Rightarrow> (db_error + pool_pod_row list) \<times> db" where
  "ListPoolPods c pool = db_query c (\<lambda>d. Inr (sort_key pp_created (filter (\<lambda>r. pp_pool r = pool) (db_pods d))))"

definition DeletePoolPod :: "db_call \<Rightarrow> string \<Rightarrow> db \<Rightarrow> (db_error + unit) \<times> db" where
  "DeletePoolPod c p = db_exec c (\<lambda>d. Inr ((), d\<lparr>db_pods := filter (\<lambda>r. pp_id r \<noteq> p) (db_pods d)\<rparr>))"

text \<open>The total counts every state, terminating Pods included.\<close>

definition CountPoolPods :: "db_call \<Rightarrow> string \<Rightarrow> db \<Rightarrow> (db_error + int \<times> int \<times> int) \<times> db" where
  "CountPoolPods c pool = db_query c (\<lambda>d.
     let rs = filter (\<lambda>r. pp_pool r = pool) (db_pods d)
     in Inr (int (length rs), int (length (filter (\<lambda>r. pp_state r = PodIdle) rs)),
             int (length (filter (\<lambda>r. pp_state r = PodClaimed) rs))))"

definition CreateSandboxPolicy :: "db_call \<Rightarrow> string \<Rightarrow> string \<Rightarrow> policy_spec \<Rightarrow> db \<Rightarrow> (db_error + unit) \<times> db" where
  "CreateSandboxPolicy c name ns spec = db_exec c (\<lambda>d.
     if (name, ns) \<in> (\<lambda>r. (py_name r, py_namespace r)) ` set (db_policies d) then Inl DuplicateKey
     else map_sum id (\<lambda>rs. ((), d\<lparr>db_policies := rs\<rparr>))
       (insert_unique py_id \<lparr>py_id = dc_id c, py_name = name, py_namespace = ns, py_spec = spec, py_created = dc_now c\<rparr>
          (db_policies d)))"

definition GetSandboxPolicy :: "db_call \<Rightarrow> string \<Rightarrow> db \<Rightarrow> (db_error + policy_row) \<times> db" where
  "GetSandboxPolicy c ns = db_query c (\<lambda>d.
     case find (\<lambda>r. py_namespace r = ns) (db_policies d) of None \<Rightarrow> Inl NoRows | Some r \<Rightarrow> Inr r)"

end
