(* ===== verification/JobSystem.thy ===== *)
theory JobSystem
  imports JobStore
begin

text \<open>
  The database under interleaved processes. \<open>db_step\<close> is one statement or transaction that
  some process of the system issues; what every process keeps is proved once, statement by
  statement, and holds for every interleaving of API servers, schedulers and workers. A
  process is a function on a \<open>db_world\<close>: between two of its calls the oracle lets other
  processes run.
\<close>

subsection \<open>Statements\<close>

inductive db_step :: "db \<Rightarrow> db \<Rightarrow> bool" where
  create_job: "db_step d (snd (CreateJob c spec d))"
| job_transition: "JobCanTransitionTo s s' \<Longrightarrow> db_step d (snd (TransitionJobState c j s s' trigger d))"
| insert_attempt: "db_step d (snd (InsertAttempt c j w n d))"
| claim_attempt: "db_step d (snd (ClaimScheduledAttempt c w d))"
| attempt_transition: "AttemptCanTransitionTo s s' \<Longrightarrow> db_step d (snd (TransitionAttemptState c a s s' trigger d))"
| heartbeat: "db_step d (snd (UpdateHeartbeat c a d))"
| pool_info: "db_step d (snd (UpdateAttemptPoolInfo c a pool latency warm d))"
| step_count: "db_step d (snd (UpdateAttemptStepProgress c a last_step n d))"
| save_checkpoint: "db_step d (snd (SaveCheckpoint c a j step data d))"
| save_artifact: "db_step d (snd (SaveArtifact c j name data d))"
| save_log: "db_step d (snd (SaveLog c j a content d))"
| save_step: "db_step d (snd (SaveStepProgress c j a step seq kind exit_code output d))"

declare db_step.intros [intro]

definition db_reachable :: "db \<Rightarrow> bool" where
  "db_reachable d \<longleftrightarrow> db_step\<^sup>*\<^sup>* empty_db d"

text \<open>What holds initially and is kept by every statement holds whenever a process looks.\<close>

lemma db_steps_keep:
  assumes "db_step\<^sup>*\<^sup>* d d'" and "\<And>d d'. P d \<Longrightarrow> db_step d d' \<Longrightarrow> P d'" and "P d"
  shows "P d'"
  using assms(1,3) by (induction rule: rtranclp_induct) (auto intro: assms(2))

text \<open>A call either leaves the database alone or does what its body does.\<close>

lemma db_exec_cases:
  obtains "snd (db_exec c f d) = d"
  | x d' where "f d = Inr (x, d')" "snd (db_exec c f d) = d'"
proof (cases "f d")
  case (Inl e)
  then show thesis using that(1) by (simp add: db_exec_def)
next
  case (Inr p)
  then show thesis using that by (cases p; cases "dc_fault c") (simp_all add: db_exec_def)
qed

lemma db_query_snd [simp]: "snd (db_query c f d) = d"
  by (simp add: db_query_def)

lemma db_exec_InrD: "db_exec c f d = (Inr x, d') \<Longrightarrow> f d = Inr (x, d') \<and> dc_fault c = DbFine"
  by (cases "dc_fault c") (auto simp: db_exec_def split: sum.splits if_splits)

lemma db_query_InrD: "db_query c f d = (Inr x, d') \<Longrightarrow> f d = Inr x \<and> d' = d"
  by (auto simp: db_query_def split: if_splits)

lemma insert_unique_InrD: "insert_unique key r rs = Inr rs' \<Longrightarrow> key r \<notin> key ` set rs \<and> rs' = rs @ [r]"
  by (auto simp: insert_unique_def split: if_splits)

lemma map_sum_InrE: "map_sum f g x = Inr y \<Longrightarrow> \<exists>z. x = Inr z \<and> y = g z"
  by (cases x) auto

lemma log_transition_InrD:
  "log_transition c kind i a b trigger d = Inr d' \<Longrightarrow>
     \<exists>r. tn_entity r = kind \<and> tn_entity_id r = i \<and> tn_from r = a \<and> tn_to r = b \<and>
       tn_id r \<notin> tn_id ` set (db_transitions d) \<and> d' = d\<lparr>db_transitions := db_transitions d @ [r]\<rparr>"
  unfolding log_transition_def by (drule map_sum_InrE) (force dest!: insert_unique_InrD)

lemma find_rowD: "find (\<lambda>r. key r = k) rs = Some r \<Longrightarrow> r \<in> set rs \<and> key r = k"
  by (drule find_SomeD) simp

lemma update_where_map: "(\<And>r. g (f r) = g r) \<Longrightarrow> map g (update_where P f rs) = map g rs"
  by (simp add: update_where_def)

lemma update_where_image: "(\<And>r. g (f r) = g r) \<Longrightarrow> g ` set (update_where P f rs) = g ` set rs"
  using update_where_map [of g f P rs] by (metis set_map)

subsection \<open>Keys and references\<close>

text \<open>The schema's constraints: primary keys are distinct, references point to rows.\<close>

definition side_rows_typed :: "db \<Rightarrow> bool" where
  "side_rows_typed d \<longleftrightarrow>
     (\<forall>r\<in>set (db_checkpoints d). has_job d (ck_job r) \<and> has_attempt d (ck_attempt r)) \<and>
     (\<forall>r\<in>set (db_artifacts d). has_job d (at_job r)) \<and>
     (\<forall>r\<in>set (db_logs d). has_job d (lg_job r) \<and> has_attempt d (lg_attempt r)) \<and>
     (\<forall>r\<in>set (db_steps d). has_job d (sw_job r) \<and> has_attempt d (sw_attempt r))"

definition db_typed :: "db \<Rightarrow> bool" where
  "db_typed d \<longleftrightarrow>
     distinct (map jr_id (db_jobs d)) \<and> distinct (map ar_id (db_attempts d)) \<and>
     distinct (map tn_id (db_transitions d)) \<and>
     (\<forall>r\<in>set (db_attempts d). has_job d (ar_job r)) \<and>
     side_rows_typed d \<and>
     (\<forall>r\<in>set (db_transitions d). case tn_entity r of
        JobEntity \<Rightarrow> has_job d (tn_entity_id r) | AttemptEntity \<Rightarrow> has_attempt d (tn_entity_id r))"

subsection \<open>The audit log\<close>

fun follows :: "('s \<Rightarrow> 's \<Rightarrow> bool) \<Rightarrow> 's \<Rightarrow> ('s \<times> 's) list \<Rightarrow> 's option" where
  "follows ok s [] = Some s"
| "follows ok s ((a, b) # xs) = (if a = s \<and> ok a b then follows ok b xs else None)"

lemma follows_snoc:
  "follows ok s (xs @ [(a, b)]) =
     (case follows ok s xs of None \<Rightarrow> None | Some t \<Rightarrow> if a = t \<and> ok a b then Some b else None)"
  by (induction ok s xs rule: follows.induct) auto

definition job_change :: "transition_row \<Rightarrow> string \<Rightarrow> (job_state \<times> job_state) list" where
  "job_change r j =
     (case (tn_from r, tn_to r) of
        (JobS a, JobS b) \<Rightarrow> if tn_entity r = JobEntity \<and> tn_entity_id r = j then [(a, b)] else []
      | _ \<Rightarrow> [])"

definition attempt_change :: "transition_row \<Rightarrow> string \<Rightarrow> (attempt_state \<times> attempt_state) list" where
  "attempt_change r i =
     (case (tn_from r, tn_to r) of
        (AttemptS a, AttemptS b) \<Rightarrow> if tn_entity r = AttemptEntity \<and> tn_entity_id r = i then [(a, b)] else []
      | _ \<Rightarrow> [])"

definition job_log :: "db \<Rightarrow> string \<Rightarrow> (job_state \<times> job_state) list" where
  "job_log d j = concat (map (\<lambda>r. job_change r j) (db_transitions d))"

definition attempt_log :: "db \<Rightarrow> string \<Rightarrow> (attempt_state \<times> attempt_state) list" where
  "attempt_log d i = concat (map (\<lambda>r. attempt_change r i) (db_transitions d))"

text \<open>The log of a job, replayed from Pending along allowed transitions, gives its state; the
  same for attempts from New. What has no row has no log.\<close>

definition audited :: "db \<Rightarrow> bool" where
  "audited d \<longleftrightarrow>
     (\<forall>r\<in>set (db_jobs d). follows JobCanTransitionTo JobPending (job_log d (jr_id r)) = Some (jr_state r)) \<and>
     (\<forall>r\<in>set (db_attempts d).
        follows AttemptCanTransitionTo AttemptNew (attempt_log d (ar_id r)) = Some (ar_state r)) \<and>
     (\<forall>j. \<not> has_job d j \<longrightarrow> job_log d j = []) \<and> (\<forall>a. \<not> has_attempt d a \<longrightarrow> attempt_log d a = [])"

subsection \<open>What a statement changes\<close>

definition same_rows :: "db \<Rightarrow> db \<Rightarrow> bool" where
  "same_rows d d' \<longleftrightarrow> db_jobs d' = db_jobs d \<and> db_attempts d' = db_attempts d \<and> db_transitions d' = db_transitions d"

text \<open>Six kinds of change, each with its guard.\<close>

inductive db_change :: "db \<Rightarrow> db \<Rightarrow> bool" where
  unchanged: "db_change d d"
| new_job: "jr_id r \<notin> jr_id ` set (db_jobs d) \<Longrightarrow> jr_state r = JobPending \<Longrightarrow>
    db_change d (d\<lparr>db_jobs := db_jobs d @ [r]\<rparr>)"
| job_moves: "find_job d j = Some r \<Longrightarrow> JobCanTransitionTo (jr_state r) s' \<Longrightarrow>
    tn_entity t = JobEntity \<Longrightarrow> tn_entity_id t = j \<Longrightarrow> tn_from t = JobS (jr_state r) \<Longrightarrow> tn_to t = JobS s' \<Longrightarrow>
    tn_id t \<notin> tn_id ` set (db_transitions d) \<Longrightarrow>
    db_change d ((set_job_state j s' now d)\<lparr>db_transitions := db_transitions d @ [t]\<rparr>)"
| new_attempt: "ar_id r \<notin> ar_id ` set (db_attempts d) \<Longrightarrow> has_job d (ar_job r) \<Longrightarrow> ar_state r = AttemptNew \<Longrightarrow>
    db_change d (d\<lparr>db_attempts := db_attempts d @ [r]\<rparr>)"
| attempt_edited: "(\<And>r. ar_id (f r) = ar_id r \<and> ar_job (f r) = ar_job r \<and> ar_state (f r) = ar_state r) \<Longrightarrow>
    db_change d (update_attempt a f d)"
| attempt_moves: "find_attempt d a = Some r \<Longrightarrow> AttemptCanTransitionTo (ar_state r) s' \<Longrightarrow>
    (\<And>r. ar_id (f r) = ar_id r \<and> ar_job (f r) = ar_job r \<and> ar_state (f r) = s') \<Longrightarrow>
    tn_entity t = AttemptEntity \<Longrightarrow> tn_entity_id t = a \<Longrightarrow> tn_from t = AttemptS (ar_state r) \<Longrightarrow> tn_to t = AttemptS s' \<Longrightarrow>
    tn_id t \<notin> tn_id ` set (db_transitions d) \<Longrightarrow>
    db_change d ((update_attempt a f d)\<lparr>db_transitions := db_transitions d @ [t]\<rparr>)"
| side_row: "same_rows d d' \<Longrightarrow> (side_rows_typed d \<Longrightarrow> side_rows_typed d') \<Longrightarrow> db_change d d'"

lemma db_exec_change: "(\<And>x d'. f d = Inr (x, d') \<Longrightarrow> db_change d d') \<Longrightarrow> db_change d (snd (db_exec c f d))"
  by (rule db_exec_cases [of c f d]) (auto intro: unchanged)

lemma side_insert:
  assumes "db_exec c f = db_exec c (\<lambda>d. if g d then Inl MissingParent else map_sum id (\<lambda>rs. ((), upd rs d)) (insert_unique key (row d) (tbl d)))"
    and "\<And>rs d. same_rows d (upd rs d)"
    and "\<And>d. \<not> g d \<Longrightarrow> side_rows_typed d \<Longrightarrow> side_rows_typed (upd (tbl d @ [row d]) d)"
  shows "db_change d (snd (db_exec c f d))"
proof (unfold assms(1), rule db_exec_change)
  fix x d'
  assume "(if g d then Inl MissingParent
    else map_sum id (\<lambda>rs. ((), upd rs d)) (insert_unique key (row d) (tbl d))) = Inr (x, d')"
  then have "\<not> g d" "d' = upd (tbl d @ [row d]) d"
    by (auto split: if_splits dest!: map_sum_InrE insert_unique_InrD)
  with assms(2,3) show "db_change d d'" by (auto intro: side_row)
qed

lemma step_change: "db_step d d' \<Longrightarrow> db_change d d'"
proof (induction rule: db_step.induct)
  case (create_job d c spec)
  show ?case
    unfolding CreateJob_def
    by (rule db_exec_change) (auto simp: Let_def dest!: map_sum_InrE insert_unique_InrD intro: new_job)
next
  case (job_transition s s' d c j trigger)
  show ?case
    unfolding TransitionJobState_def
  proof (rule db_exec_change, goal_cases)
    case (1 x d')
    then obtain r where r: "find_job d j = Some r" "jr_state r = s"
      and "map_sum id (Pair ()) (log_transition c JobEntity j (JobS s) (JobS s') trigger (set_job_state j s' (dc_now c) d)) = Inr (x, d')"
      by (auto split: option.splits if_splits)
    then obtain t where "tn_entity t = JobEntity" "tn_entity_id t = j" "tn_from t = JobS s" "tn_to t = JobS s'"
      "tn_id t \<notin> tn_id ` set (db_transitions d)"
      "d' = (set_job_state j s' (dc_now c) d)\<lparr>db_transitions := db_transitions d @ [t]\<rparr>"
      by (auto simp: set_job_state_def dest!: map_sum_InrE log_transition_InrD)
    with r job_transition show ?case by (auto intro: job_moves)
  qed
next
  case (insert_attempt d c j w n)
  show ?case
    unfolding InsertAttempt_def
    by (rule db_exec_change)
      (auto simp: Let_def split: if_splits dest!: map_sum_InrE insert_unique_InrD intro: new_attempt)
next
  case (claim_attempt d c w)
  show ?case
    unfolding ClaimScheduledAttempt_def
    by (rule db_exec_change) (auto split: list.splits intro: unchanged attempt_edited)
next
  case (attempt_transition s s' d c a trigger)
  show ?case
    unfolding TransitionAttemptState_def
  proof (rule db_exec_change, goal_cases)
    case (1 x d')
    let ?f = "\<lambda>r. if attempt_over s' then r\<lparr>ar_state := s', ar_finished := Some (dc_now c)\<rparr> else r\<lparr>ar_state := s'\<rparr>"
    from 1 obtain r where r: "find_attempt d a = Some r" "ar_state r = s"
      and "map_sum id (Pair ()) (log_transition c AttemptEntity a (AttemptS s) (AttemptS s') trigger (update_attempt a ?f d)) = Inr (x, d')"
      by (auto split: option.splits if_splits)
    then obtain t where "tn_entity t = AttemptEntity" "tn_entity_id t = a" "tn_from t = AttemptS s" "tn_to t = AttemptS s'"
      "tn_id t \<notin> tn_id ` set (db_transitions d)"
      "d' = (update_attempt a ?f d)\<lparr>db_transitions := db_transitions d @ [t]\<rparr>"
      by (auto simp: update_attempt_def dest!: map_sum_InrE log_transition_InrD)
    with r attempt_transition show ?case by (auto intro!: attempt_moves [where r = r])
  qed
next
  case (save_artifact d c j name data)
  show ?case
    unfolding SaveArtifact_def
  proof (rule db_exec_change, goal_cases)
    case (1 x d')
    then have "same_rows d d'" "has_job d j"
      by (auto simp: same_rows_def split: if_splits dest!: map_sum_InrE)
    moreover have "side_rows_typed d'" if "side_rows_typed d"
      using that 1 \<open>has_job d j\<close>
      by (auto simp: side_rows_typed_def update_where_def has_job_def has_attempt_def split: if_splits
          dest!: map_sum_InrE insert_unique_InrD)
    ultimately show ?case by (auto intro: side_row)
  qed
next
  case (save_checkpoint d c a j step data)
  show ?case unfolding SaveCheckpoint_def
    by (rule side_insert [OF refl]) (auto simp: same_rows_def side_rows_typed_def has_job_def has_attempt_def)
next
  case (save_log d c j a content)
  show ?case unfolding SaveLog_def
    by (rule side_insert [OF refl]) (auto simp: same_rows_def side_rows_typed_def has_job_def has_attempt_def)
next
  case (save_step d c j a step seq kind exit_code out)
  show ?case unfolding SaveStepProgress_def
    by (rule side_insert [OF refl]) (auto simp: same_rows_def side_rows_typed_def has_job_def has_attempt_def)
qed (auto simp: UpdateHeartbeat_def UpdateAttemptPoolInfo_def UpdateAttemptStepProgress_def
    intro!: db_exec_change attempt_edited)

subsection \<open>What every interleaving keeps\<close>

lemma has_simps [simp]:
  "has_job (d\<lparr>db_attempts := as\<rparr>) j = has_job d j" "has_job (d\<lparr>db_transitions := ts\<rparr>) j = has_job d j"
  "has_attempt (d\<lparr>db_jobs := js\<rparr>) a = has_attempt d a" "has_attempt (d\<lparr>db_transitions := ts\<rparr>) a = has_attempt d a"
  "has_job (d\<lparr>db_jobs := db_jobs d @ [r]\<rparr>) j \<longleftrightarrow> has_job d j \<or> j = jr_id r"
  "has_attempt (d\<lparr>db_attempts := db_attempts d @ [x]\<rparr>) a \<longleftrightarrow> has_attempt d a \<or> a = ar_id x"
  "has_job (set_job_state k s now d) j = has_job d j" "has_attempt (set_job_state k s now d) a = has_attempt d a"
  "has_job (update_attempt b f d) j = has_job d j"
  by (auto simp: has_job_def has_attempt_def set_job_state_def update_attempt_def update_where_image)

lemma set_job_state_rows:
  "map jr_id (db_jobs (set_job_state k s now d)) = map jr_id (db_jobs d)"
  "db_attempts (set_job_state k s now d) = db_attempts d" "db_transitions (set_job_state k s now d) = db_transitions d"
  "db_checkpoints (set_job_state k s now d) = db_checkpoints d" "db_artifacts (set_job_state k s now d) = db_artifacts d"
  "db_logs (set_job_state k s now d) = db_logs d" "db_steps (set_job_state k s now d) = db_steps d"
  by (simp_all add: set_job_state_def update_where_map)

lemma update_attempt_rows:
  "(\<And>r. ar_id (f r) = ar_id r) \<Longrightarrow> map ar_id (db_attempts (update_attempt a f d)) = map ar_id (db_attempts d)"
  "db_jobs (update_attempt a f d) = db_jobs d" "db_transitions (update_attempt a f d) = db_transitions d"
  "db_checkpoints (update_attempt a f d) = db_checkpoints d" "db_artifacts (update_attempt a f d) = db_artifacts d"
  "db_logs (update_attempt a f d) = db_logs d" "db_steps (update_attempt a f d) = db_steps d"
  by (simp_all add: update_attempt_def update_where_map)

lemma update_attempt_jobs:
  assumes "\<And>r. ar_job (f r) = ar_job r" and "\<forall>r\<in>set (db_attempts d). has_job d (ar_job r)"
  shows "\<forall>r\<in>set (db_attempts (update_attempt a f d)). has_job d (ar_job r)"
  using assms by (auto simp: update_attempt_def update_where_def)

lemma has_update_attempt: "(\<And>r. ar_id (f r) = ar_id r) \<Longrightarrow> has_attempt (update_attempt b f d) a = has_attempt d a"
  by (simp add: has_attempt_def update_attempt_def update_where_image)

lemma log_simps [simp]:
  "job_log (d\<lparr>db_jobs := js\<rparr>) j = job_log d j" "job_log (d\<lparr>db_attempts := as\<rparr>) j = job_log d j"
  "attempt_log (d\<lparr>db_jobs := js\<rparr>) a = attempt_log d a" "attempt_log (d\<lparr>db_attempts := as\<rparr>) a = attempt_log d a"
  "job_log (set_job_state k s now d) j = job_log d j" "attempt_log (set_job_state k s now d) a = attempt_log d a"
  "job_log (update_attempt b f d) j = job_log d j" "attempt_log (update_attempt b f d) a = attempt_log d a"
  "job_log (e\<lparr>db_transitions := db_transitions d @ [t]\<rparr>) j = job_log d j @ job_change t j"
  "attempt_log (e\<lparr>db_transitions := db_transitions d @ [t]\<rparr>) a = attempt_log d a @ attempt_change t a"
  by (simp_all add: job_log_def attempt_log_def set_job_state_def update_attempt_def)

lemma change_typed: "db_change d d' \<Longrightarrow> db_typed d \<Longrightarrow> db_typed d'"
proof (induction rule: db_change.induct)
  case (new_job r d)
  then show ?case by (auto simp: db_typed_def side_rows_typed_def split: entity.split)
next
  case (job_moves d j r s' t now)
  have "has_job d j" using job_moves(1) by (auto simp: find_job_def has_job_def dest!: find_rowD)
  with job_moves show ?case
    by (auto simp: db_typed_def side_rows_typed_def set_job_state_rows split: entity.split)
next
  case (new_attempt r d)
  then show ?case by (auto simp: db_typed_def side_rows_typed_def split: entity.split)
next
  case (attempt_edited f d a)
  then have "\<forall>r\<in>set (db_attempts (update_attempt a f d)). has_job d (ar_job r)"
    by (intro update_attempt_jobs) (simp_all add: db_typed_def side_rows_typed_def)
  with attempt_edited show ?case
    by (simp add: db_typed_def side_rows_typed_def has_update_attempt update_attempt_rows cong: entity.case_cong)
next
  case (attempt_moves d a r s' f t)
  have "has_attempt d a" using attempt_moves(1) by (auto simp: find_attempt_def has_attempt_def dest!: find_rowD)
  moreover have "\<forall>r\<in>set (db_attempts (update_attempt a f d)). has_job d (ar_job r)"
    using attempt_moves(3,9) by (intro update_attempt_jobs) (simp_all add: db_typed_def side_rows_typed_def)
  ultimately show ?case
    using attempt_moves by (simp add: db_typed_def side_rows_typed_def has_update_attempt update_attempt_rows cong: entity.case_cong)
next
  case (side_row d d')
  then have "has_job d' = has_job d" "has_attempt d' = has_attempt d"
    by (simp_all add: fun_eq_iff same_rows_def has_job_def has_attempt_def)
  with side_row show ?case by (simp add: db_typed_def same_rows_def cong: entity.case_cong)
qed

lemma change_audited: "db_change d d' \<Longrightarrow> audited d \<Longrightarrow> audited d'"
proof (induction rule: db_change.induct)
  case (new_job r d)
  then show ?case by (auto simp: audited_def has_job_def)
next
  case (job_moves d j r s' t now)
  have r: "r \<in> set (db_jobs d)" "jr_id r = j" using job_moves(1) by (auto simp: find_job_def dest!: find_rowD)
  have log: "follows JobCanTransitionTo JobPending (job_log d j) = Some (jr_state r)"
    using job_moves.prems r by (auto simp: audited_def)
  have t: "job_change t i = (if i = j then [(jr_state r, s')] else [])" "attempt_change t a = []" for i a
    using job_moves by (simp_all add: job_change_def attempt_change_def)
  have "has_job d j" using r by (auto simp: has_job_def)
  with job_moves.prems r job_moves(2) show ?case
    by (auto simp: audited_def t log follows_snoc)
      (auto simp: set_job_state_def update_where_def log follows_snoc)
next
  case (new_attempt r d)
  then show ?case by (auto simp: audited_def has_attempt_def)
next
  case (attempt_edited f d a)
  then show ?case
    by (auto simp: audited_def has_update_attempt) (auto simp: update_attempt_def update_where_def)
next
  case (attempt_moves d a r s' f t)
  have r: "r \<in> set (db_attempts d)" "ar_id r = a" using attempt_moves(1) by (auto simp: find_attempt_def dest!: find_rowD)
  have log: "follows AttemptCanTransitionTo AttemptNew (attempt_log d a) = Some (ar_state r)"
    using attempt_moves.prems r by (auto simp: audited_def)
  have t: "attempt_change t i = (if i = a then [(ar_state r, s')] else [])" "job_change t j = []" for i j
    using attempt_moves by (simp_all add: job_change_def attempt_change_def)
  have ids: "\<And>x. ar_id (f x) = ar_id x" "\<And>x. ar_state (f x) = s'" using attempt_moves(3) by blast+
  show ?case
    using attempt_moves.prems r attempt_moves(2)
    by (auto simp: audited_def t log follows_snoc has_update_attempt ids)
      (auto simp: update_attempt_def update_where_def log follows_snoc has_attempt_def ids)
next
  case (side_row d d')
  then have "has_job d' = has_job d" "has_attempt d' = has_attempt d" "job_log d' = job_log d" "attempt_log d' = attempt_log d"
    by (simp_all add: fun_eq_iff same_rows_def has_job_def has_attempt_def job_log_def attempt_log_def)
  with side_row show ?case by (simp add: audited_def same_rows_def)
qed

lemma empty_simps [simp]: "db_typed empty_db" "audited empty_db"
  by (simp_all add: db_typed_def side_rows_typed_def audited_def empty_db_def job_log_def attempt_log_def)

lemma reachable_inv:
  assumes "db_reachable d" and "\<And>d d'. db_change d d' \<Longrightarrow> P d \<Longrightarrow> P d'" and "P empty_db"
  shows "P d"
  using assms(1) unfolding db_reachable_def
  by (rule db_steps_keep) (blast intro: assms(2,3) step_change)+

lemma reachable_typed: "db_reachable d \<Longrightarrow> db_typed d"
  by (erule reachable_inv) (simp_all add: change_typed)

lemma reachable_audited: "db_reachable d \<Longrightarrow> audited d"
  by (erule reachable_inv) (simp_all add: change_audited)

text \<open>An attempt starts at most once, and a job that is over stays as it is.\<close>

lemma follows_executing_once:
  "follows AttemptCanTransitionTo s xs = Some t \<Longrightarrow>
     length (filter (\<lambda>(a, b). b = AttemptExecuting) xs) \<le> (if s = AttemptNew then 1 else 0)"
proof (induction xs arbitrary: s)
  case (Cons x xs)
  obtain a b where x: "x = (a, b)" by (cases x)
  with Cons.prems have ab: "a = s" "AttemptCanTransitionTo a b" "follows AttemptCanTransitionTo b xs = Some t"
    by (auto split: if_splits)
  show ?case
    using Cons.IH [OF ab(3)] ab(1,2) never_new_again [of s] executing_from_new [of s] x by (auto split: if_splits)
qed simp

lemma change_keeps_over:
  assumes "db_change d d'" and "distinct (map jr_id (db_jobs d))" and "r \<in> set (db_jobs d)" and "job_over (jr_state r)"
  shows "r \<in> set (db_jobs d')"
  using assms
proof (induction rule: db_change.induct)
  case (job_moves d j q s' t now)
  then have "q \<in> set (db_jobs d)" "jr_id q = j" by (auto simp: find_job_def dest!: find_rowD)
  with job_moves have "jr_id r \<noteq> j" by (metis job_over_iff distinct_map inj_onD)
  with job_moves(9) show ?case by (auto simp: set_job_state_def update_where_def)
qed (auto simp: update_attempt_def same_rows_def)

subsection \<open>Processes\<close>

text \<open>A process sees the database through calls. The oracle gives each call its fault, clock and
  identifier, and says what other processes did to the database since the call before.\<close>

record db_world =
  wd_db :: db
  wd_calls :: nat

record db_oracle =
  or_call :: "nat \<Rightarrow> db_call"
  or_between :: "nat \<Rightarrow> db \<Rightarrow> db"

definition dbc :: "db_oracle \<Rightarrow> (db_call \<Rightarrow> db \<Rightarrow> 'r \<times> db) \<Rightarrow> db_world \<Rightarrow> 'r \<times> db_world" where
  "dbc oc f w =
     (case f (or_call oc (wd_calls w)) (or_between oc (wd_calls w) (wd_db w)) of
        (r, d') \<Rightarrow> (r, \<lparr>wd_db = d', wd_calls = wd_calls w + 1\<rparr>))"

definition others_step :: "db_oracle \<Rightarrow> bool" where
  "others_step oc \<longleftrightarrow> (\<forall>n d. db_step\<^sup>*\<^sup>* d (or_between oc n d))"

definition world_steps :: "db_world \<Rightarrow> db_world \<Rightarrow> bool" where
  "world_steps w w' \<longleftrightarrow> db_step\<^sup>*\<^sup>* (wd_db w) (wd_db w')"

lemma world_steps_refl [intro, simp]: "world_steps w w"
  by (simp add: world_steps_def)

lemma world_steps_trans [trans]: "world_steps u v \<Longrightarrow> world_steps v w \<Longrightarrow> world_steps u w"
  unfolding world_steps_def by (rule rtranclp_trans)

lemma dbc_steps:
  assumes "others_step oc" and "\<And>c d. db_step\<^sup>*\<^sup>* d (snd (f c d))" and "dbc oc f w = (r, w')"
  shows "world_steps w w'"
proof -
  let ?c = "or_call oc (wd_calls w)" and ?d = "or_between oc (wd_calls w) (wd_db w)"
  have "db_step\<^sup>*\<^sup>* (wd_db w) ?d" using assms(1) by (simp add: others_step_def)
  also have "db_step\<^sup>*\<^sup>* ?d (snd (f ?c ?d))" by (rule assms(2))
  finally show ?thesis using assms(3) by (auto simp: world_steps_def dbc_def split: prod.splits)
qed

lemma dbc_query_steps:
  assumes "others_step oc" and "dbc oc (\<lambda>c. db_query c (f c)) w = (r, w')"
  shows "world_steps w w'"
  using assms(1) _ assms(2) by (rule dbc_steps) simp

lemma dbc_step_steps:
  assumes "others_step oc" and "dbc oc f w = (r, w')" and "\<And>c d. db_step d (snd (f c d))"
  shows "world_steps w w'"
  using assms(1) _ assms(2) by (rule dbc_steps) (blast intro: assms(3))

subsection \<open>Undisturbed processes\<close>

text \<open>\<open>alone\<close>: no other process runs between the calls; \<open>calm\<close>: no call fails either, and
  identifiers are distinct.\<close>

definition alone :: "db_oracle \<Rightarrow> bool" where
  "alone oc \<longleftrightarrow> (\<forall>n d. or_between oc n d = d)"

lemma alone_dbc: "alone oc \<Longrightarrow> dbc oc f w = (r, w') \<Longrightarrow> wd_db w' = snd (f (or_call oc (wd_calls w)) (wd_db w))"
  by (auto simp: dbc_def alone_def split: prod.splits)

lemma alone_query:
  assumes "alone oc" and "dbc oc (\<lambda>c. db_query c (f c)) w = (Inr r, w')"
  shows "wd_db w' = wd_db w" "f (or_call oc (wd_calls w)) (wd_db w) = Inr r"
  using assms by (auto simp: dbc_def alone_def split: prod.splits dest: db_query_InrD)

definition calm :: "db_oracle \<Rightarrow> bool" where
  "calm oc \<longleftrightarrow> alone oc \<and> (\<forall>n. dc_fault (or_call oc n) = DbFine) \<and> inj (\<lambda>n. dc_id (or_call oc n))"

definition ids_fresh :: "db_oracle \<Rightarrow> db_world \<Rightarrow> bool" where
  "ids_fresh oc w \<longleftrightarrow> (\<forall>n\<ge>wd_calls w.
     dc_id (or_call oc n) \<notin> ar_id ` set (db_attempts (wd_db w)) \<union> tn_id ` set (db_transitions (wd_db w)))"

lemma calm_dbc: "calm oc \<Longrightarrow> dbc oc f w = (case f (or_call oc (wd_calls w)) (wd_db w) of (r, d) \<Rightarrow> (r, \<lparr>wd_db = d, wd_calls = wd_calls w + 1\<rparr>))"
  by (simp add: dbc_def calm_def alone_def)

lemma calm_exec: "calm oc \<Longrightarrow> db_exec (or_call oc n) f d = (case f d of Inl e \<Rightarrow> (Inl e, d) | Inr (x, d') \<Rightarrow> (Inr x, d'))"
  by (simp add: db_exec_def calm_def split: sum.split prod.split)

lemma calm_query: "calm oc \<Longrightarrow> db_query (or_call oc n) f d = (f d, d)"
  by (simp add: db_query_def calm_def)

definition set_states :: "string \<Rightarrow> 's \<Rightarrow> (string \<times> 's) list \<Rightarrow> (string \<times> 's) list" where
  "set_states j s = map (\<lambda>(i, t). (i, if i = j then s else t))"

definition job_states :: "db \<Rightarrow> (string \<times> job_state) list" where
  "job_states d = map (\<lambda>r. (jr_id r, jr_state r)) (db_jobs d)"

lemma set_job_states: "job_states (set_job_state j s now d) = set_states j s (job_states d)"
  by (auto simp: job_states_def set_states_def set_job_state_def update_where_def)

lemma exec_rel: "P d \<Longrightarrow> (\<And>x d'. f d = Inr (x, d') \<Longrightarrow> P d') \<Longrightarrow> P (snd (db_exec c f d))"
  by (rule db_exec_cases [of c f d]) auto

lemma map_of_job_states: "map_of (job_states d) j = map_option jr_state (find_job d j)"
proof -
  have "map_of (map (\<lambda>r. (jr_id r, jr_state r)) rs) j = map_option jr_state (find (\<lambda>r. jr_id r = j) rs)" for rs
    by (induction rs) auto
  then show ?thesis by (simp add: job_states_def find_job_def)
qed

lemma map_of_set_states: "i \<noteq> j \<Longrightarrow> map_of (set_states j s xs) i = map_of xs i"
  by (induction xs) (auto simp: set_states_def)

definition attempt_states :: "db \<Rightarrow> (string \<times> attempt_state) list" where
  "attempt_states d = map (\<lambda>r. (ar_id r, ar_state r)) (db_attempts d)"

lemma map_of_attempt_states: "map_of (attempt_states d) a = map_option ar_state (find_attempt d a)"
proof -
  have "map_of (map (\<lambda>r. (ar_id r, ar_state r)) rs) a = map_option ar_state (find (\<lambda>r. ar_id r = a) rs)" for rs
    by (induction rs) auto
  then show ?thesis by (simp add: attempt_states_def find_attempt_def)
qed

text \<open>Once an attempt has left New it never comes back.\<close>

definition attempt_started :: "db \<Rightarrow> string \<Rightarrow> bool" where
  "attempt_started d a \<longleftrightarrow> (\<exists>r. find_attempt d a = Some r \<and> ar_state r \<noteq> AttemptNew)"

lemma find_update_attempt:
  assumes "\<And>r. ar_id (f r) = ar_id r"
  shows "find_attempt (update_attempt b f d) a = map_option (\<lambda>r. if a = b then f r else r) (find_attempt d a)"
proof -
  have "find (\<lambda>r. ar_id r = a) (update_where (\<lambda>r. ar_id r = b) f rs) =
      map_option (\<lambda>r. if a = b then f r else r) (find (\<lambda>r. ar_id r = a) rs)" for rs
    using assms by (induction rs) (auto simp: update_where_def)
  then show ?thesis by (simp add: find_attempt_def update_attempt_def)
qed

lemma find_append: "find P xs = Some x \<Longrightarrow> find P (xs @ ys) = Some x"
  by (induction xs) auto

lemma change_started: "db_change d d' \<Longrightarrow> attempt_started d a \<Longrightarrow> attempt_started d' a"
proof (induction rule: db_change.induct)
  case (new_attempt r d)
  then show ?case by (auto simp: attempt_started_def find_attempt_def find_append)
next
  case (attempt_edited f d b)
  then show ?case by (cases "a = b") (auto simp: attempt_started_def find_update_attempt)
next
  case (attempt_moves d b r s' f t)
  have "find_attempt (d'\<lparr>db_transitions := ts\<rparr>) a = find_attempt d' a" for d' ts by (simp add: find_attempt_def)
  moreover have "s' \<noteq> AttemptNew" using attempt_moves(2) never_new_again by blast
  ultimately show ?case
    using attempt_moves by (cases "a = b") (auto simp: attempt_started_def find_update_attempt)
qed (auto simp: attempt_started_def find_attempt_def set_job_state_def same_rows_def)

lemma steps_started: "db_step\<^sup>*\<^sup>* d d' \<Longrightarrow> attempt_started d a \<Longrightarrow> attempt_started d' a"
  by (erule db_steps_keep) (auto intro: change_started step_change)

definition move_state :: "string \<Rightarrow> 's \<Rightarrow> 's \<Rightarrow> (string \<times> 's) list \<Rightarrow> (string \<times> 's) list" where
  "move_state j s s' xs = (if map_of xs j = Some s then set_states j s' xs else xs)"

definition moves_to :: "db_oracle \<Rightarrow> db_world \<Rightarrow> (string \<times> job_state) list \<Rightarrow> (string \<times> attempt_state) list \<Rightarrow> db_world \<Rightarrow> bool" where
  "moves_to oc w js as w' \<longleftrightarrow>
     job_states (wd_db w') = js \<and> attempt_states (wd_db w') = as \<and> (ids_fresh oc w \<longrightarrow> ids_fresh oc w')"

text \<open>Statements that leave both kinds of states and the log alone.\<close>

definition quiet :: "db \<Rightarrow> db \<Rightarrow> bool" where
  "quiet d d' \<longleftrightarrow> job_states d' = job_states d \<and> attempt_states d' = attempt_states d \<and> db_transitions d' = db_transitions d"

lemma quiet_refl [simp]: "quiet d d"
  by (simp add: quiet_def)

lemma exec_quiet: "(\<And>x d'. f d = Inr (x, d') \<Longrightarrow> quiet d d') \<Longrightarrow> quiet d (snd (db_exec c f d))"
  by (rule exec_rel) auto

lemma quiet_update_attempt: "(\<And>r. ar_id (f r) = ar_id r \<and> ar_state (f r) = ar_state r) \<Longrightarrow> quiet d (update_attempt a f d)"
  by (auto simp: quiet_def job_states_def attempt_states_def update_attempt_def update_where_def)

lemma quiet_side:
  "quiet d (d\<lparr>db_checkpoints := a\<rparr>)" "quiet d (d\<lparr>db_artifacts := b\<rparr>)" "quiet d (d\<lparr>db_logs := x\<rparr>)" "quiet d (d\<lparr>db_steps := y\<rparr>)"
  by (simp_all add: quiet_def job_states_def attempt_states_def)

lemma quiet_statements:
  "quiet d (snd (UpdateHeartbeat c a d))" "quiet d (snd (UpdateAttemptPoolInfo c a p l h d))"
  "quiet d (snd (UpdateAttemptStepProgress c a k n d))" "quiet d (snd (SaveCheckpoint c a j st data d))"
  "quiet d (snd (SaveArtifact c j name data d))" "quiet d (snd (SaveLog c j a content d))"
  unfolding UpdateHeartbeat_def UpdateAttemptPoolInfo_def UpdateAttemptStepProgress_def SaveCheckpoint_def
    SaveArtifact_def SaveLog_def
  by (rule exec_quiet, auto simp: quiet_side quiet_update_attempt split: if_splits dest!: map_sum_InrE)+

lemma ids_fresh_quiet:
  assumes "ids_fresh oc w" and "quiet (wd_db w) (wd_db w')" and "wd_calls w \<le> wd_calls w'"
  shows "ids_fresh oc w'"
proof -
  have "ar_id ` set (db_attempts d) = fst ` set (attempt_states d)" for d by (force simp: attempt_states_def)
  then show ?thesis using assms by (auto simp: ids_fresh_def quiet_def)
qed

lemma calm_quiet:
  assumes "calm oc" and "dbc oc f w = (r, w')" and "\<And>c d. quiet d (snd (f c d))"
  shows "moves_to oc w (job_states (wd_db w)) (attempt_states (wd_db w)) w'"
proof -
  let ?n = "wd_calls w"
  have w': "w' = \<lparr>wd_db = snd (f (or_call oc ?n) (wd_db w)), wd_calls = ?n + 1\<rparr>"
    using assms(2) by (auto simp: calm_dbc [OF assms(1)] split: prod.splits)
  then have "quiet (wd_db w) (wd_db w')" using assms(3) by simp
  with w' ids_fresh_quiet [of oc w w'] show ?thesis by (auto simp: moves_to_def quiet_def)
qed

lemma attempt_states_update:
  "(\<And>r. ar_id (f r) = ar_id r \<and> ar_state (f r) = s') \<Longrightarrow> attempt_states (update_attempt a f d) = set_states a s' (attempt_states d)"
  by (auto simp: attempt_states_def set_states_def update_attempt_def update_where_def)

lemma calm_job_move:
  assumes "calm oc" and "ids_fresh oc w" and "dbc oc (\<lambda>c. TransitionJobState c j s s' trigger) w = (r, w')"
  shows "moves_to oc w (move_state j s s' (job_states (wd_db w))) (attempt_states (wd_db w)) w'"
proof -
  let ?d = "wd_db w" and ?c = "or_call oc (wd_calls w)"
  have fresh: "dc_id ?c \<notin> tn_id ` set (db_transitions ?d)" using assms(2) by (simp add: ids_fresh_def)
  let ?t = "\<lparr>tn_id = dc_id ?c, tn_entity = JobEntity, tn_entity_id = j, tn_from = JobS s, tn_to = JobS s',
    tn_trigger = trigger, tn_created = dc_now ?c\<rparr>"
  let ?d' = "if map_of (job_states ?d) j = Some s then (set_job_state j s' (dc_now ?c) ?d)\<lparr>db_transitions := db_transitions ?d @ [?t]\<rparr> else ?d"
  have w': "w' = \<lparr>wd_db = ?d', wd_calls = wd_calls w + 1\<rparr>"
    using assms(3) fresh
    by (auto simp: calm_dbc [OF assms(1)] TransitionJobState_def calm_exec [OF assms(1)] map_of_job_states
        log_transition_def insert_unique_def set_job_state_rows split: option.splits if_splits)
  have "dc_id (or_call oc n) \<noteq> dc_id ?c" if "wd_calls w + 1 \<le> n" for n
    using assms(1) that by (auto simp: calm_def dest: injD)
  then have "ids_fresh oc w'" using assms(2) by (auto simp: w' ids_fresh_def set_job_state_rows)
  then show ?thesis
    using set_job_states [of j s' "dc_now ?c" ?d]
    by (simp add: moves_to_def w' move_state_def job_states_def attempt_states_def set_job_state_rows)
qed

lemma calm_attempt_move:
  assumes "calm oc" and "ids_fresh oc w" and "dbc oc (\<lambda>c. TransitionAttemptState c a s s' trigger) w = (r, w')"
  shows "moves_to oc w (job_states (wd_db w)) (move_state a s s' (attempt_states (wd_db w))) w' \<and>
    ((\<exists>u. r = Inr u) \<longleftrightarrow> map_of (attempt_states (wd_db w)) a = Some s)"
proof -
  let ?d = "wd_db w" and ?c = "or_call oc (wd_calls w)"
  have fresh: "dc_id ?c \<notin> tn_id ` set (db_transitions ?d)" using assms(2) by (simp add: ids_fresh_def)
  let ?t = "\<lparr>tn_id = dc_id ?c, tn_entity = AttemptEntity, tn_entity_id = a, tn_from = AttemptS s, tn_to = AttemptS s',
    tn_trigger = trigger, tn_created = dc_now ?c\<rparr>"
  let ?f = "\<lambda>r. if attempt_over s' then r\<lparr>ar_state := s', ar_finished := Some (dc_now ?c)\<rparr> else r\<lparr>ar_state := s'\<rparr>"
  let ?d' = "if map_of (attempt_states ?d) a = Some s then (update_attempt a ?f ?d)\<lparr>db_transitions := db_transitions ?d @ [?t]\<rparr> else ?d"
  have w': "w' = \<lparr>wd_db = ?d', wd_calls = wd_calls w + 1\<rparr>" "(\<exists>u. r = Inr u) \<longleftrightarrow> map_of (attempt_states ?d) a = Some s"
    using assms(3) fresh
    by (auto simp: calm_dbc [OF assms(1)] TransitionAttemptState_def calm_exec [OF assms(1)] map_of_attempt_states
        log_transition_def insert_unique_def update_attempt_rows split: option.splits if_splits)
  have "dc_id (or_call oc n) \<noteq> dc_id ?c" if "wd_calls w + 1 \<le> n" for n
    using assms(1) that by (auto simp: calm_def dest: injD)
  moreover have "ar_id ` set (db_attempts (update_attempt a ?f ?d)) = ar_id ` set (db_attempts ?d)"
    by (simp add: update_attempt_def update_where_image)
  ultimately have "ids_fresh oc w'" using assms(2) by (auto simp: w'(1) ids_fresh_def)
  moreover have "attempt_states (update_attempt a ?f ?d) = set_states a s' (attempt_states ?d)"
    by (rule attempt_states_update) simp
  ultimately show ?thesis
    using w'(2) by (simp add: moves_to_def w'(1) move_state_def job_states_def attempt_states_def update_attempt_rows)
qed

text \<open>What the log shows of an attempt.\<close>

lemma follows_not_new: "follows AttemptCanTransitionTo s xs = Some t \<Longrightarrow> xs \<noteq> [] \<Longrightarrow> t \<noteq> AttemptNew"
proof (induction xs arbitrary: s)
  case (Cons x xs)
  obtain a b where x: "x = (a, b)" by (cases x)
  with Cons show ?case using never_new_again [of s] by (cases "xs = []") (auto split: if_splits)
qed simp

lemma logged_started:
  assumes "audited d" and "db_typed d" and "attempt_log d a \<noteq> []"
  shows "attempt_started d a"
proof -
  have "has_attempt d a" using assms(1,3) by (auto simp: audited_def)
  then have "\<exists>x\<in>set (db_attempts d). ar_id x = a" by (auto simp: has_attempt_def)
  then obtain r where r: "find_attempt d a = Some r"
    unfolding find_attempt_def find_Some_iff_ex [symmetric] by blast
  then have "r \<in> set (db_attempts d)" "ar_id r = a" by (auto simp: find_attempt_def dest!: find_rowD)
  then have "follows AttemptCanTransitionTo AttemptNew (attempt_log d a) = Some (ar_state r)"
    using assms(1) by (auto simp: audited_def)
  with assms(3) r show ?thesis using follows_not_new by (auto simp: attempt_started_def)
qed

end
