(* ===== verification/WarmPool.thy ===== *)
theory WarmPool
  imports JobStore "HOL-Library.AList"
begin

text \<open>
  The in-memory pool of warm Pods (\<open>internal/pool/pool.go\<close>). The map of Pods is an
  association list, \<open>podOrder\<close> the list of its keys; each operation holds the mutex, so it
  is one step. The identifier of the n-th Pod made is \<open>uuid n\<close>; clocks are arguments.
  Thresholds are the exact values of their doubles.
\<close>

subsection \<open>State\<close>

record warm_pod =
  wp_id :: string
  wp_pool :: string
  wp_state :: pod_state
  wp_job :: string
  wp_runtime :: string
  wp_image :: string
  wp_created :: instant
  wp_claimed :: "instant option"
  wp_version :: int

record pool_config =
  cf_name :: string
  cf_min :: int
  cf_max :: int
  cf_up :: rat
  cf_down :: rat
  cf_step :: int
  cf_cooldown :: int
  cf_image :: string
  cf_runtime :: string

record pool_status =
  ps_total :: nat
  ps_idle :: nat
  ps_claimed :: nat
  ps_last_scale :: "instant option"
  ps_ready :: bool

record claim_result =
  cr_pod :: warm_pod
  cr_warm :: bool
  cr_latency :: duration

record pool_metrics =
  pm_claims :: int
  pm_misses :: int
  pm_ups :: int
  pm_downs :: int

datatype pool_error = ErrPoolExhausted | ErrPodNotFound

record pool_manager =
  mg_cfg :: pool_config
  mg_pods :: "(string \<times> warm_pod) list"
  mg_order :: "string list"
  mg_last_scale :: "instant option"
  mg_demand :: int
  mg_metrics :: pool_metrics
  mg_made :: nat

subsection \<open>Operations\<close>

definition fresh_pod :: "string \<Rightarrow> instant \<Rightarrow> pool_config \<Rightarrow> warm_pod" where
  "fresh_pod i now cfg = \<lparr>wp_id = i, wp_pool = cf_name cfg, wp_state = PodIdle, wp_job = [], wp_runtime = cf_runtime cfg,
     wp_image = cf_image cfg, wp_created = now, wp_claimed = None, wp_version = 1\<rparr>"

definition createPod :: "(nat \<Rightarrow> string) \<Rightarrow> instant \<Rightarrow> pool_manager \<Rightarrow> pool_manager" where
  "createPod uuid now m =
     (let i = uuid (mg_made m)
      in m\<lparr>mg_pods := AList.update i (fresh_pod i now (mg_cfg m)) (mg_pods m), mg_order := mg_order m @ [i],
           mg_made := Suc (mg_made m)\<rparr>)"

text \<open>\<open>for i := 0; i < n && len(m.pods) < MaxSize; i++\<close>\<close>

fun create_upto :: "(nat \<Rightarrow> string) \<Rightarrow> instant \<Rightarrow> nat \<Rightarrow> pool_manager \<Rightarrow> pool_manager" where
  "create_upto uuid now 0 m = m"
| "create_upto uuid now (Suc n) m =
     (if int (length (mg_pods m)) < cf_max (mg_cfg m) then create_upto uuid now n (createPod uuid now m) else m)"

definition NewPoolManager :: "(nat \<Rightarrow> string) \<Rightarrow> instant \<Rightarrow> pool_config \<Rightarrow> pool_manager" where
  "NewPoolManager uuid now cfg =
     (createPod uuid now ^^ nat (cf_min cfg))
       \<lparr>mg_cfg = cfg, mg_pods = [], mg_order = [], mg_last_scale = None, mg_demand = 0,
        mg_metrics = \<lparr>pm_claims = 0, pm_misses = 0, pm_ups = 0, pm_downs = 0\<rparr>, mg_made = 0\<rparr>"

definition pod_is :: "pod_state \<Rightarrow> pool_manager \<Rightarrow> string \<Rightarrow> bool" where
  "pod_is s m i \<longleftrightarrow> (case map_of (mg_pods m) i of None \<Rightarrow> False | Some p \<Rightarrow> wp_state p = s)"

definition claim_pod :: "string \<Rightarrow> instant \<Rightarrow> warm_pod \<Rightarrow> warm_pod" where
  "claim_pod j now p = p\<lparr>wp_state := PodClaimed, wp_job := j, wp_claimed := Some now, wp_version := wp_version p + 1\<rparr>"

definition ClaimPod ::
  "string \<Rightarrow> instant \<Rightarrow> duration \<Rightarrow> pool_manager \<Rightarrow> (pool_error + claim_result) \<times> pool_manager" where
  "ClaimPod j now latency m =
     (let m = m\<lparr>mg_metrics := mg_metrics m\<lparr>pm_claims := pm_claims (mg_metrics m) + 1\<rparr>\<rparr>
      in case find (pod_is PodIdle m) (mg_order m) of
           None \<Rightarrow> (Inl ErrPoolExhausted, m\<lparr>mg_metrics := mg_metrics m\<lparr>pm_misses := pm_misses (mg_metrics m) + 1\<rparr>\<rparr>)
         | Some i \<Rightarrow>
             (let p = claim_pod j now (the (map_of (mg_pods m) i))
              in (Inr \<lparr>cr_pod = p, cr_warm = True, cr_latency = latency\<rparr>,
                  m\<lparr>mg_pods := AList.update i p (mg_pods m)\<rparr>)))"

text \<open>The Pod leaves the map, so its last state is seen by nobody; a new one takes its place.\<close>

definition ReleasePod :: "(nat \<Rightarrow> string) \<Rightarrow> instant \<Rightarrow> string \<Rightarrow> pool_manager \<Rightarrow> (pool_error + unit) \<times> pool_manager" where
  "ReleasePod uuid now i m =
     (case map_of (mg_pods m) i of
        None \<Rightarrow> (Inl ErrPodNotFound, m)
      | Some p \<Rightarrow>
          (Inr (), createPod uuid now
             (m\<lparr>mg_pods := AList.delete i (mg_pods m), mg_order := filter (\<lambda>k. k \<noteq> i) (mg_order m)\<rparr>)))"

definition count_pods :: "pod_state \<Rightarrow> pool_manager \<Rightarrow> nat" where
  "count_pods s m = length (filter (\<lambda>(i, p). wp_state p = s) (mg_pods m))"

definition PoolStatus :: "pool_manager \<Rightarrow> pool_status" where
  "PoolStatus m = \<lparr>ps_total = length (mg_pods m), ps_idle = count_pods PodIdle m, ps_claimed = count_pods PodClaimed m,
     ps_last_scale = mg_last_scale m, ps_ready = (0 < count_pods PodIdle m)\<rparr>"

definition drop_terminating :: "pool_manager \<Rightarrow> pool_manager" where
  "drop_terminating m =
     (let terms = filter (pod_is PodTerminating m) (mg_order m)
      in if terms = [] then m
         else m\<lparr>mg_pods := fold AList.delete terms (mg_pods m), mg_order := filter (\<lambda>i. i \<notin> set terms) (mg_order m)\<rparr>)"

text \<open>The loop of the scale-down: the map shrinks while \<open>removed\<close> grows, and the guard
  subtracts one from the other.\<close>

fun remove_idle ::
  "int \<Rightarrow> string list \<Rightarrow> (string \<times> warm_pod) list \<Rightarrow> nat \<Rightarrow> (string \<times> warm_pod) list \<times> string list \<times> nat" where
  "remove_idle mn [] ps r = (ps, [], r)"
| "remove_idle mn (i # is) ps r =
     (case map_of ps i of
        Some p \<Rightarrow>
          if wp_state p = PodIdle \<and> mn < int (length ps) - int r
          then remove_idle mn is (AList.delete i ps) (Suc r)
          else (case remove_idle mn is ps r of (ps', is', r') \<Rightarrow> (ps', i # is', r'))
      | None \<Rightarrow> (case remove_idle mn is ps r of (ps', is', r') \<Rightarrow> (ps', i # is', r')))"

definition burst :: "(nat \<Rightarrow> string) \<Rightarrow> instant \<Rightarrow> nat \<Rightarrow> pool_manager \<Rightarrow> pool_manager" where
  "burst uuid now n m =
     (let m = create_upto uuid now n m
      in m\<lparr>mg_last_scale := Some now, mg_metrics := mg_metrics m\<lparr>pm_ups := pm_ups (mg_metrics m) + 1\<rparr>\<rparr>)"

definition scale_up_pool :: "(nat \<Rightarrow> string) \<Rightarrow> instant \<Rightarrow> pool_manager \<Rightarrow> pool_manager" where
  "scale_up_pool uuid now m =
     (let m' = create_upto uuid now (nat (cf_step (mg_cfg m))) m
      in if length (mg_pods m) < length (mg_pods m')
         then m'\<lparr>mg_last_scale := Some now, mg_metrics := mg_metrics m'\<lparr>pm_ups := pm_ups (mg_metrics m') + 1\<rparr>\<rparr>
         else m')"

definition scale_down_pool :: "instant \<Rightarrow> pool_manager \<Rightarrow> pool_manager" where
  "scale_down_pool now m =
     (case remove_idle (cf_min (mg_cfg m)) (mg_order m) (mg_pods m) 0 of
        (ps, is, r) \<Rightarrow>
          (let m' = m\<lparr>mg_pods := ps, mg_order := is\<rparr>
           in if 0 < r
              then m'\<lparr>mg_last_scale := Some now, mg_metrics := mg_metrics m'\<lparr>pm_downs := pm_downs (mg_metrics m') + 1\<rparr>\<rparr>
              else m'))"

definition cooldown_over :: "instant \<Rightarrow> pool_manager \<Rightarrow> bool" where
  "cooldown_over now m \<longleftrightarrow>
     (case mg_last_scale m of None \<Rightarrow> True | Some t \<Rightarrow> seconds (cf_cooldown (mg_cfg m)) \<le> time_sub now t)"

definition ReconcilePool :: "(nat \<Rightarrow> string) \<Rightarrow> instant \<Rightarrow> pool_manager \<Rightarrow> pool_manager" where
  "ReconcilePool uuid now m =
     (let m = drop_terminating m; tot = length (mg_pods m); idle = count_pods PodIdle m
      in if int idle < mg_demand m then burst uuid now (nat (mg_demand m - int idle)) m
         else if tot = 0 then m
         else
           (let ratio = fdiv64 idle tot; ok = cooldown_over now m;
                m' = (if ratio < cf_up (mg_cfg m) \<and> ok then scale_up_pool uuid now m else m)
            in if cf_down (mg_cfg m) < ratio \<and> cf_min (mg_cfg m) < int tot \<and> ok then scale_down_pool now m' else m'))"

definition GetPod :: "string \<Rightarrow> pool_manager \<Rightarrow> warm_pod option" where
  "GetPod i m = map_of (mg_pods m) i"

definition ListPods :: "pool_manager \<Rightarrow> warm_pod list" where
  "ListPods m = List.map_filter (map_of (mg_pods m)) (mg_order m)"

definition SetPendingDemand :: "int \<Rightarrow> pool_manager \<Rightarrow> pool_manager" where
  "SetPendingDemand n m = m\<lparr>mg_demand := n\<rparr>"

subsection \<open>The map and the order agree\<close>

definition pod_fine :: "string \<times> warm_pod \<Rightarrow> bool" where
  "pod_fine x \<longleftrightarrow> wp_id (snd x) = fst x \<and> wp_state (snd x) \<noteq> PodTerminating"

definition pool_inv :: "(nat \<Rightarrow> string) \<Rightarrow> pool_manager \<Rightarrow> bool" where
  "pool_inv uuid m \<longleftrightarrow> inj uuid \<and>
     map fst (mg_pods m) = mg_order m \<and> distinct (mg_order m) \<and>
     set (mg_order m) \<subseteq> uuid ` {..<mg_made m} \<and> list_all pod_fine (mg_pods m)"

lemma uuid_fresh: "pool_inv uuid m \<Longrightarrow> uuid (mg_made m) \<notin> set (mg_order m)"
  by (auto simp: pool_inv_def dest: injD)

lemma update_new: "k \<notin> fst ` set ps \<Longrightarrow> AList.update k v ps = ps @ [(k, v)]"
  by (induction ps) auto

lemma createPod_eq:
  "pool_inv uuid m \<Longrightarrow> createPod uuid now m = m\<lparr>mg_pods := mg_pods m @ [(uuid (mg_made m), fresh_pod (uuid (mg_made m)) now (mg_cfg m))],
     mg_order := mg_order m @ [uuid (mg_made m)], mg_made := Suc (mg_made m)\<rparr>"
  using uuid_fresh [of uuid m]
  by (subst createPod_def, subst Let_def, subst update_new) (auto simp: pool_inv_def simp flip: set_map)

lemma fresh_pod_fine [simp]: "pod_fine (i, fresh_pod i now cfg)"
  by (simp add: pod_fine_def fresh_pod_def)

lemma createPod_inv: "pool_inv uuid m \<Longrightarrow> pool_inv uuid (createPod uuid now m)"
  using uuid_fresh [of uuid m] by (auto simp: createPod_eq pool_inv_def lessThan_Suc)

lemma create_upto_inv: "pool_inv uuid m \<Longrightarrow> pool_inv uuid (create_upto uuid now n m)"
  by (induction uuid now n m rule: create_upto.induct) (auto intro: createPod_inv)

lemma pool_inv_cong:
  "pool_inv uuid m \<Longrightarrow> mg_pods m' = mg_pods m \<Longrightarrow> mg_order m' = mg_order m \<Longrightarrow> mg_made m' = mg_made m \<Longrightarrow> pool_inv uuid m'"
  by (simp add: pool_inv_def)

lemma pool_inv_metrics: "pool_inv uuid (m\<lparr>mg_last_scale := t, mg_metrics := x\<rparr>) = pool_inv uuid m"
  by (simp add: pool_inv_def)

lemma NewPoolManager_inv: "inj uuid \<Longrightarrow> pool_inv uuid (NewPoolManager uuid now cfg)"
proof -
  assume "inj uuid"
  then have "pool_inv uuid ((createPod uuid now ^^ n) \<lparr>mg_cfg = cfg, mg_pods = [], mg_order = [], mg_last_scale = None,
      mg_demand = 0, mg_metrics = \<lparr>pm_claims = 0, pm_misses = 0, pm_ups = 0, pm_downs = 0\<rparr>, mg_made = 0\<rparr>)" for n
    by (induction n) (simp_all add: createPod_inv, simp add: pool_inv_def)
  then show ?thesis by (simp add: NewPoolManager_def)
qed

lemma not_terminating: "pool_inv uuid m \<Longrightarrow> \<not> pod_is PodTerminating m i"
  by (auto simp: pool_inv_def pod_is_def list_all_iff pod_fine_def split: option.split dest!: map_of_SomeD)

lemma drop_terminating_id [simp]: "pool_inv uuid m \<Longrightarrow> drop_terminating m = m"
  by (simp add: drop_terminating_def not_terminating)

lemma fine_update: "list_all pod_fine ps \<Longrightarrow> pod_fine (i, p) \<Longrightarrow> list_all pod_fine (AList.update i p ps)"
  by (induction ps) auto

lemma fine_delete: "list_all pod_fine ps \<Longrightarrow> list_all pod_fine (AList.delete i ps)"
  by (auto simp: list_all_iff AList.delete_eq)

lemma update_old_keys: "i \<in> fst ` set ps \<Longrightarrow> map fst (AList.update i p ps) = map fst ps"
  by (induction ps) auto

lemma map_of_key_in: "map_of ps i = Some p \<Longrightarrow> i \<in> fst ` set ps"
  by (force dest: map_of_SomeD)

lemma find_idleD:
  assumes "find (pod_is s m) (mg_order m) = Some i"
  obtains p where "i \<in> set (mg_order m)" "map_of (mg_pods m) i = Some p" "wp_state p = s"
  using assms by (auto simp: pod_is_def dest!: find_SomeD split: option.splits)

lemma pod_is_metrics [simp]: "pod_is s (m\<lparr>mg_metrics := x\<rparr>) = pod_is s m"
  by (simp add: fun_eq_iff pod_is_def)

lemma ClaimPod_cases:
  obtains x where "find (pod_is PodIdle m) (mg_order m) = None" "ClaimPod j now latency m = (Inl ErrPoolExhausted, m\<lparr>mg_metrics := x\<rparr>)"
  | i p x where "find (pod_is PodIdle m) (mg_order m) = Some i" "map_of (mg_pods m) i = Some p" "wp_state p = PodIdle"
      "ClaimPod j now latency m =
         (Inr \<lparr>cr_pod = claim_pod j now p, cr_warm = True, cr_latency = latency\<rparr>,
          m\<lparr>mg_metrics := x, mg_pods := AList.update i (claim_pod j now p) (mg_pods m)\<rparr>)"
proof (cases "find (pod_is PodIdle m) (mg_order m)")
  case None
  with that(1) show thesis by (simp add: ClaimPod_def)
next
  case (Some i)
  then obtain p where p: "map_of (mg_pods m) i = Some p" "wp_state p = PodIdle" by (rule find_idleD)
  show thesis by (rule that(2) [OF Some p]) (simp add: ClaimPod_def Let_def Some p)
qed

lemma ClaimPod_inv:
  assumes "pool_inv uuid m"
  shows "pool_inv uuid (snd (ClaimPod j now latency m))"
proof (cases rule: ClaimPod_cases [of m j now latency])
  case (1 x)
  with assms show ?thesis by (auto intro: pool_inv_cong)
next
  case (2 i p x)
  then have "pod_fine (i, claim_pod j now p)"
    using assms by (auto simp: pool_inv_def list_all_iff pod_fine_def claim_pod_def dest: map_of_SomeD)
  with 2 assms show ?thesis
    by (simp add: pool_inv_def update_old_keys map_of_key_in fine_update)
qed

lemma delete_keeps_inv:
  "pool_inv uuid m \<Longrightarrow> pool_inv uuid (m\<lparr>mg_pods := AList.delete i (mg_pods m), mg_order := filter (\<lambda>k. k \<noteq> i) (mg_order m)\<rparr>)"
  by (auto simp: pool_inv_def AList.delete_keys removeAll_filter_not_eq fine_delete intro: filter_cong)

lemma ReleasePod_inv: "pool_inv uuid m \<Longrightarrow> pool_inv uuid (snd (ReleasePod uuid now i m))"
  by (auto simp: ReleasePod_def split: option.split intro: createPod_inv delete_keeps_inv)

text \<open>What the scale-down loop removes: idle Pods only, in order, and how many.\<close>

definition idle_in :: "(string \<times> warm_pod) list \<Rightarrow> string \<Rightarrow> bool" where
  "idle_in ps i \<longleftrightarrow> (case map_of ps i of None \<Rightarrow> False | Some p \<Rightarrow> wp_state p = PodIdle)"

lemma order_step:
  assumes "map fst ps = pre @ i # is" and "distinct (map fst ps)"
  obtains p where "map_of ps i = Some p" "map fst (AList.delete i ps) = pre @ is" "distinct (map fst (AList.delete i ps))"
    "length ps = Suc (length (AList.delete i ps))" "map fst ps = (pre @ [i]) @ is" "i \<notin> set is"
proof -
  obtain p where p: "map_of ps i = Some p" using assms(1) by (metis in_set_conv_decomp map_of_eq_None_iff not_None_eq set_map)
  have keys: "map fst (AList.delete i ps) = pre @ is" "distinct (map fst (AList.delete i ps))"
    using assms by (simp_all add: AList.delete_keys distinct_removeAll)
  have "length ps = Suc (length (AList.delete i ps))"
    using keys(1) assms(1) by (metis add_Suc_right length_Cons length_append length_map)
  with p keys show thesis using assms by (intro that) auto
qed

lemma remove_idle_keys:
  assumes "remove_idle mn is ps r = (ps', is', r')" and "map fst ps = pre @ is" and "distinct (map fst ps)"
  shows "map fst ps' = pre @ is' \<and> distinct (map fst ps') \<and> set ps' \<subseteq> set ps \<and> length ps' + r' = length ps + r \<and> r \<le> r'"
  using assms
proof (induction mn "is" ps r arbitrary: pre ps' is' r' rule: remove_idle.induct)
  case (2 mn i "is" ps r)
  obtain p where p: "map_of ps i = Some p" and del: "map fst (AList.delete i ps) = pre @ is"
    "distinct (map fst (AList.delete i ps))" "length ps = Suc (length (AList.delete i ps))"
    and keys: "map fst ps = (pre @ [i]) @ is"
    using "2.prems"(2,3) by (rule order_step)
  show ?case
  proof (cases "wp_state p = PodIdle \<and> mn < int (length ps) - int r")
    case True
    moreover have "set (AList.delete i ps) \<subseteq> set ps" by (auto simp: AList.delete_eq)
    ultimately show ?thesis
      using "2.IH"(2) [OF p True _ del(1,2)] "2.prems"(1) p True del(3) by auto
  next
    case False
    obtain qs js q where rec: "remove_idle mn is ps r = (qs, js, q)" by (cases "remove_idle mn is ps r")
    show ?thesis
      using "2.IH"(3) [OF p False rec keys "2.prems"(3)] "2.prems"(1) p False rec by auto
  qed
qed auto

lemma remove_idle_keeps:
  "remove_idle mn is ps r = (ps', is', r') \<Longrightarrow> map_of ps i = Some p \<Longrightarrow> wp_state p \<noteq> PodIdle \<Longrightarrow> map_of ps' i = Some p"
proof (induction mn "is" ps r arbitrary: ps' is' r' rule: remove_idle.induct)
  case (2 mn k "is" ps r)
  show ?case
  proof (cases "\<exists>q. map_of ps k = Some q \<and> wp_state q = PodIdle \<and> mn < int (length ps) - int r")
    case True
    then obtain q where q: "map_of ps k = Some q" "wp_state q = PodIdle \<and> mn < int (length ps) - int r" by blast
    with "2.prems" have "k \<noteq> i" by auto
    with "2.IH"(2) [OF q, of ps' is' r'] "2.prems" q show ?thesis by (auto simp: AList.delete_conv')
  next
    case False
    obtain qs js q where "remove_idle mn is ps r = (qs, js, q)" by (cases "remove_idle mn is ps r")
    with False "2.IH"(1) [of qs js q] "2.IH"(3) [of _ qs js q] "2.prems" show ?thesis
      by (auto split: option.splits)
  qed
qed simp

lemma remove_idle_above:
  "remove_idle mn is ps r = (ps', is', r') \<Longrightarrow> map fst ps = pre @ is \<Longrightarrow> distinct (map fst ps) \<Longrightarrow>
     mn \<le> int (length ps) \<Longrightarrow> mn \<le> int (length ps')"
proof (induction mn "is" ps r arbitrary: pre ps' is' r' rule: remove_idle.induct)
  case (2 mn i "is" ps r)
  obtain p where p: "map_of ps i = Some p" and del: "map fst (AList.delete i ps) = pre @ is"
    "distinct (map fst (AList.delete i ps))" "length ps = Suc (length (AList.delete i ps))"
    and keys: "map fst ps = (pre @ [i]) @ is"
    using "2.prems"(2,3) by (rule order_step)
  show ?case
  proof (cases "wp_state p = PodIdle \<and> mn < int (length ps) - int r")
    case True
    then show ?thesis using "2.IH"(2) [OF p True _ del(1,2)] "2.prems"(1) p del(3) by auto
  next
    case False
    obtain qs js q where rec: "remove_idle mn is ps r = (qs, js, q)" by (cases "remove_idle mn is ps r")
    show ?thesis
      using "2.IH"(3) [OF p False rec keys "2.prems"(3,4)] "2.prems"(1) p False rec by auto
  qed
qed simp

text \<open>The guard counts every removal twice, so the loop removes half of the surplus, rounded up.\<close>

lemma remove_idle_count:
  "remove_idle mn is ps r = (ps', is', r') \<Longrightarrow> map fst ps = pre @ is \<Longrightarrow> distinct (map fst ps) \<Longrightarrow>
     r' = r + min (length (filter (idle_in ps) is)) (nat ((int (length ps) - int r - mn + 1) div 2))"
proof (induction mn "is" ps r arbitrary: pre ps' is' r' rule: remove_idle.induct)
  case (2 mn i "is" ps r)
  obtain p where p: "map_of ps i = Some p" and del: "map fst (AList.delete i ps) = pre @ is"
    "distinct (map fst (AList.delete i ps))" "length ps = Suc (length (AList.delete i ps))"
    and keys: "map fst ps = (pre @ [i]) @ is" and i: "i \<notin> set is"
    using "2.prems"(2,3) by (rule order_step)
  have head: "idle_in ps i \<longleftrightarrow> wp_state p = PodIdle" using p by (simp add: idle_in_def)
  show ?case
  proof (cases "wp_state p = PodIdle \<and> mn < int (length ps) - int r")
    case True
    have "filter (idle_in (AList.delete i ps)) is = filter (idle_in ps) is"
      using i by (intro filter_cong) (auto simp: idle_in_def AList.delete_conv')
    moreover have "nat ((int (length ps) - int r - mn + 1) div 2) = Suc (nat ((int (length (AList.delete i ps)) - int (Suc r) - mn + 1) div 2))"
      using True del(3) by (simp add: nat_eq_iff)
    moreover have "remove_idle mn is (AList.delete i ps) (Suc r) = (ps', is', r')" using "2.prems"(1) p True by simp
    ultimately show ?thesis
      using "2.IH"(2) [OF p True _ del(1,2), of ps' is' r'] head True by (simp only: filter.simps if_True length_Cons min_Suc_Suc add_Suc add_Suc_right simp_thms)
  next
    case False
    obtain qs js q where rec: "remove_idle mn is ps r = (qs, js, q)" by (cases "remove_idle mn is ps r")
    note IH = "2.IH"(3) [OF p False rec keys "2.prems"(3)]
    have q: "r' = q" using "2.prems"(1) p False rec by auto
    show ?thesis
    proof (cases "idle_in ps i")
      case True
      with False head have "nat ((int (length ps) - int r - mn + 1) div 2) = 0" by simp
      with IH q show ?thesis by simp
    next
      case False
      with IH q show ?thesis by simp
    qed
  qed
qed simp

subsection \<open>Any sequence of operations\<close>

datatype pool_event = ClaimOp string instant duration | ReleaseOp string instant | ReconcileOp instant | DemandOp int

fun pool_step :: "(nat \<Rightarrow> string) \<Rightarrow> pool_manager \<Rightarrow> pool_event \<Rightarrow> pool_manager" where
  "pool_step uuid m (ClaimOp j now latency) = snd (ClaimPod j now latency m)"
| "pool_step uuid m (ReleaseOp i now) = snd (ReleasePod uuid now i m)"
| "pool_step uuid m (ReconcileOp now) = ReconcilePool uuid now m"
| "pool_step uuid m (DemandOp n) = SetPendingDemand n m"

text \<open>A reconcile is a sequence of at most one burst, one scale-up and one scale-down.\<close>

lemma ReconcilePool_induct:
  assumes "pool_inv uuid m" and "P m"
    and "\<And>n. P (burst uuid now n m)" and "P (scale_up_pool uuid now m)"
    and "P (scale_down_pool now m)" and "P (scale_down_pool now (scale_up_pool uuid now m))"
  shows "P (ReconcilePool uuid now m)"
  using assms by (simp add: ReconcilePool_def Let_def)

lemma burst_inv: "pool_inv uuid m \<Longrightarrow> pool_inv uuid (burst uuid now n m)"
  by (simp add: burst_def Let_def pool_inv_metrics create_upto_inv)

lemma scale_up_inv: "pool_inv uuid m \<Longrightarrow> pool_inv uuid (scale_up_pool uuid now m)"
  unfolding scale_up_pool_def Let_def by (split if_split) (simp add: pool_inv_metrics create_upto_inv)

lemma remove_idle_inv:
  assumes "pool_inv uuid m" and "remove_idle mn (mg_order m) (mg_pods m) 0 = (ps, is, r)"
  shows "map fst ps = is" "distinct (map fst ps)" "set ps \<subseteq> set (mg_pods m)" "length ps + r = length (mg_pods m)"
  using remove_idle_keys [OF assms(2), of "[]"] assms(1) by (auto simp: pool_inv_def)

lemma scale_down_inv:
  assumes "pool_inv uuid m"
  shows "pool_inv uuid (scale_down_pool now m)"
proof -
  obtain ps "is" r where rem: "remove_idle (cf_min (mg_cfg m)) (mg_order m) (mg_pods m) 0 = (ps, is, r)"
    by (cases "remove_idle (cf_min (mg_cfg m)) (mg_order m) (mg_pods m) 0")
  note k = remove_idle_inv [OF assms rem]
  have keys: "map fst (mg_pods m) = mg_order m" using assms by (simp add: pool_inv_def)
  have "set is \<subseteq> set (mg_order m)" unfolding k(1) [symmetric] keys [symmetric] using k(3) by auto
  moreover have "list_all pod_fine ps" using k(3) assms by (auto simp: pool_inv_def list_all_iff)
  moreover have "distinct is" using k(2) unfolding k(1) .
  ultimately have "pool_inv uuid (m\<lparr>mg_pods := ps, mg_order := is\<rparr>)"
    using k(1) assms unfolding pool_inv_def by (simp, blast)
  then show ?thesis by (simp add: scale_down_pool_def Let_def rem pool_inv_metrics)
qed

lemma ReconcilePool_inv: "pool_inv uuid m \<Longrightarrow> pool_inv uuid (ReconcilePool uuid now m)"
  by (rule ReconcilePool_induct) (simp_all add: burst_inv scale_up_inv scale_down_inv)

lemma SetPendingDemand_inv: "pool_inv uuid m \<Longrightarrow> pool_inv uuid (SetPendingDemand n m)"
  by (simp add: SetPendingDemand_def pool_inv_def)

lemma pool_step_inv: "pool_inv uuid m \<Longrightarrow> pool_inv uuid (pool_step uuid m e)"
  by (cases e) (simp_all add: ClaimPod_inv ReleasePod_inv ReconcilePool_inv SetPendingDemand_inv)

interpretation warm_pool: invariant_machine "pool_step uuid" "pool_inv uuid" for uuid
  by unfold_locales (rule pool_step_inv)

subsection \<open>The size of the pool\<close>

definition pool_sized :: "pool_config \<Rightarrow> nat \<Rightarrow> bool" where
  "pool_sized cfg n \<longleftrightarrow> nat (cf_min cfg) \<le> n \<and> n \<le> max (nat (cf_max cfg)) (nat (cf_min cfg))"

definition pool_bounded :: "(nat \<Rightarrow> string) \<Rightarrow> pool_config \<Rightarrow> pool_manager \<Rightarrow> bool" where
  "pool_bounded uuid cfg m \<longleftrightarrow> pool_inv uuid m \<and> mg_cfg m = cfg \<and> pool_sized cfg (length (mg_pods m))"

lemma createPod_size: "pool_inv uuid m \<Longrightarrow> length (mg_pods (createPod uuid now m)) = Suc (length (mg_pods m))"
  by (simp add: createPod_eq)

lemma createPod_cfg [simp]: "mg_cfg (createPod uuid now m) = mg_cfg m"
  by (simp add: createPod_def Let_def)

lemma create_upto_bounded: "pool_bounded uuid cfg m \<Longrightarrow> pool_bounded uuid cfg (create_upto uuid now n m)"
proof (induction uuid now n m rule: create_upto.induct)
  case (2 uuid now n m)
  show ?case
  proof (cases "int (length (mg_pods m)) < cf_max (mg_cfg m)")
    case True
    then have "pool_bounded uuid cfg (createPod uuid now m)"
      using "2.prems" by (auto simp: pool_bounded_def pool_sized_def createPod_inv createPod_size)
    with "2.IH" True show ?thesis by simp
  next
    case False
    then show ?thesis using "2.prems" by simp
  qed
qed simp

lemma NewPoolManager_bounded: "inj uuid \<Longrightarrow> pool_bounded uuid cfg (NewPoolManager uuid now cfg)"
proof -
  assume uuid: "inj uuid"
  let ?m = "\<lparr>mg_cfg = cfg, mg_pods = [], mg_order = [], mg_last_scale = None, mg_demand = 0,
    mg_metrics = \<lparr>pm_claims = 0, pm_misses = 0, pm_ups = 0, pm_downs = 0\<rparr>, mg_made = 0\<rparr>"
  have "pool_inv uuid ?m" using uuid by (simp add: pool_inv_def)
  then have "pool_inv uuid ((createPod uuid now ^^ n) ?m) \<and> mg_cfg ((createPod uuid now ^^ n) ?m) = cfg \<and>
      length (mg_pods ((createPod uuid now ^^ n) ?m)) = n" for n
    by (induction n) (simp_all add: createPod_inv createPod_size)
  then show ?thesis by (simp add: NewPoolManager_def pool_bounded_def pool_sized_def)
qed

lemma bounded_cong:
  "pool_bounded uuid cfg m \<Longrightarrow> pool_inv uuid m' \<Longrightarrow> mg_cfg m' = mg_cfg m \<Longrightarrow> length (mg_pods m') = length (mg_pods m) \<Longrightarrow>
     pool_bounded uuid cfg m'"
  by (simp add: pool_bounded_def)

lemma ClaimPod_bounded:
  assumes "pool_bounded uuid cfg m"
  shows "pool_bounded uuid cfg (snd (ClaimPod j now latency m))"
  using assms
proof (rule bounded_cong)
  show "pool_inv uuid (snd (ClaimPod j now latency m))"
    using assms by (simp add: ClaimPod_inv pool_bounded_def)
  show "mg_cfg (snd (ClaimPod j now latency m)) = mg_cfg m"
    by (cases rule: ClaimPod_cases [of m j now latency]) simp_all
  show "length (mg_pods (snd (ClaimPod j now latency m))) = length (mg_pods m)"
    by (cases rule: ClaimPod_cases [of m j now latency])
      (simp_all, metis length_map map_of_key_in update_old_keys)
qed

lemma ReleasePod_cases:
  assumes "pool_inv uuid m"
  obtains "map_of (mg_pods m) i = None" "ReleasePod uuid now i m = (Inl ErrPodNotFound, m)"
  | m' p where "map_of (mg_pods m) i = Some p" "pool_inv uuid m'" "Suc (length (mg_pods m')) = length (mg_pods m)"
      "mg_cfg m' = mg_cfg m" "mg_pods m' = AList.delete i (mg_pods m)"
      "ReleasePod uuid now i m = (Inr (), createPod uuid now m')"
proof (cases "map_of (mg_pods m) i")
  case None
  with that(1) show thesis by (simp add: ReleasePod_def)
next
  case (Some p)
  let ?m' = "m\<lparr>mg_pods := AList.delete i (mg_pods m), mg_order := filter (\<lambda>k. k \<noteq> i) (mg_order m)\<rparr>"
  have "i \<in> set (map fst (mg_pods m))" using Some by (auto dest: map_of_key_in)
  then obtain pre post where "map fst (mg_pods m) = pre @ i # post" by (meson split_list)
  then have "Suc (length (AList.delete i (mg_pods m))) = length (mg_pods m)"
    by (rule order_step) (use assms in \<open>simp_all add: pool_inv_def\<close>)
  with that(2) [of p ?m'] Some delete_keeps_inv [OF assms, of i] show thesis by (simp add: ReleasePod_def)
qed

lemma ReleasePod_bounded:
  assumes "pool_bounded uuid cfg m"
  shows "pool_bounded uuid cfg (snd (ReleasePod uuid now i m))"
proof -
  have "pool_inv uuid m" using assms by (simp add: pool_bounded_def)
  then show ?thesis
    by (cases rule: ReleasePod_cases [of uuid m i now])
      (use assms in \<open>simp_all add: pool_bounded_def createPod_inv createPod_size\<close>)
qed

lemma scale_down_bounded:
  assumes "pool_bounded uuid cfg m"
  shows "pool_bounded uuid cfg (scale_down_pool now m)"
proof -
  obtain ps "is" r where rem: "remove_idle (cf_min (mg_cfg m)) (mg_order m) (mg_pods m) 0 = (ps, is, r)"
    by (cases "remove_idle (cf_min (mg_cfg m)) (mg_order m) (mg_pods m) 0")
  have inv: "pool_inv uuid m" using assms by (simp add: pool_bounded_def)
  have "cf_min cfg \<le> int (length ps)"
    using remove_idle_above [OF rem, of "[]"] assms by (simp add: pool_bounded_def pool_sized_def pool_inv_def nat_le_iff)
  moreover have "length ps \<le> length (mg_pods m)" using remove_idle_inv(4) [OF inv rem] by simp
  moreover have "mg_pods (scale_down_pool now m) = ps" "mg_cfg (scale_down_pool now m) = mg_cfg m"
    by (simp_all add: scale_down_pool_def Let_def rem)
  ultimately show ?thesis
    using assms scale_down_inv [OF inv] by (simp add: pool_bounded_def pool_sized_def)
qed

lemma bounded_scaled: "pool_bounded uuid cfg (m\<lparr>mg_last_scale := t, mg_metrics := x\<rparr>) = pool_bounded uuid cfg m"
  by (simp add: pool_bounded_def pool_inv_metrics)

lemma ReconcilePool_bounded: "pool_bounded uuid cfg m \<Longrightarrow> pool_bounded uuid cfg (ReconcilePool uuid now m)"
  by (rule ReconcilePool_induct)
    (simp_all add: pool_bounded_def [of uuid cfg m, THEN iffD1] scale_down_bounded scale_up_pool_def burst_def Let_def
      bounded_scaled create_upto_bounded)

lemma SetPendingDemand_bounded: "pool_bounded uuid cfg m \<Longrightarrow> pool_bounded uuid cfg (SetPendingDemand n m)"
  by (simp add: pool_bounded_def SetPendingDemand_inv) (simp add: SetPendingDemand_def)

interpretation bounded_pool: invariant_machine "pool_step uuid" "pool_bounded uuid cfg" for uuid cfg
proof
  show "pool_bounded uuid cfg (pool_step uuid m e)" if "pool_bounded uuid cfg m" for m e
    using that by (cases e)
      (simp_all add: ClaimPod_bounded ReleasePod_bounded ReconcilePool_bounded SetPendingDemand_bounded)
qed

subsection \<open>Claims are exclusive\<close>

definition held :: "pool_manager \<Rightarrow> warm_pod \<Rightarrow> bool" where
  "held m p \<longleftrightarrow> map_of (mg_pods m) (wp_id p) = Some p \<and> wp_state p = PodClaimed"

lemma createPod_lookup: "pool_inv uuid m \<Longrightarrow> map_of (mg_pods m) i = Some p \<Longrightarrow> map_of (mg_pods (createPod uuid now m)) i = Some p"
  by (simp add: createPod_eq map_add_def)

lemma create_upto_lookup:
  "pool_inv uuid m \<Longrightarrow> map_of (mg_pods m) i = Some p \<Longrightarrow> map_of (mg_pods (create_upto uuid now n m)) i = Some p"
  by (induction uuid now n m rule: create_upto.induct) (simp_all add: createPod_inv createPod_lookup)

lemma scale_down_lookup:
  "map_of (mg_pods m) i = Some p \<Longrightarrow> wp_state p \<noteq> PodIdle \<Longrightarrow> map_of (mg_pods (scale_down_pool now m)) i = Some p"
  by (auto simp: scale_down_pool_def Let_def split: prod.split elim: remove_idle_keeps)

lemma claim_holds:
  assumes "pool_inv uuid m" and "ClaimPod j now latency m = (Inr r, m')"
  shows "held m' (cr_pod r)" "wp_job (cr_pod r) = j" "cr_warm r" "\<not> held m q \<or> wp_id q \<noteq> wp_id (cr_pod r)"
    "0 < count_pods PodIdle m"
proof -
  obtain i p x where p: "map_of (mg_pods m) i = Some p" "wp_state p = PodIdle"
    "r = \<lparr>cr_pod = claim_pod j now p, cr_warm = True, cr_latency = latency\<rparr>"
    "m' = m\<lparr>mg_metrics := x, mg_pods := AList.update i (claim_pod j now p) (mg_pods m)\<rparr>"
    using assms(2) by (cases rule: ClaimPod_cases [of m j now latency]) auto
  moreover have "(i, p) \<in> set (mg_pods m)" using p(1) by (rule map_of_SomeD)
  moreover from this have "wp_id p = i" using assms(1) by (auto simp: pool_inv_def list_all_iff pod_fine_def)
  ultimately show "held m' (cr_pod r)" "wp_job (cr_pod r) = j" "cr_warm r" "\<not> held m q \<or> wp_id q \<noteq> wp_id (cr_pod r)"
    "0 < count_pods PodIdle m"
    by (auto simp: held_def claim_pod_def AList.update_conv' count_pods_def filter_empty_conv)
qed

lemma claim_fails_iff:
  assumes "pool_inv uuid m"
  shows "fst (ClaimPod j now latency m) = Inl ErrPoolExhausted \<longleftrightarrow> count_pods PodIdle m = 0"
proof (cases rule: ClaimPod_cases [of m j now latency])
  case (1 x)
  have "\<not> (i, p) \<in> set (mg_pods m) \<or> wp_state p \<noteq> PodIdle" for i p
  proof -
    have "distinct (map fst (mg_pods m))" "set (mg_order m) = fst ` set (mg_pods m)"
      using assms by (auto simp: pool_inv_def simp flip: set_map)
    with 1(1) show ?thesis by (force simp: find_None_iff pod_is_def)
  qed
  with 1(2) show ?thesis by (auto simp: count_pods_def filter_empty_conv)
next
  case (2 i p x)
  then have "0 < count_pods PodIdle m" using claim_holds(5) [OF assms] by blast
  with 2(4) show ?thesis by simp
qed

lemma step_keeps_held:
  assumes "pool_inv uuid m" and "held m p" and "\<forall>now. e \<noteq> ReleaseOp (wp_id p) now"
  shows "held (pool_step uuid m e) p"
proof (cases e)
  case (ClaimOp j now latency)
  show ?thesis
    by (cases rule: ClaimPod_cases [of m j now latency])
      (use assms(2) ClaimOp in \<open>auto simp: held_def AList.update_conv'\<close>)
next
  case (ReleaseOp i now)
  with assms(3) have "wp_id p \<noteq> i" by auto
  with assms(1,2) ReleaseOp show ?thesis
    by (cases rule: ReleasePod_cases [OF assms(1), of i now])
      (auto simp: held_def AList.delete_conv' intro: createPod_lookup)
next
  case (ReconcileOp now)
  have "held (ReconcilePool uuid now m) p"
    using assms(1)
    by (rule ReconcilePool_induct)
      (use assms in \<open>simp_all add: held_def burst_def scale_up_pool_def Let_def create_upto_lookup scale_down_lookup\<close>)
  with ReconcileOp show ?thesis by simp
next
  case (DemandOp n)
  with assms show ?thesis by (simp add: held_def SetPendingDemand_def)
qed

lemma run_keeps_held:
  "pool_inv uuid m \<Longrightarrow> held m p \<Longrightarrow> \<forall>now. ReleaseOp (wp_id p) now \<notin> set es \<Longrightarrow> held (foldl (pool_step uuid) m es) p"
proof (induction es arbitrary: m)
  case (Cons e es)
  have "held (pool_step uuid m e) p" using Cons.prems by (intro step_keeps_held) auto
  with Cons.IH [OF pool_step_inv] Cons.prems show ?case by simp
qed simp

end
