(* ===== verification/Scheduler.thy ===== *)
theory Scheduler
  imports JobSystem WarmPool
begin

text \<open>
  The reconciler (\<open>internal/scheduler/reconciler.go\<close>): one pass over the pool, the pending
  jobs, the stale attempts and the failed attempts. Every database call goes through the
  oracle; \<open>clock n\<close> is the time between the calls n - 1 and n.
\<close>

record sched_env =
  se_db :: db_oracle
  se_uuid :: "nat \<Rightarrow> string"
  se_clock :: "nat \<Rightarrow> instant"
  se_latency :: duration
  se_timeout :: duration

record sched =
  sc_world :: db_world
  sc_pool :: "pool_manager option"

subsection \<open>Calls\<close>

definition CreateAttempt :: "db_oracle \<Rightarrow> string \<Rightarrow> string \<Rightarrow> db_world \<Rightarrow> (db_error + attempt_row) \<times> db_world" where
  "CreateAttempt oc j worker w =
     (case dbc oc (\<lambda>c. NextAttemptNumber c j) w of
        (Inl e, w) \<Rightarrow> (Inl e, w)
      | (Inr n, w) \<Rightarrow> dbc oc (\<lambda>c. InsertAttempt c j worker n) w)"

text \<open>A new attempt, then the job's transition; a failed call ends it, the attempt stays.\<close>

definition attempt_and_move ::
  "db_oracle \<Rightarrow> string \<Rightarrow> job_state \<Rightarrow> job_state \<Rightarrow> string \<Rightarrow> db_world \<Rightarrow> db_world" where
  "attempt_and_move oc j s s' trigger w =
     (case CreateAttempt oc j [] w of
        (Inl e, w) \<Rightarrow> w
      | (Inr a, w) \<Rightarrow> snd (dbc oc (\<lambda>c. TransitionJobState c j s s' trigger) w))"

definition retry_or_fail :: "db_oracle \<Rightarrow> string \<Rightarrow> JobSpec \<Rightarrow> string \<Rightarrow> db_world \<Rightarrow> db_world" where
  "retry_or_fail oc j spec trigger w =
     (case dbc oc (\<lambda>c. CountAttempts c j) w of
        (Inl e, w) \<Rightarrow> w
      | (Inr n, w) \<Rightarrow>
          if n < i64 (sp_max_retries spec + 1) then attempt_and_move oc j JobRunning JobScheduled trigger w
          else snd (dbc oc (\<lambda>c. TransitionJobState c j JobRunning JobFailed ''max-retries-exceeded'') w))"

subsection \<open>The four parts of a pass\<close>

definition reconcilePool :: "sched_env \<Rightarrow> sched \<Rightarrow> sched" where
  "reconcilePool e s =
     (case sc_pool s of
        None \<Rightarrow> s
      | Some m \<Rightarrow>
          (case dbc (se_db e) ListJobs (sc_world s) of
             (Inl x, w) \<Rightarrow> s\<lparr>sc_world := w\<rparr>
           | (Inr jobs, w) \<Rightarrow>
               (let pending = int (length (filter (\<lambda>r. jr_state r = JobPending) jobs))
                in s\<lparr>sc_world := w,
                     sc_pool := Some (ReconcilePool (se_uuid e) (se_clock e (wd_calls w)) (SetPendingDemand pending m))\<rparr>)))"

text \<open>The claimed Pod is not stored anywhere: a hit only changes the trigger.\<close>

definition schedule_job :: "sched_env \<Rightarrow> job_row \<Rightarrow> sched \<Rightarrow> sched" where
  "schedule_job e job s =
     (if jr_state job \<noteq> JobPending then s
      else
        (let claim = map_option (ClaimPod (jr_id job) (se_clock e (wd_calls (sc_world s))) (se_latency e)) (sc_pool s);
             hit = (case claim of Some (Inr r, m) \<Rightarrow> cr_warm r | _ \<Rightarrow> False)
         in s\<lparr>sc_pool := map_option snd claim,
              sc_world := attempt_and_move (se_db e) (jr_id job) JobPending JobScheduled
                (if hit then ''pool-claim'' else ''reconciler'') (sc_world s)\<rparr>))"

definition schedulePendingJobs :: "sched_env \<Rightarrow> sched \<Rightarrow> sched" where
  "schedulePendingJobs e s =
     (case dbc (se_db e) ListJobs (sc_world s) of
        (Inl x, w) \<Rightarrow> s\<lparr>sc_world := w\<rparr>
      | (Inr jobs, w) \<Rightarrow> fold (schedule_job e) jobs (s\<lparr>sc_world := w\<rparr>))"

definition handle_stale :: "db_oracle \<Rightarrow> attempt_row \<Rightarrow> db_world \<Rightarrow> db_world" where
  "handle_stale oc a w =
     (case dbc oc (\<lambda>c. TransitionAttemptState c (ar_id a) AttemptExecuting AttemptTimedOut ''heartbeat-timeout'') w of
        (Inl x, w) \<Rightarrow> w
      | (Inr u, w) \<Rightarrow>
     (case dbc oc (\<lambda>c. GetJob c (ar_job a)) w of
        (Inl x, w) \<Rightarrow> w
      | (Inr job, w) \<Rightarrow> retry_or_fail oc (ar_job a) (jr_spec job) ''retry'' w))"

definition handleStaleAttempts :: "db_oracle \<Rightarrow> duration \<Rightarrow> db_world \<Rightarrow> db_world" where
  "handleStaleAttempts oc threshold w =
     (case dbc oc (\<lambda>c. FindStaleAttempts c threshold) w of
        (Inl x, w) \<Rightarrow> w
      | (Inr stale, w) \<Rightarrow> fold (handle_stale oc) stale w)"

definition handle_failed :: "db_oracle \<Rightarrow> job_row \<Rightarrow> db_world \<Rightarrow> db_world" where
  "handle_failed oc job w =
     (if jr_state job \<noteq> JobRunning then w
      else case dbc oc (\<lambda>c. GetAttempts c (jr_id job)) w of
        (Inl x, w) \<Rightarrow> w
      | (Inr as, w) \<Rightarrow>
          if as = [] \<or> ar_state (List.last as) \<noteq> AttemptFailed then w
          else retry_or_fail oc (jr_id job) (jr_spec job) ''retry-after-failure'' w)"

definition handleFailedAttempts :: "db_oracle \<Rightarrow> db_world \<Rightarrow> db_world" where
  "handleFailedAttempts oc w =
     (case dbc oc ListJobs w of
        (Inl x, w) \<Rightarrow> w
      | (Inr jobs, w) \<Rightarrow> fold (handle_failed oc) jobs w)"

definition reconcile_pass :: "sched_env \<Rightarrow> sched \<Rightarrow> sched" where
  "reconcile_pass e s =
     (let s = schedulePendingJobs e (reconcilePool e s)
      in s\<lparr>sc_world := handleFailedAttempts (se_db e) (handleStaleAttempts (se_db e) (se_timeout e) (sc_world s))\<rparr>)"

subsection \<open>A pass issues statements only\<close>

lemma CreateAttempt_steps:
  assumes "others_step oc" and "CreateAttempt oc j worker w = (r, w')"
  shows "world_steps w w'"
  using assms unfolding CreateAttempt_def NextAttemptNumber_def
  by (auto split: prod.splits sum.splits
      intro: dbc_query_steps dbc_step_steps world_steps_trans [OF dbc_query_steps dbc_step_steps])

lemma job_move_steps:
  "others_step oc \<Longrightarrow> JobCanTransitionTo s s' \<Longrightarrow> world_steps w (snd (dbc oc (\<lambda>c. TransitionJobState c j s s' trigger) w))"
  by (rule dbc_step_steps [OF _ surjective_pairing]) auto

lemma attempt_and_move_steps:
  assumes "others_step oc" and "JobCanTransitionTo s s'"
  shows "world_steps w (attempt_and_move oc j s s' trigger w)"
  unfolding attempt_and_move_def
  by (auto split: prod.splits sum.splits
      intro: CreateAttempt_steps [OF assms(1)] world_steps_trans [OF CreateAttempt_steps [OF assms(1)] job_move_steps [OF assms]])

lemma retry_or_fail_steps:
  assumes "others_step oc"
  shows "world_steps w (retry_or_fail oc j spec trigger w)"
  unfolding retry_or_fail_def CountAttempts_def
  by (auto split: prod.splits sum.splits
      intro: dbc_query_steps [OF assms] world_steps_trans [OF dbc_query_steps [OF assms] attempt_and_move_steps [OF assms]]
        world_steps_trans [OF dbc_query_steps [OF assms] job_move_steps [OF assms]])

lemma fold_steps: "(\<And>x w. world_steps w (f x w)) \<Longrightarrow> world_steps w (fold f xs w)"
  by (induction xs arbitrary: w) (auto intro: world_steps_trans)

lemma handle_stale_steps:
  assumes "others_step oc"
  shows "world_steps w (handle_stale oc a w)"
proof -
  have move: "world_steps w w'"
    if "dbc oc (\<lambda>c. TransitionAttemptState c i AttemptExecuting AttemptTimedOut trigger) w = (r, w')" for i trigger w r w'
    using assms that by (rule dbc_step_steps) auto
  show ?thesis
    unfolding handle_stale_def GetJob_def
    by (auto split: prod.splits sum.splits
        intro: move world_steps_trans [OF move dbc_query_steps [OF assms]]
          world_steps_trans [OF world_steps_trans [OF move dbc_query_steps [OF assms]] retry_or_fail_steps [OF assms]])
qed

lemma handleStaleAttempts_steps: "others_step oc \<Longrightarrow> world_steps w (handleStaleAttempts oc threshold w)"
  unfolding handleStaleAttempts_def FindStaleAttempts_def
  by (auto split: prod.splits sum.splits
      intro: dbc_query_steps world_steps_trans [OF dbc_query_steps fold_steps [OF handle_stale_steps]])

lemma handle_failed_steps: "others_step oc \<Longrightarrow> world_steps w (handle_failed oc job w)"
  unfolding handle_failed_def GetAttempts_def
  by (auto split: prod.splits sum.splits
      intro: dbc_query_steps world_steps_trans [OF dbc_query_steps retry_or_fail_steps])

lemma handleFailedAttempts_steps: "others_step oc \<Longrightarrow> world_steps w (handleFailedAttempts oc w)"
  unfolding handleFailedAttempts_def ListJobs_def
  by (auto split: prod.splits sum.splits
      intro: dbc_query_steps world_steps_trans [OF dbc_query_steps fold_steps [OF handle_failed_steps]])

lemma reconcilePool_steps: "others_step (se_db e) \<Longrightarrow> world_steps (sc_world s) (sc_world (reconcilePool e s))"
  unfolding reconcilePool_def ListJobs_def
  by (auto simp: Let_def split: option.splits prod.splits sum.splits intro: dbc_query_steps)

lemma schedule_job_steps: "others_step (se_db e) \<Longrightarrow> world_steps (sc_world s) (sc_world (schedule_job e job s))"
  by (simp add: schedule_job_def Let_def attempt_and_move_steps)

lemma schedulePendingJobs_steps:
  assumes "others_step (se_db e)"
  shows "world_steps (sc_world s) (sc_world (schedulePendingJobs e s))"
proof -
  have "world_steps (sc_world s) (sc_world (fold (schedule_job e) jobs s))" for jobs s
    by (induction jobs arbitrary: s) (auto intro: world_steps_trans schedule_job_steps [OF assms])
  then have "world_steps w (sc_world (fold (schedule_job e) jobs (s\<lparr>sc_world := w\<rparr>)))" for jobs w
    by (metis sched.select_convs(1) sched.surjective sched.update_convs(1))
  then show ?thesis
    unfolding schedulePendingJobs_def ListJobs_def
    by (auto split: prod.splits sum.splits intro: dbc_query_steps [OF assms] world_steps_trans [OF dbc_query_steps [OF assms]])
qed

lemma reconcile_steps:
  assumes "others_step (se_db e)"
  shows "world_steps (sc_world s) (sc_world (reconcile_pass e s))"
proof -
  have "world_steps (sc_world s) (sc_world (reconcilePool e s))" by (rule reconcilePool_steps [OF assms])
  also have "world_steps \<dots> (sc_world (schedulePendingJobs e (reconcilePool e s)))"
    by (rule schedulePendingJobs_steps [OF assms])
  also have "world_steps \<dots> (handleStaleAttempts (se_db e) (se_timeout e) \<dots>)"
    by (rule handleStaleAttempts_steps [OF assms])
  also have "world_steps \<dots> (handleFailedAttempts (se_db e) \<dots>)"
    by (rule handleFailedAttempts_steps [OF assms])
  finally show ?thesis by (simp add: reconcile_pass_def Let_def)
qed

subsection \<open>The retry budget\<close>

definition job_specs :: "db \<Rightarrow> (string \<times> JobSpec) list" where
  "job_specs d = map (\<lambda>r. (jr_id r, jr_spec r)) (db_jobs d)"

definition attempt_jobs :: "db \<Rightarrow> string list" where
  "attempt_jobs d = map ar_job (db_attempts d)"

lemma count_attempts: "length (attempts_of d j) = count_list (attempt_jobs d) j"
proof -
  have "length (filter (\<lambda>r. ar_job r = j) xs) = count_list (map ar_job xs) j" for xs :: "attempt_row list"
    by (induction xs) auto
  then show ?thesis by (simp add: attempts_of_def attempt_jobs_def)
qed

definition same_frame :: "db \<Rightarrow> db \<Rightarrow> bool" where
  "same_frame d d' \<longleftrightarrow> job_specs d' = job_specs d \<and> attempt_jobs d' = attempt_jobs d"

lemma same_frame_refl [simp]: "same_frame d d"
  by (simp add: same_frame_def)

lemma exec_frame: "(\<And>x d'. f d = Inr (x, d') \<Longrightarrow> same_frame d d') \<Longrightarrow> same_frame d (snd (db_exec c f d))"
  by (rule db_exec_cases [of c f d]) auto

lemma job_move_frame: "same_frame d (snd (TransitionJobState c j s s' trigger d))"
  unfolding TransitionJobState_def
  by (rule exec_frame)
    (auto simp: same_frame_def job_specs_def attempt_jobs_def set_job_state_def update_where_map
      split: option.splits if_splits dest!: map_sum_InrE log_transition_InrD)

lemma attempt_move_frame: "same_frame d (snd (TransitionAttemptState c a s s' trigger d))"
  unfolding TransitionAttemptState_def
  by (rule exec_frame)
    (auto simp: same_frame_def job_specs_def attempt_jobs_def update_attempt_def update_where_map
      split: option.splits if_splits dest!: map_sum_InrE log_transition_InrD)

definition grown :: "string \<Rightarrow> db \<Rightarrow> db \<Rightarrow> bool" where
  "grown j d d' \<longleftrightarrow> job_specs d' = job_specs d \<and> (attempt_jobs d' = attempt_jobs d \<or> attempt_jobs d' = attempt_jobs d @ [j])"

lemma insert_attempt_grown: "grown j d (snd (InsertAttempt c j worker n d))"
  unfolding InsertAttempt_def Let_def
  by (rule exec_rel)
    (auto simp: grown_def job_specs_def attempt_jobs_def split: if_splits dest!: map_sum_InrE insert_unique_InrD)

lemma CreateAttempt_grown:
  assumes "alone oc" and "CreateAttempt oc j worker w = (r, w')"
  shows "grown j (wd_db w) (wd_db w')"
proof (cases "dbc oc (\<lambda>c. NextAttemptNumber c j) w")
  case (Pair q w1)
  have same: "wd_db w1 = wd_db w" using alone_dbc [OF assms(1) Pair] by (simp add: NextAttemptNumber_def)
  show ?thesis
  proof (cases q)
    case (Inl e)
    with assms(2) Pair same show ?thesis by (simp add: CreateAttempt_def grown_def)
  next
    case (Inr n)
    with assms(2) Pair have "dbc oc (\<lambda>c. InsertAttempt c j worker n) w1 = (r, w')" by (simp add: CreateAttempt_def)
    from alone_dbc [OF assms(1) this] same show ?thesis by (simp add: insert_attempt_grown)
  qed
qed

lemma attempt_and_move_grown:
  assumes "alone oc"
  shows "grown j (wd_db w) (wd_db (attempt_and_move oc j s s' trigger w))"
proof -
  obtain r w1 where c: "CreateAttempt oc j [] w = (r, w1)" by (cases "CreateAttempt oc j [] w")
  obtain u w2 where t: "dbc oc (\<lambda>c. TransitionJobState c j s s' trigger) w1 = (u, w2)"
    by (cases "dbc oc (\<lambda>c. TransitionJobState c j s s' trigger) w1")
  have "same_frame (wd_db w1) (wd_db w2)"
    using alone_dbc [OF assms t] job_move_frame by simp
  with CreateAttempt_grown [OF assms c] show ?thesis
    by (auto simp: attempt_and_move_def c t same_frame_def grown_def split: sum.split)
qed

definition budget :: "JobSpec \<Rightarrow> nat" where
  "budget spec = nat (i64 (sp_max_retries spec + 1))"

text \<open>Attempts were only added up to the budget of their job.\<close>

definition within_budget :: "db \<Rightarrow> db \<Rightarrow> bool" where
  "within_budget d d' \<longleftrightarrow> job_specs d' = job_specs d \<and>
     (\<forall>(j, spec) \<in> set (job_specs d). length (attempts_of d' j) \<le> max (length (attempts_of d j)) (budget spec))"

lemma within_budget_refl: "within_budget d d"
  by (auto simp: within_budget_def)

lemma within_budget_trans: "within_budget d d' \<Longrightarrow> within_budget d' d'' \<Longrightarrow> within_budget d d''"
  by (fastforce simp: within_budget_def)

lemma frame_within: "same_frame d d' \<Longrightarrow> within_budget d d'"
  by (auto simp: within_budget_def same_frame_def count_attempts)

lemma retry_within:
  assumes "alone oc" and "distinct (map fst (job_specs (wd_db w)))" and "(j, spec) \<in> set (job_specs (wd_db w))"
  shows "within_budget (wd_db w) (wd_db (retry_or_fail oc j spec trigger w))"
proof (cases "dbc oc (\<lambda>c. CountAttempts c j) w")
  case (Pair r w1)
  show ?thesis
  proof (cases r)
    case (Inl x)
    then show ?thesis
      using alone_dbc [OF assms(1) Pair] Pair by (simp add: retry_or_fail_def CountAttempts_def within_budget_refl)
  next
    case (Inr n)
    then have n: "wd_db w1 = wd_db w" "n = int (length (attempts_of (wd_db w) j))"
      using alone_query [OF assms(1), of "\<lambda>c d. Inr (int (length (attempts_of d j)))" w n w1] Pair
      by (simp_all add: CountAttempts_def)
    show ?thesis
    proof (cases "n < i64 (sp_max_retries spec + 1)")
      case True
      note f = attempt_and_move_grown [OF assms(1), of j w1 JobRunning JobScheduled trigger]
      have "length (attempts_of (wd_db w) j) < budget spec" using True n(2) by (simp add: budget_def)
      moreover have "b = spec" if "(j, b) \<in> set (job_specs (wd_db w))" for b
        using assms(2,3) that by (blast dest: eq_key_imp_eq_value)
      ultimately have "within_budget (wd_db w) (wd_db (attempt_and_move oc j JobRunning JobScheduled trigger w1))"
        using f n by (auto simp: within_budget_def grown_def count_attempts)
      then show ?thesis using True Inr Pair by (simp add: retry_or_fail_def)
    next
      case False
      obtain u w2 where t: "dbc oc (\<lambda>c. TransitionJobState c j JobRunning JobFailed ''max-retries-exceeded'') w1 = (u, w2)"
        by (cases "dbc oc (\<lambda>c. TransitionJobState c j JobRunning JobFailed ''max-retries-exceeded'') w1")
      have "same_frame (wd_db w) (wd_db w2)" using alone_dbc [OF assms(1) t] job_move_frame n(1) by simp
      then show ?thesis using False Inr Pair t by (simp add: retry_or_fail_def frame_within)
    qed
  qed
qed

lemma fold_within:
  assumes "\<And>x w. x \<in> set xs \<Longrightarrow> within_budget (wd_db w0) (wd_db w) \<Longrightarrow> within_budget (wd_db w) (wd_db (f x w))"
    and "within_budget (wd_db w0) (wd_db w)"
  shows "within_budget (wd_db w0) (wd_db (fold f xs w))"
  using assms
proof (induction xs arbitrary: w)
  case (Cons x xs)
  have "within_budget (wd_db w0) (wd_db (f x w))"
    using Cons.prems by (blast intro: within_budget_trans list.set_intros(1))
  with Cons.IH Cons.prems(1) show ?case by simp
qed simp

lemma in_job_specs: "r \<in> set (db_jobs d) \<Longrightarrow> (jr_id r, jr_spec r) \<in> set (job_specs d)"
  by (auto simp: job_specs_def)

lemma handle_stale_within:
  assumes "alone oc" and "distinct (map fst (job_specs (wd_db w)))"
  shows "within_budget (wd_db w) (wd_db (handle_stale oc a w))"
proof -
  obtain r w1 where t: "dbc oc (\<lambda>c. TransitionAttemptState c (ar_id a) AttemptExecuting AttemptTimedOut ''heartbeat-timeout'') w = (r, w1)"
    by (cases "dbc oc (\<lambda>c. TransitionAttemptState c (ar_id a) AttemptExecuting AttemptTimedOut ''heartbeat-timeout'') w")
  have frame: "same_frame (wd_db w) (wd_db w1)" using alone_dbc [OF assms(1) t] attempt_move_frame by simp
  obtain q w2 where g: "dbc oc (\<lambda>c. GetJob c (ar_job a)) w1 = (q, w2)" by (cases "dbc oc (\<lambda>c. GetJob c (ar_job a)) w1")
  have same: "wd_db w2 = wd_db w1" using alone_dbc [OF assms(1) g] by (simp add: GetJob_def)
  have "within_budget (wd_db w2) (wd_db (retry_or_fail oc (ar_job a) (jr_spec job) ''retry'' w2))" if "q = Inr job" for job
  proof (rule retry_within [OF assms(1)])
    show "distinct (map fst (job_specs (wd_db w2)))" using assms(2) frame same by (simp add: same_frame_def)
    have "find_job (wd_db w1) (ar_job a) = Some job"
      using alone_query [OF assms(1), of "\<lambda>c d. case find_job d (ar_job a) of None \<Rightarrow> Inl NoRows | Some r \<Rightarrow> Inr r" w1 job w2] g that
      by (auto simp: GetJob_def split: option.splits)
    then show "(ar_job a, jr_spec job) \<in> set (job_specs (wd_db w2))"
      unfolding same by (auto simp: find_job_def dest!: find_rowD in_job_specs)
  qed
  with frame_within [OF frame] same show ?thesis
    by (auto simp: handle_stale_def t g split: sum.split intro: within_budget_trans)
qed

lemma handle_failed_within:
  assumes "alone oc" and "distinct (map fst (job_specs (wd_db w)))" and "(jr_id job, jr_spec job) \<in> set (job_specs (wd_db w))"
  shows "within_budget (wd_db w) (wd_db (handle_failed oc job w))"
proof -
  obtain q w1 where g: "dbc oc (\<lambda>c. GetAttempts c (jr_id job)) w = (q, w1)" by (cases "dbc oc (\<lambda>c. GetAttempts c (jr_id job)) w")
  have same: "wd_db w1 = wd_db w" using alone_dbc [OF assms(1) g] by (simp add: GetAttempts_def)
  have "within_budget (wd_db w1) (wd_db (retry_or_fail oc (jr_id job) (jr_spec job) ''retry-after-failure'' w1))"
    by (rule retry_within [OF assms(1)]) (simp_all add: same assms(2,3))
  with same show ?thesis by (auto simp: handle_failed_def g within_budget_refl split: sum.split)
qed

lemma handlers_within:
  assumes "alone oc" and "distinct (map jr_id (db_jobs (wd_db w)))"
  shows "within_budget (wd_db w) (wd_db (handleFailedAttempts oc (handleStaleAttempts oc threshold w)))"
proof -
  have ids: "distinct (map fst (job_specs (wd_db w)))" using assms(2) by (simp add: job_specs_def comp_def)
  obtain q w1 where g: "dbc oc (\<lambda>c. FindStaleAttempts c threshold) w = (q, w1)" by (cases "dbc oc (\<lambda>c. FindStaleAttempts c threshold) w")
  have "within_budget (wd_db w) (wd_db w1)" using alone_dbc [OF assms(1) g] by (simp add: FindStaleAttempts_def within_budget_refl)
  then have "within_budget (wd_db w) (wd_db (fold (handle_stale oc) xs w1))" for xs
    by (intro fold_within handle_stale_within [OF assms(1)]) (use ids in \<open>simp_all add: within_budget_def\<close>)
  with \<open>within_budget (wd_db w) (wd_db w1)\<close> have 1: "within_budget (wd_db w) (wd_db (handleStaleAttempts oc threshold w))"
    by (simp add: handleStaleAttempts_def g split: sum.split)
  let ?w = "handleStaleAttempts oc threshold w"
  obtain p w2 where h: "dbc oc ListJobs ?w = (p, w2)" by (cases "dbc oc ListJobs ?w")
  have same: "wd_db w2 = wd_db ?w" using alone_dbc [OF assms(1) h] by (simp add: ListJobs_def)
  have "within_budget (wd_db w) (wd_db (fold (handle_failed oc) jobs w2))" if "p = Inr jobs" for jobs
  proof (rule fold_within)
    show "within_budget (wd_db w) (wd_db w2)" using 1 same by simp
    have "set jobs = set (db_jobs (wd_db ?w))"
      using alone_query [OF assms(1), of "\<lambda>c d. Inr (sort_key (\<lambda>r. - jr_created r) (db_jobs d))" ?w jobs w2] h that
      by (auto simp: ListJobs_def [abs_def])
    note jobs = this
    show "within_budget (wd_db v) (wd_db (handle_failed oc job v))" if "job \<in> set jobs" "within_budget (wd_db w) (wd_db v)" for job v
    proof (rule handle_failed_within [OF assms(1)])
      have "job_specs (wd_db v) = job_specs (wd_db w)" "job_specs (wd_db ?w) = job_specs (wd_db w)"
        using that(2) 1 by (simp_all add: within_budget_def)
      moreover have "job \<in> set (db_jobs (wd_db ?w))" using that(1) jobs by simp
      ultimately show "distinct (map fst (job_specs (wd_db v)))" "(jr_id job, jr_spec job) \<in> set (job_specs (wd_db v))"
        using ids in_job_specs by metis+
    qed
  qed
  with 1 same show ?thesis by (simp add: handleFailedAttempts_def h split: sum.split)
qed

subsection \<open>A pass without faults\<close>

definition new_row :: "db_call \<Rightarrow> string \<Rightarrow> int \<Rightarrow> attempt_row" where
  "new_row c j n = \<lparr>ar_id = dc_id c, ar_job = j, ar_number = n, ar_worker = [], ar_state = AttemptNew,
     ar_started = dc_now c, ar_finished = None, ar_heartbeat = dc_now c, ar_checkpoint = None,
     ar_pool = None, ar_last_step = None, ar_step_count = 0\<rparr>"

lemma calm_attempt_and_move:
  assumes "calm oc" and "ids_fresh oc w" and "find_job (wd_db w) j = Some r" and "jr_state r = s"
    and w': "w' = attempt_and_move oc j s s' trigger w"
  shows "\<exists>a. ar_job a = j \<and> ar_state a = AttemptNew \<and> db_attempts (wd_db w') = db_attempts (wd_db w) @ [a] \<and>
    job_states (wd_db w') = set_states j s' (job_states (wd_db w)) \<and> ids_fresh oc w'"
proof -
  let ?d = "wd_db w" and ?n = "wd_calls w"
  let ?k = "fold max (map ar_number (attempts_of ?d j)) 0 + 1"
  let ?a = "new_row (or_call oc (?n + 1)) j ?k"
  let ?d1 = "?d\<lparr>db_attempts := db_attempts ?d @ [?a]\<rparr>"
  let ?c = "or_call oc (?n + 2)"
  let ?t = "\<lparr>tn_id = dc_id ?c, tn_entity = JobEntity, tn_entity_id = j, tn_from = JobS s, tn_to = JobS s',
    tn_trigger = trigger, tn_created = dc_now ?c\<rparr>"
  have fresh: "dc_id (or_call oc (?n + 1)) \<notin> ar_id ` set (db_attempts ?d)" "dc_id ?c \<notin> tn_id ` set (db_transitions ?d)"
    using assms(2) by (simp_all add: ids_fresh_def)
  have job: "has_job ?d j" using assms(3) by (auto simp: find_job_def has_job_def dest!: find_rowD)
  have create: "CreateAttempt oc j [] w = (Inr ?a, \<lparr>wd_db = ?d1, wd_calls = ?n + 2\<rparr>)"
    using fresh(1) job
    by (simp add: CreateAttempt_def NextAttemptNumber_def InsertAttempt_def Let_def calm_dbc [OF assms(1)]
        calm_exec [OF assms(1)] calm_query [OF assms(1)] insert_unique_def new_row_def)
  have "w' = \<lparr>wd_db = (set_job_state j s' (dc_now ?c) ?d1)\<lparr>db_transitions := db_transitions ?d @ [?t]\<rparr>, wd_calls = ?n + 3\<rparr>"
    using fresh(2) assms(3,4)
    by (simp add: w' attempt_and_move_def create TransitionJobState_def calm_dbc [OF assms(1)] calm_exec [OF assms(1)]
        find_job_def set_job_state_rows log_transition_def insert_unique_def)
  moreover have "ids_fresh oc \<lparr>wd_db = (set_job_state j s' (dc_now ?c) ?d1)\<lparr>db_transitions := db_transitions ?d @ [?t]\<rparr>, wd_calls = ?n + 3\<rparr>"
  proof -
    have "dc_id (or_call oc n) \<noteq> dc_id (or_call oc (?n + 1))" "dc_id (or_call oc n) \<noteq> dc_id ?c" if "?n + 3 \<le> n" for n
      using assms(1) that by (auto simp: calm_def dest: injD)
    then show ?thesis using assms(2) by (auto simp: ids_fresh_def set_job_state_rows new_row_def)
  qed
  ultimately show ?thesis
    using set_job_states [of j s' "dc_now ?c" ?d1] by (intro exI [of _ ?a]) (simp add: new_row_def set_job_state_rows job_states_def)
qed

definition is_pending :: "job_row \<Rightarrow> bool" where
  "is_pending r \<longleftrightarrow> jr_state r = JobPending"

definition schedule_states :: "string set \<Rightarrow> (string \<times> job_state) list \<Rightarrow> (string \<times> job_state) list" where
  "schedule_states js = map (\<lambda>(i, t). (i, if i \<in> js then JobScheduled else t))"

lemma schedule_states_insert: "schedule_states js (set_states j JobScheduled xs) = schedule_states (insert j js) xs"
  by (auto simp: schedule_states_def set_states_def)

lemma schedule_loop:
  assumes "calm (se_db e)" and "ids_fresh (se_db e) (sc_world s)" and "distinct (map jr_id jobs)"
    and "\<And>r. r \<in> set jobs \<Longrightarrow> map_of (job_states (wd_db (sc_world s))) (jr_id r) = Some (jr_state r)"
  shows "\<exists>new. map ar_job new = map jr_id (filter is_pending jobs) \<and> list_all (\<lambda>a. ar_state a = AttemptNew) new \<and>
    db_attempts (wd_db (sc_world (fold (schedule_job e) jobs s))) = db_attempts (wd_db (sc_world s)) @ new \<and>
    job_states (wd_db (sc_world (fold (schedule_job e) jobs s))) =
      schedule_states (jr_id ` {r \<in> set jobs. is_pending r}) (job_states (wd_db (sc_world s)))"
  using assms(2-)
proof (induction jobs arbitrary: s)
  case Nil
  show ?case by (auto simp: schedule_states_def)
next
  case (Cons r jobs)
  show ?case
  proof (cases "is_pending r")
    case False
    then have "schedule_job e r s = s" by (simp add: schedule_job_def is_pending_def)
    moreover have "{x \<in> set (r # jobs). is_pending x} = {x \<in> set jobs. is_pending x}" using False by auto
    ultimately show ?thesis using Cons.IH [of s] Cons.prems False by simp
  next
    case True
    let ?s = "schedule_job e r s"
    obtain q where q: "find_job (wd_db (sc_world s)) (jr_id r) = Some q" "jr_state q = JobPending"
      using Cons.prems(3) [of r] True by (auto simp: map_of_job_states is_pending_def)
    obtain trigger where w: "sc_world ?s = attempt_and_move (se_db e) (jr_id r) JobPending JobScheduled trigger (sc_world s)"
      using True by (simp add: schedule_job_def Let_def is_pending_def)
    obtain a where a: "ar_job a = jr_id r" "ar_state a = AttemptNew"
      "db_attempts (wd_db (sc_world ?s)) = db_attempts (wd_db (sc_world s)) @ [a]"
      "job_states (wd_db (sc_world ?s)) = set_states (jr_id r) JobScheduled (job_states (wd_db (sc_world s)))"
      "ids_fresh (se_db e) (sc_world ?s)"
      using calm_attempt_and_move [OF assms(1) Cons.prems(1) q w] by blast
    have "map_of (job_states (wd_db (sc_world ?s))) (jr_id x) = Some (jr_state x)" if "x \<in> set jobs" for x
    proof -
      have "jr_id x \<noteq> jr_id r" using Cons.prems(2) imageI [OF that, of jr_id] by auto
      with Cons.prems(3) [of x] that show ?thesis by (simp add: a(4) map_of_set_states)
    qed
    with Cons.IH [OF a(5)] Cons.prems(2) obtain new where
      new: "map ar_job new = map jr_id (filter is_pending jobs)" "list_all (\<lambda>a. ar_state a = AttemptNew) new"
      "db_attempts (wd_db (sc_world (fold (schedule_job e) jobs ?s))) = db_attempts (wd_db (sc_world ?s)) @ new"
      "job_states (wd_db (sc_world (fold (schedule_job e) jobs ?s))) =
         schedule_states (jr_id ` {r \<in> set jobs. is_pending r}) (job_states (wd_db (sc_world ?s)))"
      by auto
    have "jr_id ` {x \<in> set (r # jobs). is_pending x} = insert (jr_id r) (jr_id ` {x \<in> set jobs. is_pending x})"
      using True by auto
    with new a True show ?thesis by (intro exI [of _ "a # new"]) (simp add: schedule_states_insert)
  qed
qed

text \<open>Every pending job is scheduled with one new attempt; nothing else changes.\<close>

lemma schedule_pass:
  assumes "calm (se_db e)" and "ids_fresh (se_db e) (sc_world s)" and "distinct (map jr_id (db_jobs (wd_db (sc_world s))))"
  defines "d \<equiv> wd_db (sc_world s)" and "d' \<equiv> wd_db (sc_world (schedulePendingJobs e s))"
  shows "job_states d' = map (\<lambda>(i, t). (i, if t = JobPending then JobScheduled else t)) (job_states d) \<and>
    (\<exists>new. db_attempts d' = db_attempts d @ new \<and> list_all (\<lambda>a. ar_state a = AttemptNew) new \<and>
       map ar_job new = map jr_id (filter is_pending (sort_key (\<lambda>r. - jr_created r) (db_jobs d))))"
proof -
  let ?jobs = "sort_key (\<lambda>r. - jr_created r) (db_jobs d)"
  let ?s = "s\<lparr>sc_world := \<lparr>wd_db = d, wd_calls = wd_calls (sc_world s) + 1\<rparr>\<rparr>"
  have pass: "schedulePendingJobs e s = fold (schedule_job e) ?jobs ?s"
    by (simp add: schedulePendingJobs_def ListJobs_def calm_dbc [OF assms(1)] calm_query [OF assms(1)] d_def)
  have ids: "distinct (map jr_id (db_jobs d))" using assms(3) by (simp add: d_def)
  have one: "map_of (job_states d) (jr_id r) = Some (jr_state r)" if "r \<in> set (db_jobs d)" for r
    using ids that by (force simp: job_states_def comp_def intro: map_of_is_SomeI)
  have "distinct (map jr_id ?jobs)"
    using ids by (simp add: distinct_map)
  moreover have "ids_fresh (se_db e) (sc_world ?s)" using assms(2) by (simp add: ids_fresh_def d_def)
  ultimately obtain new where new: "map ar_job new = map jr_id (filter is_pending ?jobs)" "list_all (\<lambda>a. ar_state a = AttemptNew) new"
    "db_attempts d' = db_attempts d @ new"
    "job_states d' = schedule_states (jr_id ` {r \<in> set (db_jobs d). is_pending r}) (job_states d)"
    using schedule_loop [OF assms(1), of ?s ?jobs] one by (auto simp: d'_def pass)
  have "t = JobPending \<longleftrightarrow> i \<in> jr_id ` {r \<in> set (db_jobs d). is_pending r}" if "(i, t) \<in> set (job_states d)" for i t
    using that one ids by (force simp: job_states_def is_pending_def distinct_map inj_on_def)
  then have "schedule_states (jr_id ` {r \<in> set (db_jobs d). is_pending r}) (job_states d) =
      map (\<lambda>(i, t). (i, if t = JobPending then JobScheduled else t)) (job_states d)"
    unfolding schedule_states_def by (intro map_cong) auto
  with new show ?thesis by auto
qed

subsection \<open>A transition that fails leaves its attempt behind\<close>

text \<open>Every fourth call fails: with one pending job, the transition of each pass.\<close>

definition fourth_fails :: "db_oracle \<Rightarrow> bool" where
  "fourth_fails oc \<longleftrightarrow> alone oc \<and> inj (\<lambda>n. dc_id (or_call oc n)) \<and>
     (\<forall>n. dc_fault (or_call oc n) = (if n mod 4 = 3 then DbDown else DbFine))"

definition leaking :: "sched_env \<Rightarrow> job_row \<Rightarrow> nat \<Rightarrow> sched \<Rightarrow> bool" where
  "leaking e r k s \<longleftrightarrow> sc_pool s = None \<and> wd_calls (sc_world s) mod 4 = 0 \<and> db_jobs (wd_db (sc_world s)) = [r] \<and>
     ids_fresh (se_db e) (sc_world s) \<and> list_all (\<lambda>a. ar_state a = AttemptNew \<and> ar_job a = jr_id r) (db_attempts (wd_db (sc_world s))) \<and>
     length (db_attempts (wd_db (sc_world s))) = k"

lemma leaking_pass:
  assumes "fourth_fails (se_db e)" and "jr_state r = JobPending" and "leaking e r k s"
  shows "leaking e r (Suc k) (schedulePendingJobs e s)"
proof -
  let ?oc = "se_db e" and ?d = "wd_db (sc_world s)" and ?n = "wd_calls (sc_world s)" and ?j = "jr_id r"
  let ?k = "fold max (map ar_number (attempts_of ?d ?j)) 0 + 1"
  let ?a = "new_row (or_call ?oc (?n + 2)) ?j ?k"
  note l = assms(3) [unfolded leaking_def]
  have n: "?n mod 4 = 0" using l by blast
  have m: "?n mod 4 \<noteq> 3" "(?n + 1) mod 4 \<noteq> 3" "(?n + 2) mod 4 \<noteq> 3" "(?n + 3) mod 4 = 3"
    using n by presburger+
  have down: "dc_fault (or_call ?oc i) = (if i mod 4 = 3 then DbDown else DbFine)" for i
    using assms(1) unfolding fourth_fails_def by blast
  have fine: "dc_fault (or_call ?oc ?n) = DbFine" "dc_fault (or_call ?oc (?n + 1)) = DbFine"
    "dc_fault (or_call ?oc (?n + 2)) = DbFine" "dc_fault (or_call ?oc (?n + 3)) = DbDown"
    unfolding down using m by simp_all
  have same: "or_between ?oc i d = d" for i d using assms(1) by (simp add: fourth_fails_def alone_def)
  have fresh: "dc_id (or_call ?oc (?n + 2)) \<notin> ar_id ` set (db_attempts ?d)" using l by (simp add: ids_fresh_def)
  have job: "has_job ?d ?j" using l by (simp add: has_job_def)
  let ?d' = "?d\<lparr>db_attempts := db_attempts ?d @ [?a]\<rparr>"
  have move: "attempt_and_move ?oc ?j JobPending JobScheduled t \<lparr>wd_db = ?d, wd_calls = ?n + 1\<rparr> = \<lparr>wd_db = ?d', wd_calls = ?n + 4\<rparr>" for t
    using fine fresh job
    by (simp add: attempt_and_move_def CreateAttempt_def NextAttemptNumber_def InsertAttempt_def TransitionJobState_def Let_def
        dbc_def same db_query_def db_exec_def insert_unique_def new_row_def numeral_eq_Suc)
  have jobs: "sort_key (\<lambda>r. - jr_created r) (db_jobs ?d) = [r]" using l by simp
  have "schedulePendingJobs e s = s\<lparr>sc_pool := None, sc_world := \<lparr>wd_db = ?d', wd_calls = ?n + 4\<rparr>\<rparr>"
    using fine(1) l assms(2) move
    by (simp add: schedulePendingJobs_def ListJobs_def dbc_def same db_query_def jobs schedule_job_def Let_def)
  moreover have "ids_fresh ?oc \<lparr>wd_db = ?d', wd_calls = ?n + 4\<rparr>"
  proof -
    have "dc_id (or_call ?oc i) \<noteq> dc_id (or_call ?oc (?n + 2))" if "?n + 4 \<le> i" for i
      using assms(1) that by (auto simp: fourth_fails_def dest: injD)
    with l show ?thesis by (auto simp: ids_fresh_def new_row_def)
  qed
  ultimately show ?thesis using l by (auto simp: leaking_def new_row_def)
qed

lemma leaking_passes:
  assumes "fourth_fails (se_db e)" and "jr_state r = JobPending" and "leaking e r k s"
  shows "leaking e r (k + n) ((schedulePendingJobs e ^^ n) s)"
proof (induction n)
  case (Suc n)
  from leaking_pass [OF assms(1,2) Suc.IH] show ?case by simp
qed (use assms(3) in simp)

end
