(* ===== verification/Isolation.thy ===== *)
theory Isolation
  imports JobStore "HOL-Library.AList"
begin

text \<open>
  Isolation levels (\<open>internal/isolation/isolation.go\<close>) and the Docker sandbox
  (\<open>internal/sandbox/docker.go\<close>). A level is its string. The clock, cancellation and the
  Docker daemon's answers are the environment of a start; \<open>parse_float\<close> is
  \<open>strconv.ParseFloat\<close> with zero for a syntax error. Latencies come from a monotonic clock and
  are not negative.
\<close>

subsection \<open>Levels\<close>

definition iso_L0Process :: string where "iso_L0Process = ''L0''"
definition iso_L1GVisor :: string where "iso_L1GVisor = ''L1''"
definition iso_L2Firecracker :: string where "iso_L2Firecracker = ''L2''"
definition iso_L3Docker :: string where "iso_L3Docker = ''L3''"

lemmas iso_level_defs = iso_L0Process_def iso_L1GVisor_def iso_L2Firecracker_def iso_L3Docker_def

definition allLevels :: "string list" where
  "allLevels = [iso_L0Process, iso_L1GVisor, iso_L2Firecracker, iso_L3Docker]"

datatype iso_error = ErrIsolationUnavailable | ErrLevelNotAllowed | IsoCancelled | IsoDocker string

record security_profile =
  sf_read_only :: bool
  sf_no_new_privileges :: bool
  sf_seccomp :: string
  sf_apparmor :: string
  sf_drop :: "string list"

record runtime_config =
  rg_level :: string
  rg_class :: string
  rg_timeout :: duration
  rg_profile :: security_profile

record start_result =
  st_level :: string
  st_latency :: duration
  st_class :: string

record iso_policy =
  ip_allowed :: "string list"
  ip_default :: string
  ip_force :: "string option"

record sandbox_run_config =
  sr_image :: string
  sr_command :: "string list"
  sr_env :: "(string \<times> string) list"
  sr_cpu :: string
  sr_memory :: string
  sr_work_dir :: string
  sr_timeout :: duration

record level_metrics =
  lm_count :: int
  lm_avg :: rat
  lm_p95 :: rat
  lm_latencies :: "duration list"

record iso_manager =
  im_available :: "string list"
  im_metrics :: "(string \<times> level_metrics) list"
  im_docker :: bool

definition NewIsolationManager :: "string list \<Rightarrow> iso_manager" where
  "NewIsolationManager levels = \<lparr>im_available = levels, im_metrics = [], im_docker = False\<rparr>"

definition IsAvailable :: "iso_manager \<Rightarrow> string \<Rightarrow> bool" where
  "IsAvailable m l \<longleftrightarrow> l \<in> set (im_available m)"

definition ValidateLevel :: "string \<Rightarrow> bool" where
  "ValidateLevel l \<longleftrightarrow> l \<in> set allLevels"

definition fallbackOrder :: "string list" where
  "fallbackOrder = [iso_L2Firecracker, iso_L1GVisor, iso_L0Process, iso_L3Docker]"

definition requested_level :: "string \<Rightarrow> iso_policy option \<Rightarrow> string" where
  "requested_level requested policy =
     (if requested \<noteq> [] then requested
      else case policy of
        None \<Rightarrow> iso_L1GVisor
      | Some p \<Rightarrow> if ip_default p \<noteq> [] then ip_default p else iso_L1GVisor)"

definition policy_permits :: "iso_policy option \<Rightarrow> string \<Rightarrow> bool" where
  "policy_permits policy l \<longleftrightarrow>
     (case policy of None \<Rightarrow> True | Some p \<Rightarrow> ip_allowed p = [] \<or> l \<in> set (ip_allowed p))"

definition ResolveLevel :: "iso_manager \<Rightarrow> string \<Rightarrow> iso_policy option \<Rightarrow> iso_error + string" where
  "ResolveLevel m requested policy =
     (case Option.bind policy ip_force of
        Some forced \<Rightarrow> if IsAvailable m forced then Inr forced else Inl ErrIsolationUnavailable
      | None \<Rightarrow>
          (let l = requested_level requested policy
           in if \<not> policy_permits policy l then Inl ErrLevelNotAllowed
              else if IsAvailable m l then Inr l
              else case find (\<lambda>k. k \<noteq> l \<and> IsAvailable m k) fallbackOrder of
                     Some k \<Rightarrow> Inr k
                   | None \<Rightarrow> Inl ErrIsolationUnavailable))"

definition millisecond :: duration where "millisecond = 1000000"

definition no_profile :: security_profile where
  "no_profile = \<lparr>sf_read_only = False, sf_no_new_privileges = False, sf_seccomp = [], sf_apparmor = [], sf_drop = []\<rparr>"

definition GetRuntimeConfig :: "string \<Rightarrow> runtime_config" where
  "GetRuntimeConfig l =
     (if l = iso_L0Process then
        \<lparr>rg_level = iso_L0Process, rg_class = ''runc'', rg_timeout = 10 * millisecond, rg_profile = no_profile\<rparr>
      else if l = iso_L1GVisor then
        \<lparr>rg_level = iso_L1GVisor, rg_class = ''runsc'', rg_timeout = 80 * millisecond,
         rg_profile = \<lparr>sf_read_only = True, sf_no_new_privileges = True, sf_seccomp = [], sf_apparmor = [],
           sf_drop = [''ALL_EXCEPT_NET_BIND_SERVICE'']\<rparr>\<rparr>
      else if l = iso_L2Firecracker then
        \<lparr>rg_level = iso_L2Firecracker, rg_class = ''firecracker-containerd'', rg_timeout = 200 * millisecond,
         rg_profile = \<lparr>sf_read_only = True, sf_no_new_privileges = True, sf_seccomp = ''runtime/default'',
           sf_apparmor = ''runtime/default'', sf_drop = [''ALL'']\<rparr>\<rparr>
      else if l = iso_L3Docker then
        \<lparr>rg_level = iso_L3Docker, rg_class = ''runc'', rg_timeout = 5000 * millisecond,
         rg_profile = \<lparr>sf_read_only = True, sf_no_new_privileges = True, sf_seccomp = [], sf_apparmor = [],
           sf_drop = [''ALL_EXCEPT_NET_BIND_SERVICE'']\<rparr>\<rparr>
      else \<lparr>rg_level = [], rg_class = [], rg_timeout = 0, rg_profile = no_profile\<rparr>)"

subsection \<open>Start latencies\<close>

definition millis :: "duration \<Rightarrow> nat" where
  "millis d = nat (d div millisecond)"

text \<open>\<open>int(float64(n) * 0.95)\<close>: the double nearest to 0.95 is 4278419646001971 / 2^52.\<close>

definition p95_index :: "nat \<Rightarrow> nat" where
  "p95_index n =
     (let i = nat \<lfloor>fdiv64 (n * 4278419646001971) (2 ^ 52)\<rfloor> in if n \<le> i then n - 1 else i)"

definition RecordStartLatency :: "string \<Rightarrow> duration \<Rightarrow> iso_manager \<Rightarrow> iso_manager" where
  "RecordStartLatency l latency m =
     (let ls = (case map_of (im_metrics m) l of None \<Rightarrow> [] | Some lm \<Rightarrow> lm_latencies lm) @ [latency];
          lm = \<lparr>lm_count = int (length ls), lm_avg = fdiv64 (sum_list (map millis ls)) (length ls),
                lm_p95 = of_nat (millis (sort ls ! p95_index (length ls))), lm_latencies = ls\<rparr>
      in m\<lparr>im_metrics := AList.update l lm (im_metrics m)\<rparr>)"

definition IsolationMetrics :: "iso_manager \<Rightarrow> (string \<times> level_metrics) list" where
  "IsolationMetrics m = map (\<lambda>(l, lm). (l, lm\<lparr>lm_latencies := []\<rparr>)) (im_metrics m)"

subsection \<open>The Docker sandbox\<close>

record docker_config =
  dk_image :: string
  dk_env :: "string list"
  dk_memory :: int
  dk_cpus :: int
  dk_binds :: "string list"

datatype docker_command = DockerInspect string | DockerPull string | DockerCreate docker_config
  | DockerStart string | DockerWait string | DockerLogs string | DockerRemove string

record docker_answers =
  da_inspect :: bool
  da_pull :: "string option"
  da_create :: "string + string"
  da_start :: "string option"
  da_wait :: "string option + int"
  da_logs :: "string + string"

record run_result =
  rn_exit :: int
  rn_logs :: string

text \<open>Rounding to a double, and \<open>int64(x)\<close>. What an infinite or too large double becomes is left
  to the platform.\<close>

function scale_down :: "nat \<Rightarrow> nat \<Rightarrow> nat \<Rightarrow> nat" where
  "scale_down a b k = (if 0 < b \<and> 9007199254740992 * b \<le> a then scale_down a (2 * b) (Suc k) else k)"
  by pat_completeness auto
termination
  by (relation "measure (\<lambda>(a, b, k). a - b)") auto

declare scale_down.simps [simp del]

definition fround :: "rat \<Rightarrow> rat" where
  "fround x =
     (case quotient_of \<bar>x\<bar> of
        (n, d) \<Rightarrow>
          (let a = nat n; b = nat d; k = scale_down a b 0;
               y = (if k = 0 then fdiv64 a b else of_nat (2 ^ k * round_half_even a (2 ^ k * b)))
           in if x < 0 then - y else y))"

definition float_int64 :: "(rat option \<Rightarrow> int) \<Rightarrow> rat option \<Rightarrow> int" where
  "float_int64 platform x =
     (case x of
        None \<Rightarrow> platform None
      | Some r \<Rightarrow> (let i = (if 0 \<le> r then \<lfloor>r\<rfloor> else \<lceil>r\<rceil>) in if in_i64 i then i else platform (Some r)))"

text \<open>The value \<open>strconv.ParseInt\<close> returns beside its error: zero for a syntax error, the nearest
  bound out of range.\<close>

definition int_value :: "string \<Rightarrow> int" where
  "int_value s =
     (case ParseInt 64 s of
        Some n \<Rightarrow> n
      | None \<Rightarrow>
          (case s of
             [] \<Rightarrow> 0
           | c # cs \<Rightarrow>
               if c = CHR ''-'' then (if unsigned_value cs = None then 0 else min_i64)
               else if unsigned_value (if c = CHR ''+'' then cs else s) = None then 0 else max_i64))"

text \<open>\<open>parse_float\<close> gives None for an infinity or NaN and zero on a syntax error. Products with
  powers of two are exact.\<close>

definition parseMemory :: "(string \<Rightarrow> rat option) \<Rightarrow> (rat option \<Rightarrow> int) \<Rightarrow> string \<Rightarrow> int" where
  "parseMemory parse_float platform str =
     (let s = map lower_char (TrimSpace str);
          scaled = (\<lambda>k. float_int64 platform (map_option (\<lambda>x. x * k) (parse_float (butlast s))))
      in if str = [] then 0
         else if HasSuffix s ''g'' then scaled 1073741824
         else if HasSuffix s ''m'' then scaled 1048576
         else if HasSuffix s ''k'' then scaled 1024
         else int_value s)"

definition parseCPU :: "(string \<Rightarrow> rat option) \<Rightarrow> (rat option \<Rightarrow> int) \<Rightarrow> string \<Rightarrow> int" where
  "parseCPU parse_float platform str =
     (if str = [] then 0
      else float_int64 platform (map_option (\<lambda>x. fround (x * 1000000000)) (parse_float (TrimSpace str))))"

definition PullImageIfNeeded :: "docker_answers \<Rightarrow> string \<Rightarrow> string option \<times> docker_command list" where
  "PullImageIfNeeded da img =
     (if da_inspect da then (None, [DockerInspect img]) else (da_pull da, [DockerInspect img, DockerPull img]))"

definition container_config ::
  "(string \<Rightarrow> rat option) \<Rightarrow> (rat option \<Rightarrow> int) \<Rightarrow> sandbox_run_config \<Rightarrow> docker_config" where
  "container_config parse_float platform cfg =
     \<lparr>dk_image = sr_image cfg,
      dk_env = (''AGENT_PROMPT='' @ (case sr_command cfg of [] \<Rightarrow> [] | p # ps \<Rightarrow> p))
        # map (\<lambda>(k, v). k @ ''='' @ v) (sr_env cfg),
      dk_memory = parseMemory parse_float platform (sr_memory cfg),
      dk_cpus = parseCPU parse_float platform (sr_cpu cfg),
      dk_binds = (if sr_work_dir cfg = [] then [] else [sr_work_dir cfg @ '':/workspace''])\<rparr>"

text \<open>The removal is deferred as soon as the container exists.\<close>

definition SandboxRun ::
  "(string \<Rightarrow> rat option) \<Rightarrow> (rat option \<Rightarrow> int) \<Rightarrow> docker_answers \<Rightarrow> sandbox_run_config \<Rightarrow>
     (string + run_result) \<times> docker_command list" where
  "SandboxRun parse_float platform da cfg =
     (case PullImageIfNeeded da (sr_image cfg) of
        (Some e, cmds) \<Rightarrow> (Inl (''pull image '' @ sr_image cfg @ '': '' @ e), cmds)
      | (None, cmds) \<Rightarrow>
          (let cmds = cmds @ [DockerCreate (container_config parse_float platform cfg)]
           in case da_create da of
                Inl e \<Rightarrow> (Inl (''create container: '' @ e), cmds)
              | Inr i \<Rightarrow>
                  (let (r, cs) =
                     (case da_start da of
                        Some e \<Rightarrow> (Inl (''start container: '' @ e), [DockerStart i])
                      | None \<Rightarrow>
                          (case da_wait da of
                             Inl (Some e) \<Rightarrow> (Inl (''wait container: '' @ e), [DockerStart i, DockerWait i])
                           | w \<Rightarrow>
                               (case da_logs da of
                                  Inl e \<Rightarrow> (Inl (''get container logs: '' @ e), [DockerStart i, DockerWait i, DockerLogs i])
                                | Inr out \<Rightarrow>
                                    (Inr \<lparr>rn_exit = (case w of Inl x \<Rightarrow> 0 | Inr n \<Rightarrow> n), rn_logs = out\<rparr>,
                                     [DockerStart i, DockerWait i, DockerLogs i]))))
                   in (r, cmds @ cs @ [DockerRemove i]))))"

subsection \<open>Starting a sandbox\<close>

text \<open>\<open>sv_client\<close> is the error of \<open>sandbox.New\<close>; \<open>sv_cancelled\<close> says that the context ends
  before the simulated startup.\<close>

record start_env =
  sv_cancelled :: bool
  sv_elapsed :: duration
  sv_client :: "string option"
  sv_docker :: docker_answers
  sv_float :: "string \<Rightarrow> rat option"
  sv_platform :: "rat option \<Rightarrow> int"

definition StartSandbox ::
  "start_env \<Rightarrow> string \<Rightarrow> sandbox_run_config \<Rightarrow> iso_manager \<Rightarrow>
     (iso_error + start_result) \<times> iso_manager \<times> docker_command list" where
  "StartSandbox sv l cfg m =
     (if \<not> IsAvailable m l then (Inl ErrIsolationUnavailable, m, [])
      else if l = iso_L3Docker then
        (if \<not> im_docker m \<and> sv_client sv \<noteq> None then (Inl (IsoDocker (the (sv_client sv))), m, [])
         else
           (let m = m\<lparr>im_docker := True\<rparr>
            in case SandboxRun (sv_float sv) (sv_platform sv) (sv_docker sv) cfg of
                 (Inl e, cmds) \<Rightarrow> (Inl (IsoDocker e), m, cmds)
               | (Inr r, cmds) \<Rightarrow>
                   (Inr \<lparr>st_level = iso_L3Docker, st_latency = sv_elapsed sv, st_class = ''runc''\<rparr>,
                    RecordStartLatency iso_L3Docker (sv_elapsed sv) m, cmds)))
      else if sv_cancelled sv then (Inl IsoCancelled, m, [])
      else (Inr \<lparr>st_level = l, st_latency = sv_elapsed sv, st_class = rg_class (GetRuntimeConfig l)\<rparr>,
            RecordStartLatency l (sv_elapsed sv) m, []))"

subsection \<open>Facts\<close>

lemma resolve_available: "ResolveLevel m requested policy = Inr l \<Longrightarrow> IsAvailable m l"
  by (auto simp: ResolveLevel_def Let_def split: option.splits if_splits dest: find_SomeD)

lemma resolve_forced:
  "policy = Some p \<Longrightarrow> ip_force p = Some f \<Longrightarrow>
     ResolveLevel m requested policy = (if IsAvailable m f then Inr f else Inl ErrIsolationUnavailable)"
  by (simp add: ResolveLevel_def)

lemma resolve_unforced:
  assumes "Option.bind policy ip_force = None"
  shows "ResolveLevel m requested policy =
    (if \<not> policy_permits policy (requested_level requested policy) then Inl ErrLevelNotAllowed
     else if IsAvailable m (requested_level requested policy) then Inr (requested_level requested policy)
     else case find (\<lambda>k. k \<noteq> requested_level requested policy \<and> IsAvailable m k) fallbackOrder of
            Some k \<Rightarrow> Inr k | None \<Rightarrow> Inl ErrIsolationUnavailable)"
  using assms by (simp add: ResolveLevel_def Let_def)

text \<open>A container that was created is removed, whatever fails after it.\<close>

lemma run_removes:
  assumes "da_create (sv_docker sv) = Inr i" and "SandboxRun pf pl (sv_docker sv) cfg = (r, cmds)"
  shows "DockerCreate c \<in> set cmds \<longleftrightarrow> DockerRemove i \<in> set cmds \<and> c = container_config pf pl cfg"
  using assms by (auto simp: SandboxRun_def PullImageIfNeeded_def split: if_splits option.splits sum.splits prod.splits)

text \<open>A memory limit that ends in another unit is no limit.\<close>

lemma digits_value_bad: "digit_value c = None \<Longrightarrow> digits_value acc (xs @ [c]) = None"
  by (induction xs arbitrary: acc) (auto split: option.split)

lemma unsigned_value_bad: "digit_value c = None \<Longrightarrow> unsigned_value (xs @ [c]) = None"
  by (simp add: unsigned_value_def digits_value_bad)

lemma int_value_bad:
  assumes "digit_value c = None"
  shows "int_value (xs @ [c]) = 0"
proof -
  have "unsigned_value (xs @ [c]) = None" using assms by (rule unsigned_value_bad)
  moreover have "unsigned_value (tl (xs @ [c])) = None"
    using assms by (cases xs) (simp_all add: unsigned_value_bad, simp add: unsigned_value_def)
  ultimately show ?thesis
    by (cases "xs @ [c]") (auto simp: int_value_def ParseInt_def Let_def simp del: append_is_Nil_conv)
qed

lemma lower_digit: "digit_value c = None \<Longrightarrow> digit_value (lower_char c) = None"
  by (auto simp: digit_value_def lower_char_def Let_def split: if_splits)

lemma TrimSpace_snoc: "\<not> is_space c \<Longrightarrow> \<exists>ys. TrimSpace (xs @ [c]) = ys @ [c]"
  by (induction xs) (auto simp: TrimSpace_def)

lemma HasSuffix_snoc: "HasSuffix (xs @ [c]) [d] \<longleftrightarrow> c = d"
  by (simp add: HasSuffix_def)

lemma parseMemory_other_unit:
  assumes "\<not> is_space c" "digit_value c = None" "lower_char c \<notin> set ''gmk''"
  shows "parseMemory parse_float platform (xs @ [c]) = 0"
proof -
  obtain ys where "TrimSpace (xs @ [c]) = ys @ [c]" using TrimSpace_snoc [OF assms(1)] by blast
  moreover have "int_value (map lower_char ys @ [lower_char c]) = 0"
    by (rule int_value_bad) (rule lower_digit [OF assms(2)])
  ultimately show ?thesis using assms(3) by (auto simp: parseMemory_def Let_def HasSuffix_snoc)
qed

end
