(* ===== verification/Worker.thy ===== *)
theory Worker
  imports JobSystem WarmPool Isolation
begin

text \<open>
  A worker (\<open>internal/worker/worker.go\<close>) executing one attempt, phase by phase. The
  environment holds what files, the runner and the sandbox answer; \<open>wk_effects\<close> lists what
  the worker did outside the database. Heartbeat ticks come while the main goroutine waits for
  the result, so they are a list of their own.
\<close>

subsection \<open>Environment and state\<close>

text \<open>A built manifest: its JSON, and the last step with the number of steps when it has progress.\<close>

type_synonym built_manifest = "string + string \<times> (string \<times> int) option"

record worker_env =
  we_db :: db_oracle
  we_id :: string
  we_uuid :: "nat \<Rightarrow> string"
  we_clock :: "nat \<Rightarrow> instant"
  we_latency :: duration
  we_mkdir :: "string option"
  we_prompt :: "string option"
  we_completed :: "string \<Rightarrow> nat"
  we_runner :: "string option"
  we_hook :: "string option"
  we_environment :: "string + (string \<times> string) list"
  we_duration :: "string \<Rightarrow> duration option"
  we_start :: start_env
  we_ticks :: "built_manifest list"
  we_wait :: "string option"
  we_result :: "(int \<times> string) option"
  we_output :: "string option"
  we_final :: built_manifest
  we_checkpoint :: "string option"
  we_artifacts :: "(string \<times> string option) list"

datatype work_error = WorkDb db_error | WorkFile string | RunnerInit string | HookServer string | EnvPrepare string
  | IsolationResolve iso_error | SandboxStart iso_error | SandboxWait string

datatype work_effect = WorkDirMade string | PromptWritten string | CheckpointWritten string | RunnerStarted bool
  | SandboxStarted string sandbox_run_config "docker_command list" | WorkDirRemoved string

record worker =
  wk_world :: db_world
  wk_pool :: pool_manager
  wk_iso :: iso_manager
  wk_effects :: "work_effect list"

definition mapIsolationLevel :: "string \<Rightarrow> string" where
  "mapIsolationLevel l =
     (if l = model_L0Process then iso_L0Process
      else if l = model_L1GVisor then iso_L1GVisor
      else if l = model_L2Firecracker then iso_L2Firecracker
      else if l = model_L3Docker then iso_L3Docker
      else iso_L1GVisor)"

definition wcall :: "worker_env \<Rightarrow> (db_call \<Rightarrow> db \<Rightarrow> 'r \<times> db) \<Rightarrow> worker \<Rightarrow> 'r \<times> worker" where
  "wcall e f s = (case dbc (we_db e) f (wk_world s) of (r, w) \<Rightarrow> (r, s\<lparr>wk_world := w\<rparr>))"

definition wrun :: "worker_env \<Rightarrow> (db_call \<Rightarrow> db \<Rightarrow> 'r \<times> db) \<Rightarrow> worker \<Rightarrow> worker" where
  "wrun e f s = snd (wcall e f s)"

definition record_effect :: "work_effect \<Rightarrow> worker \<Rightarrow> worker" where
  "record_effect x s = s\<lparr>wk_effects := wk_effects s @ [x]\<rparr>"

subsection \<open>Phases\<close>

definition fail_attempt :: "worker_env \<Rightarrow> string \<Rightarrow> string \<Rightarrow> worker \<Rightarrow> worker" where
  "fail_attempt e a trigger = wrun e (\<lambda>c. TransitionAttemptState c a AttemptExecuting AttemptFailed trigger)"

definition release_pod :: "worker_env \<Rightarrow> string \<Rightarrow> worker \<Rightarrow> worker" where
  "release_pod e p s =
     (if p = [] then s
      else s\<lparr>wk_pool := snd (ReleasePod (we_uuid e) (we_clock e (wd_calls (wk_world s))) p (wk_pool s))\<rparr>)"

definition failAndCleanup :: "worker_env \<Rightarrow> string \<Rightarrow> string \<Rightarrow> string \<Rightarrow> string \<Rightarrow> worker \<Rightarrow> worker" where
  "failAndCleanup e a j p trigger s = record_effect (WorkDirRemoved j) (release_pod e p (fail_attempt e a trigger s))"

definition load_checkpoint :: "worker_env \<Rightarrow> string \<Rightarrow> worker \<Rightarrow> bool \<times> worker" where
  "load_checkpoint e j s =
     (case wcall e (\<lambda>c. GetLatestCheckpoint c j) s of
        (Inr (Some cp), s) \<Rightarrow> (0 < we_completed e (ck_data cp), record_effect (CheckpointWritten (ck_data cp)) s)
      | (_, s) \<Rightarrow> (False, s))"

definition claim_pod_for :: "worker_env \<Rightarrow> string \<Rightarrow> string \<Rightarrow> worker \<Rightarrow> string \<times> worker" where
  "claim_pod_for e a j s =
     (case ClaimPod j (we_clock e (wd_calls (wk_world s))) (we_latency e) (wk_pool s) of
        (Inl x, m) \<Rightarrow> ([], s\<lparr>wk_pool := m\<rparr>)
      | (Inr r, m) \<Rightarrow>
          (wp_id (cr_pod r),
           wrun e (\<lambda>c. UpdateAttemptPoolInfo c a (wp_pool (cr_pod r)) (int (millis (cr_latency r))) (cr_warm r))
             (s\<lparr>wk_pool := m\<rparr>)))"

definition save_manifest :: "worker_env \<Rightarrow> string \<Rightarrow> string \<Rightarrow> built_manifest \<Rightarrow> worker \<Rightarrow> worker" where
  "save_manifest e a j b s =
     (case b of
        Inl x \<Rightarrow> s
      | Inr (data, progress) \<Rightarrow>
          wrun e (\<lambda>c. SaveCheckpoint c a j (case progress of None \<Rightarrow> 0 | Some (l, n) \<Rightarrow> n) data) s)"

definition worker_tick :: "worker_env \<Rightarrow> string \<Rightarrow> string \<Rightarrow> built_manifest \<Rightarrow> worker \<Rightarrow> worker" where
  "worker_tick e a j b s =
     (let s = save_manifest e a j b (wrun e (\<lambda>c. UpdateHeartbeat c a) s)
      in case b of
           Inr (data, Some (l, n)) \<Rightarrow> wrun e (\<lambda>c. UpdateAttemptStepProgress c a l n) s
         | _ \<Rightarrow> s)"

definition save_artifact :: "worker_env \<Rightarrow> string \<Rightarrow> string \<times> string option \<Rightarrow> worker \<Rightarrow> worker" where
  "save_artifact e j x s =
     (case x of (name, None) \<Rightarrow> s | (name, Some data) \<Rightarrow> wrun e (\<lambda>c. SaveArtifact c j name data) s)"

definition collect :: "worker_env \<Rightarrow> string \<Rightarrow> string \<Rightarrow> worker \<Rightarrow> worker" where
  "collect e a j s =
     (let s = save_manifest e a j (we_final e) s;
          s = (case we_checkpoint e of None \<Rightarrow> s | Some data \<Rightarrow> wrun e (\<lambda>c. SaveCheckpoint c a j 0 data) s)
      in fold (save_artifact e j) (we_artifacts e) s)"

definition exit_code :: "worker_env \<Rightarrow> int" where
  "exit_code e = (case we_result e of None \<Rightarrow> 0 | Some (n, logs) \<Rightarrow> n)"

definition run_logs :: "worker_env \<Rightarrow> string" where
  "run_logs e =
     (let logs = (case we_result e of None \<Rightarrow> [] | Some (n, logs) \<Rightarrow> logs)
      in case we_output e of Some out \<Rightarrow> if logs = [] then out else logs | None \<Rightarrow> logs)"

definition finalize :: "worker_env \<Rightarrow> string \<Rightarrow> string \<Rightarrow> worker \<Rightarrow> work_error option \<times> worker" where
  "finalize e a j s =
     (case we_wait e of
        Some x \<Rightarrow>
          (Some (SandboxWait x), record_effect (WorkDirRemoved j)
             (fail_attempt e a ''sandbox-error'' (wrun e (\<lambda>c. SaveLog c j a (''sandbox error: '' @ x)) s)))
      | None \<Rightarrow>
          (let s = wrun e (\<lambda>c. SaveLog c j a (run_logs e)) s;
               s = (if exit_code e = 0
                    then wrun e (\<lambda>c. TransitionJobState c j JobRunning JobCompleted ''exit-0'')
                           (wrun e (\<lambda>c. TransitionAttemptState c a AttemptExecuting AttemptCompleted ''exit-0'') s)
                    else fail_attempt e a (''exit-'' @ show_int (exit_code e)) s)
           in (None, record_effect (WorkDirRemoved j) s)))"

definition sandbox_config :: "worker_env \<Rightarrow> job_row \<Rightarrow> (string \<times> string) list \<Rightarrow> sandbox_run_config" where
  "sandbox_config e job env =
     (let spec = jr_spec job
      in \<lparr>sr_image = sp_image spec, sr_command = [],
          sr_env = env @ filter (\<lambda>(k, v). k \<notin> fst ` set env) (sp_env spec),
          sr_cpu = sp_cpu spec, sr_memory = sp_memory spec, sr_work_dir = jr_id job,
          sr_timeout = TimeoutDuration (we_duration e) spec\<rparr>)"

text \<open>From the pool claim on: a sandbox, its result, the pod's release, the final states.\<close>

definition run_sandbox :: "worker_env \<Rightarrow> string \<Rightarrow> job_row \<Rightarrow> (string \<times> string) list \<Rightarrow> worker \<Rightarrow> work_error option \<times> worker" where
  "run_sandbox e a job env s =
     (let j = jr_id job; (p, s) = claim_pod_for e a j s
      in case ResolveLevel (wk_iso s) (mapIsolationLevel (sp_isolation (jr_spec job))) None of
           Inl x \<Rightarrow> (Some (IsolationResolve x), failAndCleanup e a j p ''isolation-resolve-error'' s)
         | Inr l \<Rightarrow>
             (case StartSandbox (we_start e) l (sandbox_config e job env) (wk_iso s) of
                (Inl x, m, cmds) \<Rightarrow>
                  (Some (SandboxStart x),
                   failAndCleanup e a j p ''sandbox-start-error''
                     (record_effect (SandboxStarted l (sandbox_config e job env) cmds) (s\<lparr>wk_iso := m\<rparr>)))
              | (Inr r, m, cmds) \<Rightarrow>
                  (let s = record_effect (SandboxStarted l (sandbox_config e job env) cmds) (s\<lparr>wk_iso := m\<rparr>);
                       s = fold (worker_tick e a j) (we_ticks e) s;
                       s = release_pod e p (collect e a j s)
                   in finalize e a j s)))"

definition prepare :: "worker_env \<Rightarrow> string \<Rightarrow> job_row \<Rightarrow> worker \<Rightarrow> work_error option \<times> worker" where
  "prepare e a job s =
     (let j = jr_id job
      in case we_mkdir e of
           Some x \<Rightarrow> (Some (WorkFile x), s)
         | None \<Rightarrow>
        (let s = record_effect (WorkDirMade j) s
         in case we_prompt e of
              Some x \<Rightarrow> (Some (WorkFile x), s)
            | None \<Rightarrow>
        (let s = record_effect (PromptWritten (sp_prompt (jr_spec job))) s; (recovery, s) = load_checkpoint e j s
         in case we_runner e of
              Some x \<Rightarrow> (Some (RunnerInit x),
                         record_effect (WorkDirRemoved j) (fail_attempt e a ''runner-init-error'' s))
            | None \<Rightarrow>
        (let s = record_effect (RunnerStarted recovery) s
         in case we_hook e of
              Some x \<Rightarrow> (Some (HookServer x),
                         record_effect (WorkDirRemoved j) (fail_attempt e a ''hook-server-error'' s))
            | None \<Rightarrow>
        (case we_environment e of
              Inl x \<Rightarrow> (Some (EnvPrepare x),
                        record_effect (WorkDirRemoved j) (fail_attempt e a ''env-prepare-error'' s))
            | Inr env \<Rightarrow> run_sandbox e a job env s)))))"

definition worker_trigger :: "worker_env \<Rightarrow> string" where
  "worker_trigger e = ''worker-v2-'' @ we_id e"

definition execute :: "worker_env \<Rightarrow> attempt_row \<Rightarrow> worker \<Rightarrow> work_error option \<times> worker" where
  "execute e a s =
     (case wcall e (\<lambda>c. GetJob c (ar_job a)) s of
        (Inl x, s) \<Rightarrow> (Some (WorkDb x), s)
      | (Inr job, s) \<Rightarrow>
          (case wcall e (\<lambda>c. TransitionAttemptState c (ar_id a) AttemptNew AttemptExecuting (worker_trigger e)) s of
             (Inl x, s) \<Rightarrow> (Some (WorkDb x), s)
           | (Inr u, s) \<Rightarrow>
               prepare e (ar_id a) job
                 (wrun e (\<lambda>c. TransitionJobState c (jr_id job) JobScheduled JobRunning (worker_trigger e)) s)))"

text \<open>One tick of the worker's loop: an attempt is claimed and executed.\<close>

definition worker_poll :: "worker_env \<Rightarrow> worker \<Rightarrow> work_error option \<times> worker" where
  "worker_poll e s =
     (case wcall e (\<lambda>c. ClaimScheduledAttempt c (we_id e)) s of
        (Inl x, s) \<Rightarrow> (Some (WorkDb x), s)
      | (Inr None, s) \<Rightarrow> (None, s)
      | (Inr (Some a), s) \<Rightarrow> execute e a s)"

subsection \<open>A worker issues statements only\<close>

definition issues :: "(worker \<Rightarrow> worker) \<Rightarrow> bool" where
  "issues f \<longleftrightarrow> (\<forall>s. world_steps (wk_world s) (wk_world (f s)))"

lemma issues_step: "others_step (we_db e) \<Longrightarrow> (\<And>c d. db_step d (snd (f c d))) \<Longrightarrow> world_steps (wk_world s) (wk_world (wrun e f s))"
  by (auto simp: wrun_def wcall_def split: prod.split intro: dbc_step_steps)

lemma wcall_steps: "others_step (we_db e) \<Longrightarrow> wcall e f s = (r, s') \<Longrightarrow> (\<And>c d. db_step d (snd (f c d))) \<Longrightarrow>
    world_steps (wk_world s) (wk_world s')"
  by (auto simp: wcall_def split: prod.splits intro: dbc_step_steps)

lemma wcall_query_steps: "others_step (we_db e) \<Longrightarrow> wcall e (\<lambda>c. db_query c (f c)) s = (r, s') \<Longrightarrow>
    world_steps (wk_world s) (wk_world s')"
  by (auto simp: wcall_def split: prod.splits intro: dbc_query_steps)

lemma effect_world [simp]: "wk_world (record_effect x s) = wk_world s"
  by (simp add: record_effect_def)

lemma release_world [simp]: "wk_world (release_pod e p s) = wk_world s"
  by (simp add: release_pod_def)

lemma steps_fold:
  assumes "\<And>x s. world_steps (wk_world s) (wk_world (f x s))"
  shows "world_steps (wk_world s) (wk_world (fold f xs s))"
  by (induction xs arbitrary: s) (auto intro: world_steps_trans assms)

lemma fail_steps: "others_step (we_db e) \<Longrightarrow> world_steps (wk_world s) (wk_world (fail_attempt e a trigger s))"
  unfolding fail_attempt_def by (rule issues_step) auto

lemma cleanup_steps: "others_step (we_db e) \<Longrightarrow> world_steps (wk_world s) (wk_world (failAndCleanup e a j p trigger s))"
  by (simp add: failAndCleanup_def fail_steps)

lemma manifest_steps: "others_step (we_db e) \<Longrightarrow> world_steps (wk_world s) (wk_world (save_manifest e a j b s))"
  by (auto simp: save_manifest_def split: sum.split intro!: issues_step)

lemma tick_steps:
  assumes "others_step (we_db e)"
  shows "world_steps (wk_world s) (wk_world (worker_tick e a j b s))"
proof -
  let ?s1 = "wrun e (\<lambda>c. UpdateHeartbeat c a) s"
  let ?s2 = "save_manifest e a j b ?s1"
  have "world_steps (wk_world s) (wk_world ?s1)" by (rule issues_step [OF assms]) auto
  also have "world_steps (wk_world ?s1) (wk_world ?s2)" by (rule manifest_steps [OF assms])
  finally have 2: "world_steps (wk_world s) (wk_world ?s2)" .
  have "world_steps (wk_world ?s2) (wk_world (wrun e (\<lambda>c. UpdateAttemptStepProgress c a l n) ?s2))" for l n
    by (rule issues_step [OF assms]) auto
  with 2 show ?thesis by (auto simp: worker_tick_def Let_def split: sum.split option.split intro: world_steps_trans)
qed

lemma collect_steps:
  assumes "others_step (we_db e)"
  shows "world_steps (wk_world s) (wk_world (collect e a j s))"
proof -
  let ?s1 = "save_manifest e a j (we_final e) s"
  let ?s2 = "case we_checkpoint e of None \<Rightarrow> ?s1 | Some data \<Rightarrow> wrun e (\<lambda>c. SaveCheckpoint c a j 0 data) ?s1"
  have "world_steps (wk_world s) (wk_world ?s1)" by (rule manifest_steps [OF assms])
  also have "world_steps (wk_world ?s1) (wk_world ?s2)" by (auto split: option.split intro!: issues_step [OF assms])
  also have "world_steps (wk_world ?s2) (wk_world (fold (save_artifact e j) (we_artifacts e) ?s2))"
    by (rule steps_fold) (auto simp: save_artifact_def split: prod.split option.split intro!: issues_step [OF assms])
  finally show ?thesis by (simp add: collect_def Let_def)
qed

lemma finalize_steps:
  assumes "others_step (we_db e)"
  shows "world_steps (wk_world s) (wk_world (snd (finalize e a j s)))"
proof -
  have log: "world_steps (wk_world s) (wk_world (wrun e (\<lambda>c. SaveLog c j a msg) s))" for msg s
    by (rule issues_step [OF assms]) auto
  have over: "world_steps (wk_world s) (wk_world (wrun e (\<lambda>c. TransitionAttemptState c a AttemptExecuting AttemptCompleted t) s))" for s t
    by (rule issues_step [OF assms]) auto
  have closed: "world_steps (wk_world s) (wk_world (wrun e (\<lambda>c. TransitionJobState c j JobRunning JobCompleted t) s))" for s t
    by (rule issues_step [OF assms]) auto
  show ?thesis
    using world_steps_trans [OF log fail_steps [OF assms]] world_steps_trans [OF world_steps_trans [OF log over] closed]
    by (auto simp: finalize_def Let_def split: option.split)
qed

lemma run_sandbox_steps:
  assumes "others_step (we_db e)"
  shows "world_steps (wk_world s) (wk_world (snd (run_sandbox e a job env s)))"
proof -
  obtain p s1 where claim: "claim_pod_for e a (jr_id job) s = (p, s1)" by (cases "claim_pod_for e a (jr_id job) s")
  have "world_steps (wk_world s) (wk_world s1)"
  proof (cases "ClaimPod (jr_id job) (we_clock e (wd_calls (wk_world s))) (we_latency e) (wk_pool s)")
    case (Pair r m)
    have "world_steps (wk_world (s\<lparr>wk_pool := m\<rparr>)) (wk_world (wrun e (\<lambda>c. UpdateAttemptPoolInfo c a x l h) (s\<lparr>wk_pool := m\<rparr>)))" for x l h
      by (rule issues_step [OF assms]) auto
    with claim Pair show ?thesis by (auto simp: claim_pod_for_def split: sum.splits)
  qed
  moreover have "world_steps (wk_world s1) (wk_world (snd (run_sandbox e a job env s)))"
  proof -
    have run: "world_steps (wk_world v) (wk_world (snd (finalize e a j (release_pod e p (collect e a j (fold (worker_tick e a j) ts v))))))" for v j ts
    proof -
      have "world_steps (wk_world v) (wk_world (fold (worker_tick e a j) ts v))" by (rule steps_fold) (rule tick_steps [OF assms])
      also have "world_steps \<dots> (wk_world (release_pod e p (collect e a j (fold (worker_tick e a j) ts v))))"
        by (simp add: collect_steps [OF assms])
      also have "world_steps \<dots> (wk_world (snd (finalize e a j (release_pod e p (collect e a j (fold (worker_tick e a j) ts v))))))"
        by (rule finalize_steps [OF assms])
      finally show ?thesis .
    qed
    have "world_steps (wk_world s1) (wk_world (failAndCleanup e a j p t (record_effect x (s1\<lparr>wk_iso := m\<rparr>))))" for j t x m
      using cleanup_steps [OF assms, of "record_effect x (s1\<lparr>wk_iso := m\<rparr>)" a j p t] by simp
    moreover have "world_steps (wk_world s1) (wk_world (snd (finalize e a j (release_pod e p (collect e a j
        (fold (worker_tick e a j) ts (record_effect x (s1\<lparr>wk_iso := m\<rparr>))))))))" for j ts x m
      using run [of "record_effect x (s1\<lparr>wk_iso := m\<rparr>)" j ts] by simp
    ultimately show ?thesis
      by (auto simp: run_sandbox_def Let_def claim cleanup_steps [OF assms] split: sum.split prod.split)
  qed
  ultimately show ?thesis by (rule world_steps_trans)
qed

lemma load_steps: "others_step (we_db e) \<Longrightarrow> load_checkpoint e j s = (b, s') \<Longrightarrow> world_steps (wk_world s) (wk_world s')"
  unfolding load_checkpoint_def GetLatestCheckpoint_def
  by (auto split: prod.splits sum.splits option.splits dest: wcall_query_steps)

lemma prepare_steps:
  assumes "others_step (we_db e)"
  shows "world_steps (wk_world s) (wk_world (snd (prepare e a job s)))"
proof -
  let ?s = "record_effect (PromptWritten (sp_prompt (jr_spec job))) (record_effect (WorkDirMade (jr_id job)) s)"
  obtain b s1 where load: "load_checkpoint e (jr_id job) ?s = (b, s1)" by (cases "load_checkpoint e (jr_id job) ?s")
  have 1: "world_steps (wk_world s) (wk_world s1)" using load_steps [OF assms load] by simp
  have "world_steps (wk_world s1) (wk_world (fail_attempt e a t (record_effect x s1)))" for t x
    using fail_steps [OF assms, of "record_effect x s1"] by simp
  moreover have "world_steps (wk_world s1) (wk_world (snd (run_sandbox e a job env (record_effect x s1))))" for env x
    using run_sandbox_steps [OF assms, of "record_effect x s1"] by simp
  ultimately show ?thesis
    using 1 fail_steps [OF assms, of s1]
    by (auto simp: prepare_def Let_def load split: option.split sum.split intro: world_steps_trans)
qed

lemma execute_steps:
  assumes "others_step (we_db e)"
  shows "world_steps (wk_world s) (wk_world (snd (execute e a s)))"
proof -
  obtain q s1 where g: "wcall e (\<lambda>c. GetJob c (ar_job a)) s = (q, s1)" by (cases "wcall e (\<lambda>c. GetJob c (ar_job a)) s")
  have 1: "world_steps (wk_world s) (wk_world s1)"
    by (rule wcall_query_steps [OF assms g [unfolded GetJob_def]])
  obtain r s2 where t: "wcall e (\<lambda>c. TransitionAttemptState c (ar_id a) AttemptNew AttemptExecuting (worker_trigger e)) s1 = (r, s2)"
    by (cases "wcall e (\<lambda>c. TransitionAttemptState c (ar_id a) AttemptNew AttemptExecuting (worker_trigger e)) s1")
  have 2: "world_steps (wk_world s1) (wk_world s2)"
    by (rule wcall_steps [OF assms t]) auto
  have 3: "world_steps (wk_world s2) (wk_world (wrun e (\<lambda>c. TransitionJobState c j JobScheduled JobRunning msg) s2))" for j msg
    by (rule issues_step [OF assms]) auto
  show ?thesis
    using 1 world_steps_trans [OF 1 2] world_steps_trans [OF world_steps_trans [OF world_steps_trans [OF 1 2] 3] prepare_steps [OF assms]]
    by (auto simp: execute_def g t split: sum.split)
qed

lemma worker_poll_steps:
  assumes "others_step (we_db e)"
  shows "world_steps (wk_world s) (wk_world (snd (worker_poll e s)))"
proof -
  obtain r s1 where c: "wcall e (\<lambda>c. ClaimScheduledAttempt c (we_id e)) s = (r, s1)" by (cases "wcall e (\<lambda>c. ClaimScheduledAttempt c (we_id e)) s")
  have 1: "world_steps (wk_world s) (wk_world s1)" by (rule wcall_steps [OF assms c]) auto
  then show ?thesis
    using world_steps_trans [OF 1 execute_steps [OF assms]] by (auto simp: worker_poll_def c split: sum.split option.split)
qed

text \<open>An attempt that has started is not executed again: the worker touches nothing.\<close>

lemma execute_started:
  assumes "others_step (we_db e)" and "attempt_started (wd_db (wk_world s)) (ar_id a)" and "execute e a s = (r, s')"
  shows "r \<noteq> None \<and> wk_effects s' = wk_effects s \<and> wk_pool s' = wk_pool s \<and> wk_iso s' = wk_iso s"
proof -
  obtain q s1 where g: "wcall e (\<lambda>c. GetJob c (ar_job a)) s = (q, s1)" by (cases "wcall e (\<lambda>c. GetJob c (ar_job a)) s")
  have same: "wk_effects s1 = wk_effects s" "wk_pool s1 = wk_pool s" "wk_iso s1 = wk_iso s"
    using g by (auto simp: wcall_def split: prod.splits)
  have "world_steps (wk_world s) (wk_world s1)" by (rule wcall_query_steps [OF assms(1) g [unfolded GetJob_def]])
  then have "attempt_started (wd_db (wk_world s1)) (ar_id a)"
    using assms(2) by (auto simp: world_steps_def intro: steps_started)
  let ?c = "or_call (we_db e) (wd_calls (wk_world s1))" and ?d = "or_between (we_db e) (wd_calls (wk_world s1)) (wd_db (wk_world s1))"
  have "db_step\<^sup>*\<^sup>* (wd_db (wk_world s1)) ?d" using assms(1) by (simp add: others_step_def)
  then have "attempt_started ?d (ar_id a)" by (rule steps_started) fact
  then obtain x where x: "find_attempt ?d (ar_id a) = Some x" "ar_state x \<noteq> AttemptNew"
    by (auto simp: attempt_started_def)
  then obtain y where "TransitionAttemptState ?c (ar_id a) AttemptNew AttemptExecuting (worker_trigger e) ?d = (Inl y, ?d)"
    by (cases "dc_fault ?c") (auto simp: TransitionAttemptState_def db_exec_def)
  then have "wcall e (\<lambda>c. TransitionAttemptState c (ar_id a) AttemptNew AttemptExecuting (worker_trigger e)) s1 =
      (Inl y, s1\<lparr>wk_world := \<lparr>wd_db = ?d, wd_calls = wd_calls (wk_world s1) + 1\<rparr>\<rparr>)"
    by (simp add: wcall_def dbc_def)
  with assms(3) same show ?thesis by (cases q) (auto simp: execute_def g)
qed

subsection \<open>An undisturbed execution\<close>

definition leaves :: "worker_env \<Rightarrow> (string \<times> job_state) list \<Rightarrow> (string \<times> attempt_state) list \<Rightarrow> worker \<Rightarrow> bool" where
  "leaves e js as s \<longleftrightarrow> job_states (wd_db (wk_world s)) = js \<and> attempt_states (wd_db (wk_world s)) = as \<and>
     ids_fresh (we_db e) (wk_world s)"

lemma leaves_world: "leaves e js as s \<Longrightarrow> wk_world s' = wk_world s \<Longrightarrow> leaves e js as s'"
  by (simp add: leaves_def)

lemma leaves_effect [simp]: "leaves e js as (record_effect x s) = leaves e js as s"
  by (simp add: leaves_def)

lemma leaves_release [simp]: "leaves e js as (release_pod e p s) = leaves e js as s"
  by (simp add: leaves_def)

lemma leaves_wcall:
  assumes "calm (we_db e)" and "leaves e js as s" and "wcall e f s = (r, s')" and "\<And>c d. quiet d (snd (f c d))"
  shows "leaves e js as s'"
proof -
  obtain w' where w': "dbc (we_db e) f (wk_world s) = (r, w')" "s' = s\<lparr>wk_world := w'\<rparr>"
    using assms(3) by (auto simp: wcall_def split: prod.splits)
  from calm_quiet [OF assms(1) w'(1) assms(4)] show ?thesis using assms(2) w'(2) by (simp add: leaves_def moves_to_def)
qed

lemma leaves_wrun: "calm (we_db e) \<Longrightarrow> leaves e js as s \<Longrightarrow> (\<And>c d. quiet d (snd (f c d))) \<Longrightarrow> leaves e js as (wrun e f s)"
  by (cases "wcall e f s") (auto simp: wrun_def intro: leaves_wcall)

lemma leaves_job_move:
  assumes "calm (we_db e)" and "leaves e js as s"
  shows "leaves e (move_state j a b js) as (wrun e (\<lambda>c. TransitionJobState c j a b msg) s)"
  using assms(2) calm_job_move [OF assms(1) _ surjective_pairing, of "wk_world s" j a b msg]
  by (auto simp: leaves_def wrun_def wcall_def moves_to_def split: prod.splits)

lemma leaves_attempt_wcall:
  assumes "calm (we_db e)" and "leaves e js as s" and "wcall e (\<lambda>c. TransitionAttemptState c i a b msg) s = (r, s')"
  shows "leaves e js (move_state i a b as) s'" "(\<exists>u. r = Inr u) \<longleftrightarrow> map_of as i = Some a"
  using assms(2,3) calm_attempt_move [OF assms(1), of "wk_world s" i a b msg]
  by (fastforce simp: leaves_def wcall_def moves_to_def split: prod.splits)+

lemma leaves_attempt_move:
  "calm (we_db e) \<Longrightarrow> leaves e js as s \<Longrightarrow> leaves e js (move_state i a b as) (wrun e (\<lambda>c. TransitionAttemptState c i a b msg) s)"
  by (cases "wcall e (\<lambda>c. TransitionAttemptState c i a b msg) s") (auto simp: wrun_def intro: leaves_attempt_wcall(1))

lemma leaves_fold: "(\<And>x s. leaves e js as s \<Longrightarrow> leaves e js as (f x s)) \<Longrightarrow> leaves e js as s \<Longrightarrow> leaves e js as (fold f xs s)"
  by (induction xs arbitrary: s) auto

lemma leaves_manifest: "calm (we_db e) \<Longrightarrow> leaves e js as s \<Longrightarrow> leaves e js as (save_manifest e a j b s)"
  by (auto simp: save_manifest_def split: sum.split intro!: leaves_wrun quiet_statements)

lemma leaves_tick: "calm (we_db e) \<Longrightarrow> leaves e js as s \<Longrightarrow> leaves e js as (worker_tick e a j b s)"
  by (auto simp: worker_tick_def Let_def split: sum.split option.split intro!: leaves_wrun leaves_manifest quiet_statements)

lemma leaves_collect: "calm (we_db e) \<Longrightarrow> leaves e js as s \<Longrightarrow> leaves e js as (collect e a j s)"
  by (auto simp: collect_def Let_def save_artifact_def split: option.split prod.split
      intro!: leaves_fold leaves_wrun leaves_manifest quiet_statements)

lemma leaves_load:
  "calm (we_db e) \<Longrightarrow> leaves e js as s \<Longrightarrow> load_checkpoint e j s = (b, s') \<Longrightarrow> leaves e js as s' \<and> wk_iso s' = wk_iso s"
proof -
  assume a: "calm (we_db e)" "leaves e js as s" "load_checkpoint e j s = (b, s')"
  obtain r s1 where w: "wcall e (\<lambda>c. GetLatestCheckpoint c j) s = (r, s1)" by (cases "wcall e (\<lambda>c. GetLatestCheckpoint c j) s")
  have "leaves e js as s1" by (rule leaves_wcall [OF a(1,2) w]) (simp add: GetLatestCheckpoint_def)
  moreover have "wk_iso s1 = wk_iso s" using w by (auto simp: wcall_def split: prod.splits)
  ultimately show ?thesis
    using a(3) by (auto simp: load_checkpoint_def w record_effect_def leaves_def split: sum.splits option.splits)
qed

lemma leaves_claim:
  "calm (we_db e) \<Longrightarrow> leaves e js as s \<Longrightarrow> claim_pod_for e a j s = (p, s') \<Longrightarrow> leaves e js as s' \<and> wk_iso s' = wk_iso s"
proof -
  assume a: "calm (we_db e)" "leaves e js as s" "claim_pod_for e a j s = (p, s')"
  have "leaves e js as (wrun e (\<lambda>c. UpdateAttemptPoolInfo c a x l h) (s\<lparr>wk_pool := m\<rparr>))" for x l h m
    by (rule leaves_wrun [OF a(1)]) (use a(2) in \<open>simp_all add: leaves_def quiet_statements\<close>)
  moreover have "wk_iso (wrun e f s) = wk_iso s" for f :: "db_call \<Rightarrow> db \<Rightarrow> (db_error + unit) \<times> db" and s
    by (simp add: wrun_def wcall_def split: prod.split)
  ultimately show ?thesis
    using a(2,3) by (auto simp: claim_pod_for_def leaves_def split: prod.splits sum.splits)
qed

definition job_after :: "worker_env \<Rightarrow> string \<Rightarrow> (string \<times> job_state) list \<Rightarrow> (string \<times> job_state) list" where
  "job_after e j js = (if exit_code e = 0 then move_state j JobRunning JobCompleted js else js)"

definition attempt_after :: "worker_env \<Rightarrow> string \<Rightarrow> (string \<times> attempt_state) list \<Rightarrow> (string \<times> attempt_state) list" where
  "attempt_after e a as = move_state a AttemptExecuting (if exit_code e = 0 then AttemptCompleted else AttemptFailed) as"

text \<open>The job is completed whatever became of the attempt.\<close>

lemma finalize_states:
  assumes "calm (we_db e)" and "leaves e js as s" and "we_wait e = None"
  shows "fst (finalize e a j s) = None \<and> leaves e (job_after e j js) (attempt_after e a as) (snd (finalize e a j s))"
proof -
  let ?s = "wrun e (\<lambda>c. SaveLog c j a (run_logs e)) s"
  have "leaves e js as ?s" by (rule leaves_wrun [OF assms(1,2)]) (rule quiet_statements)
  with assms show ?thesis
    by (auto simp: finalize_def Let_def job_after_def attempt_after_def fail_attempt_def leaves_job_move leaves_attempt_move)
qed

definition sandbox_starts :: "worker_env \<Rightarrow> job_row \<Rightarrow> (string \<times> string) list \<Rightarrow> iso_manager \<Rightarrow> bool" where
  "sandbox_starts e job env m \<longleftrightarrow>
     (case ResolveLevel m (mapIsolationLevel (sp_isolation (jr_spec job))) None of
        Inl x \<Rightarrow> False
      | Inr l \<Rightarrow> (case StartSandbox (we_start e) l (sandbox_config e job env) m of (Inl x, r) \<Rightarrow> False | (Inr x, r) \<Rightarrow> True))"

definition healthy :: "worker_env \<Rightarrow> job_row \<Rightarrow> iso_manager \<Rightarrow> bool" where
  "healthy e job m \<longleftrightarrow> we_mkdir e = None \<and> we_prompt e = None \<and> we_runner e = None \<and> we_hook e = None \<and> we_wait e = None \<and>
     (case we_environment e of Inl x \<Rightarrow> False | Inr env \<Rightarrow> sandbox_starts e job env m)"

lemma run_sandbox_states:
  assumes "calm (we_db e)" and "leaves e js as s" and "we_wait e = None" and "sandbox_starts e job env (wk_iso s)"
  shows "fst (run_sandbox e a job env s) = None \<and>
    leaves e (job_after e (jr_id job) js) (attempt_after e a as) (snd (run_sandbox e a job env s))"
proof -
  let ?j = "jr_id job"
  obtain p s1 where claim: "claim_pod_for e a ?j s = (p, s1)" by (cases "claim_pod_for e a ?j s")
  have s1: "leaves e js as s1" "wk_iso s1 = wk_iso s" using leaves_claim [OF assms(1,2) claim] by auto
  obtain l r m cmds where start: "ResolveLevel (wk_iso s1) (mapIsolationLevel (sp_isolation (jr_spec job))) None = Inr l"
    "StartSandbox (we_start e) l (sandbox_config e job env) (wk_iso s1) = (Inr r, m, cmds)"
    using assms(4) by (auto simp: sandbox_starts_def s1(2) split: sum.splits prod.splits)
  let ?s = "release_pod e p (collect e a ?j (fold (worker_tick e a ?j) (we_ticks e)
    (record_effect (SandboxStarted l (sandbox_config e job env) cmds) (s1\<lparr>wk_iso := m\<rparr>))))"
  have "leaves e js as (record_effect (SandboxStarted l (sandbox_config e job env) cmds) (s1\<lparr>wk_iso := m\<rparr>))"
    using s1(1) by (simp add: leaves_def)
  then have "leaves e js as ?s"
    by (simp add: leaves_collect [OF assms(1)] leaves_fold leaves_tick [OF assms(1)])
  from finalize_states [OF assms(1) this assms(3), of a ?j] show ?thesis
    by (simp add: run_sandbox_def Let_def claim start)
qed

lemma prepare_states:
  assumes "calm (we_db e)" and "leaves e js as s" and "healthy e job (wk_iso s)"
  shows "fst (prepare e a job s) = None \<and>
    leaves e (job_after e (jr_id job) js) (attempt_after e a as) (snd (prepare e a job s))"
proof -
  let ?s = "record_effect (PromptWritten (sp_prompt (jr_spec job))) (record_effect (WorkDirMade (jr_id job)) s)"
  obtain b s1 where load: "load_checkpoint e (jr_id job) ?s = (b, s1)" by (cases "load_checkpoint e (jr_id job) ?s")
  have "leaves e js as ?s" using assms(2) by simp
  from leaves_load [OF assms(1) this load] have s1: "leaves e js as s1" "wk_iso s1 = wk_iso s" by (simp_all add: record_effect_def)
  obtain env where env: "we_environment e = Inr env" "sandbox_starts e job env (wk_iso s)"
    using assms(3) by (auto simp: healthy_def split: sum.splits)
  have "leaves e js as (record_effect (RunnerStarted b) s1)" "wk_iso (record_effect (RunnerStarted b) s1) = wk_iso s"
    using s1 by (simp_all add: record_effect_def leaves_def)
  with run_sandbox_states [OF assms(1), of js as "record_effect (RunnerStarted b) s1" job env a] env assms(3) show ?thesis
    by (simp add: prepare_def Let_def load healthy_def)
qed

lemma execute_states:
  assumes "calm (we_db e)" and "leaves e js as s" and "find_job (wd_db (wk_world s)) (ar_job a) = Some job"
    and "map_of as (ar_id a) = Some AttemptNew" and "healthy e job (wk_iso s)"
  shows "fst (execute e a s) = None \<and>
    leaves e (job_after e (ar_job a) (move_state (ar_job a) JobScheduled JobRunning js))
      (attempt_after e (ar_id a) (set_states (ar_id a) AttemptExecuting as)) (snd (execute e a s))"
proof -
  have j: "jr_id job = ar_job a" using assms(3) by (auto simp: find_job_def dest!: find_rowD)
  obtain q s1 where g: "wcall e (\<lambda>c. GetJob c (ar_job a)) s = (q, s1)" by (cases "wcall e (\<lambda>c. GetJob c (ar_job a)) s")
  have q: "q = Inr job" using g assms(3)
    by (auto simp: wcall_def calm_dbc [OF assms(1)] GetJob_def calm_query [OF assms(1)])
  have s1: "leaves e js as s1" by (rule leaves_wcall [OF assms(1,2) g]) (simp add: GetJob_def)
  obtain r s2 where t: "wcall e (\<lambda>c. TransitionAttemptState c (ar_id a) AttemptNew AttemptExecuting (worker_trigger e)) s1 = (r, s2)"
    by (cases "wcall e (\<lambda>c. TransitionAttemptState c (ar_id a) AttemptNew AttemptExecuting (worker_trigger e)) s1")
  note t2 = leaves_attempt_wcall [OF assms(1) s1 t]
  then obtain u where u: "r = Inr u" using assms(4) by auto
  have s2: "leaves e js (set_states (ar_id a) AttemptExecuting as) s2" using t2(1) assms(4) by (simp add: move_state_def)
  let ?s3 = "wrun e (\<lambda>c. TransitionJobState c (jr_id job) JobScheduled JobRunning (worker_trigger e)) s2"
  have "leaves e (move_state (ar_job a) JobScheduled JobRunning js) (set_states (ar_id a) AttemptExecuting as) ?s3"
    using leaves_job_move [OF assms(1) s2] by (simp add: j)
  moreover have "wk_iso ?s3 = wk_iso s"
    using g t by (auto simp: wrun_def wcall_def split: prod.splits)
  ultimately show ?thesis
    using prepare_states [OF assms(1), of _ _ ?s3 job "ar_id a"] assms(5) by (simp add: execute_def g q t u j)
qed

end
