(* ===== verification/JobApi.thy ===== *)
theory JobApi
  imports JobSystem WarmPool Isolation
begin

text \<open>
  The API server (\<open>internal/api/server.go\<close>): its routes, its handlers and the two maps of
  pools and policies. A request carries its decoded body (or the decoder's error), a response its
  status and the value it encodes. \<open>ae_manifest\<close> decodes a checkpoint as a WAL manifest.
\<close>

subsection \<open>Data\<close>

record policy_entry =
  pe_name :: string
  pe_namespace :: string
  pe_allowed :: "string list"
  pe_default :: string
  pe_max :: int
  pe_created :: instant

record pool_entry =
  pn_mgr :: pool_manager
  pn_cfg :: pool_config
  pn_created :: instant

record pool_info =
  pf_name :: string
  pf_config :: "pool_config option"
  pf_status :: pool_status
  pf_created :: "instant option"

record create_pool_request =
  cq_name :: string
  cq_min :: int
  cq_max :: int
  cq_up :: rat
  cq_down :: rat
  cq_step :: int
  cq_cooldown :: int
  cq_image :: string
  cq_runtime :: string

record create_policy_request =
  pq_name :: string
  pq_namespace :: string
  pq_allowed :: "string list"
  pq_default :: string
  pq_max :: int

record step_entry =
  se_step :: string
  se_type :: string
  se_seq :: int
  se_exit :: "int option"
  se_output :: string

record job_steps =
  js_job :: string
  js_steps :: "step_entry list"
  js_last :: string
  js_count :: nat

record recovery_info =
  rf_job :: string
  rf_recovery :: bool
  rf_completed :: "string list"
  rf_last :: string
  rf_from :: string

record completed_step =
  cp_step :: string
  cp_seq :: int
  cp_output :: string

record wal_steps =
  ws_completed :: "completed_step list"
  ws_last :: string

record api_metrics =
  mx_total :: nat
  mx_idle :: nat
  mx_claimed :: nat
  mx_claims :: int
  mx_misses :: int
  mx_levels :: "int list"

datatype api_body = NoBody | ErrorBody string | JobIdBody string | JobsBody "job_row list"
  | JobBody job_row "attempt_row list" | TextsBody "string list" | DataBody string
  | TransitionsBody "transition_row list" | PoolsBody "pool_info list" | PoolBody pool_info
  | PolicyBody policy_entry | StepsBody job_steps | RecoveryBody recovery_info | MetricsBody api_metrics

type_synonym api_response = "nat \<times> api_body"

datatype api_request = CreateJobReq "string + JobSpec" | ListJobsReq | GetJobReq string | GetLogsReq string
  | ListArtifactsReq string | GetArtifactReq string string | GetTransitionsReq string | TerminateReq string
  | ListPoolsReq | GetPoolReq string | CreatePoolReq "string + create_pool_request"
  | GetPolicyReq string | CreatePolicyReq "string + create_policy_request"
  | CreateJobV2Req "string + JobSpec" | GetStepsReq string | GetRecoveryReq string | MetricsReq

record api_env =
  ae_db :: db_oracle
  ae_uuid :: "string \<Rightarrow> nat \<Rightarrow> string"
  ae_clock :: instant
  ae_manifest :: "string \<Rightarrow> wal_steps option"

record api_server =
  ap_world :: db_world
  ap_pools :: "(string \<times> pool_entry) list"
  ap_policies :: "(string \<times> policy_entry) list"
  ap_pool :: "pool_manager option"
  ap_iso :: "iso_manager option"

subsection \<open>Jobs\<close>

definition acall :: "api_env \<Rightarrow> (db_call \<Rightarrow> db \<Rightarrow> 'r \<times> db) \<Rightarrow> api_server \<Rightarrow> 'r \<times> api_server" where
  "acall e f s = (case dbc (ae_db e) f (ap_world s) of (r, w) \<Rightarrow> (r, s\<lparr>ap_world := w\<rparr>))"

definition db_error_text :: "db_error \<Rightarrow> string" where
  "db_error_text x =
     (case x of
        DbFailed \<Rightarrow> ''database error'' | NoRows \<Rightarrow> ''sql: no rows in result set'' | DuplicateKey \<Rightarrow> ''duplicate key''
      | MissingParent \<Rightarrow> ''foreign key violation'' | StateMismatch \<Rightarrow> ''unexpected state'')"

definition internal_error :: "db_error \<Rightarrow> api_response" where
  "internal_error x = (500, ErrorBody (db_error_text x))"

text \<open>The answer to a failed lookup: a missing row is 404, anything else 500.\<close>

definition lookup_error :: "string \<Rightarrow> db_error \<Rightarrow> api_response" where
  "lookup_error missing x = (if x = NoRows then (404, ErrorBody missing) else internal_error x)"

definition store_job :: "api_env \<Rightarrow> JobSpec \<Rightarrow> api_server \<Rightarrow> api_response \<times> api_server" where
  "store_job e spec s =
     (case acall e (\<lambda>c. CreateJob c spec) s of
        (Inl x, s) \<Rightarrow> (internal_error x, s)
      | (Inr job, s) \<Rightarrow> ((201, JobIdBody (jr_id job)), s))"

definition handleCreateJob :: "api_env \<Rightarrow> string + JobSpec \<Rightarrow> api_server \<Rightarrow> api_response \<times> api_server" where
  "handleCreateJob e body s =
     (case body of
        Inl x \<Rightarrow> ((400, ErrorBody (''invalid JSON: '' @ x)), s)
      | Inr spec \<Rightarrow>
          (case ValidateJobSpec spec of
             Inl x \<Rightarrow> ((400, ErrorBody x), s)
           | Inr spec \<Rightarrow> store_job e spec s))"

definition handleCreateJobV2 :: "api_env \<Rightarrow> string + JobSpec \<Rightarrow> api_server \<Rightarrow> api_response \<times> api_server" where
  "handleCreateJobV2 e body s =
     (case body of
        Inl x \<Rightarrow> ((400, ErrorBody (''invalid JSON: '' @ x)), s)
      | Inr spec \<Rightarrow>
          (case ValidateJobSpec spec of
             Inl x \<Rightarrow> ((400, ErrorBody x), s)
           | Inr spec \<Rightarrow>
               if ap_iso s \<noteq> None \<and> \<not> ValidateLevel (sp_isolation spec)
               then ((400, ErrorBody (''invalid isolation level: '' @ sp_isolation spec)), s)
               else store_job e spec s))"

definition reply :: "('a \<Rightarrow> api_body) \<Rightarrow> (db_error + 'a) \<times> api_server \<Rightarrow> api_response \<times> api_server" where
  "reply body q = (case q of (Inl x, s) \<Rightarrow> (internal_error x, s) | (Inr v, s) \<Rightarrow> ((200, body v), s))"

definition handleListJobs :: "api_env \<Rightarrow> api_server \<Rightarrow> api_response \<times> api_server" where
  "handleListJobs e s = reply JobsBody (acall e ListJobs s)"

definition handleGetJob :: "api_env \<Rightarrow> string \<Rightarrow> api_server \<Rightarrow> api_response \<times> api_server" where
  "handleGetJob e i s =
     (case acall e (\<lambda>c. GetJob c i) s of
        (Inl x, s) \<Rightarrow> (lookup_error ''job not found'' x, s)
      | (Inr job, s) \<Rightarrow> reply (JobBody job) (acall e (\<lambda>c. GetAttempts c i) s))"

definition handleGetLogs :: "api_env \<Rightarrow> string \<Rightarrow> api_server \<Rightarrow> api_response \<times> api_server" where
  "handleGetLogs e i s = reply TextsBody (acall e (\<lambda>c. GetLogs c i) s)"

definition handleListArtifacts :: "api_env \<Rightarrow> string \<Rightarrow> api_server \<Rightarrow> api_response \<times> api_server" where
  "handleListArtifacts e i s = reply TextsBody (acall e (\<lambda>c. ListArtifacts c i) s)"

definition handleGetArtifact :: "api_env \<Rightarrow> string \<Rightarrow> string \<Rightarrow> api_server \<Rightarrow> api_response \<times> api_server" where
  "handleGetArtifact e i name s =
     (case acall e (\<lambda>c. GetArtifact c i name) s of
        (Inl x, s) \<Rightarrow> (lookup_error ''artifact not found'' x, s)
      | (Inr data, s) \<Rightarrow> ((200, DataBody data), s))"

definition handleGetTransitions :: "api_env \<Rightarrow> string \<Rightarrow> api_server \<Rightarrow> api_response \<times> api_server" where
  "handleGetTransitions e i s = reply TransitionsBody (acall e (\<lambda>c. GetTransitions c JobEntity i) s)"

definition job_state_text :: "job_state \<Rightarrow> string" where
  "job_state_text s =
     (case s of
        JobPending \<Rightarrow> ''Pending'' | JobScheduled \<Rightarrow> ''Scheduled'' | JobRunning \<Rightarrow> ''Running''
      | JobCompleted \<Rightarrow> ''Completed'' | JobFailed \<Rightarrow> ''Failed'' | JobTerminated \<Rightarrow> ''Terminated''
      | JobClaiming \<Rightarrow> ''Claiming'' | JobActivating \<Rightarrow> ''Activating'' | JobRecovering \<Rightarrow> ''Recovering'')"

definition handleTerminateJob :: "api_env \<Rightarrow> string \<Rightarrow> api_server \<Rightarrow> api_response \<times> api_server" where
  "handleTerminateJob e i s =
     (case acall e (\<lambda>c. GetJob c i) s of
        (Inl x, s) \<Rightarrow> (lookup_error ''job not found'' x, s)
      | (Inr job, s) \<Rightarrow>
          if job_over (jr_state job)
          then ((409, ErrorBody (''job is already in terminal state: '' @ job_state_text (jr_state job))), s)
          else
            (case acall e (\<lambda>c. TransitionJobState c i (jr_state job) JobTerminated ''api-delete'') s of
               (Inl x, s) \<Rightarrow> ((409, ErrorBody (db_error_text x)), s)
             | (Inr u, s) \<Rightarrow> ((204, NoBody), s)))"

subsection \<open>Pools and policies\<close>

definition entry_info :: "pool_entry \<Rightarrow> pool_info" where
  "entry_info n = \<lparr>pf_name = cf_name (pn_cfg n), pf_config = Some (pn_cfg n), pf_status = PoolStatus (pn_mgr n),
     pf_created = Some (pn_created n)\<rparr>"

definition default_info :: "pool_manager \<Rightarrow> pool_info" where
  "default_info m = \<lparr>pf_name = ''default'', pf_config = None, pf_status = PoolStatus m, pf_created = None\<rparr>"

text \<open>The managers of the map are made by the handler below, so none of them is the server's own.\<close>

definition handleListPools :: "api_server \<Rightarrow> api_response" where
  "handleListPools s =
     (200, PoolsBody (map (\<lambda>(n, x). entry_info x) (ap_pools s)
        @ (case ap_pool s of None \<Rightarrow> [] | Some m \<Rightarrow> [default_info m])))"

definition handleGetPool :: "string \<Rightarrow> api_server \<Rightarrow> api_response" where
  "handleGetPool name s =
     (case map_of (ap_pools s) name of
        Some x \<Rightarrow> (200, PoolBody (entry_info x))
      | None \<Rightarrow>
          (case ap_pool s of
             Some m \<Rightarrow> if name = ''default'' then (200, PoolBody (default_info m))
                       else (404, ErrorBody (''pool not found: '' @ name))
           | None \<Rightarrow> (404, ErrorBody (''pool not found: '' @ name))))"

definition request_config :: "create_pool_request \<Rightarrow> pool_config" where
  "request_config q = \<lparr>cf_name = cq_name q, cf_min = cq_min q, cf_max = cq_max q, cf_up = cq_up q, cf_down = cq_down q,
     cf_step = cq_step q, cf_cooldown = cq_cooldown q, cf_image = cq_image q, cf_runtime = cq_runtime q\<rparr>"

definition handleCreatePool :: "api_env \<Rightarrow> string + create_pool_request \<Rightarrow> api_server \<Rightarrow> api_response \<times> api_server" where
  "handleCreatePool e body s =
     (case body of
        Inl x \<Rightarrow> ((400, ErrorBody (''invalid JSON: '' @ x)), s)
      | Inr q \<Rightarrow>
          if cq_name q = [] then ((400, ErrorBody ''name is required''), s)
          else if cq_min q < 0 then ((400, ErrorBody ''minSize must be >= 0''), s)
          else if cq_max q < cq_min q then ((400, ErrorBody ''maxSize must be >= minSize''), s)
          else if map_of (ap_pools s) (cq_name q) \<noteq> None
          then ((409, ErrorBody (''pool already exists: '' @ cq_name q)), s)
          else
            (let cfg = request_config q; m = NewPoolManager (ae_uuid e (cq_name q)) (ae_clock e) cfg
             in ((201, PoolBody \<lparr>pf_name = cq_name q, pf_config = Some cfg, pf_status = PoolStatus m, pf_created = None\<rparr>),
                 s\<lparr>ap_pools := ap_pools s @ [(cq_name q, \<lparr>pn_mgr = m, pn_cfg = cfg, pn_created = ae_clock e\<rparr>)]\<rparr>)))"

definition handleGetPolicy :: "string \<Rightarrow> api_server \<Rightarrow> api_response" where
  "handleGetPolicy ns s =
     (case map_of (ap_policies s) ns of
        None \<Rightarrow> (404, ErrorBody (''policy not found for namespace: '' @ ns))
      | Some p \<Rightarrow> (200, PolicyBody p))"

definition handleCreatePolicy :: "api_env \<Rightarrow> string + create_policy_request \<Rightarrow> api_server \<Rightarrow> api_response \<times> api_server" where
  "handleCreatePolicy e body s =
     (case body of
        Inl x \<Rightarrow> ((400, ErrorBody (''invalid JSON: '' @ x)), s)
      | Inr q \<Rightarrow>
          if pq_name q = [] then ((400, ErrorBody ''name is required''), s)
          else if pq_namespace q = [] then ((400, ErrorBody ''namespace is required''), s)
          else if map_of (ap_policies s) (pq_namespace q) \<noteq> None
          then ((409, ErrorBody (''policy already exists for namespace: '' @ pq_namespace q)), s)
          else
            (let p = \<lparr>pe_name = pq_name q, pe_namespace = pq_namespace q, pe_allowed = pq_allowed q, pe_default = pq_default q,
                      pe_max = pq_max q, pe_created = ae_clock e\<rparr>
             in ((201, PolicyBody p), s\<lparr>ap_policies := ap_policies s @ [(pq_namespace q, p)]\<rparr>)))"

subsection \<open>Steps, recovery and metrics\<close>

definition checkpoint_manifest :: "api_env \<Rightarrow> checkpoint_row option \<Rightarrow> wal_steps option" where
  "checkpoint_manifest e cp = Option.bind cp (\<lambda>r. ae_manifest e (ck_data r))"

definition completed_step_entry :: "completed_step \<Rightarrow> step_entry" where
  "completed_step_entry x = \<lparr>se_step = cp_step x, se_type = ''step_end'', se_seq = cp_seq x, se_exit = Some 0, se_output = cp_output x\<rparr>"

definition handleGetJobSteps :: "api_env \<Rightarrow> string \<Rightarrow> api_server \<Rightarrow> api_response \<times> api_server" where
  "handleGetJobSteps e i s =
     (case acall e (\<lambda>c. GetJob c i) s of
        (Inl x, s) \<Rightarrow> (lookup_error ''job not found'' x, s)
      | (Inr job, s) \<Rightarrow>
          reply (\<lambda>cp. StepsBody (case checkpoint_manifest e cp of
               None \<Rightarrow> \<lparr>js_job = i, js_steps = [], js_last = [], js_count = 0\<rparr>
             | Some m \<Rightarrow> \<lparr>js_job = i, js_steps = map completed_step_entry (ws_completed m), js_last = ws_last m,
                          js_count = length (ws_completed m)\<rparr>))
            (acall e (\<lambda>c. GetLatestCheckpoint c i) s))"

definition handleGetRecoveryInfo :: "api_env \<Rightarrow> string \<Rightarrow> api_server \<Rightarrow> api_response \<times> api_server" where
  "handleGetRecoveryInfo e i s =
     (case acall e (\<lambda>c. GetJob c i) s of
        (Inl x, s) \<Rightarrow> (lookup_error ''job not found'' x, s)
      | (Inr job, s) \<Rightarrow>
          reply (\<lambda>cp. RecoveryBody
               (let recovering = (jr_state job = JobRecovering)
                in case checkpoint_manifest e cp of
                     None \<Rightarrow> \<lparr>rf_job = i, rf_recovery = recovering, rf_completed = [], rf_last = [], rf_from = []\<rparr>
                   | Some m \<Rightarrow> \<lparr>rf_job = i, rf_recovery = recovering, rf_completed = map cp_step (ws_completed m),
                                rf_last = ws_last m, rf_from = ws_last m\<rparr>))
            (acall e (\<lambda>c. GetLatestCheckpoint c i) s))"

definition level_starts :: "iso_manager \<Rightarrow> string \<Rightarrow> int" where
  "level_starts m l = (case map_of (IsolationMetrics m) l of None \<Rightarrow> 0 | Some lm \<Rightarrow> lm_count lm)"

definition handleMetrics :: "api_server \<Rightarrow> api_response" where
  "handleMetrics s =
     (let levels = (case ap_iso s of None \<Rightarrow> map (\<lambda>l. 0) allLevels | Some m \<Rightarrow> map (level_starts m) allLevels)
      in (200, MetricsBody
           (case ap_pool s of
              None \<Rightarrow> \<lparr>mx_total = 0, mx_idle = 0, mx_claimed = 0, mx_claims = 0, mx_misses = 0, mx_levels = levels\<rparr>
            | Some m \<Rightarrow>
                \<lparr>mx_total = ps_total (PoolStatus m), mx_idle = ps_idle (PoolStatus m), mx_claimed = ps_claimed (PoolStatus m),
                 mx_claims = pm_claims (mg_metrics m), mx_misses = pm_misses (mg_metrics m), mx_levels = levels\<rparr>)))"

subsection \<open>Routing\<close>

datatype segment = Lit string | Var

definition segment_matches :: "segment \<Rightarrow> string \<Rightarrow> bool" where
  "segment_matches p x \<longleftrightarrow> (case p of Lit l \<Rightarrow> x = l | Var \<Rightarrow> x \<noteq> [])"

definition path_matches :: "segment list \<Rightarrow> string list \<Rightarrow> bool" where
  "path_matches ps xs \<longleftrightarrow> list_all2 segment_matches ps xs"

datatype endpoint = EpCreateJob | EpListJobs | EpGetJob | EpGetLogs | EpListArtifacts | EpGetArtifact
  | EpGetTransitions | EpTerminate | EpListPools | EpGetPool | EpCreatePool | EpGetPolicy | EpCreatePolicy
  | EpCreateJobV2 | EpGetSteps | EpGetRecovery | EpMetrics

definition routes :: "(string \<times> segment list \<times> endpoint) list" where
  "routes =
     (let v1 = [Lit ''api'', Lit ''v1'']; v2 = [Lit ''api'', Lit ''v2'']
      in [(''POST'', v1 @ [Lit ''jobs''], EpCreateJob),
          (''GET'', v1 @ [Lit ''jobs''], EpListJobs),
          (''GET'', v1 @ [Lit ''jobs'', Var], EpGetJob),
          (''GET'', v1 @ [Lit ''jobs'', Var, Lit ''logs''], EpGetLogs),
          (''GET'', v1 @ [Lit ''jobs'', Var, Lit ''artifacts''], EpListArtifacts),
          (''GET'', v1 @ [Lit ''jobs'', Var, Lit ''artifacts'', Var], EpGetArtifact),
          (''GET'', v1 @ [Lit ''jobs'', Var, Lit ''transitions''], EpGetTransitions),
          (''DELETE'', v1 @ [Lit ''jobs'', Var], EpTerminate),
          (''GET'', v2 @ [Lit ''pools''], EpListPools),
          (''GET'', v2 @ [Lit ''pools'', Var], EpGetPool),
          (''POST'', v2 @ [Lit ''pools''], EpCreatePool),
          (''GET'', v2 @ [Lit ''policies'', Var], EpGetPolicy),
          (''POST'', v2 @ [Lit ''policies''], EpCreatePolicy),
          (''POST'', v2 @ [Lit ''jobs''], EpCreateJobV2),
          (''GET'', v2 @ [Lit ''jobs'', Var, Lit ''steps''], EpGetSteps),
          (''GET'', v2 @ [Lit ''jobs'', Var, Lit ''recovery''], EpGetRecovery),
          (''GET'', v2 @ [Lit ''metrics''], EpMetrics)])"

text \<open>The bodies a client may send, decoded for the endpoint that wants them.\<close>

record api_bodies =
  ab_job :: "string + JobSpec"
  ab_pool :: "string + create_pool_request"
  ab_policy :: "string + create_policy_request"

definition endpoint_request :: "endpoint \<Rightarrow> string list \<Rightarrow> api_bodies \<Rightarrow> api_request" where
  "endpoint_request ep path b =
     (case ep of
        EpCreateJob \<Rightarrow> CreateJobReq (ab_job b) | EpListJobs \<Rightarrow> ListJobsReq | EpGetJob \<Rightarrow> GetJobReq (path ! 3)
      | EpGetLogs \<Rightarrow> GetLogsReq (path ! 3) | EpListArtifacts \<Rightarrow> ListArtifactsReq (path ! 3)
      | EpGetArtifact \<Rightarrow> GetArtifactReq (path ! 3) (path ! 5) | EpGetTransitions \<Rightarrow> GetTransitionsReq (path ! 3)
      | EpTerminate \<Rightarrow> TerminateReq (path ! 3) | EpListPools \<Rightarrow> ListPoolsReq | EpGetPool \<Rightarrow> GetPoolReq (path ! 3)
      | EpCreatePool \<Rightarrow> CreatePoolReq (ab_pool b) | EpGetPolicy \<Rightarrow> GetPolicyReq (path ! 3)
      | EpCreatePolicy \<Rightarrow> CreatePolicyReq (ab_policy b) | EpCreateJobV2 \<Rightarrow> CreateJobV2Req (ab_job b)
      | EpGetSteps \<Rightarrow> GetStepsReq (path ! 3) | EpGetRecovery \<Rightarrow> GetRecoveryReq (path ! 3) | EpMetrics \<Rightarrow> MetricsReq)"

definition handle :: "api_env \<Rightarrow> api_request \<Rightarrow> api_server \<Rightarrow> api_response \<times> api_server" where
  "handle e q s =
     (case q of
        CreateJobReq b \<Rightarrow> handleCreateJob e b s
      | ListJobsReq \<Rightarrow> handleListJobs e s
      | GetJobReq i \<Rightarrow> handleGetJob e i s
      | GetLogsReq i \<Rightarrow> handleGetLogs e i s
      | ListArtifactsReq i \<Rightarrow> handleListArtifacts e i s
      | GetArtifactReq i n \<Rightarrow> handleGetArtifact e i n s
      | GetTransitionsReq i \<Rightarrow> handleGetTransitions e i s
      | TerminateReq i \<Rightarrow> handleTerminateJob e i s
      | ListPoolsReq \<Rightarrow> (handleListPools s, s)
      | GetPoolReq n \<Rightarrow> (handleGetPool n s, s)
      | CreatePoolReq b \<Rightarrow> handleCreatePool e b s
      | GetPolicyReq n \<Rightarrow> (handleGetPolicy n s, s)
      | CreatePolicyReq b \<Rightarrow> handleCreatePolicy e b s
      | CreateJobV2Req b \<Rightarrow> handleCreateJobV2 e b s
      | GetStepsReq i \<Rightarrow> handleGetJobSteps e i s
      | GetRecoveryReq i \<Rightarrow> handleGetRecoveryInfo e i s
      | MetricsReq \<Rightarrow> (handleMetrics s, s))"

text \<open>A GET pattern also serves HEAD; a path known under another method is 405. Preflight
  requests never reach the routes.\<close>

definition serve_api :: "api_env \<Rightarrow> string \<Rightarrow> string list \<Rightarrow> api_bodies \<Rightarrow> api_server \<Rightarrow> api_response \<times> api_server" where
  "serve_api e meth path b s =
     (if meth = ''OPTIONS'' then ((204, NoBody), s)
      else case find (\<lambda>(m, ps, ep). (m = meth \<or> m = ''GET'' \<and> meth = ''HEAD'') \<and> path_matches ps path) routes of
        Some (m, ps, ep) \<Rightarrow> handle e (endpoint_request ep path b) s
      | None \<Rightarrow>
          (if list_ex (\<lambda>(m, ps, ep). path_matches ps path) routes
           then (405, ErrorBody ''Method Not Allowed'') else (404, ErrorBody ''404 page not found''), s))"

subsection \<open>Facts\<close>

lemma acall_query_steps: "others_step (ae_db e) \<Longrightarrow> acall e (\<lambda>c. db_query c (f c)) s = (r, s') \<Longrightarrow>
    world_steps (ap_world s) (ap_world s')"
  by (auto simp: acall_def split: prod.splits intro: dbc_query_steps)

lemma acall_steps: "others_step (ae_db e) \<Longrightarrow> acall e f s = (r, s') \<Longrightarrow> (\<And>c d. db_step d (snd (f c d))) \<Longrightarrow>
    world_steps (ap_world s) (ap_world s')"
  by (auto simp: acall_def split: prod.splits intro: dbc_step_steps)

lemma reply_steps: "(\<And>r s'. q = (r, s') \<Longrightarrow> world_steps w (ap_world s')) \<Longrightarrow> world_steps w (ap_world (snd (reply f q)))"
  by (auto simp: reply_def split: prod.split sum.split)

lemma query_reply_steps:
  "others_step (ae_db e) \<Longrightarrow> world_steps (ap_world s) (ap_world (snd (reply f (acall e (\<lambda>c. db_query c (g c)) s))))"
  by (rule reply_steps) (rule acall_query_steps)

lemma store_job_steps: "others_step (ae_db e) \<Longrightarrow> world_steps (ap_world s) (ap_world (snd (store_job e spec s)))"
  by (auto simp: store_job_def split: prod.splits sum.splits intro: acall_steps)

lemma two_queries_steps:
  assumes "others_step (ae_db e)"
  shows "world_steps (ap_world s) (ap_world (snd (case acall e (\<lambda>c. db_query c (f c)) s of
      (Inl x, s) \<Rightarrow> (h x, s) | (Inr v, s) \<Rightarrow> reply (k v) (acall e (\<lambda>c. db_query c (g c)) s))))"
proof -
  obtain r s1 where q: "acall e (\<lambda>c. db_query c (f c)) s = (r, s1)" by (cases "acall e (\<lambda>c. db_query c (f c)) s")
  have 1: "world_steps (ap_world s) (ap_world s1)" by (rule acall_query_steps [OF assms q])
  then show ?thesis
    by (auto simp: q split: sum.split intro: world_steps_trans [OF 1 query_reply_steps [OF assms]])
qed

lemma terminate_steps:
  assumes "others_step (ae_db e)"
  shows "world_steps (ap_world s) (ap_world (snd (handleTerminateJob e i s)))"
proof -
  obtain r s1 where q: "acall e (\<lambda>c. GetJob c i) s = (r, s1)" by (cases "acall e (\<lambda>c. GetJob c i) s")
  have 1: "world_steps (ap_world s) (ap_world s1)" by (rule acall_query_steps [OF assms q [unfolded GetJob_def]])
  show ?thesis
  proof (cases "\<exists>job. r = Inr job \<and> \<not> job_over (jr_state job)")
    case True
    then obtain job where job: "r = Inr job" "\<not> job_over (jr_state job)" by blast
    obtain u s2 where t: "acall e (\<lambda>c. TransitionJobState c i (jr_state job) JobTerminated ''api-delete'') s1 = (u, s2)"
      by (cases "acall e (\<lambda>c. TransitionJobState c i (jr_state job) JobTerminated ''api-delete'') s1")
    have "world_steps (ap_world s1) (ap_world s2)"
      by (rule acall_steps [OF assms t]) (rule db_step.job_transition [OF can_terminate [OF job(2)]])
    with 1 job show ?thesis by (auto simp: handleTerminateJob_def q t split: sum.split intro: world_steps_trans)
  next
    case False
    with 1 show ?thesis by (auto simp: handleTerminateJob_def q split: sum.split)
  qed
qed

lemma handle_steps:
  assumes "others_step (ae_db e)"
  shows "world_steps (ap_world s) (ap_world (snd (handle e q s)))"
proof (cases q)
  case (GetArtifactReq i n)
  then show ?thesis
    by (auto simp: handle_def handleGetArtifact_def GetArtifact_def split: prod.split sum.split intro: acall_query_steps [OF assms])
next
  case (TerminateReq i)
  then show ?thesis by (simp add: handle_def terminate_steps [OF assms])
next
  case (CreateJobReq b)
  then show ?thesis by (auto simp: handle_def handleCreateJob_def store_job_steps [OF assms] split: sum.split)
next
  case (CreateJobV2Req b)
  then show ?thesis by (auto simp: handle_def handleCreateJobV2_def store_job_steps [OF assms] split: sum.split)
next
  case (CreatePoolReq b)
  then show ?thesis by (auto simp: handle_def handleCreatePool_def Let_def split: sum.split)
next
  case (CreatePolicyReq b)
  then show ?thesis by (auto simp: handle_def handleCreatePolicy_def Let_def split: sum.split)
next
  case (GetJobReq i)
  have "world_steps (ap_world s) (ap_world (snd (handleGetJob e i s)))"
    unfolding handleGetJob_def GetJob_def GetAttempts_def by (rule two_queries_steps [OF assms])
  with GetJobReq show ?thesis by (simp add: handle_def)
next
  case (GetStepsReq i)
  have "world_steps (ap_world s) (ap_world (snd (handleGetJobSteps e i s)))"
    unfolding handleGetJobSteps_def GetJob_def GetLatestCheckpoint_def by (rule two_queries_steps [OF assms])
  with GetStepsReq show ?thesis by (simp add: handle_def)
next
  case (GetRecoveryReq i)
  have "world_steps (ap_world s) (ap_world (snd (handleGetRecoveryInfo e i s)))"
    unfolding handleGetRecoveryInfo_def GetJob_def GetLatestCheckpoint_def by (rule two_queries_steps [OF assms])
  with GetRecoveryReq show ?thesis by (simp add: handle_def)
qed (simp_all add: handle_def handleListJobs_def handleGetLogs_def handleListArtifacts_def
    handleGetTransitions_def ListJobs_def [abs_def] GetLogs_def ListArtifacts_def GetTransitions_def query_reply_steps [OF assms])

lemma serve_steps: "others_step (ae_db e) \<Longrightarrow> world_steps (ap_world s) (ap_world (snd (serve_api e meth path b s)))"
  by (simp add: serve_api_def handle_steps split: option.split prod.split)

lemma acall_maps [simp]:
  "acall e f s = (r, s') \<Longrightarrow> ap_pools s' = ap_pools s \<and> ap_policies s' = ap_policies s \<and> ap_pool s' = ap_pool s \<and> ap_iso s' = ap_iso s"
  by (auto simp: acall_def split: prod.splits)

text \<open>No request changes a pool of the map.\<close>

lemma pools_kept:
  "map_of (ap_pools s) n = Some x \<Longrightarrow> map_of (ap_pools (snd (handle e q s))) n = Some x"
proof (cases q)
  case (CreatePoolReq b)
  then show ?thesis if "map_of (ap_pools s) n = Some x"
    using that by (auto simp: handle_def handleCreatePool_def Let_def map_add_def split: sum.split)
next
  case (CreatePolicyReq b)
  then show ?thesis if "map_of (ap_pools s) n = Some x"
    using that by (auto simp: handle_def handleCreatePolicy_def Let_def split: sum.split)
qed (auto simp: handle_def handleListJobs_def handleGetJob_def handleGetLogs_def handleListArtifacts_def handleCreateJob_def
    handleCreateJobV2_def store_job_def handleGetArtifact_def handleTerminateJob_def
    handleGetTransitions_def handleGetJobSteps_def handleGetRecoveryInfo_def reply_def split: prod.splits sum.splits)

lemma model_levels_rejected:
  assumes "level \<in> {[], model_L0Process, model_L1GVisor, model_L2Firecracker, model_L3Docker}"
  shows "\<not> ValidateLevel (default_to model_L1GVisor level)"
  using assms by (auto simp: ValidateLevel_def allLevels_def iso_level_defs model_level_defs default_to_def)

lemma terminate_calm:
  assumes "calm (ae_db e)" and "ids_fresh (ae_db e) (ap_world s)"
  shows "\<exists>s'. handleTerminateJob e i s =
    ((case map_of (job_states (wd_db (ap_world s))) i of
        None \<Rightarrow> (404, ErrorBody ''job not found'')
      | Some t \<Rightarrow> if job_over t then (409, ErrorBody (''job is already in terminal state: '' @ job_state_text t)) else (204, NoBody)), s') \<and>
    job_states (wd_db (ap_world s')) =
      (case map_of (job_states (wd_db (ap_world s))) i of
         None \<Rightarrow> job_states (wd_db (ap_world s))
       | Some t \<Rightarrow> if job_over t then job_states (wd_db (ap_world s)) else set_states i JobTerminated (job_states (wd_db (ap_world s))))"
proof -
  let ?w = "ap_world s"
  let ?w1 = "\<lparr>wd_db = wd_db ?w, wd_calls = wd_calls ?w + 1\<rparr>"
  have q: "acall e (\<lambda>c. GetJob c i) s =
      ((case find_job (wd_db ?w) i of None \<Rightarrow> Inl NoRows | Some r \<Rightarrow> Inr r), s\<lparr>ap_world := ?w1\<rparr>)"
    by (simp add: acall_def GetJob_def calm_dbc [OF assms(1)] calm_query [OF assms(1)])
  show ?thesis
  proof (cases "find_job (wd_db ?w) i")
    case None
    then show ?thesis by (simp add: handleTerminateJob_def q map_of_job_states lookup_error_def)
  next
    case (Some r)
    have fresh: "ids_fresh (ae_db e) ?w1" using assms(2) by (simp add: ids_fresh_def)
    obtain u w2 where t: "dbc (ae_db e) (\<lambda>c. TransitionJobState c i (jr_state r) JobTerminated ''api-delete'') ?w1 = (u, w2)"
      by (cases "dbc (ae_db e) (\<lambda>c. TransitionJobState c i (jr_state r) JobTerminated ''api-delete'') ?w1")
    have states: "map_of (job_states (wd_db ?w)) i = Some (jr_state r)" using Some by (simp add: map_of_job_states)
    have "job_states (wd_db w2) = set_states i JobTerminated (job_states (wd_db ?w))"
      using calm_job_move [OF assms(1) fresh t] states by (simp add: moves_to_def move_state_def)
    moreover have "u = Inr ()"
    proof -
      let ?c = "or_call (ae_db e) (wd_calls ?w1)"
      have "dc_id ?c \<notin> tn_id ` set (db_transitions (wd_db ?w))" using fresh by (simp add: ids_fresh_def)
      then show ?thesis
        using t Some by (auto simp: calm_dbc [OF assms(1)] TransitionJobState_def calm_exec [OF assms(1)] log_transition_def
            insert_unique_def set_job_state_rows)
    qed
    ultimately show ?thesis
      using Some by (simp add: handleTerminateJob_def q states, simp add: acall_def t [simplified])
  qed
qed

end
