(* ===== verification/DbProcesses.thy ===== *)
theory DbProcesses
  imports Scheduler Worker JobApi
begin

text \<open>
  The database-backed system as a whole: the activations of its processes (a pass of a
  scheduler, a poll of a worker, a request to an API server), each with its own oracle, one after
  the other on the shared database; inside an activation the oracle interleaves the others. The
  server's maps of pools and policies never reach the database, so a request starts with empty ones.
\<close>

datatype process = SchedulerPass sched_env "pool_manager option" | WorkerPoll worker_env pool_manager iso_manager
  | ApiRequest api_env string "string list" api_bodies "pool_manager option" "iso_manager option"

fun process_run :: "db \<Rightarrow> process \<Rightarrow> db" where
  "process_run d (SchedulerPass e m) =
     wd_db (sc_world (reconcile_pass e \<lparr>sc_world = \<lparr>wd_db = d, wd_calls = 0\<rparr>, sc_pool = m\<rparr>))"
| "process_run d (WorkerPoll e m i) =
     wd_db (wk_world (snd (worker_poll e
       \<lparr>wk_world = \<lparr>wd_db = d, wd_calls = 0\<rparr>, wk_pool = m, wk_iso = i, wk_effects = []\<rparr>)))"
| "process_run d (ApiRequest e meth path b m i) =
     wd_db (ap_world (snd (serve_api e meth path b
       \<lparr>ap_world = \<lparr>wd_db = d, wd_calls = 0\<rparr>, ap_pools = [], ap_policies = [], ap_pool = m, ap_iso = i\<rparr>)))"

fun process_oracle :: "process \<Rightarrow> db_oracle" where
  "process_oracle (SchedulerPass e m) = se_db e"
| "process_oracle (WorkerPoll e m i) = we_db e"
| "process_oracle (ApiRequest e meth path b m i) = ae_db e"

lemma process_steps:
  assumes "others_step (process_oracle p)"
  shows "db_step\<^sup>*\<^sup>* d (process_run d p)"
proof (cases p)
  case (SchedulerPass e m)
  with assms show ?thesis
    using reconcile_steps [of e "\<lparr>sc_world = \<lparr>wd_db = d, wd_calls = 0\<rparr>, sc_pool = m\<rparr>"] by (simp add: world_steps_def)
next
  case (WorkerPoll e m i)
  with assms show ?thesis
    using worker_poll_steps [of e "\<lparr>wk_world = \<lparr>wd_db = d, wd_calls = 0\<rparr>, wk_pool = m, wk_iso = i, wk_effects = []\<rparr>"]
    by (simp add: world_steps_def)
next
  case (ApiRequest e meth path b m i)
  with assms show ?thesis
    using serve_steps [of e "\<lparr>ap_world = \<lparr>wd_db = d, wd_calls = 0\<rparr>, ap_pools = [], ap_policies = [], ap_pool = m, ap_iso = i\<rparr>"]
    by (simp add: world_steps_def)
qed

lemma processes_reachable:
  assumes "db_reachable d" and "list_all (\<lambda>p. others_step (process_oracle p)) ps"
  shows "db_reachable (foldl process_run d ps)"
  using assms
proof (induction ps arbitrary: d)
  case (Cons p ps)
  have "db_reachable (process_run d p)"
    using Cons.prems process_steps [of p d] unfolding db_reachable_def by (auto intro: rtranclp_trans)
  with Cons show ?case by simp
qed simp

text \<open>Nobody else: the oracle of a process that runs alone.\<close>

definition sole_oracle :: "(nat \<Rightarrow> db_call) \<Rightarrow> db_oracle" where
  "sole_oracle calls = \<lparr>or_call = calls, or_between = (\<lambda>n d. d)\<rparr>"

lemma sole_others [simp]: "others_step (sole_oracle calls)"
  by (simp add: others_step_def sole_oracle_def)

lemma sole_alone [simp]: "alone (sole_oracle calls)"
  by (simp add: alone_def sole_oracle_def)

lemma empty_reachable [simp]: "db_reachable empty_db"
  by (simp add: db_reachable_def)

end
