(* ===== verification/DbProperties.thy ===== *)
theory DbProperties
  imports DbProcesses
begin

text \<open>
  Properties of the database-backed system: what every history keeps, what a scheduler pass, a
  worker and the API do, the warm pool, isolation levels, and the defects the model shows.
\<close>

subsection \<open>Concrete inputs\<close>

definition ex_call :: "nat \<Rightarrow> db_call" where
  "ex_call n = \<lparr>dc_fault = DbFine, dc_now = int n, dc_id = replicate n CHR ''x'', dc_locked = []\<rparr>"

definition ex_spec :: JobSpec where
  "ex_spec = \<lparr>sp_name = ''n'', sp_image = ''i'', sp_prompt = ''p'', sp_timeout = ''5m'', sp_cpu = ''1'', sp_memory = ''512m'',
     sp_artifacts = [], sp_env = [], sp_max_retries = 1, sp_isolation = model_L1GVisor, sp_step_enabled = True,
     sp_step_protocol = ''env'', sp_pool_ref = ''default''\<rparr>"

definition ex_job :: "job_state \<Rightarrow> job_row" where
  "ex_job s = \<lparr>jr_id = ''j'', jr_spec = ex_spec, jr_state = s, jr_created = 0, jr_updated = 0\<rparr>"

definition ex_attempt :: "attempt_state \<Rightarrow> attempt_row" where
  "ex_attempt s = \<lparr>ar_id = ''a'', ar_job = ''j'', ar_number = 1, ar_worker = [], ar_state = s, ar_started = 0,
     ar_finished = None, ar_heartbeat = 0, ar_checkpoint = None, ar_pool = None, ar_last_step = None, ar_step_count = 0\<rparr>"

definition ex_db :: "job_state \<Rightarrow> attempt_row list \<Rightarrow> db" where
  "ex_db s as = empty_db\<lparr>db_jobs := [ex_job s], db_attempts := as\<rparr>"

lemma ex_calm: "calm (sole_oracle ex_call)"
  by (auto simp: calm_def sole_oracle_def alone_def ex_call_def inj_def)

lemma ex_fresh: "(\<And>a. a \<in> set as \<Longrightarrow> ar_id a = ''a'') \<Longrightarrow> ids_fresh (sole_oracle ex_call) \<lparr>wd_db = ex_db s as, wd_calls = n\<rparr>"
proof -
  assume a: "\<And>a. a \<in> set as \<Longrightarrow> ar_id a = ''a''"
  have "replicate k CHR ''x'' \<noteq> ''a''" for k by (cases k) auto
  with a show ?thesis by (fastforce simp: ids_fresh_def sole_oracle_def ex_call_def ex_db_def empty_db_def)
qed

definition ex_sched :: sched_env where
  "ex_sched = \<lparr>se_db = sole_oracle ex_call, se_uuid = (\<lambda>n. replicate n CHR ''u''), se_clock = int, se_latency = 0, se_timeout = 30\<rparr>"

definition ex_api :: api_env where
  "ex_api = \<lparr>ae_db = sole_oracle ex_call, ae_uuid = (\<lambda>p n. replicate n CHR ''u''), ae_clock = 0, ae_manifest = (\<lambda>s. None)\<rparr>"

definition ex_docker :: docker_answers where
  "ex_docker = \<lparr>da_inspect = True, da_pull = None, da_create = Inr ''c'', da_start = None, da_wait = Inr 0, da_logs = Inr []\<rparr>"

definition ex_start :: "bool \<Rightarrow> start_env" where
  "ex_start cancelled = \<lparr>sv_cancelled = cancelled, sv_elapsed = 5000000, sv_client = None, sv_docker = ex_docker,
     sv_float = (\<lambda>s. None), sv_platform = (\<lambda>x. 0)\<rparr>"

definition ex_worker :: "bool \<Rightarrow> worker_env" where
  "ex_worker cancelled = \<lparr>we_db = sole_oracle ex_call, we_id = ''w'', we_uuid = (\<lambda>n. replicate n CHR ''u''), we_clock = int,
     we_latency = 0, we_mkdir = None, we_prompt = None, we_completed = (\<lambda>s. 0), we_runner = None, we_hook = None,
     we_environment = Inr [], we_duration = (\<lambda>s. None), we_start = ex_start cancelled, we_ticks = [], we_wait = None,
     we_result = Some (0, []), we_output = None, we_final = Inl [], we_checkpoint = None, we_artifacts = []\<rparr>"

definition ex_config :: pool_config where
  "ex_config = \<lparr>cf_name = ''p'', cf_min = 1, cf_max = 3, cf_up = 0, cf_down = 2, cf_step = 1, cf_cooldown = 0,
     cf_image = [], cf_runtime = []\<rparr>"

definition ex_pool :: pool_manager where
  "ex_pool = NewPoolManager (\<lambda>n. replicate n CHR ''u'') 0 ex_config"

definition ex_iso :: iso_manager where
  "ex_iso = NewIsolationManager allLevels"

definition ex_bodies :: api_bodies where
  "ex_bodies = \<lparr>ab_job = Inr ex_spec, ab_pool = Inl [], ab_policy = Inl []\<rparr>"

text \<open>A job is submitted, scheduled, and its attempt is executed by a worker whose sandbox does not start.\<close>

definition ex_history :: "process list" where
  "ex_history =
     [ApiRequest ex_api ''POST'' [''api'', ''v1'', ''jobs''] ex_bodies None None,
      SchedulerPass ex_sched None,
      WorkerPoll (ex_worker True) ex_pool ex_iso]"

lemma ex_history_others: "list_all (\<lambda>p. others_step (process_oracle p)) ex_history"
  by (simp add: ex_history_def ex_api_def ex_sched_def ex_worker_def)

lemma ex_history_log:
  "attempt_log (foldl process_run empty_db ex_history) ''xx'' = [(AttemptNew, AttemptExecuting), (AttemptExecuting, AttemptFailed)]"
  by code_simp

subsection \<open>What every history keeps\<close>

text \<open>C15: Well-typed data. Whatever sequence of scheduler passes, worker polls and API requests runs on a
  reachable database, with whatever faults and whatever other processes between their calls: ids of jobs,
  attempts and log entries stay distinct, and every attempt, checkpoint, artifact, log, step and transition
  refers to an existing job or attempt.\<close>

theorem system_keeps_types:
  assumes "db_reachable d" and "list_all (\<lambda>p. others_step (process_oracle p)) ps"
  shows "db_typed (foldl process_run d ps)"
  by (rule reachable_typed [OF processes_reachable [OF assms]])

theorem system_keeps_types_witness:
  "db_typed (foldl process_run empty_db ex_history)"
  by (rule system_keeps_types [OF empty_reachable ex_history_others])

text \<open>C12: The audit log tells the truth. After any such history, replaying a job's entries of the transition
  log from Pending follows the transition table of model.go at every entry and ends in the state stored
  for the job; the same for attempts from New, and rows that do not exist have no entries.\<close>

theorem audit_log_replays:
  assumes "db_reachable d" and "list_all (\<lambda>p. others_step (process_oracle p)) ps" and "d' = foldl process_run d ps"
  shows "(\<forall>r\<in>set (db_jobs d'). follows JobCanTransitionTo JobPending (job_log d' (jr_id r)) = Some (jr_state r)) \<and>
    (\<forall>r\<in>set (db_attempts d'). follows AttemptCanTransitionTo AttemptNew (attempt_log d' (ar_id r)) = Some (ar_state r)) \<and>
    (\<forall>j. \<not> has_job d' j \<longrightarrow> job_log d' j = []) \<and> (\<forall>a. \<not> has_attempt d' a \<longrightarrow> attempt_log d' a = [])"
  unfolding assms(3) by (rule reachable_audited [OF processes_reachable [OF assms(1,2)], unfolded audited_def])

theorem audit_log_replays_witness:
  "map (\<lambda>r. follows AttemptCanTransitionTo AttemptNew (attempt_log (foldl process_run empty_db ex_history) (ar_id r)))
     (db_attempts (foldl process_run empty_db ex_history)) = [Some AttemptFailed]"
proof -
  have "map (\<lambda>r. Some (ar_state r)) (db_attempts (foldl process_run empty_db ex_history)) = [Some AttemptFailed]"
    by code_simp
  moreover have "map (\<lambda>r. follows AttemptCanTransitionTo AttemptNew (attempt_log (foldl process_run empty_db ex_history) (ar_id r)))
      (db_attempts (foldl process_run empty_db ex_history)) =
    map (\<lambda>r. Some (ar_state r)) (db_attempts (foldl process_run empty_db ex_history))"
    using audit_log_replays [OF empty_reachable ex_history_others refl] by simp
  ultimately show ?thesis by simp
qed

text \<open>C14: An attempt runs once. After any such history, once an attempt is logged as executing it is logged so
  exactly once, and a worker that claims it again (a claim does not change its state) does nothing: it reports
  an error and touches neither the workspace, the pool nor the sandboxes.\<close>

theorem attempt_runs_once:
  assumes "db_reachable d" and "list_all (\<lambda>p. others_step (process_oracle p)) ps" and "d' = foldl process_run d ps"
    and "(AttemptNew, AttemptExecuting) \<in> set (attempt_log d' (ar_id a))"
    and "others_step (we_db e)" and "wd_db (wk_world s) = d'" and "execute e a s = (r, s')"
  shows "length (filter (\<lambda>(x, y). y = AttemptExecuting) (attempt_log d' (ar_id a))) = 1 \<and>
    r \<noteq> None \<and> wk_effects s' = wk_effects s \<and> wk_pool s' = wk_pool s \<and> wk_iso s' = wk_iso s"
proof -
  have d': "db_reachable d'" unfolding assms(3) by (rule processes_reachable [OF assms(1,2)])
  note audit = reachable_audited [OF d'] and typed = reachable_typed [OF d']
  have started: "attempt_started d' (ar_id a)"
    using assms(4) by (intro logged_started [OF audit typed]) auto
  obtain x where x: "find_attempt d' (ar_id a) = Some x" using started by (auto simp: attempt_started_def)
  then have "x \<in> set (db_attempts d')" "ar_id x = ar_id a" by (auto simp: find_attempt_def dest!: find_rowD)
  then have "follows AttemptCanTransitionTo AttemptNew (attempt_log d' (ar_id a)) = Some (ar_state x)"
    using audit by (auto simp: audited_def)
  from follows_executing_once [OF this]
  have "length (filter (\<lambda>(x, y). y = AttemptExecuting) (attempt_log d' (ar_id a))) \<le> 1" by simp
  moreover have "filter (\<lambda>(x, y). y = AttemptExecuting) (attempt_log d' (ar_id a)) \<noteq> []"
    using assms(4) by (auto simp: filter_empty_conv)
  ultimately have "length (filter (\<lambda>(x, y). y = AttemptExecuting) (attempt_log d' (ar_id a))) = 1"
    by (simp add: le_Suc_eq)
  with execute_started [OF assms(5) _ assms(7)] started assms(6) show ?thesis by simp
qed

theorem attempt_runs_once_witness:
  "fst (execute (ex_worker False) ((ex_attempt AttemptNew)\<lparr>ar_id := ''xx''\<rparr>)
     \<lparr>wk_world = \<lparr>wd_db = foldl process_run empty_db ex_history, wd_calls = 0\<rparr>, wk_pool = ex_pool, wk_iso = ex_iso,
      wk_effects = []\<rparr>) \<noteq> None"
proof -
  have "others_step (we_db (ex_worker False))" by (simp add: ex_worker_def)
  from attempt_runs_once [OF empty_reachable ex_history_others refl _ this _ surjective_pairing] ex_history_log
  show ?thesis by simp
qed

subsection \<open>Scheduling\<close>

text \<open>C16: The retry budget of the scheduler. When no other process runs in between, the two retry handlers of a
  pass, with any failing calls and lost answers, never give a job more attempts than it already has or its
  retry limit plus one, computed on 64 bits, allows.\<close>

theorem retries_within_budget:
  assumes "alone oc" and "distinct (map jr_id (db_jobs (wd_db w)))"
    and "d' = wd_db (handleFailedAttempts oc (handleStaleAttempts oc threshold w))" and "r \<in> set (db_jobs (wd_db w))"
  shows "length (attempts_of d' (jr_id r)) \<le>
    max (length (attempts_of (wd_db w) (jr_id r))) (nat (i64 (sp_max_retries (jr_spec r) + 1)))"
  using handlers_within [OF assms(1,2), of threshold] in_job_specs [OF assms(4)]
  unfolding assms(3) within_budget_def budget_def by fastforce

theorem retries_within_budget_witness:
  "length (attempts_of (wd_db (handleFailedAttempts (sole_oracle ex_call) (handleStaleAttempts (sole_oracle ex_call) 30
     \<lparr>wd_db = ex_db JobRunning [ex_attempt AttemptFailed], wd_calls = 0\<rparr>))) ''j'') \<le> 2"
proof -
  have "i64 2 = 2" by (simp add: in_i64_def)
  with retries_within_budget [OF sole_alone [of ex_call], of "\<lparr>wd_db = ex_db JobRunning [ex_attempt AttemptFailed], wd_calls = 0\<rparr>" _ 30 "ex_job JobRunning"]
  show ?thesis by (simp add: ex_db_def ex_job_def ex_spec_def ex_attempt_def empty_db_def attempts_of_def)
qed

text \<open>C17: A pass schedules every pending job, once. Undisturbed and without faults it moves exactly the pending
  jobs to Scheduled, leaves every other job and every existing attempt as they are, and adds one New attempt
  for each of them, newest job first, whether or not a warm Pod could be claimed.\<close>

theorem pending_jobs_scheduled:
  assumes "calm (se_db e)" and "ids_fresh (se_db e) (sc_world s)" and "d = wd_db (sc_world s)"
    and "distinct (map jr_id (db_jobs d))" and "d' = wd_db (sc_world (schedulePendingJobs e s))"
  shows "job_states d' = map (\<lambda>(i, t). (i, if t = JobPending then JobScheduled else t)) (job_states d) \<and>
    (\<exists>new. db_attempts d' = db_attempts d @ new \<and> list_all (\<lambda>a. ar_state a = AttemptNew) new \<and>
       map ar_job new = map jr_id (filter is_pending (sort_key (\<lambda>r. - jr_created r) (db_jobs d))))"
  using schedule_pass [OF assms(1,2)] assms(4) unfolding assms(3,5) by blast

theorem pending_jobs_scheduled_witness:
  "job_states (wd_db (sc_world (schedulePendingJobs ex_sched
     \<lparr>sc_world = \<lparr>wd_db = ex_db JobPending [], wd_calls = 0\<rparr>, sc_pool = None\<rparr>))) = [(''j'', JobScheduled)]"
proof -
  have "calm (se_db ex_sched)" "ids_fresh (se_db ex_sched) \<lparr>wd_db = ex_db JobPending [], wd_calls = 0\<rparr>"
    unfolding ex_sched_def by (simp_all add: ex_calm, rule ex_fresh) simp
  from pending_jobs_scheduled [OF this(1) _ refl _ refl,
      of "\<lparr>sc_world = \<lparr>wd_db = ex_db JobPending [], wd_calls = 0\<rparr>, sc_pool = None\<rparr>"] this(2)
  show ?thesis by (simp add: ex_db_def ex_job_def empty_db_def job_states_def)
qed

text \<open>C22: A scheduled attempt leaks when the job's transition fails. The attempt is inserted before the job moves,
  by separate statements. If every transition fails, each pass leaves the only job pending and adds one more New
  attempt for the workers to claim: after n passes there are n, whatever the retry limit.\<close>

theorem failed_transition_leaks_attempts:
  assumes "fourth_fails (se_db e)" and "jr_state r = JobPending" and "leaking e r 0 s"
    and "d' = wd_db (sc_world ((schedulePendingJobs e ^^ n) s))"
  shows "db_jobs d' = [r] \<and> length (db_attempts d') = n \<and>
    list_all (\<lambda>a. ar_state a = AttemptNew \<and> ar_job a = jr_id r) (db_attempts d')"
  using leaking_passes [OF assms(1-3), of n] unfolding assms(4) leaking_def by auto

definition ex_fourth :: sched_env where
  "ex_fourth = ex_sched\<lparr>se_db := sole_oracle (\<lambda>n. (ex_call n)\<lparr>dc_fault := (if n mod 4 = 3 then DbDown else DbFine)\<rparr>)\<rparr>"

theorem failed_transition_leaks_attempts_witness:
  "length (db_attempts (wd_db (sc_world ((schedulePendingJobs ex_fourth ^^ 7)
     \<lparr>sc_world = \<lparr>wd_db = ex_db JobPending [], wd_calls = 0\<rparr>, sc_pool = None\<rparr>)))) = 7"
proof -
  have "fourth_fails (se_db ex_fourth)"
    by (auto simp: fourth_fails_def ex_fourth_def sole_oracle_def alone_def ex_call_def inj_def)
  moreover have "leaking ex_fourth (ex_job JobPending) 0 \<lparr>sc_world = \<lparr>wd_db = ex_db JobPending [], wd_calls = 0\<rparr>, sc_pool = None\<rparr>"
    by (simp add: leaking_def ids_fresh_def ex_db_def empty_db_def)
  ultimately show ?thesis
    using failed_transition_leaks_attempts [of ex_fourth "ex_job JobPending" _ _ 7] by (simp add: ex_job_def)
qed

subsection \<open>Workers\<close>

text \<open>C18: A worker's run, state by state. Undisturbed, when files, runner and sandbox answer, executing a New
  attempt moves the attempt to Completed on exit code zero (a missing or unreadable result counts as zero) and
  to Failed otherwise. The job goes from Scheduled to Running, and from Running to Completed on exit code zero;
  a job in any other state, such as Terminated, does not stop the run and stays as it is. Nothing else changes.\<close>

theorem worker_run_states:
  assumes "calm (we_db e)" and "ids_fresh (we_db e) (wk_world s)" and "d = wd_db (wk_world s)"
    and "find_job d (ar_job a) = Some job" and "map_of (attempt_states d) (ar_id a) = Some AttemptNew"
    and "healthy e job (wk_iso s)" and "execute e a s = (r, s')" and "d' = wd_db (wk_world s')"
  shows "r = None \<and>
    attempt_states d' = set_states (ar_id a) (if exit_code e = 0 then AttemptCompleted else AttemptFailed)
      (set_states (ar_id a) AttemptExecuting (attempt_states d)) \<and>
    job_states d' = (if exit_code e = 0 then move_state (ar_job a) JobRunning JobCompleted else id)
      (move_state (ar_job a) JobScheduled JobRunning (job_states d))"
proof -
  have "leaves e (job_states d) (attempt_states d) s" using assms(2,3) by (simp add: leaves_def)
  from execute_states [OF assms(1) this _ assms(5,6)] assms(3,4,7)
  have "r = None" "leaves e (job_after e (ar_job a) (move_state (ar_job a) JobScheduled JobRunning (job_states d)))
      (attempt_after e (ar_id a) (set_states (ar_id a) AttemptExecuting (attempt_states d))) s'" by simp_all
  moreover have "map_of (set_states i AttemptExecuting xs) i = Some AttemptExecuting" if "map_of xs i \<noteq> None" for i xs
    using that by (induction xs) (auto simp: set_states_def split: if_splits)
  ultimately show ?thesis
    using assms(5) unfolding assms(8) by (simp add: leaves_def job_after_def attempt_after_def move_state_def [of _ AttemptExecuting])
qed

theorem worker_run_states_witness:
  "job_states (wd_db (wk_world (snd (execute (ex_worker False) (ex_attempt AttemptNew)
     \<lparr>wk_world = \<lparr>wd_db = ex_db JobScheduled [ex_attempt AttemptNew], wd_calls = 0\<rparr>, wk_pool = ex_pool, wk_iso = ex_iso,
      wk_effects = []\<rparr>)))) = [(''j'', JobCompleted)]"
proof -
  let ?s = "\<lparr>wk_world = \<lparr>wd_db = ex_db JobScheduled [ex_attempt AttemptNew], wd_calls = 0\<rparr>, wk_pool = ex_pool, wk_iso = ex_iso,
      wk_effects = []\<rparr>"
  have "calm (we_db (ex_worker False))" by (simp add: ex_worker_def ex_calm)
  moreover have "ids_fresh (we_db (ex_worker False)) (wk_world ?s)"
    unfolding ex_worker_def by (simp, rule ex_fresh) (simp add: ex_attempt_def)
  moreover have "find_job (wd_db (wk_world ?s)) (ar_job (ex_attempt AttemptNew)) = Some (ex_job JobScheduled)"
    by (simp add: find_job_def ex_db_def ex_job_def ex_attempt_def)
  moreover have "map_of (attempt_states (wd_db (wk_world ?s))) (ar_id (ex_attempt AttemptNew)) = Some AttemptNew"
    by (simp add: attempt_states_def ex_db_def ex_attempt_def)
  moreover have "healthy (ex_worker False) (ex_job JobScheduled) (wk_iso ?s)"
    by (simp add: healthy_def ex_worker_def sandbox_starts_def ex_job_def ex_spec_def mapIsolationLevel_def model_level_defs
        iso_level_defs ResolveLevel_def requested_level_def policy_permits_def IsAvailable_def ex_iso_def
        NewIsolationManager_def allLevels_def StartSandbox_def ex_start_def)
  ultimately have "job_states (wd_db (wk_world (snd (execute (ex_worker False) (ex_attempt AttemptNew) ?s)))) =
      move_state ''j'' JobRunning JobCompleted (move_state ''j'' JobScheduled JobRunning (job_states (wd_db (wk_world ?s))))"
    using worker_run_states [OF _ _ refl _ _ _ surjective_pairing refl, of "ex_worker False" ?s "ex_attempt AttemptNew" "ex_job JobScheduled"]
    by (simp add: ex_attempt_def exit_code_def, simp add: ex_worker_def)
  then show ?thesis by (simp add: job_states_def ex_db_def ex_job_def move_state_def set_states_def)
qed

text \<open>C23: A worker that lost its attempt still completes the job. When the scheduler has timed the attempt out
  and the job runs again in another attempt, the old worker's exit code zero moves the job from Running to
  Completed, although the transition of its own attempt is refused and no attempt is recorded as Completed.\<close>

theorem stale_worker_completes_job:
  assumes "calm (we_db e)" and "ids_fresh (we_db e) (wk_world s)" and "d = wd_db (wk_world s)"
    and "map_of (attempt_states d) a = Some AttemptTimedOut" and "map_of (job_states d) j = Some JobRunning"
    and "we_wait e = None" and "exit_code e = 0" and "d' = wd_db (wk_world (snd (finalize e a j s)))"
  shows "job_states d' = set_states j JobCompleted (job_states d) \<and> attempt_states d' = attempt_states d"
proof -
  have "leaves e (job_states d) (attempt_states d) s" using assms(2,3) by (simp add: leaves_def)
  from finalize_states [OF assms(1) this assms(6), of a j] assms(4,5,7) show ?thesis
    unfolding assms(8) by (simp add: leaves_def job_after_def attempt_after_def move_state_def)
qed

theorem stale_worker_completes_job_witness:
  "job_states (wd_db (wk_world (snd (finalize (ex_worker False) ''a'' ''j''
     \<lparr>wk_world = \<lparr>wd_db = ex_db JobRunning [ex_attempt AttemptTimedOut], wd_calls = 0\<rparr>, wk_pool = ex_pool, wk_iso = ex_iso,
      wk_effects = []\<rparr>)))) = [(''j'', JobCompleted)]"
proof -
  let ?s = "\<lparr>wk_world = \<lparr>wd_db = ex_db JobRunning [ex_attempt AttemptTimedOut], wd_calls = 0\<rparr>, wk_pool = ex_pool, wk_iso = ex_iso,
      wk_effects = []\<rparr>"
  have "calm (we_db (ex_worker False))" by (simp add: ex_worker_def ex_calm)
  moreover have "ids_fresh (we_db (ex_worker False)) (wk_world ?s)"
    unfolding ex_worker_def by (simp, rule ex_fresh) (simp add: ex_attempt_def)
  moreover have "map_of (attempt_states (wd_db (wk_world ?s))) ''a'' = Some AttemptTimedOut"
    "map_of (job_states (wd_db (wk_world ?s))) ''j'' = Some JobRunning"
    by (simp_all add: attempt_states_def job_states_def ex_db_def ex_attempt_def ex_job_def)
  moreover have "we_wait (ex_worker False) = None" "exit_code (ex_worker False) = 0"
    by (simp_all add: ex_worker_def exit_code_def)
  ultimately have "job_states (wd_db (wk_world (snd (finalize (ex_worker False) ''a'' ''j'' ?s)))) =
      set_states ''j'' JobCompleted (job_states (wd_db (wk_world ?s)))"
    using stale_worker_completes_job [OF _ _ refl _ _ _ _ refl] by blast
  then show ?thesis by (simp add: job_states_def ex_db_def ex_job_def set_states_def)
qed

subsection \<open>The warm pool\<close>

lemma pool_counts: "pool_inv uuid m \<Longrightarrow> count_pods PodIdle m + count_pods PodClaimed m = length (mg_pods m)"
proof -
  assume "pool_inv uuid m"
  then have "list_all pod_fine (mg_pods m)" by (simp add: pool_inv_def)
  then have "length (filter (\<lambda>(i, p). wp_state p = PodIdle) xs) + length (filter (\<lambda>(i, p). wp_state p = PodClaimed) xs) = length xs"
    if "list_all pod_fine xs" for xs using that
  proof (induction xs)
    case (Cons x xs)
    then show ?case by (cases "wp_state (snd x)") (auto simp: pod_fine_def split: prod.split)
  qed simp
  with \<open>list_all pod_fine (mg_pods m)\<close> show ?thesis by (simp add: count_pods_def)
qed

text \<open>C19: The size of a warm pool. After any sequence of claims, releases, demand changes and reconciles, the pool
  has at least MinSize Pods and at most the larger of MaxSize and MinSize; the status counts every Pod as either
  idle or claimed.\<close>

theorem warm_pool_size:
  assumes "inj uuid" and "m = foldl (pool_step uuid) (NewPoolManager uuid now cfg) es"
  shows "nat (cf_min cfg) \<le> ps_total (PoolStatus m) \<and> ps_total (PoolStatus m) \<le> max (nat (cf_max cfg)) (nat (cf_min cfg)) \<and>
    ps_total (PoolStatus m) = ps_idle (PoolStatus m) + ps_claimed (PoolStatus m)"
proof -
  have "pool_bounded uuid cfg m"
    unfolding assms(2) by (rule bounded_pool.run_inv) (rule NewPoolManager_bounded [OF assms(1)])
  then show ?thesis by (auto simp: pool_bounded_def pool_sized_def PoolStatus_def pool_counts)
qed

lemma ex_uuid: "inj (\<lambda>n. replicate n CHR ''u'')"
  by (auto simp: inj_def)

theorem warm_pool_size_witness:
  "ps_total (PoolStatus (foldl (pool_step (\<lambda>n. replicate n CHR ''u'')) (NewPoolManager (\<lambda>n. replicate n CHR ''u'') 0 ex_config)
     [DemandOp 9, ReconcileOp 1, ClaimOp ''j'' 2 0, DemandOp 0, ReconcileOp 3])) \<le> 3"
  using warm_pool_size [OF ex_uuid refl, where now = 0 and cfg = ex_config and es = "[DemandOp 9, ReconcileOp 1, ClaimOp ''j'' 2 0, DemandOp 0, ReconcileOp 3]"]
  by (simp add: ex_config_def)




subsection \<open>Isolation\<close>

text \<open>C21: What resolving an isolation level promises, and what it does not. Without a forced level: the answer is an
  available level; the level asked for must be permitted by the policy, or the answer is ErrLevelNotAllowed; an
  available one is returned as it is; and unavailable means that no level of the fallback order is available
  either. But a fallback is not checked against the policy: when the permitted level is unavailable and some level
  k is the only available one, k is the answer, be it L0 without isolation under a policy that allows only L2.\<close>

theorem resolve_level_contract:
  assumes "Option.bind policy ip_force = None" and "l = requested_level requested policy"
  shows "(ResolveLevel m requested policy = Inl ErrLevelNotAllowed \<longleftrightarrow> \<not> policy_permits policy l) \<and>
    (ResolveLevel m requested policy = Inl ErrIsolationUnavailable \<longleftrightarrow>
       policy_permits policy l \<and> (\<forall>k\<in>set (l # fallbackOrder). \<not> IsAvailable m k)) \<and>
    (\<forall>k. ResolveLevel m requested policy = Inr k \<longrightarrow> IsAvailable m k \<and> policy_permits policy l \<and> (IsAvailable m l \<longrightarrow> k = l)) \<and>
    (\<forall>k. policy_permits policy l \<and> k \<noteq> l \<and> k \<in> set fallbackOrder \<and> (\<forall>x. IsAvailable m x \<longleftrightarrow> x = k) \<longrightarrow>
       ResolveLevel m requested policy = Inr k)"
proof -
  let ?f = "find (\<lambda>k. k \<noteq> l \<and> IsAvailable m k) fallbackOrder"
  note r = resolve_unforced [OF assms(1), of m requested, folded assms(2)]
  have none: "?f = None \<longleftrightarrow> (\<forall>k\<in>set fallbackOrder. k = l \<or> \<not> IsAvailable m k)" by (auto simp: find_None_iff)
  have some: "k \<noteq> l \<and> IsAvailable m k \<and> k \<in> set fallbackOrder" if "?f = Some k" for k using find_SomeD [OF that] by blast
  have "ResolveLevel m requested policy = Inr k"
    if "policy_permits policy l" "k \<noteq> l" "k \<in> set fallbackOrder" "\<forall>x. IsAvailable m x \<longleftrightarrow> x = k" for k
  proof (cases ?f)
    case None
    with none that show ?thesis by auto
  next
    case (Some k')
    with some that have "k' = k" by blast
    with Some r that show ?thesis by simp
  qed
  moreover have "(ResolveLevel m requested policy = Inl ErrLevelNotAllowed \<longleftrightarrow> \<not> policy_permits policy l)"
    using r by (auto split: option.splits)
  moreover have "ResolveLevel m requested policy = Inl ErrIsolationUnavailable \<longleftrightarrow>
      policy_permits policy l \<and> (\<forall>k\<in>set (l # fallbackOrder). \<not> IsAvailable m k)"
    using r none by (cases ?f) (auto dest: some)
  moreover have "IsAvailable m k \<and> policy_permits policy l \<and> (IsAvailable m l \<longrightarrow> k = l)"
    if "ResolveLevel m requested policy = Inr k" for k
    using r that by (auto split: if_splits option.splits dest: some)
  ultimately show ?thesis by blast
qed

theorem resolve_level_contract_witness:
  "ResolveLevel (NewIsolationManager [iso_L0Process]) iso_L2Firecracker
     (Some \<lparr>ip_allowed = [iso_L2Firecracker], ip_default = [], ip_force = None\<rparr>) = Inr iso_L0Process"
proof -
  let ?p = "Some \<lparr>ip_allowed = [iso_L2Firecracker], ip_default = [], ip_force = None\<rparr>"
  have l: "iso_L2Firecracker = requested_level iso_L2Firecracker ?p" by (simp add: requested_level_def iso_level_defs)
  have "Option.bind ?p ip_force = None" by simp
  note contract = resolve_level_contract [OF this l, THEN conjunct2, THEN conjunct2, THEN conjunct2, rule_format]
  show ?thesis
    by (rule contract)
      (simp add: policy_permits_def fallbackOrder_def iso_level_defs IsAvailable_def NewIsolationManager_def)
qed

subsection \<open>The API\<close>

text \<open>The two names of a level. The v2 endpoint checks the level against L0 to L3, the specification's levels
  are called L0Process to L3Docker: with an isolation manager every level of the model, and the default, is
  refused with 400 and nothing is stored. What it does accept the worker does not know: it runs on L1, whatever
  was asked for.\<close>

theorem v2_levels_disagree:
  assumes "ap_iso s \<noteq> None" and "sp_name spec \<noteq> []" and "sp_image spec \<noteq> []" and "sp_prompt spec \<noteq> []"
  shows "(sp_isolation spec \<in> {[], model_L0Process, model_L1GVisor, model_L2Firecracker, model_L3Docker} \<longrightarrow>
       fst (fst (handleCreateJobV2 e (Inr spec) s)) = 400 \<and> snd (handleCreateJobV2 e (Inr spec) s) = s) \<and>
    (fst (fst (handleCreateJobV2 e (Inr spec) s)) = 201 \<longrightarrow> mapIsolationLevel (sp_isolation spec) = iso_L1GVisor)"
proof (intro conjI impI)
  have v: "ValidateJobSpec spec = Inr (fill_defaults spec)" using assms(2-4) by (simp add: ValidateJobSpec_def)
  have l: "sp_isolation (fill_defaults spec) = default_to model_L1GVisor (sp_isolation spec)" by (simp add: fill_defaults_def)
  assume "sp_isolation spec \<in> {[], model_L0Process, model_L1GVisor, model_L2Firecracker, model_L3Docker}"
  from model_levels_rejected [OF this] v l assms(1)
  show "fst (fst (handleCreateJobV2 e (Inr spec) s)) = 400" "snd (handleCreateJobV2 e (Inr spec) s) = s"
    by (simp_all add: handleCreateJobV2_def)
next
  have v: "ValidateJobSpec spec = Inr (fill_defaults spec)" using assms(2-4) by (simp add: ValidateJobSpec_def)
  have l: "sp_isolation (fill_defaults spec) = default_to model_L1GVisor (sp_isolation spec)" by (simp add: fill_defaults_def)
  assume "fst (fst (handleCreateJobV2 e (Inr spec) s)) = 201"
  then have "ValidateLevel (default_to model_L1GVisor (sp_isolation spec))"
    using assms(1) by (cases "ValidateLevel (default_to model_L1GVisor (sp_isolation spec))") (simp_all add: handleCreateJobV2_def v l)
  then show "mapIsolationLevel (sp_isolation spec) = iso_L1GVisor"
    by (auto simp: ValidateLevel_def allLevels_def default_to_def mapIsolationLevel_def iso_level_defs model_level_defs
        split: if_splits)
qed

definition ex_server :: "db \<Rightarrow> api_server" where
  "ex_server d = \<lparr>ap_world = \<lparr>wd_db = d, wd_calls = 0\<rparr>, ap_pools = [], ap_policies = [], ap_pool = None, ap_iso = Some ex_iso\<rparr>"

theorem v2_levels_disagree_witness:
  "fst (fst (handleCreateJobV2 ex_api (Inr ex_spec) (ex_server empty_db))) = 400"
  using v2_levels_disagree [of "ex_server empty_db" ex_spec ex_api] by (simp add: ex_server_def ex_spec_def)

text \<open>Terminating a job. Undisturbed, the answer is 404 for an unknown job, 409 with the state for one that is
  over, and else 204; then exactly that job is Terminated, from whatever state it was in.\<close>

theorem terminate_job:
  assumes "calm (ae_db e)" and "ids_fresh (ae_db e) (ap_world s)" and "js = job_states (wd_db (ap_world s))"
    and "handleTerminateJob e i s = (r, s')"
  shows "case map_of js i of
      None \<Rightarrow> r = (404, ErrorBody ''job not found'') \<and> job_states (wd_db (ap_world s')) = js
    | Some t \<Rightarrow>
        if job_over t
        then r = (409, ErrorBody (''job is already in terminal state: '' @ job_state_text t)) \<and> job_states (wd_db (ap_world s')) = js
        else r = (204, NoBody) \<and> job_states (wd_db (ap_world s')) = set_states i JobTerminated js"
  using terminate_calm [OF assms(1,2), of i] assms(4) unfolding assms(3) by (auto split: option.splits if_splits)

theorem terminate_job_witness:
  "job_states (wd_db (ap_world (snd (handleTerminateJob ex_api ''j'' (ex_server (ex_db JobRunning [])))))) = [(''j'', JobTerminated)]"
proof -
  let ?s = "ex_server (ex_db JobRunning [])"
  have "calm (ae_db ex_api)" by (simp add: ex_api_def ex_calm)
  moreover have "ids_fresh (ae_db ex_api) (ap_world ?s)" unfolding ex_api_def ex_server_def by (simp, rule ex_fresh) simp
  moreover have "job_states (wd_db (ap_world ?s)) = [(''j'', JobRunning)]"
    by (simp add: ex_server_def ex_db_def job_states_def ex_job_def)
  ultimately show ?thesis
    using terminate_job [OF _ _ refl surjective_pairing, of ex_api ?s "''j''"] by (simp add: job_over_def set_states_def)
qed

end
