(* ===== verification/Agentctl.thy ===== *)
theory Agentctl
  imports AgentRunner JobController
begin

text \<open>
  The command \<open>agentctl\<close> (\<open>cmd/agentctl/main.go\<close>): its argument parsing and its six
  subcommands, as functions of the arguments and of the API server's world. What a command
  prints is a list of lines; a line of a \<open>tabwriter\<close> table is the list of its cells. Files,
  YAML decoding, the text of an error, RFC 3339 and the text of a duration are fields of
  \<open>agentctl\<close>, and so are the creation timestamps, which the object model does not carry.
\<close>

subsection \<open>Durations as the command shows them\<close>

text \<open>
  Rounding of a rational to \<open>float64\<close>, and the methods \<open>Seconds\<close>, \<open>Minutes\<close> and
  \<open>Hours\<close> of a duration: the whole units plus the rest divided by the unit, both
  operations rounded. Conversion of a \<open>float64\<close> to \<open>int\<close> truncates.
\<close>

definition fl64 :: "rat \<Rightarrow> rat" where
  "fl64 x = (case quotient_of x of (p, q) \<Rightarrow>
     if p < 0 then - fdiv64 (nat (- p)) (nat q) else fdiv64 (nat p) (nat q))"

definition go_quot :: "int \<Rightarrow> int \<Rightarrow> int" where
  "go_quot d u = sgn d * (\<bar>d\<bar> div u)"

definition duration_in :: "duration \<Rightarrow> duration \<Rightarrow> rat" where
  "duration_in u d = (let q = go_quot d u in fl64 (of_int q + fl64 (of_int (d - q * u) / of_int u)))"

definition trunc_int :: "rat \<Rightarrow> int" where
  "trunc_int x = (if x < 0 then - \<lfloor>- x\<rfloor> else \<lfloor>x\<rfloor>)"

definition hour :: duration where "hour = 60 * minute"

definition formatDuration :: "duration \<Rightarrow> string" where
  "formatDuration d =
     (if d < minute then show_int (trunc_int (duration_in second d)) @ ''s''
      else if d < hour then show_int (trunc_int (duration_in minute d)) @ ''m''
      else if d < 24 * hour then show_int (trunc_int (duration_in hour d)) @ ''h''
      else show_int (trunc_int (fl64 (duration_in hour d / 24))) @ ''d'')"

subsection \<open>Arguments\<close>

text \<open>\<open>parseArgs\<close>: the last \<open>-n\<close> that has a value wins; everything else is positional.\<close>

fun parse_args :: "string list \<Rightarrow> string list \<Rightarrow> string \<Rightarrow> string list \<times> string" where
  "parse_args [] pos ns = (pos, ns)"
| "parse_args [a] pos ns = (pos @ [a], ns)"
| "parse_args (a # b # rest) pos ns =
     (if a = ''-n'' then parse_args rest pos b else parse_args (b # rest) (pos @ [a]) ns)"

definition parseArgs :: "string list \<Rightarrow> string list \<times> string" where
  "parseArgs args = parse_args args [] ''default''"

text \<open>The flag set of \<open>submit\<close>: the file and the namespace.\<close>

fun submit_flags :: "string list \<Rightarrow> string \<times> string \<Rightarrow> flag_error + string \<times> string" where
  "submit_flags [] fl = Inr fl"
| "submit_flags (s # rest) fl =
     (if length s < 2 \<or> \<not> HasPrefix s ''-'' then Inr fl
      else if s = ''--'' then Inr fl
      else
        (let body = (if HasPrefix s ''--'' then drop 2 s else drop 1 s);
             (name, val) = (case cut (CHR ''='') body of None \<Rightarrow> (body, None) | Some (n, v) \<Rightarrow> (n, Some v));
             put = (\<lambda>v. if name = ''f'' then (v, snd fl) else (fst fl, v))
         in if body = [] \<or> HasPrefix body ''-'' \<or> HasPrefix body ''='' then Inl FlagBadSyntax
            else if name \<notin> {''f'', ''n''} then Inl (if name = ''help'' \<or> name = ''h'' then FlagHelp else FlagUndefined)
            else case val of
              Some v \<Rightarrow> submit_flags rest (put v)
            | None \<Rightarrow> (case rest of [] \<Rightarrow> Inl FlagNeedsArgument | v # others \<Rightarrow> submit_flags others (put v))))"

subsection \<open>The terminal and the API server\<close>

datatype out_line = Line string | Cells "string list"

record cli_result =
  cr_exit :: nat
  cr_out :: "out_line list"
  cr_err :: "string list"

definition cli_ok :: "out_line list \<Rightarrow> cli_result" where
  "cli_ok out = \<lparr>cr_exit = 0, cr_out = out, cr_err = []\<rparr>"

definition cli_fail :: "string list \<Rightarrow> cli_result" where
  "cli_fail err = \<lparr>cr_exit = 1, cr_out = [], cr_err = err\<rparr>"

record 'w agentctl =
  ac_kube :: "'w kube"
  ac_create_job :: "AgentJob \<Rightarrow> 'w \<Rightarrow> (api_error + AgentJob) \<times> 'w"
  ac_list_jobs :: "string \<Rightarrow> 'w \<Rightarrow> (api_error + AgentJob list) \<times> 'w"
  ac_delete_job :: "string \<Rightarrow> string \<Rightarrow> 'w \<Rightarrow> api_error option \<times> 'w"
  ac_client :: "string option"
  ac_read_file :: "string \<Rightarrow> string + string"
  ac_decode :: "string \<Rightarrow> string + AgentJob"
  ac_error_text :: "api_error \<Rightarrow> string"
  ac_flag_text :: "flag_error \<Rightarrow> string list"
  ac_created :: "object_meta \<Rightarrow> instant"
  ac_clock :: instant
  ac_rfc3339 :: "instant \<Rightarrow> string"
  ac_duration_text :: "duration \<Rightarrow> string"

definition age_text :: "'w agentctl \<Rightarrow> object_meta \<Rightarrow> string" where
  "age_text ac m = formatDuration (time_sub (ac_clock ac) (ac_created ac m))"

definition name_required :: "string \<Rightarrow> cli_result" where
  "name_required usage = cli_fail [''error: job name is required'', ''usage: agentctl '' @ usage]"

subsection \<open>The subcommands\<close>

definition cmdSubmit :: "'w agentctl \<Rightarrow> string list \<Rightarrow> 'w \<Rightarrow> cli_result \<times> 'w" where
  "cmdSubmit ac args w =
     (case submit_flags args ([], ''default'') of
        Inl e \<Rightarrow> (\<lparr>cr_exit = (if e = FlagHelp then 0 else 2), cr_out = [], cr_err = ac_flag_text ac e\<rparr>, w)
      | Inr (path, namespace) \<Rightarrow>
          if path = [] then
            (cli_fail [''error: -f flag is required'', ''usage: agentctl submit -f <file.yaml> [-n namespace]''], w)
          else case ac_read_file ac path of
            Inl e \<Rightarrow> (cli_fail [''error reading file: '' @ e], w)
          | Inr data \<Rightarrow>
              (case ac_decode ac data of
                 Inl e \<Rightarrow> (cli_fail [''error parsing YAML: '' @ e], w)
               | Inr job \<Rightarrow>
                   (let job = (if om_namespace (j_meta job) = []
                               then job\<lparr>j_meta := (j_meta job)\<lparr>om_namespace := namespace\<rparr>\<rparr> else job)
                    in case ac_create_job ac job w of
                         (Inl e, w) \<Rightarrow> (cli_fail [''error creating AgentJob: '' @ ac_error_text ac e], w)
                       | (Inr created, w) \<Rightarrow> (cli_ok [Line (''AgentJob '' @ job_name created @ '' created'')], w))))"

definition job_cells :: "'w agentctl \<Rightarrow> AgentJob \<Rightarrow> out_line" where
  "job_cells ac job =
     Cells [job_name job, JobPhaseFromConditions (job_conditions job),
       show_int (i32 (st_completed (j_status job) + st_failed (j_status job))), age_text ac (j_meta job)]"

definition cmdGet :: "'w agentctl \<Rightarrow> string list \<Rightarrow> 'w \<Rightarrow> cli_result \<times> 'w" where
  "cmdGet ac args w =
     (case ac_list_jobs ac (snd (parseArgs args)) w of
        (Inl e, w) \<Rightarrow> (cli_fail [''error listing AgentJobs: '' @ ac_error_text ac e], w)
      | (Inr jobs, w) \<Rightarrow>
          (cli_ok (if jobs = [] then [Line ''No AgentJobs found'']
                   else Cells [''NAME'', ''PHASE'', ''ATTEMPTS'', ''AGE''] # map (job_cells ac) jobs), w))"

fun join_space :: "string list \<Rightarrow> string" where
  "join_space [] = []"
| "join_space [x] = x"
| "join_space (x # y # ys) = x @ CHR '' '' # join_space (y # ys)"

fun cstatus_text :: "cstatus \<Rightarrow> string" where
  "cstatus_text CTrue = ''True''"
| "cstatus_text CFalse = ''False''"
| "cstatus_text CUnknown = ''Unknown''"

definition condition_line :: "condition \<Rightarrow> out_line" where
  "condition_line c =
     Line (''  '' @ c_type c @ '': '' @ cstatus_text (c_status c) @ '' (reason: '' @ c_reason c @ '')'')"

definition job_lines :: "'w agentctl \<Rightarrow> AgentJob \<Rightarrow> out_line list" where
  "job_lines ac job =
     (let st = j_status job; ex = job_exec job in
      [Line (''Name:         '' @ job_name job),
       Line (''Namespace:    '' @ om_namespace (j_meta job)),
       Line (''Phase:        '' @ JobPhaseFromConditions (job_conditions job)),
       Line (''Age:          '' @ age_text ac (j_meta job))] @
      (case st_start st of None \<Rightarrow> [] | Some t \<Rightarrow> [Line (''Start Time:   '' @ ac_rfc3339 ac t)]) @
      (case st_completion st of None \<Rightarrow> [] | Some t \<Rightarrow> [Line (''Completed:    '' @ ac_rfc3339 ac t)]) @
      [Line [], Line ''Spec:'', Line (''  Image:          '' @ rt_image (js_runtime (j_spec job)))] @
      (if rt_command (js_runtime (j_spec job)) = [] then []
       else [Line (''  Command:        ['' @ join_space (rt_command (js_runtime (j_spec job))) @ '']'')]) @
      (case ex_timeout ex of None \<Rightarrow> [] | Some d \<Rightarrow> [Line (''  Timeout:        '' @ ac_duration_text ac d)]) @
      [Line (''  Max Attempts:   '' @ show_int (ex_max_attempts ex)),
       Line [], Line ''Status:'',
       Line (''  Completed Attempts: '' @ show_int (st_completed st)),
       Line (''  Failed Attempts:    '' @ show_int (st_failed st))] @
      (case st_active st of None \<Rightarrow> []
       | Some ref \<Rightarrow> [Line (''  Active Attempt:     '' @ ar_name ref @ '' (#'' @ show_int (ar_ordinal ref) @ '')'')]) @
      (if st_conditions st = [] then []
       else [Line [], Line ''Conditions:''] @ map condition_line (st_conditions st)))"

definition attempt_cells :: "'w agentctl \<Rightarrow> AgentAttempt \<Rightarrow> out_line" where
  "attempt_cells ac a =
     Cells [''  '' @ attempt_name a, show_int (attempt_ordinal a), AttemptPhaseFromConditions (attempt_conditions a),
       at_pod_name (a_status a), age_text ac (a_meta a)]"

definition attempt_lines :: "'w agentctl \<Rightarrow> AgentAttempt list \<Rightarrow> out_line list" where
  "attempt_lines ac as =
     (if as = [] then []
      else [Line [], Line ''Attempts:'', Cells [''  NAME'', ''ORDINAL'', ''PHASE'', ''POD'', ''AGE'']] @
        map (attempt_cells ac) as)"

definition cmdDescribe :: "'w agentctl \<Rightarrow> string list \<Rightarrow> 'w \<Rightarrow> cli_result \<times> 'w" where
  "cmdDescribe ac args w =
     (case parseArgs args of
        ([], namespace) \<Rightarrow> (name_required ''describe <name> [-n namespace]'', w)
      | (name # _, namespace) \<Rightarrow>
          (case k_get_job (ac_kube ac) namespace name w of
             (Inl e, w) \<Rightarrow> (cli_fail [''error getting AgentJob: '' @ ac_error_text ac e], w)
           | (Inr job, w) \<Rightarrow>
               (case k_list_attempts (ac_kube ac) namespace [] w of
                  (Inl e, w) \<Rightarrow>
                    (\<lparr>cr_exit = 0, cr_out = job_lines ac job,
                      cr_err = [[], ''warning: could not list attempts: '' @ ac_error_text ac e]\<rparr>, w)
                | (Inr attempts, w) \<Rightarrow>
                    (cli_ok (job_lines ac job @
                       attempt_lines ac (filter (\<lambda>a. or_name (as_job_ref (a_spec a)) = name) attempts)), w))))"

definition cmdDelete :: "'w agentctl \<Rightarrow> string list \<Rightarrow> 'w \<Rightarrow> cli_result \<times> 'w" where
  "cmdDelete ac args w =
     (case parseArgs args of
        ([], namespace) \<Rightarrow> (name_required ''delete <name> [-n namespace]'', w)
      | (name # _, namespace) \<Rightarrow>
          (case ac_delete_job ac namespace name w of
             (Some e, w) \<Rightarrow> (cli_fail [''error deleting AgentJob: '' @ ac_error_text ac e], w)
           | (None, w) \<Rightarrow> (cli_ok [Line (''AgentJob '' @ name @ '' deleted'')], w)))"

text \<open>\<open>cancel\<close>: the condition is appended as it is, without the terminal-once rule.\<close>

definition cancel_condition :: "instant \<Rightarrow> condition" where
  "cancel_condition now =
     \<lparr>c_type = JobConditionFailed, c_status = CTrue, c_reason = ''Cancelled'',
      c_message = ''Job cancelled by user'', c_time = now\<rparr>"

definition cancelled :: "instant \<Rightarrow> AgentJob \<Rightarrow> AgentJob" where
  "cancelled now job = with_status job (\<lambda>st. st
     \<lparr>st_conditions := st_conditions st @ [cancel_condition now], st_completion := Some now\<rparr>)"

definition named_pod :: "string \<Rightarrow> string \<Rightarrow> pod" where
  "named_pod ns name =
     \<lparr>p_meta = \<lparr>om_name = name, om_generate_name = [], om_namespace = ns, om_uid = [], om_labels = Map.empty,
        om_annotations = Map.empty, om_owners = [], om_finalizers = [], om_deletion = None\<rparr>,
      p_spec = \<lparr>sp_restart_never = False, sp_init = [], sp_containers = [], sp_volumes = [], sp_security = None,
        sp_automount_token = None, sp_runtime_class = None\<rparr>,
      p_status = \<lparr>pst_phase = PodPhaseUnset, pst_reason = [], pst_conditions = [], pst_containers = []\<rparr>\<rparr>"

definition delete_active_pod ::
  "'w agentctl \<Rightarrow> string \<Rightarrow> AttemptReference option \<Rightarrow> 'w \<Rightarrow> (out_line list \<times> string list) \<times> 'w" where
  "delete_active_pod ac ns active w =
     (case active of
        None \<Rightarrow> (([], []), w)
      | Some ref \<Rightarrow>
          (case k_get_attempt (ac_kube ac) ns (ar_name ref) w of
             (Inl e, w) \<Rightarrow> (([], []), w)
           | (Inr attempt, w) \<Rightarrow>
               (let podName = at_pod_name (a_status attempt)
                in if podName = [] then (([], []), w)
                   else case k_delete_pod (ac_kube ac) (named_pod ns podName) w of
                     (Some e, w) \<Rightarrow> (([], [''warning: could not delete pod '' @ podName @ '': '' @ ac_error_text ac e]), w)
                   | (None, w) \<Rightarrow> (([Line (''Pod '' @ podName @ '' deleted'')], []), w))))"

definition cmdCancel :: "'w agentctl \<Rightarrow> string list \<Rightarrow> 'w \<Rightarrow> cli_result \<times> 'w" where
  "cmdCancel ac args w =
     (case parseArgs args of
        ([], namespace) \<Rightarrow> (name_required ''cancel <name> [-n namespace]'', w)
      | (name # _, namespace) \<Rightarrow>
          (case k_get_job (ac_kube ac) namespace name w of
             (Inl e, w) \<Rightarrow> (cli_fail [''error getting AgentJob: '' @ ac_error_text ac e], w)
           | (Inr job, w) \<Rightarrow>
               (let phase = JobPhaseFromConditions (job_conditions job)
                in if phase = ''Succeeded'' \<or> phase = ''Failed''
                   then (cli_fail [''AgentJob '' @ name @ '' is already in terminal phase: '' @ phase], w)
                   else case k_update_job_status (ac_kube ac) (cancelled (ac_clock ac) job) w of
                     (Inl e, w) \<Rightarrow> (cli_fail [''error updating AgentJob status: '' @ ac_error_text ac e], w)
                   | (Inr job, w) \<Rightarrow>
                       (case delete_active_pod ac namespace (st_active (j_status job)) w of
                          ((out, err), w) \<Rightarrow>
                            (\<lparr>cr_exit = 0, cr_out = out @ [Line (''AgentJob '' @ name @ '' cancelled'')], cr_err = err\<rparr>, w)))))"

subsection \<open>main\<close>

definition agentctl_usage :: "string list" where
  "agentctl_usage =
     [''usage: agentctl <command> [args]'', [], ''commands:'',
      ''  submit   -f <file.yaml> [-n namespace]   create an AgentJob from YAML'',
      ''  get      [-n namespace]                  list AgentJobs'',
      ''  describe <name> [-n namespace]           show AgentJob details'',
      ''  delete   <name> [-n namespace]           delete an AgentJob'',
      ''  cancel   <name> [-n namespace]           cancel a running AgentJob'',
      ''  version                                  print version'']"

text \<open>\<open>ac_client\<close> is the error of building the client, if it cannot be built.\<close>

definition agentctl_main :: "'w agentctl \<Rightarrow> string list \<Rightarrow> 'w \<Rightarrow> cli_result \<times> 'w" where
  "agentctl_main ac args w =
     (case args of
        [] \<Rightarrow> (cli_fail agentctl_usage, w)
      | cmd # rest \<Rightarrow>
          if cmd = ''version'' then (cli_ok [Line ''agentctl v0.1.0''], w)
          else case ac_client ac of
            Some e \<Rightarrow> (cli_fail [''error: '' @ e], w)
          | None \<Rightarrow>
              (if cmd = ''submit'' then cmdSubmit ac rest w
               else if cmd = ''get'' then cmdGet ac rest w
               else if cmd = ''describe'' then cmdDescribe ac rest w
               else if cmd = ''delete'' then cmdDelete ac rest w
               else if cmd = ''cancel'' then cmdCancel ac rest w
               else (cli_fail ((''unknown command: '' @ cmd) # agentctl_usage), w)))"

subsection \<open>Facts\<close>

lemma parse_args_last: "parse_args (xs @ [''-n'', ns]) pos ns0 = (fst (parse_args xs pos ns0), ns) \<or>
    (\<exists>ys. xs = ys @ [''-n''])"
proof (induction xs pos ns0 rule: parse_args.induct)
  case (3 a b rest pos ns)
  then show ?case by (cases "a = ''-n''") (auto simp: append_eq_Cons_conv Cons_eq_append_conv)
qed auto

text \<open>The phase that makes \<open>cancel\<close> refuse is the terminal test of the controller.\<close>

lemma cancel_refuses_iff:
  "JobPhaseFromConditions cs = ''Succeeded'' \<or> JobPhaseFromConditions cs = ''Failed'' \<longleftrightarrow> IsJobTerminal cs"
proof (cases "terminal_phase cs")
  case None
  then show ?thesis using progress_phase_range [of cs] terminal_phase_None [of cs]
    by (auto simp: JobPhaseFromConditions_def)
next
  case (Some p)
  then have "IsJobTerminal cs" using terminal_phase_None [of cs] by auto
  with Some terminal_phase_Some [OF Some] show ?thesis by (auto simp: JobPhaseFromConditions_def)
qed

lemma cancelled_sel [simp]:
  "j_meta (cancelled now job) = j_meta job" "j_spec (cancelled now job) = j_spec job"
  "st_active (j_status (cancelled now job)) = st_active (j_status job)"
  "st_failed (j_status (cancelled now job)) = st_failed (j_status job)"
  "st_completed (j_status (cancelled now job)) = st_completed (j_status job)"
  "job_conditions (cancelled now job) = job_conditions job @ [cancel_condition now]"
  by (simp_all add: cancelled_def)

lemma cancelled_terminal [simp]: "IsJobTerminal (cs @ [cancel_condition now])"
  by (simp add: IsJobTerminal_iff holds_def cancel_condition_def)

end
