(* ===== verification/Cluster.thy ===== *)
theory Cluster
  imports Agentctl JobProperties
begin

text \<open>
  A cluster: the API server's objects, the job controller, users with \<open>agentctl\<close>, and
  everything else that touches Pods (kubelets, the node controller, users). Before any API
  call of a pass or of a command the Pods may change in any way, and the call may be answered,
  refused with any error, or carried out and its answer lost. What follows shows that no such
  run makes two attempts of a job active at once (\<open>docs/fault-model.md\<close>).

  The objects are those of \<open>MemKube\<close>. Creating a job drops its status, as the status
  subresource does; deleting one removes its attempts with it, as the garbage collector does
  through the owner references.
\<close>

subsection \<open>An API server that may fail\<close>

datatype call_outcome = Answered | Refused api_error | AnswerLost api_error

record api_turn =
  tn_pods :: "pod list option"
  tn_outcome :: call_outcome

record cluster =
  cl_mem :: mem
  cl_turns :: "api_turn list"

definition with_pods :: "pod list option \<Rightarrow> mem \<Rightarrow> mem" where
  "with_pods ps m = (case ps of None \<Rightarrow> m | Some ps \<Rightarrow> m\<lparr>m_pods := ps\<rparr>)"

definition api_call :: "(mem \<Rightarrow> (api_error + 'a) \<times> mem) \<Rightarrow> cluster \<Rightarrow> (api_error + 'a) \<times> cluster" where
  "api_call f c =
     (case cl_turns c of
        [] \<Rightarrow> (case f (cl_mem c) of (r, m) \<Rightarrow> (r, c\<lparr>cl_mem := m\<rparr>))
      | t # ts \<Rightarrow>
          (let m = with_pods (tn_pods t) (cl_mem c)
           in case tn_outcome t of
                Answered \<Rightarrow> (case f m of (r, m) \<Rightarrow> (r, \<lparr>cl_mem = m, cl_turns = ts\<rparr>))
              | Refused e \<Rightarrow> (Inl e, \<lparr>cl_mem = m, cl_turns = ts\<rparr>)
              | AnswerLost e \<Rightarrow> (Inl e, \<lparr>cl_mem = snd (f m), cl_turns = ts\<rparr>)))"

text \<open>Calls without a value.\<close>

definition api_do :: "(mem \<Rightarrow> api_error option \<times> mem) \<Rightarrow> cluster \<Rightarrow> api_error option \<times> cluster" where
  "api_do f c =
     (case api_call (\<lambda>m. case f m of (None, m) \<Rightarrow> (Inr (), m) | (Some e, m) \<Rightarrow> (Inl e, m)) c of
        (Inl e, c) \<Rightarrow> (Some e, c) | (Inr u, c) \<Rightarrow> (None, c))"

definition cluster_kube :: "cluster kube" where
  "cluster_kube =
     \<lparr>k_get_job = (\<lambda>ns n. api_call (k_get_job mem_kube ns n)),
      k_get_attempt = (\<lambda>ns n. api_call (k_get_attempt mem_kube ns n)),
      k_get_pod = (\<lambda>ns n. api_call (k_get_pod mem_kube ns n)),
      k_list_attempts = (\<lambda>ns sel. api_call (k_list_attempts mem_kube ns sel)),
      k_list_pods = (\<lambda>ns sel. api_call (k_list_pods mem_kube ns sel)),
      k_create_attempt = (\<lambda>a. api_call (k_create_attempt mem_kube a)),
      k_create_pod = (\<lambda>p. api_call (k_create_pod mem_kube p)),
      k_delete_attempt = (\<lambda>a. api_do (k_delete_attempt mem_kube a)),
      k_delete_pod = (\<lambda>p. api_do (k_delete_pod mem_kube p)),
      k_update_job_status = (\<lambda>j. api_call (k_update_job_status mem_kube j)),
      k_update_attempt_status = (\<lambda>a. api_call (k_update_attempt_status mem_kube a)),
      k_own_attempt = k_own_attempt mem_kube, k_own_pod = k_own_pod mem_kube,
      k_get_pool = (\<lambda>ns n. api_call (k_get_pool mem_kube ns n)),
      k_update_pool_status = (\<lambda>p. api_call (k_update_pool_status mem_kube p)),
      k_own_pool_pod = k_own_pool_pod mem_kube,
      k_patch_pod = (\<lambda>b p. api_call (k_patch_pod mem_kube b p)),
      k_ssc = set_condition, k_marshal = k_marshal mem_kube, k_sha256hex = k_sha256hex mem_kube\<rparr>"

text \<open>The calls only \<open>agentctl\<close> makes.\<close>

definition fresh_status :: AgentJobStatus where
  "fresh_status = \<lparr>st_conditions = [], st_active = None, st_completed = 0, st_failed = 0, st_start = None,
     st_completion = None, st_spec_hash = []\<rparr>"

definition create_job :: "AgentJob \<Rightarrow> mem \<Rightarrow> (api_error + AgentJob) \<times> mem" where
  "create_job j m =
     (if list_ex (\<lambda>i. same_key (j_meta j) (j_meta i)) (m_jobs m) then (Inl AlreadyExists, m)
      else let j = j\<lparr>j_meta := stamp (j_meta j), j_status := fresh_status\<rparr>
           in (Inr j, m\<lparr>m_jobs := m_jobs m @ [j]\<rparr>))"

definition belongs_to :: "string \<Rightarrow> string \<Rightarrow> AgentAttempt \<Rightarrow> bool" where
  "belongs_to ns name a \<longleftrightarrow> selected ns (job_selector name) (a_meta a)"

definition remove_job :: "string \<Rightarrow> string \<Rightarrow> mem \<Rightarrow> api_error option \<times> mem" where
  "remove_job ns name m =
     (if list_ex (\<lambda>i. has_key ns name (j_meta i)) (m_jobs m)
      then (None, m\<lparr>m_jobs := filter (\<lambda>i. \<not> has_key ns name (j_meta i)) (m_jobs m),
                    m_attempts := filter (\<lambda>a. \<not> belongs_to ns name a) (m_attempts m)\<rparr>)
      else (Some NotFound, m))"

definition connect :: "cluster agentctl \<Rightarrow> cluster agentctl" where
  "connect ac = ac\<lparr>ac_kube := cluster_kube,
     ac_create_job := (\<lambda>j. api_call (create_job j)),
     ac_list_jobs := (\<lambda>ns. api_call (\<lambda>m. (Inr (filter (\<lambda>j. om_namespace (j_meta j) = ns) (m_jobs m)), m))),
     ac_delete_job := (\<lambda>ns name. api_do (remove_job ns name))\<rparr>"

subsection \<open>Runs\<close>

datatype cluster_event =
    ReconcilePass instant bool string string "api_turn list"
  | Command "cluster agentctl" "string list" "api_turn list"
  | EditSpec string string AgentJobSpec
  | PodsChange "pod list"

fun cluster_step :: "mem \<Rightarrow> cluster_event \<Rightarrow> mem" where
  "cluster_step m (ReconcilePass now recording ns name ts) =
     cl_mem (fst (snd (Reconcile cluster_kube recording now ns name (\<lparr>cl_mem = m, cl_turns = ts\<rparr>, []))))"
| "cluster_step m (Command ac args ts) = cl_mem (snd (agentctl_main (connect ac) args \<lparr>cl_mem = m, cl_turns = ts\<rparr>))"
| "cluster_step m (EditSpec ns name spec) =
     m\<lparr>m_jobs := map (\<lambda>j. if has_key ns name (j_meta j) then j\<lparr>j_spec := spec\<rparr> else j) (m_jobs m)\<rparr>"
| "cluster_step m (PodsChange ps) = m\<lparr>m_pods := ps\<rparr>"

definition spec_ok :: "AgentJobSpec \<Rightarrow> bool" where
  "spec_ok spec \<longleftrightarrow> in_i32 (ex_max_attempts (js_execution spec))"

text \<open>The retry limit of a spec is an \<open>int32\<close>.\<close>

fun event_ok :: "cluster_event \<Rightarrow> bool" where
  "event_ok (Command ac args ts) \<longleftrightarrow>
     (\<forall>path data job. ac_read_file ac path = Inr data \<longrightarrow> ac_decode ac data = Inr job \<longrightarrow> spec_ok (j_spec job))"
| "event_ok (EditSpec ns name spec) \<longleftrightarrow> spec_ok spec"
| "event_ok e \<longleftrightarrow> True"

definition empty_cluster :: mem where
  "empty_cluster = \<lparr>m_jobs = [], m_attempts = [], m_pods = [], m_pools = []\<rparr>"

subsection \<open>What a call does to the jobs and the attempts\<close>

abbreviation jobs_of :: "cluster \<Rightarrow> AgentJob list" where "jobs_of c \<equiv> m_jobs (cl_mem c)"
abbreviation atts_of :: "cluster \<Rightarrow> AgentAttempt list" where "atts_of c \<equiv> m_attempts (cl_mem c)"

definition put_attempt :: "AgentAttempt \<Rightarrow> AgentAttempt list \<Rightarrow> AgentAttempt list" where
  "put_attempt a as = map (\<lambda>b. if same_key (a_meta a) (a_meta b) then a else b) as"

definition put_job :: "AgentJob \<Rightarrow> AgentJob list \<Rightarrow> AgentJob list" where
  "put_job j js = map (\<lambda>i. if same_key (j_meta j) (j_meta i) then j else i) js"

lemma with_pods_sel [simp]:
  "m_jobs (with_pods ps m) = m_jobs m" "m_attempts (with_pods ps m) = m_attempts m"
  by (simp_all add: with_pods_def split: option.split)

text \<open>Every call is its effect on the objects, some time with other Pods, or nothing.\<close>

lemma api_call_cases:
  assumes "api_call f c = (r, c')"
  obtains (ran) m where "m_jobs m = jobs_of c" "m_attempts m = atts_of c" "r = fst (f m)" "cl_mem c' = snd (f m)"
  | (lost) m e where "m_jobs m = jobs_of c" "m_attempts m = atts_of c" "r = Inl e" "cl_mem c' = snd (f m)"
  | (refused) e where "r = Inl e" "jobs_of c' = jobs_of c" "atts_of c' = atts_of c"
proof (cases "cl_turns c")
  case Nil
  with assms show ?thesis by (intro ran [of "cl_mem c"]) (auto simp: api_call_def split: prod.splits)
next
  case (Cons t ts)
  let ?m = "with_pods (tn_pods t) (cl_mem c)"
  show ?thesis
  proof (cases "tn_outcome t")
    case Answered
    with assms Cons show ?thesis by (intro ran [of ?m]) (auto simp: api_call_def Let_def split: prod.splits)
  next
    case (Refused e)
    with assms Cons show ?thesis by (intro refused [of e]) (auto simp: api_call_def Let_def)
  next
    case (AnswerLost e)
    with assms Cons show ?thesis by (intro lost [of ?m e]) (auto simp: api_call_def Let_def)
  qed
qed

lemma api_call_keeps:
  assumes "api_call f c = (r, c')"
    and "\<And>m. m_jobs (snd (f m)) = m_jobs m" and "\<And>m. m_attempts (snd (f m)) = m_attempts m"
  shows "jobs_of c' = jobs_of c" "atts_of c' = atts_of c"
  using assms(1) by (cases rule: api_call_cases; simp add: assms(2,3))+

lemma api_call_Inr:
  assumes "api_call f c = (Inr x, c')"
  shows "\<exists>m. m_jobs m = jobs_of c \<and> m_attempts m = atts_of c \<and> fst (f m) = Inr x \<and> cl_mem c' = snd (f m)"
  using assms by (cases rule: api_call_cases) auto

lemma api_do_call:
  "api_do f c = (r, c') \<Longrightarrow>
   \<exists>q. api_call (\<lambda>m. case f m of (None, m) \<Rightarrow> (Inr (), m) | (Some e, m) \<Rightarrow> (Inl e, m)) c = (q, c')"
  by (auto simp: api_do_def split: prod.splits sum.splits)

lemma api_do_keeps:
  assumes "api_do f c = (r, c')"
    and "\<And>m. m_jobs (snd (f m)) = m_jobs m" and "\<And>m. m_attempts (snd (f m)) = m_attempts m"
  shows "jobs_of c' = jobs_of c" "atts_of c' = atts_of c"
proof -
  obtain q where "api_call (\<lambda>m. case f m of (None, m) \<Rightarrow> (Inr (), m) | (Some e, m) \<Rightarrow> (Inl e, m)) c = (q, c')"
    using api_do_call [OF assms(1)] by blast
  note keeps = api_call_keeps [OF this]
  have "m_jobs (snd (case f m of (None, m) \<Rightarrow> (Inr (), m) | (Some e, m) \<Rightarrow> (Inl e, m))) = m_jobs m"
    "m_attempts (snd (case f m of (None, m) \<Rightarrow> (Inr (), m) | (Some e, m) \<Rightarrow> (Inl e, m))) = m_attempts m" for m
    using assms(2,3) [of m] by (auto split: prod.split option.split)
  then show "jobs_of c' = jobs_of c" "atts_of c' = atts_of c" by (rule keeps)+
qed

lemma lookup_object_snd [simp]: "snd (lookup_object P xs w) = w"
  by (simp add: lookup_object_def split: option.split)

lemma lookup_object_Inr: "fst (lookup_object P xs w) = Inr x \<longleftrightarrow> find P xs = Some x"
  by (simp add: lookup_object_def split: option.split)

lemma cluster_get_job:
  assumes "k_get_job cluster_kube ns n c = (r, c')"
  shows "jobs_of c' = jobs_of c" "atts_of c' = atts_of c"
    and "r = Inr j \<Longrightarrow> find (\<lambda>j. has_key ns n (j_meta j)) (jobs_of c) = Some j"
  using assms api_call_keeps [OF assms [unfolded cluster_kube_def, simplified]]
  by (auto simp: cluster_kube_def lookup_object_Inr dest!: api_call_Inr)

lemma cluster_get_attempt:
  assumes "k_get_attempt cluster_kube ns n c = (r, c')"
  shows "jobs_of c' = jobs_of c" "atts_of c' = atts_of c"
    and "r = Inr a \<Longrightarrow> find (\<lambda>a. has_key ns n (a_meta a)) (atts_of c) = Some a"
  using assms api_call_keeps [OF assms [unfolded cluster_kube_def, simplified]]
  by (auto simp: cluster_kube_def lookup_object_Inr dest!: api_call_Inr)

lemma cluster_list_attempts:
  assumes "k_list_attempts cluster_kube ns sel c = (r, c')"
  shows "jobs_of c' = jobs_of c" "atts_of c' = atts_of c"
    and "r = Inr as \<Longrightarrow> as = filter (\<lambda>a. selected ns sel (a_meta a)) (atts_of c)"
  using assms api_call_keeps [OF assms [unfolded cluster_kube_def, simplified]]
  by (auto simp: cluster_kube_def elim: api_call_cases)

lemma cluster_pod_calls:
  "k_get_pod cluster_kube ns n c = (r1, c') \<Longrightarrow> jobs_of c' = jobs_of c \<and> atts_of c' = atts_of c"
  "k_list_pods cluster_kube ns sel c = (r2, c') \<Longrightarrow> jobs_of c' = jobs_of c \<and> atts_of c' = atts_of c"
  "k_create_pod cluster_kube p c = (r3, c') \<Longrightarrow> jobs_of c' = jobs_of c \<and> atts_of c' = atts_of c"
  "k_delete_pod cluster_kube p c = (r4, c') \<Longrightarrow> jobs_of c' = jobs_of c \<and> atts_of c' = atts_of c"
proof -
  have create: "m_jobs (snd (k_create_pod mem_kube p m)) = m_jobs m"
    "m_attempts (snd (k_create_pod mem_kube p m)) = m_attempts m" for m
    by (simp_all add: Let_def)
  show "k_get_pod cluster_kube ns n c = (r1, c') \<Longrightarrow> jobs_of c' = jobs_of c \<and> atts_of c' = atts_of c"
    by (auto simp: cluster_kube_def dest: api_call_keeps)
  show "k_list_pods cluster_kube ns sel c = (r2, c') \<Longrightarrow> jobs_of c' = jobs_of c \<and> atts_of c' = atts_of c"
    by (auto simp: cluster_kube_def dest: api_call_keeps)
  show "k_create_pod cluster_kube p c = (r3, c') \<Longrightarrow> jobs_of c' = jobs_of c \<and> atts_of c' = atts_of c"
    using api_call_keeps [OF _ create] by (simp add: cluster_kube_def)
  show "k_delete_pod cluster_kube p c = (r4, c') \<Longrightarrow> jobs_of c' = jobs_of c \<and> atts_of c' = atts_of c"
    by (auto simp: cluster_kube_def dest: api_do_keeps)
qed

lemma cluster_update_job:
  assumes "k_update_job_status cluster_kube j c = (r, c')"
  shows "atts_of c' = atts_of c" "jobs_of c' \<in> {jobs_of c, put_job j (jobs_of c)}"
    and "r = Inr i \<Longrightarrow> i = j \<and> jobs_of c' = put_job j (jobs_of c)"
  using assms by (auto simp: cluster_kube_def put_job_def elim: api_call_cases)

lemma cluster_update_attempt:
  assumes "k_update_attempt_status cluster_kube a c = (r, c')"
  shows "jobs_of c' = jobs_of c" "atts_of c' \<in> {atts_of c, put_attempt a (atts_of c)}"
    and "r = Inr b \<Longrightarrow> b = a \<and> atts_of c' = put_attempt a (atts_of c)"
  using assms by (auto simp: cluster_kube_def put_attempt_def elim: api_call_cases)

definition stamped :: "AgentAttempt \<Rightarrow> AgentAttempt" where
  "stamped a = a\<lparr>a_meta := stamp (a_meta a)\<rparr>"

definition key_free :: "object_meta \<Rightarrow> AgentAttempt list \<Rightarrow> bool" where
  "key_free m as \<longleftrightarrow> (\<forall>b\<in>set as. \<not> same_key m (a_meta b))"

lemma cluster_create_attempt:
  assumes "k_create_attempt cluster_kube a c = (r, c')"
  shows "jobs_of c' = jobs_of c"
    and "atts_of c' = atts_of c \<or> key_free (a_meta a) (atts_of c) \<and> atts_of c' = atts_of c @ [stamped a]"
    and "r = Inr b \<Longrightarrow> b = stamped a"
  using assms
  by (auto simp: cluster_kube_def Let_def stamped_def key_free_def list_ex_iff split: if_splits elim!: api_call_cases)

lemma cluster_own_attempt: "k_own_attempt cluster_kube = k_own_attempt mem_kube"
  by (simp add: cluster_kube_def)

lemma cluster_ssc [simp]:
  "k_ssc cluster_kube = set_condition" "condition_setter (k_ssc cluster_kube)" "condition_setter set_condition"
  by (simp_all add: cluster_kube_def condition_setter_set_condition)

subsection \<open>What a pass does to the attempts\<close>

abbreviation w_jobs :: "cluster world \<Rightarrow> AgentJob list" where "w_jobs s \<equiv> jobs_of (fst s)"
abbreviation w_atts :: "cluster world \<Rightarrow> AgentAttempt list" where "w_atts s \<equiv> atts_of (fst s)"

definition same_objects :: "cluster world \<Rightarrow> cluster world \<Rightarrow> bool" where
  "same_objects s s' \<longleftrightarrow> w_jobs s' = w_jobs s \<and> w_atts s' = w_atts s"

lemma same_objects_refl [simp]: "same_objects s s"
  by (simp add: same_objects_def)

lemma same_objects_trans: "same_objects s s1 \<Longrightarrow> same_objects s1 s2 \<Longrightarrow> same_objects s s2"
  by (simp add: same_objects_def)

lemma same_objects_read:
  assumes "read_world f s = (r, s')"
    and "\<And>c c' r. f c = (r, c') \<Longrightarrow> jobs_of c' = jobs_of c \<and> atts_of c' = atts_of c"
  shows "same_objects s s'"
  using read_world_result [OF assms(1)] assms(2) by (auto simp: same_objects_def)

lemma same_objects_get_pod: "read_world (k_get_pod cluster_kube ns n) s = (r, s') \<Longrightarrow> same_objects s s'"
  by (rule same_objects_read) (auto dest: cluster_pod_calls(1))

lemma same_objects_create_pod:
  assumes "create_pod cluster_kube p s = (r, s')"
  shows "same_objects s s'"
proof -
  obtain q c where u: "k_create_pod cluster_kube p (fst s) = (q, c)" by (cases "k_create_pod cluster_kube p (fst s)")
  have "s' = (c, snd s @ [ECreatePod p])" using assms unfolding create_pod_def u by simp
  with cluster_pod_calls(3) [OF u] show ?thesis by (simp add: same_objects_def)
qed

lemma same_objects_event: "same_objects s (record_event b t r m s)"
  by (simp add: record_event_def emit_event_def same_objects_def)

lemma ensure_pod_objects:
  assumes "ensure_pod cluster_kube snap a s = (l, s')"
  shows "same_objects s s'"
proof (cases "k_own_pod cluster_kube a (BuildPod (js_job snap) a [])")
  case (Inl e)
  with assms show ?thesis by (simp add: ensure_pod_def)
next
  case (Inr p)
  let ?get = "k_get_pod cluster_kube (om_namespace (p_meta p)) (pod_name p)"
  obtain g s1 where g: "read_world ?get s = (g, s1)" by (cases "read_world ?get s")
  obtain c s2 where c: "create_pod cluster_kube p s1 = (c, s2)" by (cases "create_pod cluster_kube p s1")
  obtain h s3 where h: "read_world ?get s2 = (h, s3)" by (cases "read_world ?get s2")
  have "same_objects s s1" "same_objects s s2" "same_objects s s3"
    using same_objects_get_pod [OF g] same_objects_create_pod [OF c] same_objects_get_pod [OF h]
    by (auto intro: same_objects_trans)
  moreover have "s' \<in> {s1, s2, s3}"
    using assms Inr g c h by (auto simp: ensure_pod_def Let_def split: sum.splits api_error.splits)
  ultimately show ?thesis by auto
qed

lemma lookup_pod_objects:
  assumes "lookup_pod cluster_kube snap a s = (l, s')"
  shows "same_objects s s'"
proof -
  let ?get = "k_get_pod cluster_kube (om_namespace (j_meta (js_job snap))) (at_pod_name (a_status a))"
  obtain g s1 where g: "read_world ?get s = (g, s1)" by (cases "read_world ?get s")
  have "s' = s \<or> s' = s1 \<or> ensure_pod cluster_kube snap a s = (l, s')"
    using assms g by (auto simp: lookup_pod_def split: option.splits sum.splits api_error.splits if_splits)
  with same_objects_get_pod [OF g] show ?thesis by (auto dest: ensure_pod_objects)
qed

text \<open>The attempt written by a stage, if one is: nothing else changes, and a terminal answer means
  that the terminal attempt is stored.\<close>

definition attempt_stage :: "AgentAttempt \<Rightarrow> attempt_result \<Rightarrow> cluster world \<Rightarrow> cluster world \<Rightarrow> bool" where
  "attempt_stage a r s s' \<longleftrightarrow> w_jobs s' = w_jobs s \<and>
     (\<exists>b. same_attempt b a \<and> w_atts s' \<in> {w_atts s, put_attempt b (w_atts s)} \<and>
        (ar_terminal r \<longrightarrow> IsAttemptTerminal (attempt_conditions b) \<and> w_atts s' = put_attempt b (w_atts s)))"

lemma attempt_stage_open: "\<not> ar_terminal r \<Longrightarrow> same_objects s s' \<Longrightarrow> attempt_stage a r s s'"
  by (auto simp: attempt_stage_def same_objects_def intro: exI [of _ a])

lemma attempt_stage_before: "same_objects s s1 \<Longrightarrow> attempt_stage a r s1 s' \<Longrightarrow> attempt_stage a r s s'"
  by (simp add: attempt_stage_def same_objects_def)

lemma commit_attempt_stage:
  assumes "commit_attempt cluster_kube msg t q b s = (r, s')" and "same_attempt b a"
    and "t \<Longrightarrow> IsAttemptTerminal (attempt_conditions b)"
  shows "attempt_stage a r s s'"
proof -
  obtain o1 c where u: "k_update_attempt_status cluster_kube b (fst s) = (o1, c)"
    by (cases "k_update_attempt_status cluster_kube b (fst s)")
  from assms(1) u have s': "fst s' = c"
    and r: "r = (case o1 of Inl e \<Rightarrow> attempt_failure (Wrapped msg (ApiErr e)) b
                 | Inr x \<Rightarrow> \<lparr>ar_terminal = t, ar_requeue = q, ar_error = None, ar_attempt = x\<rparr>)"
    by (auto simp: commit_attempt_def update_attempt_status_def split: sum.splits)
  have "ar_terminal r \<longrightarrow> IsAttemptTerminal (attempt_conditions b) \<and> atts_of c = put_attempt b (w_atts s)"
    using cluster_update_attempt(3) [OF u] assms(3) r by (auto simp: attempt_failure_def split: sum.splits)
  with cluster_update_attempt(1,2) [OF u] assms(2) s' show ?thesis
    by (auto simp: attempt_stage_def)
qed

lemma settle_attempt_stage:
  assumes "settle_attempt cluster_kube now a p s = (r, s')" and "\<not> IsAttemptTerminal (attempt_conditions a)"
  shows "attempt_stage a r s s'"
proof -
  note w = attempt_write_ok_intros [OF cluster_ssc(2) assms(2), unfolded attempt_write_ok_def]
  have failed: "IsAttemptTerminal (attempt_conditions (markAttemptFailed (k_ssc cluster_kube) now x c))" for x c
    using markAttemptFailed_conditions [OF cluster_ssc(2)] by (simp add: IsAttemptTerminal_iff)
  have succeeded: "IsAttemptTerminal (attempt_conditions (mark_succeeded (k_ssc cluster_kube) now a))"
    using mark_succeeded_conditions [OF cluster_ssc(2)] by (simp add: IsAttemptTerminal_iff)
  note stage = commit_attempt_stage [where a = a and s = s and s' = s' and r = r]
  show ?thesis
    using assms(1) w failed succeeded
    by (auto simp: settle_attempt_def observe_pod_def split: if_splits pod_phase.splits
        intro: stage attempt_stage_open)
qed

lemma ReconcileAttempt_stage:
  assumes "ReconcileAttempt cluster_kube now snap a s = (r, s')"
    and "IsAttemptTerminal (attempt_conditions a) \<Longrightarrow> put_attempt a (w_atts s) = w_atts s"
  shows "attempt_stage a r s s'"
proof (cases "IsAttemptTerminal (attempt_conditions a)")
  case True
  with assms show ?thesis by (auto simp: ReconcileAttempt_def attempt_stage_def intro!: exI [of _ a])
next
  case False
  obtain l s1 where l: "lookup_pod cluster_kube snap a s = (l, s1)" by (cases "lookup_pod cluster_kube snap a s")
  note before = attempt_stage_before [OF lookup_pod_objects [OF l]]
  show ?thesis
  proof (cases l)
    case (PodError e)
    with False l assms(1) show ?thesis
      by (intro before) (auto simp: ReconcileAttempt_def attempt_failure_def intro!: attempt_stage_open)
  next
    case (PodFound p)
    with False l assms(1) show ?thesis
      by (intro before) (auto simp: ReconcileAttempt_def intro!: settle_attempt_stage)
  next
    case PodGone
    with False l assms(1) markAttemptFailed_conditions [OF cluster_ssc(2)] show ?thesis
      by (intro before) (auto simp: ReconcileAttempt_def IsAttemptTerminal_iff intro!: commit_attempt_stage)
  qed
qed

subsection \<open>What a pass does to the job\<close>

text \<open>A new attempt of a job, as the server stores it.\<close>

definition launched :: "AgentJob \<Rightarrow> AgentAttempt \<Rightarrow> bool" where
  "launched job b \<longleftrightarrow> om_namespace (a_meta b) = om_namespace (j_meta job) \<and>
     om_labels (a_meta b) = [''durarun.io/job'' \<mapsto> job_name job] \<and>
     attempt_name b = next_attempt_name job \<and> a_spec b = a_spec (new_attempt job)"

definition launch_stage :: "AgentJob \<Rightarrow> cluster world \<Rightarrow> cluster world \<Rightarrow> bool" where
  "launch_stage job s s' \<longleftrightarrow> w_jobs s' = w_jobs s \<and>
     (w_atts s' = w_atts s \<or>
      (\<exists>b. launched job b \<and> key_free (a_meta b) (w_atts s) \<and> w_atts s' = w_atts s @ [b]))"

lemma same_objects_get_attempt:
  assumes "read_world (k_get_attempt cluster_kube ns n) s = (r, s')"
  shows "same_objects s s'" and "r = Inr x \<Longrightarrow> attempt_name x = n"
proof -
  note g = read_world_result [OF assms]
  from cluster_get_attempt(1,2) [OF g] show "same_objects s s'" by (simp add: same_objects_def)
  assume "r = Inr x"
  from find_SomeD [OF cluster_get_attempt(3) [OF g this]] show "attempt_name x = n" by (simp add: has_key_def)
qed

lemma owned_new_attempt:
  assumes "k_own_attempt cluster_kube job (new_attempt job) = Inr a"
  shows "launched job (stamped a)" "key_free (a_meta (stamped a)) as = key_free (a_meta a) as"
    "attempt_name (stamped a) = next_attempt_name job"
  using assms by (auto simp: cluster_own_attempt launched_def stamped_def stamp_def new_attempt_def key_free_def
      same_key_def has_key_def)

lemma create_attempt_stage:
  assumes "create_attempt cluster_kube a s = (r, s')" and "k_own_attempt cluster_kube job (new_attempt job) = Inr a"
  shows "launch_stage job s s'" and "r = Inr x \<Longrightarrow> attempt_name x = next_attempt_name job"
proof -
  obtain q c where u: "k_create_attempt cluster_kube a (fst s) = (q, c)"
    by (cases "k_create_attempt cluster_kube a (fst s)")
  have s': "s' = (c, snd s @ [ECreateAttempt a])" "r = q" using assms(1) unfolding create_attempt_def u by simp_all
  with cluster_create_attempt(1,2) [OF u] owned_new_attempt [OF assms(2)] show "launch_stage job s s'"
    by (auto simp: launch_stage_def)
  assume "r = Inr x"
  with s'(2) have "q = Inr x" by simp
  from cluster_create_attempt(3) [OF u this] owned_new_attempt(3) [OF assms(2)]
  show "attempt_name x = next_attempt_name job" by simp
qed

lemma launch_stage_same: "same_objects s s' \<Longrightarrow> launch_stage job s s'"
  by (simp add: same_objects_def launch_stage_def)

lemma launch_stage_read: "launch_stage job s s1 \<Longrightarrow> same_objects s1 s' \<Longrightarrow> launch_stage job s s'"
  by (simp add: same_objects_def launch_stage_def)

lemma launch_stage_before: "same_objects s s1 \<Longrightarrow> launch_stage job s1 s' \<Longrightarrow> launch_stage job s s'"
  by (simp add: same_objects_def launch_stage_def)

lemma createAttempt_stage:
  assumes "createAttempt cluster_kube job s = (r, s')"
  shows "launch_stage job s s' \<and> (\<forall>x. r = Inr x \<longrightarrow> attempt_name x = next_attempt_name job)"
proof -
  let ?get = "k_get_attempt cluster_kube (om_namespace (j_meta job)) (next_attempt_name job)"
  obtain g s1 where g: "read_world ?get s = (g, s1)" by (cases "read_world ?get s")
  note get = same_objects_get_attempt [OF g]
  show ?thesis
  proof (cases g)
    case (Inr x)
    with assms g get show ?thesis by (auto simp: createAttempt_def intro: launch_stage_same)
  next
    case (Inl e)
    show ?thesis
    proof (cases "k_own_attempt cluster_kube job (new_attempt job)")
      case (Inl e')
      with assms g \<open>g = Inl e\<close> get show ?thesis by (auto simp: createAttempt_def intro: launch_stage_same)
    next
      case own: (Inr a)
      obtain c s2 where c: "create_attempt cluster_kube a s1 = (c, s2)" by (cases "create_attempt cluster_kube a s1")
      obtain h s3 where h: "read_world ?get s2 = (h, s3)" by (cases "read_world ?get s2")
      note create = create_attempt_stage [OF c own] and again = same_objects_get_attempt [OF h]
      have stage: "launch_stage job s s2" "launch_stage job s s3"
        using create(1) again(1) get(1) by (auto intro: launch_stage_before launch_stage_read)
      have eq: "createAttempt cluster_kube job s =
          (case c of Inr y \<Rightarrow> (Inr y, s2)
           | Inl AlreadyExists \<Rightarrow>
               (case h of Inl e \<Rightarrow> (Inl (Wrapped ''get existing attempt after race'' (ApiErr e)), s3)
                | Inr y \<Rightarrow> (Inr y, s3))
           | Inl e \<Rightarrow> (Inl (ApiErr e), s2))"
        unfolding createAttempt_def Let_def g \<open>g = Inl e\<close> own prod.case sum.case c h by (rule refl)
      show ?thesis
      proof (cases c)
        case (Inr y)
        with eq assms stage create(2) show ?thesis by auto
      next
        case (Inl e2)
        with eq assms stage again(2) show ?thesis by (cases e2; cases h) auto
      qed
    qed
  qed
qed

text \<open>The status write that ends a pass, if one does.\<close>

lemma commit_job_stage:
  assumes "commit_job cluster_kube recording what t rs msgf res job s = (q, s')"
  shows "w_atts s' = w_atts s \<and> w_jobs s' \<in> {w_jobs s, put_job job (w_jobs s)}"
proof -
  obtain o1 c where u: "k_update_job_status cluster_kube job (fst s) = (o1, c)"
    by (cases "k_update_job_status cluster_kube job (fst s)")
  have up: "update_job_status cluster_kube job s = (o1, (c, snd s @ [EJobStatus job]))"
    unfolding update_job_status_def u by simp
  have "same_objects (c, snd s @ [EJobStatus job]) s'"
    using assms unfolding commit_job_def up by (cases o1) (auto intro: same_objects_event)
  with cluster_update_job(1,2) [OF u] show ?thesis by (auto simp: same_objects_def)
qed

subsection \<open>The writes of a cluster\<close>

text \<open>
  An abstract description of everything that changes jobs and attempts, write by write: an
  attempt of an open job that is not terminal gets a new status, a job gets its next attempt, a job whose
  attempt is terminal and has retries left gets the one after, a job is updated.
\<close>

type_synonym objs = "AgentJob list \<times> AgentAttempt list"

abbreviation open_job :: "AgentJob \<Rightarrow> bool" where "open_job j \<equiv> \<not> IsJobTerminal (job_conditions j)"
abbreviation open_attempt :: "AgentAttempt \<Rightarrow> bool" where
  "open_attempt a \<equiv> \<not> IsAttemptTerminal (attempt_conditions a)"

definition attempts_of_job :: "AgentJob \<Rightarrow> AgentAttempt list \<Rightarrow> AgentAttempt list" where
  "attempts_of_job j as = filter (belongs_to (om_namespace (j_meta j)) (job_name j)) as"

definition retired :: "AgentJob \<Rightarrow> AgentAttempt list \<Rightarrow> bool" where
  "retired j as \<longleftrightarrow>
     list_ex (\<lambda>a. attempt_name a = next_attempt_name j \<and> \<not> open_attempt a) (attempts_of_job j as)"

definition retry_left :: "AgentJob \<Rightarrow> bool" where
  "retry_left j \<longleftrightarrow> i32 (st_failed (j_status j) + 1) < ex_max_attempts (job_exec j)"

definition keeps_count :: "AgentJob \<Rightarrow> AgentJob \<Rightarrow> bool" where
  "keeps_count j j' \<longleftrightarrow> st_failed (j_status j') = st_failed (j_status j) \<and> st_completed (j_status j') = st_completed (j_status j) \<and>
     (st_active (j_status j') = st_active (j_status j) \<or>
      (\<exists>ref. st_active (j_status j') = Some ref \<and> ar_name ref = next_attempt_name j))"

definition terminal_count :: "condition list \<Rightarrow> nat" where
  "terminal_count cs =
     length (filter (\<lambda>c. c_status c = CTrue \<and> (c_type c = JobConditionComplete \<or> c_type c = JobConditionFailed)) cs)"

lemma terminal_count_open: "terminal_count cs = 0 \<longleftrightarrow> \<not> IsJobTerminal cs"
  by (auto simp: terminal_count_def filter_empty_conv IsJobTerminal_iff holds_def)

lemma terminal_count_set: "terminal_count (set_condition cs c) \<le> Suc (terminal_count cs)"
  by (induction cs c rule: set_condition.induct) (auto simp: terminal_count_def)

lemma terminal_count_try:
  assumes "\<not> IsJobTerminal cs"
  shows "terminal_count (fst (TrySetJobTerminal set_condition now cs t st r m)) \<le> 1"
  using terminal_count_set [of cs] terminal_count_open [of cs] assms
  by (auto simp: TrySetJobTerminal_def SetJobCondition_def intro: order_trans)

inductive cluster_write :: "objs \<Rightarrow> objs \<Rightarrow> bool" where
  attempt_status: "j \<in> set js \<Longrightarrow> open_job j \<Longrightarrow> a \<in> set (attempts_of_job j as) \<Longrightarrow> open_attempt a \<Longrightarrow> same_attempt b a \<Longrightarrow>
    cluster_write (js, as) (js, put_attempt b as)"
| launch: "j \<in> set js \<Longrightarrow> open_job j \<Longrightarrow> launched j b \<Longrightarrow> key_free (a_meta b) as \<Longrightarrow> cluster_write (js, as) (js, as @ [b])"
| relaunch: "j \<in> set js \<Longrightarrow> open_job j \<Longrightarrow> retired j as \<Longrightarrow> retry_left j \<Longrightarrow> launched (count_failure j) b \<Longrightarrow>
    key_free (a_meta b) as \<Longrightarrow> cluster_write (js, as) (js, as @ [b])"
| job_end: "j \<in> set js \<Longrightarrow> open_job j \<Longrightarrow> j_meta j' = j_meta j \<Longrightarrow> j_spec j' = j_spec j \<Longrightarrow> \<not> open_job j' \<Longrightarrow>
    terminal_count (job_conditions j') \<le> 1 \<Longrightarrow> cluster_write (js, as) (put_job j' js, as)"
| job_progress: "j \<in> set js \<Longrightarrow> open_job j \<Longrightarrow> j_meta j' = j_meta j \<Longrightarrow> j_spec j' = j_spec j \<Longrightarrow> keeps_count j j' \<Longrightarrow>
    open_job j' \<Longrightarrow> cluster_write (js, as) (put_job j' js, as)"
| job_retry: "j \<in> set js \<Longrightarrow> open_job j \<Longrightarrow> j_meta j' = j_meta j \<Longrightarrow> j_spec j' = j_spec j \<Longrightarrow> retired j as \<Longrightarrow> retry_left j \<Longrightarrow>
    st_failed (j_status j') = i32 (st_failed (j_status j) + 1) \<Longrightarrow> st_completed (j_status j') = st_completed (j_status j) \<Longrightarrow>
    st_active (j_status j') = Some ref \<Longrightarrow> ar_name ref = next_attempt_name (count_failure j) \<Longrightarrow>
    open_job j' \<Longrightarrow> cluster_write (js, as) (put_job j' js, as)"

abbreviation cluster_writes :: "objs \<Rightarrow> objs \<Rightarrow> bool" where "cluster_writes \<equiv> cluster_write\<^sup>*\<^sup>*"

subsection \<open>A pass is a sequence of writes\<close>

abbreviation w_objs :: "cluster world \<Rightarrow> objs" where "w_objs s \<equiv> (w_jobs s, w_atts s)"

lemma writes_same: "same_objects s s' \<Longrightarrow> cluster_writes (w_objs s) (w_objs s')"
  by (simp add: same_objects_def)

lemma next_ordinal_spec_hash [simp]: "next_ordinal (store_spec_hash k j) = next_ordinal j"
  by (simp add: next_ordinal_def)

lemma next_attempt_name_spec_hash [simp]:
  "next_attempt_name (store_spec_hash k j) = next_attempt_name j"
  "next_attempt_name (count_failure (store_spec_hash k j)) = next_attempt_name (count_failure j)"
  by (simp_all add: next_attempt_name_def next_ordinal_def)

lemma launched_spec_hash:
  "launched (store_spec_hash k j) b \<longleftrightarrow> launched j b"
  "launched (count_failure (store_spec_hash k j)) b \<longleftrightarrow> launched (count_failure j) b"
  by (simp_all add: launched_def new_attempt_def next_ordinal_def next_attempt_name_def)

lemma launch_writes:
  assumes "launch_stage job s s'"
    and "\<And>b. launched job b \<Longrightarrow> key_free (a_meta b) (w_atts s) \<Longrightarrow> cluster_write (w_objs s) (w_jobs s, w_atts s @ [b])"
  shows "cluster_writes (w_objs s) (w_objs s')"
  using assms by (auto simp: launch_stage_def)

lemma start_attempt_writes:
  assumes "start_attempt cluster_kube recording now job s = (q, s')" and "job = store_spec_hash k j"
    and "j \<in> set (w_jobs s)" and "open_job j"
  shows "cluster_writes (w_objs s) (w_objs s')"
proof -
  obtain r s1 where c: "createAttempt cluster_kube job s = (r, s1)" by (cases "createAttempt cluster_kube job s")
  note stage = createAttempt_stage [OF c]
  have js: "w_jobs s1 = w_jobs s" using stage by (simp add: launch_stage_def)
  have 1: "cluster_writes (w_objs s) (w_objs s1)"
    using assms(2-4) by (intro launch_writes [of job] cluster_write.launch [of j]) (use stage in \<open>simp_all add: launched_spec_hash\<close>)
  show ?thesis
  proof (cases r)
    case (Inl e)
    with assms(1) c 1 show ?thesis by (simp add: start_attempt_def)
  next
    case (Inr a)
    from assms(1) c Inr obtain f where
      q: "commit_job cluster_kube recording ''update job status to Scheduling'' ''Normal'' ''AttemptCreated''
            (\<lambda>_. created_text a) Requeue (with_status job f) s1 = (q, s')"
      and f: "f = (\<lambda>st. st\<lparr>st_active := Some (attempt_reference a),
                st_conditions := SetJobCondition (k_ssc cluster_kube) now (st_conditions st)
                  JobConditionScheduled CTrue ''AttemptCreated'' (created_text a)\<rparr>)"
      by (simp add: start_attempt_def)
    have "attempt_name a = next_attempt_name j" using stage Inr assms(2) by simp
    with f assms(2,4) have "keeps_count j (with_status job f)" "open_job (with_status job f)"
      by (auto simp: keeps_count_def attempt_reference_def holds_set IsJobTerminal_iff)
    then have "cluster_write (w_jobs s1, w_atts s1) (put_job (with_status job f) (w_jobs s1), w_atts s1)"
      using assms(2-4) js by (intro cluster_write.job_progress [of j]) simp_all
    with commit_job_stage [OF q] 1 show ?thesis by (auto intro: rtranclp.rtrancl_into_rtrancl)
  qed
qed

lemma fail_ownership_writes:
  assumes "fail_ownership cluster_kube recording now job e s = (q, s')" and "job = store_spec_hash k j"
    and "j \<in> set (w_jobs s)" and "open_job j"
  shows "cluster_writes (w_objs s) (w_objs s')"
proof -
  define cs where "cs = fst (TrySetJobTerminal (k_ssc cluster_kube) now (job_conditions job) JobConditionFailed CTrue
    ''OwnershipViolation'' (''stale attempt detected: '' @ ownership_text e))"
  define job' where "job' = with_status job (\<lambda>st. st\<lparr>st_conditions := cs, st_completion := Some now\<rparr>)"
  have nt: "open_job job" using assms(2,4) by simp
  have "\<not> open_job job'"
    using holds_fail(1) [OF cluster_ssc(2) nt] by (simp add: job'_def cs_def IsJobTerminal_iff)
  moreover have "terminal_count (job_conditions job') \<le> 1"
    using terminal_count_try [OF nt] by (simp add: job'_def cs_def)
  ultimately have w: "cluster_write (w_objs s) (put_job job' (w_jobs s), w_atts s)"
    using assms(2-4) by (intro cluster_write.job_end [of j]) (simp_all add: job'_def)
  obtain b where t: "TrySetJobTerminal (k_ssc cluster_kube) now (job_conditions job) JobConditionFailed CTrue
    ''OwnershipViolation'' (''stale attempt detected: '' @ ownership_text e) = (cs, b)"
    by (metis cs_def prod.collapse)
  have b using t TrySetJobTerminal_snd [of "k_ssc cluster_kube" now "job_conditions job"] nt by (metis snd_conv)
  with assms(1) t have "commit_job cluster_kube recording ''update job status after ownership violation'' ''Warning''
      ''OwnershipViolation'' (\<lambda>_. ownership_text e) Finished job' s = (q, s')"
    by (simp add: fail_ownership_def job'_def)
  from commit_job_stage [OF this] w show ?thesis by auto
qed

lemma follow_attempt_writes:
  assumes "follow_attempt cluster_kube recording now job a res s = (q, s')" and "job = store_spec_hash k j"
    and "j \<in> set (w_jobs s)" and "open_job j"
  shows "cluster_writes (w_objs s) (w_objs s')"
proof (cases "at_start (a_status a) = None")
  case True
  with assms(1) show ?thesis by (simp add: follow_attempt_def)
next
  case False
  define job' where "job' = with_status job (\<lambda>st. st
           \<lparr>st_start := (if st_start st = None then Some now else st_start st),
            st_conditions := SetJobCondition (k_ssc cluster_kube) now (st_conditions st)
              JobConditionRunning CTrue ''PodRunning'' ''Job is now running''\<rparr>)"
  have "keeps_count j job'" "open_job job'"
    using assms(2,4) by (simp_all add: job'_def keeps_count_def holds_set IsJobTerminal_iff)
  then have w: "cluster_write (w_objs s) (put_job job' (w_jobs s), w_atts s)"
    using assms(2-4) by (intro cluster_write.job_progress [of j]) (simp_all add: job'_def)
  from assms(1) False have "commit_job cluster_kube recording ''update job to Running'' ''Normal'' ''Running''
      (\<lambda>_. ''Job is now running'') res job' s = (q, s')"
    by (simp add: follow_attempt_def job'_def)
  from commit_job_stage [OF this] w show ?thesis by auto
qed

lemma job_end_commit:
  assumes "commit_job cluster_kube recording what t rs msgf res job' s = (q, s')"
    and "j_meta job' = j_meta j" "j_spec job' = j_spec j" "\<not> open_job job'" "terminal_count (job_conditions job') \<le> 1"
    and "j \<in> set (w_jobs s)" and "open_job j"
  shows "cluster_writes (w_objs s) (w_objs s')"
  using commit_job_stage [OF assms(1)] cluster_write.job_end [OF assms(6,7,2,3,4,5), of "w_atts s"] by auto

lemma succeed_job_writes:
  assumes "succeed_job cluster_kube recording now job s = (q, s')" and "job = store_spec_hash k j"
    and "j \<in> set (w_jobs s)" and "open_job j"
  shows "cluster_writes (w_objs s) (w_objs s')"
  using assms(1) unfolding succeed_job_def
  by (rule job_end_commit [OF _ _ _ _ _ assms(3,4)])
    (use assms(2,4) terminal_count_try holds_complete(1) [OF cluster_ssc(2)] in \<open>simp_all add: IsJobTerminal_iff\<close>)

lemma exhaust_job_writes:
  assumes "exhaust_job cluster_kube recording now (count_failure job) s = (q, s')" and "job = store_spec_hash k j"
    and "j \<in> set (w_jobs s)" and "open_job j"
  shows "cluster_writes (w_objs s) (w_objs s')"
  using assms(1) unfolding exhaust_job_def
  by (rule job_end_commit [OF _ _ _ _ _ assms(3,4)])
    (use assms(2,4) terminal_count_try holds_fail(1) [OF cluster_ssc(2)] in \<open>simp_all add: IsJobTerminal_iff\<close>)

lemma retry_job_writes:
  assumes "retry_job cluster_kube recording now (count_failure job) a s = (q, s')" and "job = store_spec_hash k j"
    and "j \<in> set (w_jobs s)" and "open_job j" and "retired j (w_atts s)" and "retry_left j"
  shows "cluster_writes (w_objs s) (w_objs s')"
proof -
  obtain r s1 where c: "createAttempt cluster_kube (count_failure job) s = (r, s1)"
    by (cases "createAttempt cluster_kube (count_failure job) s")
  note stage = createAttempt_stage [OF c]
  have js: "w_jobs s1 = w_jobs s" and ret: "retired j (w_atts s1)"
    using stage assms(5) by (auto simp: launch_stage_def retired_def attempts_of_job_def)
  have 1: "cluster_writes (w_objs s) (w_objs s1)"
    using assms(2-6) by (intro launch_writes [of "count_failure job"] cluster_write.relaunch [of j])
      (use stage in \<open>simp_all add: launched_spec_hash\<close>)
  show ?thesis
  proof (cases r)
    case (Inl e)
    with assms(1) c 1 show ?thesis by (simp add: retry_job_def)
  next
    case (Inr new)
    define job' where "job' = with_status (count_failure job) (\<lambda>st. st
               \<lparr>st_active := Some (attempt_reference new),
                st_conditions := SetJobCondition (k_ssc cluster_kube) now
                  (SetJobCondition (k_ssc cluster_kube) now (st_conditions st)
                     JobConditionRunning CFalse ''Retrying'' ''Attempt failed, retrying'')
                  JobConditionScheduled CTrue ''Retrying'' (retry_text a new)\<rparr>)"
    from assms(1) c Inr have q: "commit_job cluster_kube recording ''update job for retry'' ''Warning'' ''Retrying''
            (\<lambda>_. retry_text a new) Requeue job' s1 = (q, s')"
      by (simp add: retry_job_def job'_def)
    have "attempt_name new = next_attempt_name (count_failure j)" using stage Inr assms(2) by simp
    then have "cluster_write (w_objs s1) (put_job job' (w_jobs s1), w_atts s1)"
      using assms(2-4,6) js ret
      by (intro cluster_write.job_retry [of j, where ref = "attempt_reference new"])
        (simp_all add: job'_def attempt_reference_def holds_set IsJobTerminal_iff)
    with commit_job_stage [OF q] 1 show ?thesis by (auto intro: rtranclp.rtrancl_into_rtrancl)
  qed
qed

lemma settle_job_writes:
  assumes "settle_job cluster_kube recording now job a s = (q, s')" and "job = store_spec_hash k j"
    and "j \<in> set (w_jobs s)" and "open_job j" and "retired j (w_atts s)"
  shows "cluster_writes (w_objs s) (w_objs s')"
proof -
  consider "succeed_job cluster_kube recording now job s = (q, s')"
    | "exhaust_job cluster_kube recording now (count_failure job) s = (q, s')"
    | "retry_job cluster_kube recording now (count_failure job) a s = (q, s')" "retry_left j"
    using assms(1,2) by (auto simp: settle_job_def Let_def retry_left_def split: if_splits)
  then show ?thesis
  proof cases
    case 1
    then show ?thesis by (rule succeed_job_writes [OF _ assms(2-4)])
  next
    case 2
    then show ?thesis by (rule exhaust_job_writes [OF _ assms(2-4)])
  next
    case 3
    then show ?thesis by (rule retry_job_writes [OF _ assms(2-5)])
  qed
qed

text \<open>Objects are identified by namespace and name.\<close>

abbreviation object_key :: "object_meta \<Rightarrow> string \<times> string" where "object_key m \<equiv> (om_namespace m, om_name m)"

lemma same_key_iff: "same_key m m' \<longleftrightarrow> object_key m' = object_key m"
  by (auto simp: same_key_def has_key_def)

lemma key_free_iff: "key_free m as \<longleftrightarrow> object_key m \<notin> (\<lambda>b. object_key (a_meta b)) ` set as"
  unfolding key_free_def same_key_iff image_iff by metis

lemma distinct_keyD: "distinct (map f xs) \<Longrightarrow> x \<in> set xs \<Longrightarrow> y \<in> set xs \<Longrightarrow> f x = f y \<Longrightarrow> x = y"
  by (auto simp: distinct_map dest: inj_onD)

lemma put_attempt_self:
  assumes "distinct (map (\<lambda>a. object_key (a_meta a)) as)" and "a \<in> set as"
  shows "put_attempt a as = as"
  unfolding put_attempt_def using distinct_keyD [OF assms(1)] assms(2)
  by (intro map_idI) (auto simp: same_key_iff)

lemma put_attempt_mem: "a \<in> set as \<Longrightarrow> a_meta b = a_meta a \<Longrightarrow> b \<in> set (put_attempt b as)"
  by (force simp: put_attempt_def same_key_iff)

lemma retired_put:
  assumes "a \<in> set (attempts_of_job j as)" and "same_attempt b a" and "attempt_name a = next_attempt_name j"
    and "\<not> open_attempt b"
  shows "retired j (put_attempt b as)"
  using put_attempt_mem [of a as b] assms
  by (auto simp: retired_def attempts_of_job_def list_ex_iff same_attempt_def belongs_to_def intro!: bexI [of _ b])

lemma advance_attempt_writes:
  assumes "advance_attempt cluster_kube recording now snap a s = (q, s')" and "js_job snap = store_spec_hash k j"
    and "j \<in> set (w_jobs s)" and "open_job j" and "a \<in> set (attempts_of_job j (w_atts s))"
    and "attempt_name a = next_attempt_name j" and "distinct (map (\<lambda>a. object_key (a_meta a)) (w_atts s))"
  shows "cluster_writes (w_objs s) (w_objs s')"
proof -
  obtain r s1 where c: "ReconcileAttempt cluster_kube now snap a s = (r, s1)"
    by (cases "ReconcileAttempt cluster_kube now snap a s")
  have a: "a \<in> set (w_atts s)" using assms(5) by (simp add: attempts_of_job_def)
  have "attempt_stage a r s s1"
    by (rule ReconcileAttempt_stage [OF c put_attempt_self [OF assms(7) a]])
  then obtain b where js: "w_jobs s1 = w_jobs s" and b: "same_attempt b a"
    and as: "w_atts s1 \<in> {w_atts s, put_attempt b (w_atts s)}"
    and t: "ar_terminal r \<Longrightarrow> \<not> open_attempt b \<and> w_atts s1 = put_attempt b (w_atts s)"
    by (auto simp: attempt_stage_def)
  have 1: "cluster_writes (w_objs s) (w_objs s1)"
  proof (cases "open_attempt a")
    case True
    with cluster_write.attempt_status [OF assms(3-5) True b] js as show ?thesis by auto
  next
    case False
    with c have "s1 = s" by (simp add: ReconcileAttempt_def)
    then show ?thesis by simp
  qed
  consider "s' = s1" | "follow_attempt cluster_kube recording now (js_job snap) (ar_attempt r) (ar_requeue r) s1 = (q, s')"
    | "ar_terminal r" "settle_job cluster_kube recording now (js_job snap) (ar_attempt r) s1 = (q, s')"
    using assms(1) c by (auto simp: advance_attempt_def split: if_splits)
  then have "cluster_writes (w_objs s1) (w_objs s')"
  proof cases
    case 1
    then show ?thesis by simp
  next
    case 2
    then show ?thesis using assms(2-4) js by (intro follow_attempt_writes [of _ _ _ _ _ _ _ _ k j]) simp_all
  next
    case 3
    then have "retired j (w_atts s1)" using retired_put [OF assms(5) b assms(6)] t by simp
    with 3(2) show ?thesis using assms(2-4) js by (intro settle_job_writes [of _ _ _ _ _ _ _ k j]) simp_all
  qed
  with 1 show ?thesis by simp
qed

lemma LoadJobSnapshot_cluster:
  assumes "LoadJobSnapshot cluster_kube ns name s = (r, s')"
  shows "same_objects s s'"
    and "r = Inr (Some snap) \<Longrightarrow> js_job snap \<in> set (w_jobs s) \<and>
      set (js_attempts snap) = set (attempts_of_job (js_job snap) (w_atts s))"
proof -
  let ?job = "k_get_job cluster_kube ns name" and ?as = "k_list_attempts cluster_kube ns (job_selector name)"
    and ?ps = "k_list_pods cluster_kube ns (job_selector name)"
  obtain g s1 where g: "read_world ?job s = (g, s1)" by (cases "read_world ?job s")
  obtain l s2 where l: "read_world ?as s1 = (l, s2)" by (cases "read_world ?as s1")
  obtain p s3 where p: "read_world ?ps s2 = (p, s3)" by (cases "read_world ?ps s2")
  note gw = read_world_result [OF g] and lw = read_world_result [OF l] and pw = read_world_result [OF p]
  have same: "same_objects s s1" "same_objects s1 s2" "same_objects s2 s3"
    using cluster_get_job(1,2) [OF gw] cluster_list_attempts(1,2) [OF lw] cluster_pod_calls(2) [OF pw]
    by (simp_all add: same_objects_def)
  then have all: "same_objects s s1" "same_objects s s2" "same_objects s s3"
    by (auto intro: same_objects_trans)
  have "s' \<in> {s1, s2, s3}"
    using assms unfolding LoadJobSnapshot_def g l p by (auto simp: l p split: sum.splits api_error.splits)
  with all show "same_objects s s'" by auto
  assume "r = Inr (Some snap)"
  then obtain job attempts pods where ok: "g = Inr job" "l = Inr attempts" "p = Inr pods"
    and snap: "js_job snap = job" "js_attempts snap = sort_key attempt_ordinal attempts"
    using assms unfolding LoadJobSnapshot_def g by (auto simp: l p split: sum.splits api_error.splits)
  have job: "job \<in> set (w_jobs s)" "has_key ns name (j_meta job)"
    using find_SomeD [OF cluster_get_job(3) [OF gw ok(1)]] by auto
  have "attempts = filter (\<lambda>a. selected ns (job_selector name) (a_meta a)) (w_atts s)"
    using cluster_list_attempts(3) [OF lw ok(2)] same(1) by (simp add: same_objects_def)
  with job snap show "js_job snap \<in> set (w_jobs s) \<and>
      set (js_attempts snap) = set (attempts_of_job (js_job snap) (w_atts s))"
    by (auto simp: attempts_of_job_def belongs_to_def has_key_def)
qed

text \<open>What a pass needs of the objects it finds.\<close>

definition active_is_next :: "AgentJob \<Rightarrow> bool" where
  "active_is_next j \<longleftrightarrow> (\<forall>ref. st_active (j_status j) = Some ref \<longrightarrow> ar_name ref = next_attempt_name j)"

lemma reconcile_snapshot_writes:
  assumes "reconcile_snapshot cluster_kube recording now snap s = (q, s')" and "j = js_job snap"
    and "j \<in> set (w_jobs s)" and "set (js_attempts snap) = set (attempts_of_job j (w_atts s))"
    and "open_job j \<Longrightarrow> active_is_next j" and "distinct (map (\<lambda>a. object_key (a_meta a)) (w_atts s))"
  shows "cluster_writes (w_objs s) (w_objs s')"
proof (cases "open_job j")
  case False
  with assms(1,2) show ?thesis by (simp add: reconcile_snapshot_def)
next
  case True
  define job where "job = store_spec_hash cluster_kube j"
  define snap' where "snap' = snap\<lparr>js_job := job\<rparr>"
  consider (fence) e where "fail_ownership cluster_kube recording now job e s = (q, s')"
    | (start) "start_attempt cluster_kube recording now job s = (q, s')"
    | (advance) a where "ActiveAttempt snap' = Some a" "advance_attempt cluster_kube recording now snap' a s = (q, s')"
    using assms(1,2) True
    by (auto simp: reconcile_snapshot_def Let_def job_def snap'_def split: option.splits)
  then show ?thesis
  proof cases
    case fence
    then show ?thesis by (rule fail_ownership_writes [OF _ job_def assms(3) True])
  next
    case start
    then show ?thesis by (rule start_attempt_writes [OF _ job_def assms(3) True])
  next
    case (advance a)
    obtain ref where "st_active (j_status job) = Some ref" "attempt_name a = ar_name ref"
      using ActiveAttempt_name [OF advance(1)] by (auto simp: snap'_def)
    with assms(5) True have "attempt_name a = next_attempt_name j" by (simp add: active_is_next_def job_def)
    moreover have "a \<in> set (attempts_of_job j (w_atts s))"
      using ActiveAttempt_mem [OF advance(1)] assms(4) by (simp add: snap'_def)
    ultimately show ?thesis using assms(3,6) True advance(2)
      by (intro advance_attempt_writes [of recording now snap' a s q s' cluster_kube j]) (simp_all add: snap'_def job_def)
  qed
qed

end
