(* ===== verification/ClusterInvariant.thy ===== *)
theory ClusterInvariant
  imports Cluster
begin

text \<open>
  The invariant of a cluster (\<open>Cluster\<close>): the ordinals of a job's attempts follow its
  counters, so at most one of them is not terminal. Every abstract write keeps it; a terminal
  job and its attempts are not written any more; and every event of a run, faults included, is
  a sequence of such writes or adds, edits or removes a job.
\<close>

subsection \<open>The invariant\<close>

text \<open>The attempts of a job carry its name with their ordinal, and its UID. While the job is open, its
  counters say which ordinals exist: every attempt up to the failures counted is terminal, there is
  at most the next one, and one more only when the next one is terminal.\<close>

definition attempt_of :: "AgentJob \<Rightarrow> AgentAttempt \<Rightarrow> bool" where
  "attempt_of j a \<longleftrightarrow> attempt_name a = job_name j @ ''-'' @ show_int (attempt_ordinal a) \<and>
     or_name (as_job_ref (a_spec a)) = job_name j \<and> or_uid (as_job_ref (a_spec a)) = job_uid j"

definition ordinals_ok :: "int \<Rightarrow> AgentAttempt list \<Rightarrow> bool" where
  "ordinals_ok f as \<longleftrightarrow>
     (\<forall>a\<in>set as. 1 \<le> attempt_ordinal a \<and> attempt_ordinal a \<le> f + 2 \<and> (attempt_ordinal a \<le> f \<longrightarrow> \<not> open_attempt a)) \<and>
     ((\<exists>a\<in>set as. attempt_ordinal a = f + 2) \<longrightarrow> (\<exists>a\<in>set as. attempt_ordinal a = f + 1 \<and> \<not> open_attempt a))"

definition open_ok :: "AgentJob \<Rightarrow> AgentAttempt list \<Rightarrow> bool" where
  "open_ok j as \<longleftrightarrow> 0 \<le> st_failed (j_status j) \<and> st_failed (j_status j) < max_i32 \<and> st_completed (j_status j) = 0 \<and>
     active_is_next j \<and> ordinals_ok (st_failed (j_status j)) as"

definition single_active :: "AgentAttempt list \<Rightarrow> bool" where
  "single_active as \<longleftrightarrow> length (filter open_attempt as) \<le> 1"

definition job_ok :: "AgentJob \<Rightarrow> AgentAttempt list \<Rightarrow> bool" where
  "job_ok j as \<longleftrightarrow> spec_ok (j_spec j) \<and> terminal_count (job_conditions j) \<le> 1 \<and> (\<forall>a\<in>set as. attempt_of j a) \<and> (open_job j \<longrightarrow> open_ok j as) \<and> single_active as"

definition cluster_inv :: "objs \<Rightarrow> bool" where
  "cluster_inv o1 \<longleftrightarrow> distinct (map (\<lambda>j. object_key (j_meta j)) (fst o1)) \<and>
     distinct (map (\<lambda>a. object_key (a_meta a)) (snd o1)) \<and>
     (\<forall>a\<in>set (snd o1). \<exists>j\<in>set (fst o1). a \<in> set (attempts_of_job j (snd o1))) \<and>
     (\<forall>j\<in>set (fst o1). job_ok j (attempts_of_job j (snd o1)))"

lemma next_ordinal_open:
  "open_ok j as \<Longrightarrow> next_ordinal j = st_failed (j_status j) + 1"
  by (simp add: open_ok_def next_ordinal_def in_i32_def)

lemma next_ordinal_retry:
  assumes "open_ok j as" and "retry_left j" and "spec_ok (j_spec j)"
  shows "next_ordinal (count_failure j) = st_failed (j_status j) + 2"
    and "i32 (st_failed (j_status j) + 1) = st_failed (j_status j) + 1"
    and "st_failed (j_status j) + 1 < max_i32"
proof -
  have f: "i32 (st_failed (j_status j) + 1) = st_failed (j_status j) + 1"
    using assms(1) by (simp add: open_ok_def in_i32_def)
  with assms(2,3) show "st_failed (j_status j) + 1 < max_i32" by (simp add: retry_left_def spec_ok_def in_i32_def)
  with assms(1) f show "next_ordinal (count_failure j) = st_failed (j_status j) + 2"
    by (simp add: next_ordinal_def open_ok_def in_i32_def)
  show "i32 (st_failed (j_status j) + 1) = st_failed (j_status j) + 1" by (rule f)
qed

lemma mem_attempts_of_job:
  "a \<in> set (attempts_of_job j as) \<longleftrightarrow>
     a \<in> set as \<and> om_namespace (a_meta a) = om_namespace (j_meta j) \<and> om_labels (a_meta a) ''durarun.io/job'' = Some (job_name j)"
  by (auto simp: attempts_of_job_def belongs_to_def selected_def job_selector_def)

lemma attempts_of_job_cong: "j_meta j' = j_meta j \<Longrightarrow> attempts_of_job j' as = attempts_of_job j as"
  by (simp add: attempts_of_job_def)

text \<open>Attempts of one job with one ordinal are one attempt.\<close>

lemma same_ordinal:
  assumes "distinct (map (\<lambda>a. object_key (a_meta a)) as)" and "\<forall>a\<in>set (attempts_of_job j as). attempt_of j a"
    and "a \<in> set (attempts_of_job j as)" and "b \<in> set (attempts_of_job j as)" and "attempt_ordinal a = attempt_ordinal b"
  shows "a = b"
proof (rule distinct_keyD [OF assms(1)])
  show "a \<in> set as" "b \<in> set as" using assms(3,4) by (simp_all add: mem_attempts_of_job)
  have "attempt_of j a" "attempt_of j b" using assms(2-4) by blast+
  with assms(3-5) show "object_key (a_meta a) = object_key (a_meta b)" by (simp add: attempt_of_def mem_attempts_of_job)
qed

lemma at_most_one:
  assumes "distinct xs" and "\<And>x y. x \<in> set xs \<Longrightarrow> y \<in> set xs \<Longrightarrow> x = y"
  shows "length xs \<le> 1"
proof (rule ccontr)
  assume "\<not> length xs \<le> 1"
  then obtain x y ys where xs: "xs = x # y # ys" by (cases xs; cases "tl xs") auto
  then have "x = y" by (intro assms(2)) simp_all
  with xs assms(1) show False by simp
qed

lemma single_active_open:
  assumes "distinct (map (\<lambda>a. object_key (a_meta a)) as)" and "\<forall>a\<in>set (attempts_of_job j as). attempt_of j a"
    and "ordinals_ok f (attempts_of_job j as)"
  shows "single_active (attempts_of_job j as)"
  unfolding single_active_def
proof (rule at_most_one)
  show "distinct (filter open_attempt (attempts_of_job j as))"
    using assms(1) by (simp add: attempts_of_job_def distinct_map)
  fix x y
  assume x: "x \<in> set (filter open_attempt (attempts_of_job j as))" and y: "y \<in> set (filter open_attempt (attempts_of_job j as))"
  have range: "attempt_ordinal a = f + 1 \<or> attempt_ordinal a = f + 2"
    if "a \<in> set (filter open_attempt (attempts_of_job j as))" for a
    using assms(3) that unfolding ordinals_ok_def by force
  have clash: False if a: "a \<in> set (filter open_attempt (attempts_of_job j as))" "attempt_ordinal a = f + 1"
    and b: "b \<in> set (attempts_of_job j as)" "attempt_ordinal b = f + 2" for a b
  proof -
    obtain c where "c \<in> set (attempts_of_job j as)" "attempt_ordinal c = f + 1" "\<not> open_attempt c"
      using assms(3) b unfolding ordinals_ok_def by blast
    with same_ordinal [OF assms(1,2), of a c] a show False by auto
  qed
  have "attempt_ordinal x = attempt_ordinal y"
    using range [OF x] range [OF y] clash [OF x, of y] clash [OF y, of x] x y by auto
  with same_ordinal [OF assms(1,2)] x y show "x = y" by auto
qed

subsection \<open>Every write keeps the invariant\<close>

lemma cluster_invD:
  assumes "cluster_inv (js, as)"
  shows "distinct (map (\<lambda>j. object_key (j_meta j)) js)" and "distinct (map (\<lambda>a. object_key (a_meta a)) as)"
    and "a \<in> set as \<Longrightarrow> \<exists>j\<in>set js. a \<in> set (attempts_of_job j as)"
    and "j \<in> set js \<Longrightarrow> job_ok j (attempts_of_job j as)"
  using assms by (auto simp: cluster_inv_def)

lemma put_job_keys: "j_meta j' = j_meta j \<Longrightarrow>
    map (\<lambda>j. object_key (j_meta j)) (put_job j' js) = map (\<lambda>j. object_key (j_meta j)) js"
  by (auto simp: put_job_def same_key_iff)

lemma put_job_mem: "i \<in> set (put_job j' js) \<Longrightarrow> i = j' \<or> i \<in> set js \<and> object_key (j_meta i) \<noteq> object_key (j_meta j')"
  by (auto simp: put_job_def same_key_iff split: if_splits)

lemma put_job_covers:
  assumes "j_meta j' = j_meta j" and "i \<in> set js"
  shows "\<exists>i'\<in>set (put_job j' js). attempts_of_job i' as = attempts_of_job i as"
proof (rule bexI)
  let ?i = "if same_key (j_meta j') (j_meta i) then j' else i"
  show "?i \<in> set (put_job j' js)" using assms(2) by (auto simp: put_job_def)
  show "attempts_of_job ?i as = attempts_of_job i as" by (auto simp: same_key_iff attempts_of_job_def)
qed

lemma inv_put_job:
  assumes "cluster_inv (js, as)" and "j \<in> set js" and "j_meta j' = j_meta j" and "job_ok j' (attempts_of_job j as)"
  shows "cluster_inv (put_job j' js, as)"
proof -
  note inv = cluster_invD [OF assms(1)]
  have "\<exists>i'\<in>set (put_job j' js). a \<in> set (attempts_of_job i' as)" if a: "a \<in> set as" for a
    using inv(3) [OF a] put_job_covers [OF assms(3)] by metis
  moreover have "job_ok i (attempts_of_job i as)" if i: "i \<in> set (put_job j' js)" for i
    using put_job_mem [OF i] inv(4) [of i] assms(3,4) attempts_of_job_cong [of j' j as] by auto
  ultimately show ?thesis using inv(1,2) put_job_keys [OF assms(3)] by (simp add: cluster_inv_def)
qed

lemma inv_add_attempt:
  assumes "cluster_inv (js, as)" and "j \<in> set js" and "launched j' b" and "j_meta j' = j_meta j"
    and "key_free (a_meta b) as" and "job_ok j (attempts_of_job j as @ [b])"
  shows "cluster_inv (js, as @ [b])"
proof -
  note inv = cluster_invD [OF assms(1)]
  have mine: "attempts_of_job j (as @ [b]) = attempts_of_job j as @ [b]"
    using assms(3,4) by (simp add: attempts_of_job_def belongs_to_def selected_def job_selector_def launched_def)
  have other: "attempts_of_job i (as @ [b]) = attempts_of_job i as" if "i \<in> set js" "i \<noteq> j" for i
  proof -
    have "object_key (j_meta i) \<noteq> object_key (j_meta j)" using distinct_keyD [OF inv(1) that(1) assms(2)] that(2) by blast
    with assms(3,4) show ?thesis
      by (auto simp: attempts_of_job_def belongs_to_def selected_def job_selector_def launched_def)
  qed
  have "job_ok i (attempts_of_job i (as @ [b]))" if "i \<in> set js" for i
    using mine other [OF that] inv(4) [OF that] assms(6) by (cases "i = j") simp_all
  moreover have "\<exists>i\<in>set js. a \<in> set (attempts_of_job i (as @ [b]))" if a: "a \<in> set (as @ [b])" for a
  proof (cases "a = b")
    case True
    then have "a \<in> set (attempts_of_job j (as @ [b]))" unfolding mine by simp
    with assms(2) show ?thesis by blast
  next
    case False
    with a inv(3) [of a] show ?thesis by (auto simp: mem_attempts_of_job)
  qed
  moreover have "object_key (a_meta b) \<notin> (\<lambda>a. object_key (a_meta a)) ` set as"
    using assms(5) by (simp only: key_free_iff not_False_eq_True)
  ultimately show ?thesis using inv(1,2) by (simp add: cluster_inv_def)
qed

lemma filter_map_le:
  "\<forall>x\<in>set xs. P (g x) \<longrightarrow> P x \<Longrightarrow> length (filter P (map g xs)) \<le> length (filter P xs)"
  by (induction xs) auto

lemma job_ok_map:
  assumes "job_ok j xs" and "\<forall>x\<in>set xs. same_attempt (g x) x \<and> (open_attempt (g x) \<longrightarrow> open_attempt x)"
  shows "job_ok j (map g xs)"
proof -
  have "single_active (map g xs)"
    using assms filter_map_le [of xs open_attempt g] unfolding job_ok_def single_active_def by fastforce
  moreover have "\<forall>a\<in>set (map g xs). attempt_of j a"
    using assms by (auto simp: job_ok_def attempt_of_def same_attempt_def)
  moreover have "ordinals_ok f (map g xs)" if "ordinals_ok f xs" for f
    using that assms(2) unfolding ordinals_ok_def same_attempt_def set_map ball_simps bex_simps by (auto 0 3)
  ultimately show ?thesis using assms(1) by (auto simp: job_ok_def open_ok_def)
qed

lemma inv_put_attempt:
  assumes "cluster_inv (js, as)" and "a \<in> set as" and "open_attempt a" and "same_attempt b a"
  shows "cluster_inv (js, put_attempt b as)"
proof -
  note inv = cluster_invD [OF assms(1)]
  define g where "g = (\<lambda>x. if same_key (a_meta b) (a_meta x) then b else x)"
  have g: "same_attempt (g x) x \<and> (open_attempt (g x) \<longrightarrow> open_attempt x)" if "x \<in> set as" for x
  proof (cases "same_key (a_meta b) (a_meta x)")
    case True
    with assms(4) have "object_key (a_meta x) = object_key (a_meta a)" by (simp add: same_key_iff same_attempt_def)
    from distinct_keyD [OF inv(2) that assms(2) this] assms(3,4) True show ?thesis by (simp add: g_def)
  qed (simp add: g_def)
  have put: "put_attempt b as = map g as" by (simp add: put_attempt_def g_def)
  have sub: "attempts_of_job i (map g as) = map g (attempts_of_job i as)" for i
  proof -
    have "filter (\<lambda>x. belongs_to ns n (g x)) as = filter (belongs_to ns n) as" for ns n
      by (rule filter_cong) (use g in \<open>auto simp: belongs_to_def same_attempt_def\<close>)
    then show ?thesis by (simp add: attempts_of_job_def filter_map comp_def)
  qed
  have "map (\<lambda>a. object_key (a_meta a)) (map g as) = map (\<lambda>a. object_key (a_meta a)) as"
    using g by (auto simp: same_attempt_def)
  then have keys: "distinct (map (\<lambda>a. object_key (a_meta a)) (map g as))" using inv(2) by metis
  have "job_ok i (attempts_of_job i (map g as))" if "i \<in> set js" for i
    unfolding sub using inv(4) [OF that] by (rule job_ok_map) (use g in \<open>auto simp: mem_attempts_of_job\<close>)
  moreover have "\<exists>i\<in>set js. x \<in> set (attempts_of_job i (map g as))" if "x \<in> set (map g as)" for x
    using that inv(3) unfolding sub by force
  ultimately show ?thesis using inv(1) keys unfolding cluster_inv_def put fst_conv snd_conv by blast
qed

lemma launched_fresh:
  assumes "launched j' b" and "j_meta j' = j_meta j" and "key_free (a_meta b) as"
    and "\<forall>a\<in>set (attempts_of_job j as). attempt_of j a" and "a \<in> set (attempts_of_job j as)"
  shows "attempt_ordinal a \<noteq> next_ordinal j'"
proof
  assume "attempt_ordinal a = next_ordinal j'"
  with assms(1,2,4,5) have "object_key (a_meta a) = object_key (a_meta b)"
    by (auto simp: attempt_of_def launched_def mem_attempts_of_job next_attempt_name_def)
  with assms(3,5) show False by (auto simp: key_free_def same_key_iff mem_attempts_of_job)
qed

lemma launched_attempt_of: "launched j' b \<Longrightarrow> j_meta j' = j_meta j \<Longrightarrow> attempt_of j b \<and> attempt_ordinal b = next_ordinal j'"
  by (simp add: launched_def attempt_of_def new_attempt_def next_attempt_name_def)

lemma single_active_last: "\<forall>a\<in>set xs. \<not> open_attempt a \<Longrightarrow> single_active (xs @ [b])"
  by (simp add: single_active_def filter_False)

lemma retired_terminal:
  assumes "distinct (map (\<lambda>a. object_key (a_meta a)) as)" and "job_ok j (attempts_of_job j as)" and "open_job j"
    and "retired j as"
  shows "\<exists>r\<in>set (attempts_of_job j as). attempt_ordinal r = st_failed (j_status j) + 1 \<and> \<not> open_attempt r"
    and "\<lbrakk>a \<in> set (attempts_of_job j as); attempt_ordinal a = st_failed (j_status j) + 1\<rbrakk> \<Longrightarrow> \<not> open_attempt a"
proof -
  have all: "\<forall>a\<in>set (attempts_of_job j as). attempt_of j a" and ok: "open_ok j (attempts_of_job j as)"
    using assms(2,3) by (simp_all add: job_ok_def)
  obtain r where r: "r \<in> set (attempts_of_job j as)" "attempt_name r = next_attempt_name j" "\<not> open_attempt r"
    using assms(4) by (auto simp: retired_def list_ex_iff)
  with all have "attempt_ordinal r = next_ordinal j" by (auto simp: attempt_of_def next_attempt_name_def)
  then have ord: "attempt_ordinal r = st_failed (j_status j) + 1" using next_ordinal_open [OF ok] by simp
  with r show "\<exists>r\<in>set (attempts_of_job j as). attempt_ordinal r = st_failed (j_status j) + 1 \<and> \<not> open_attempt r" by blast
  assume "a \<in> set (attempts_of_job j as)" "attempt_ordinal a = st_failed (j_status j) + 1"
  with same_ordinal [OF assms(1) all, of a r] r ord show "\<not> open_attempt a" by simp
qed

lemma launch_ok_job:
  assumes "job_ok j (attempts_of_job j as)" and "open_job j" and "launched j b" and "key_free (a_meta b) as"
  shows "job_ok j (attempts_of_job j as @ [b])"
proof -
  let ?f = "st_failed (j_status j)"
  have all: "\<forall>a\<in>set (attempts_of_job j as). attempt_of j a" and ok: "open_ok j (attempts_of_job j as)"
    using assms(1,2) by (simp_all add: job_ok_def)
  note b = launched_attempt_of [OF assms(3) refl] and ordn = next_ordinal_open [OF ok]
  have fresh: "attempt_ordinal a \<noteq> ?f + 1" if "a \<in> set (attempts_of_job j as)" for a
    using launched_fresh [OF assms(3) refl assms(4) all that] ordn by simp
  have o: "ordinals_ok ?f (attempts_of_job j as)" and f: "0 \<le> ?f" using ok by (simp_all add: open_ok_def)
  have low: "attempt_ordinal a \<le> ?f \<and> \<not> open_attempt a" if "a \<in> set (attempts_of_job j as)" for a
  proof -
    have "attempt_ordinal a \<noteq> ?f + 2" using o fresh that unfolding ordinals_ok_def by blast
    with o fresh [OF that] that show ?thesis unfolding ordinals_ok_def by force
  qed
  with o b ordn f have "ordinals_ok ?f (attempts_of_job j as @ [b])" unfolding ordinals_ok_def by force
  with assms(1) ok b single_active_last [of "attempts_of_job j as" b] low show ?thesis
    by (auto simp: job_ok_def open_ok_def)
qed

lemma relaunch_ok_job:
  assumes "distinct (map (\<lambda>a. object_key (a_meta a)) as)" and "job_ok j (attempts_of_job j as)" and "open_job j"
    and "retired j as" and "retry_left j" and "launched (count_failure j) b" and "key_free (a_meta b) as"
  shows "job_ok j (attempts_of_job j as @ [b])"
proof -
  let ?f = "st_failed (j_status j)"
  have all: "\<forall>a\<in>set (attempts_of_job j as). attempt_of j a" and ok: "open_ok j (attempts_of_job j as)"
    and spec: "spec_ok (j_spec j)" using assms(2,3) by (simp_all add: job_ok_def)
  note b = launched_attempt_of [OF assms(6) count_failure_sel(1)] and ordn = next_ordinal_retry(1) [OF ok assms(5) spec]
  have fresh: "attempt_ordinal a \<noteq> ?f + 2" if "a \<in> set (attempts_of_job j as)" for a
    using launched_fresh [OF assms(6) count_failure_sel(1) assms(7) all that] ordn by simp
  note ret = retired_terminal [OF assms(1-4)]
  have o: "ordinals_ok ?f (attempts_of_job j as)" and f: "0 \<le> ?f" using ok by (simp_all add: open_ok_def)
  have low: "\<not> open_attempt a" if "a \<in> set (attempts_of_job j as)" for a
    using o fresh [OF that] ret(2) [OF that] that unfolding ordinals_ok_def by force
  have "ordinals_ok ?f (attempts_of_job j as @ [b])"
    using o ret(1) b ordn f unfolding ordinals_ok_def set_append by auto
  with assms(2) ok b single_active_last [of "attempts_of_job j as" b] low show ?thesis
    by (auto simp: job_ok_def open_ok_def)
qed

lemma retry_ok_job:
  assumes "distinct (map (\<lambda>a. object_key (a_meta a)) as)" and "job_ok j (attempts_of_job j as)" and "open_job j"
    and "retired j as" and "retry_left j" and "j_meta j' = j_meta j" and "j_spec j' = j_spec j"
    and "st_failed (j_status j') = i32 (st_failed (j_status j) + 1)"
    and "st_completed (j_status j') = st_completed (j_status j)"
    and "st_active (j_status j') = Some ref" and "ar_name ref = next_attempt_name (count_failure j)" and "open_job j'"
  shows "job_ok j' (attempts_of_job j as)"
proof -
  let ?f = "st_failed (j_status j)"
  have all: "\<forall>a\<in>set (attempts_of_job j as). attempt_of j a" and ok: "open_ok j (attempts_of_job j as)"
    and spec: "spec_ok (j_spec j)" using assms(2,3) by (simp_all add: job_ok_def)
  note ordn = next_ordinal_retry [OF ok assms(5) spec] and ret = retired_terminal [OF assms(1-4)]
  have f': "st_failed (j_status j') = ?f + 1" using assms(8) ordn(2) by simp
  have o: "ordinals_ok ?f (attempts_of_job j as)" using ok by (simp add: open_ok_def)
  have "attempt_ordinal a \<le> ?f + 1 \<longrightarrow> \<not> open_attempt a" if "a \<in> set (attempts_of_job j as)" for a
    using o ret(2) [OF that] that unfolding ordinals_ok_def by force
  with o have "ordinals_ok (?f + 1) (attempts_of_job j as)" unfolding ordinals_ok_def by force
  moreover have "next_attempt_name j' = next_attempt_name (count_failure j)"
    using assms(6,8,9) by (simp add: next_attempt_name_def next_ordinal_def)
  ultimately have "open_ok j' (attempts_of_job j as)"
    using ok f' ordn(3) assms(9-11) by (simp add: open_ok_def active_is_next_def)
  moreover have "terminal_count (job_conditions j') = 0" using assms(12) by (simp add: terminal_count_open)
  ultimately show ?thesis using assms(2,6,7) by (simp add: job_ok_def attempt_of_def)
qed

lemma cluster_write_inv: "cluster_write o1 o2 \<Longrightarrow> cluster_inv o1 \<Longrightarrow> cluster_inv o2"
proof (induction rule: cluster_write.induct)
  case (attempt_status j js a as b)
  then have "a \<in> set as" by (simp add: mem_attempts_of_job)
  from inv_put_attempt [OF attempt_status.prems this attempt_status.hyps(4,5)] show ?case .
next
  case (launch j js b as)
  from launch_ok_job [OF cluster_invD(4) [OF launch.prems launch.hyps(1)] launch.hyps(2-4)]
  show ?case by (rule inv_add_attempt [OF launch.prems launch.hyps(1,3) refl launch.hyps(4)])
next
  case (relaunch j js as b)
  note inv = cluster_invD(2,4) [OF relaunch.prems]
  from relaunch_ok_job [OF inv(1) inv(2) [OF relaunch.hyps(1)] relaunch.hyps(2-6)]
  show ?case by (rule inv_add_attempt [OF relaunch.prems relaunch.hyps(1,5) count_failure_sel(1) relaunch.hyps(6)])
next
  case (job_end j js j' as)
  then have "job_ok j' (attempts_of_job j as)"
    using cluster_invD(4) [OF job_end.prems job_end.hyps(1)] by (simp add: job_ok_def attempt_of_def)
  from inv_put_job [OF job_end.prems job_end.hyps(1,3) this] show ?case .
next
  case (job_progress j js j' as)
  have ok: "job_ok j (attempts_of_job j as)" by (rule cluster_invD(4) [OF job_progress.prems job_progress.hyps(1)])
  have "next_attempt_name j' = next_attempt_name j"
    using job_progress.hyps(3,5) by (simp add: keeps_count_def next_attempt_name_def next_ordinal_def)
  moreover have "terminal_count (job_conditions j') = 0" using job_progress.hyps(6) by (simp add: terminal_count_open)
  ultimately have "job_ok j' (attempts_of_job j as)" using ok job_progress.hyps
    by (auto simp: job_ok_def attempt_of_def open_ok_def keeps_count_def active_is_next_def)
  from inv_put_job [OF job_progress.prems job_progress.hyps(1,3) this] show ?case .
next
  case (job_retry j js j' as ref)
  note inv = cluster_invD(2,4) [OF job_retry.prems]
  have "job_ok j' (attempts_of_job j as)"
    by (rule retry_ok_job [OF inv(1) inv(2) [OF job_retry.hyps(1)] job_retry.hyps(2,5,6,3,4,7-11)])
  from inv_put_job [OF job_retry.prems job_retry.hyps(1,3) this] show ?case .
qed

lemma cluster_writes_inv: "cluster_writes o1 o2 \<Longrightarrow> cluster_inv o1 \<Longrightarrow> cluster_inv o2"
  by (induction rule: rtranclp_induct) (auto intro: cluster_write_inv)

text \<open>A terminal job and its attempts are not written any more.\<close>

definition frozen :: "AgentJob \<Rightarrow> AgentAttempt list \<Rightarrow> objs \<Rightarrow> bool" where
  "frozen j xs o1 \<longleftrightarrow> j \<in> set (fst o1) \<and> attempts_of_job j (snd o1) = xs"

lemma put_job_other:
  assumes "distinct (map (\<lambda>j. object_key (j_meta j)) js)" and "i \<in> set js" and "j \<in> set js" and "i \<noteq> j" and "j_meta i' = j_meta i"
  shows "j \<in> set (put_job i' js)"
proof -
  have "\<not> same_key (j_meta i') (j_meta j)"
    using distinct_keyD [OF assms(1-3)] assms(4,5) by (auto simp: same_key_iff)
  with assms(3) show ?thesis by (force simp: put_job_def)
qed

lemma belongs_once:
  assumes "distinct (map (\<lambda>j. object_key (j_meta j)) js)" and "i \<in> set js" and "j \<in> set js" and "i \<noteq> j"
    and "a \<in> set (attempts_of_job i as)"
  shows "\<not> belongs_to (om_namespace (j_meta j)) (job_name j) a"
  using distinct_keyD [OF assms(1-3)] assms(4,5)
  by (auto simp: mem_attempts_of_job belongs_to_def selected_def job_selector_def)

lemma put_attempt_other:
  assumes "\<not> belongs_to ns n b"
  shows "filter (belongs_to ns n) (put_attempt b as) = filter (belongs_to ns n) (filter (\<lambda>x. \<not> same_key (a_meta b) (a_meta x)) as)"
  using assms unfolding put_attempt_def by (induction as) auto

lemma put_attempt_frozen:
  assumes "cluster_inv (js, as)" and "i \<in> set js" and "j \<in> set js" and "i \<noteq> j"
    and "a \<in> set (attempts_of_job i as)" and "same_attempt b a"
  shows "attempts_of_job j (put_attempt b as) = attempts_of_job j as"
proof -
  note inv = cluster_invD [OF assms(1)] and no = belongs_once [OF cluster_invD(1) [OF assms(1)] assms(2-4)]
  have b: "\<not> belongs_to (om_namespace (j_meta j)) (job_name j) b"
    using no [OF assms(5)] assms(6) by (simp add: belongs_to_def same_attempt_def)
  have "\<not> belongs_to (om_namespace (j_meta j)) (job_name j) x" if "x \<in> set as" "same_key (a_meta b) (a_meta x)" for x
  proof -
    have "x = a" using distinct_keyD [OF inv(2) that(1), of a] assms(5,6) that(2)
      by (auto simp: mem_attempts_of_job same_attempt_def same_key_iff)
    with no [OF assms(5)] show ?thesis by simp
  qed
  then have "filter (belongs_to (om_namespace (j_meta j)) (job_name j)) (filter (\<lambda>x. \<not> same_key (a_meta b) (a_meta x)) as) =
      filter (belongs_to (om_namespace (j_meta j)) (job_name j)) as"
    unfolding filter_filter by (intro filter_cong) auto
  with put_attempt_other [OF b] show ?thesis by (simp add: attempts_of_job_def)
qed

lemma add_attempt_frozen:
  assumes "distinct (map (\<lambda>j. object_key (j_meta j)) js)" and "i \<in> set js" and "j \<in> set js" and "i \<noteq> j"
    and "launched i' b" and "j_meta i' = j_meta i"
  shows "attempts_of_job j (as @ [b]) = attempts_of_job j as"
proof -
  have "b \<in> set (attempts_of_job i [b])" using assms(5,6) by (simp add: mem_attempts_of_job launched_def)
  from belongs_once [OF assms(1-4) this] show ?thesis by (simp add: attempts_of_job_def)
qed

lemma cluster_write_frozen:
  assumes "cluster_write o1 o2" and "cluster_inv o1" and "frozen j xs o1" and "\<not> open_job j"
  shows "frozen j xs o2"
  using assms
proof (induction rule: cluster_write.induct)
  case (attempt_status i js a as b)
  then show ?case using put_attempt_frozen [OF attempt_status.prems(1) attempt_status.hyps(1), of j] by (auto simp: frozen_def)
next
  case (launch i js b as)
  then show ?case using add_attempt_frozen [OF cluster_invD(1) [OF launch.prems(1)] launch.hyps(1), of j i b]
    by (auto simp: frozen_def)
next
  case (relaunch i js as b)
  then show ?case
    using add_attempt_frozen [OF cluster_invD(1) [OF relaunch.prems(1)] relaunch.hyps(1), of j "count_failure i" b]
    by (auto simp: frozen_def)
next
  case (job_end i js i' as)
  then show ?case using put_job_other [OF cluster_invD(1) [OF job_end.prems(1)] job_end.hyps(1), of j i'] by (auto simp: frozen_def)
next
  case (job_progress i js i' as)
  then show ?case using put_job_other [OF cluster_invD(1) [OF job_progress.prems(1)] job_progress.hyps(1), of j i']
    by (auto simp: frozen_def)
next
  case (job_retry i js i' as ref)
  then show ?case using put_job_other [OF cluster_invD(1) [OF job_retry.prems(1)] job_retry.hyps(1), of j i']
    by (auto simp: frozen_def)
qed

lemma cluster_writes_frozen:
  assumes "cluster_writes o1 o2" and "cluster_inv o1" and "frozen j xs o1" and "\<not> open_job j"
  shows "frozen j xs o2"
  using assms by (induction rule: rtranclp_induct) (auto intro: cluster_write_frozen cluster_writes_inv)

subsection \<open>Passes and commands keep the invariant\<close>

abbreviation objs_of :: "mem \<Rightarrow> objs" where "objs_of m \<equiv> (m_jobs m, m_attempts m)"

lemma Reconcile_writes:
  assumes "Reconcile cluster_kube recording now ns name s = (q, s')" and "cluster_inv (w_objs s)"
  shows "cluster_writes (w_objs s) (w_objs s')"
proof -
  obtain r s1 where l: "LoadJobSnapshot cluster_kube ns name s = (r, s1)"
    by (cases "LoadJobSnapshot cluster_kube ns name s")
  have same: "w_objs s1 = w_objs s" using LoadJobSnapshot_cluster(1) [OF l] by (simp add: same_objects_def)
  show ?thesis
  proof (cases "\<exists>snap. r = Inr (Some snap)")
    case True
    then obtain snap where r: "r = Inr (Some snap)" by blast
    note snap = LoadJobSnapshot_cluster(2) [OF l r]
    from assms(1) have "reconcile_snapshot cluster_kube recording now snap s1 = (q, s')"
      by (simp add: Reconcile_loaded [OF l [unfolded r]])
    moreover have "active_is_next (js_job snap)" if "open_job (js_job snap)"
      using cluster_invD(4) [OF assms(2), of "js_job snap"] snap that by (simp add: job_ok_def open_ok_def)
    moreover have "distinct (map (\<lambda>a. object_key (a_meta a)) (w_atts s))" by (rule cluster_invD(2) [OF assms(2)])
    ultimately have "cluster_writes (w_objs s1) (w_objs s')"
      using snap same by (intro reconcile_snapshot_writes [of recording now snap s1 q s' "js_job snap"]) auto
    with same show ?thesis by simp
  next
    case False
    with assms(1) l have "s' = s1"
      by (auto simp: Reconcile_def split: sum.splits option.splits)
    with same show ?thesis by simp
  qed
qed

lemma inv_new_job:
  assumes "cluster_inv (js, as)" and "\<forall>i\<in>set js. \<not> same_key (j_meta j) (j_meta i)" and "j_status j = fresh_status"
    and "spec_ok (j_spec j)"
  shows "cluster_inv (js @ [j], as)"
proof -
  note inv = cluster_invD [OF assms(1)]
  have none: "attempts_of_job j as = []"
  proof (rule ccontr)
    assume "attempts_of_job j as \<noteq> []"
    then obtain a where a: "a \<in> set (attempts_of_job j as)" by (cases "attempts_of_job j as") auto
    with inv(3) [of a] obtain i where "i \<in> set js" "a \<in> set (attempts_of_job i as)" by (auto simp: mem_attempts_of_job)
    with a assms(2) show False by (auto simp: mem_attempts_of_job same_key_iff)
  qed
  then have "job_ok j (attempts_of_job j as)"
    using assms(3,4) by (simp add: job_ok_def terminal_count_def open_ok_def fresh_status_def active_is_next_def ordinals_ok_def single_active_def)
  moreover have "object_key (j_meta j) \<notin> (\<lambda>i. object_key (j_meta i)) ` set js"
    using assms(2) unfolding same_key_iff image_iff by metis
  ultimately show ?thesis using inv by (auto simp: cluster_inv_def)
qed

lemma inv_remove_job:
  assumes "cluster_inv (js, as)"
  shows "cluster_inv (filter (\<lambda>i. \<not> has_key ns name (j_meta i)) js, filter (\<lambda>a. \<not> belongs_to ns name a) as)"
proof -
  note inv = cluster_invD [OF assms]
  have keep: "attempts_of_job i (filter (\<lambda>a. \<not> belongs_to ns name a) as) = attempts_of_job i as"
    if "\<not> has_key ns name (j_meta i)" for i
    using that unfolding attempts_of_job_def filter_filter
    by (intro filter_cong refl) (auto simp: belongs_to_def selected_def job_selector_def has_key_def)
  have "\<exists>j\<in>set (filter (\<lambda>i. \<not> has_key ns name (j_meta i)) js). a \<in> set (attempts_of_job j as)"
    if a: "a \<in> set as" "\<not> belongs_to ns name a" for a
  proof -
    obtain j where j: "j \<in> set js" "a \<in> set (attempts_of_job j as)" using inv(3) [OF a(1)] by blast
    with a(2) have "\<not> has_key ns name (j_meta j)"
      by (auto simp: mem_attempts_of_job belongs_to_def selected_def job_selector_def has_key_def)
    with j show ?thesis by auto
  qed
  then have "\<exists>j\<in>set (filter (\<lambda>i. \<not> has_key ns name (j_meta i)) js).
      a \<in> set (attempts_of_job j (filter (\<lambda>a. \<not> belongs_to ns name a) as))"
    if "a \<in> set (filter (\<lambda>a. \<not> belongs_to ns name a) as)" for a
    using that keep by fastforce
  with inv(1,2,4) keep show ?thesis by (simp add: cluster_inv_def distinct_map_filter)
qed

lemma create_job_inv:
  assumes "cluster_inv (objs_of m)" and "spec_ok (j_spec j)"
  shows "cluster_inv (objs_of (snd (create_job j m)))"
proof (cases "list_ex (\<lambda>i. same_key (j_meta j) (j_meta i)) (m_jobs m)")
  case True
  with assms show ?thesis by (simp add: create_job_def)
next
  case False
  then have "\<forall>i\<in>set (m_jobs m). \<not> same_key (stamp (j_meta j)) (j_meta i)"
    by (simp add: list_ex_iff same_key_iff stamp_def)
  with False show ?thesis
    using inv_new_job [OF assms(1), of "j\<lparr>j_meta := stamp (j_meta j), j_status := fresh_status\<rparr>"] assms(2)
    by (simp add: create_job_def Let_def)
qed

lemma remove_job_inv: "cluster_inv (objs_of m) \<Longrightarrow> cluster_inv (objs_of (snd (remove_job ns name m)))"
  by (simp add: remove_job_def inv_remove_job)

lemma api_call_inv:
  assumes "api_call f c = (r, c')" and "cluster_inv (objs_of (cl_mem c))"
    and "\<And>m. cluster_inv (objs_of m) \<Longrightarrow> cluster_inv (objs_of (snd (f m)))"
  shows "cluster_inv (objs_of (cl_mem c'))"
  using assms(1) by (cases rule: api_call_cases) (use assms(2,3) in \<open>simp_all\<close>)

lemma api_do_inv:
  assumes "api_do f c = (r, c')" and "cluster_inv (objs_of (cl_mem c))"
    and "\<And>m. cluster_inv (objs_of m) \<Longrightarrow> cluster_inv (objs_of (snd (f m)))"
  shows "cluster_inv (objs_of (cl_mem c'))"
proof -
  let ?g = "\<lambda>m. case f m of (None, m) \<Rightarrow> (Inr (), m) | (Some e, m) \<Rightarrow> (Inl e, m)"
  obtain q where q: "api_call ?g c = (q, c')" using api_do_call [OF assms(1)] by blast
  have "snd (?g m) = snd (f m)" for m by (auto split: prod.split option.split)
  with api_call_inv [OF q assms(2)] assms(3) show ?thesis by simp
qed

text \<open>The commands: \<open>submit\<close> adds a job, \<open>delete\<close> removes one, \<open>cancel\<close> ends one, the others only read.\<close>

lemma connect_sel [simp]:
  "ac_kube (connect ac) = cluster_kube" "ac_create_job (connect ac) = (\<lambda>j. api_call (create_job j))"
  "ac_delete_job (connect ac) = (\<lambda>ns name. api_do (remove_job ns name))"
  "ac_list_jobs (connect ac) = (\<lambda>ns. api_call (\<lambda>m. (Inr (filter (\<lambda>j. om_namespace (j_meta j) = ns) (m_jobs m)), m)))"
  "ac_read_file (connect ac) = ac_read_file ac" "ac_decode (connect ac) = ac_decode ac"
  "ac_clock (connect ac) = ac_clock ac"
  by (simp_all add: connect_def)

lemma cmdSubmit_inv:
  assumes "cmdSubmit (connect ac) args c = (r, c')" and "cluster_inv (objs_of (cl_mem c))"
    and "event_ok (Command ac args' ts)"
  shows "cluster_inv (objs_of (cl_mem c'))"
proof -
  have "c' = c \<or> (\<exists>job q. spec_ok (j_spec job) \<and> api_call (create_job job) c = (q, c'))"
    using assms(1,3) by (fastforce simp: cmdSubmit_def Let_def split: sum.splits prod.splits if_splits)
  then show ?thesis using assms(2) by (auto dest: api_call_inv intro: create_job_inv)
qed

lemma cmdDelete_inv:
  assumes "cmdDelete (connect ac) args c = (r, c')" and "cluster_inv (objs_of (cl_mem c))"
  shows "cluster_inv (objs_of (cl_mem c'))"
proof -
  have "c' = c \<or> (\<exists>ns name q. api_do (remove_job ns name) c = (q, c'))"
    using assms(1) by (auto simp: cmdDelete_def split: option.splits prod.splits list.splits)
  then show ?thesis using assms(2) by (auto dest: api_do_inv intro: remove_job_inv)
qed

lemma delete_active_pod_objects:
  assumes "delete_active_pod (connect ac) ns active c = (r, c')"
  shows "jobs_of c' = jobs_of c \<and> atts_of c' = atts_of c"
proof (cases active)
  case None
  with assms show ?thesis by (simp add: delete_active_pod_def)
next
  case (Some ref)
  obtain g c1 where g: "k_get_attempt cluster_kube ns (ar_name ref) c = (g, c1)"
    by (cases "k_get_attempt cluster_kube ns (ar_name ref) c")
  have "c' = c1 \<or> (\<exists>p d. k_delete_pod cluster_kube p c1 = (d, c'))"
    using assms Some g by (auto simp: delete_active_pod_def Let_def split: sum.splits option.splits prod.splits if_splits)
  with cluster_get_attempt(1,2) [OF g] show ?thesis by (auto dest: cluster_pod_calls(4))
qed

lemma cancel_write:
  assumes "cluster_inv (js, as)" and "j \<in> set js" and "open_job j"
  shows "cluster_inv (put_job (cancelled now j) js, as)"
proof -
  have "cluster_write (js, as) (put_job (cancelled now j) js, as)"
    using assms(2,3) terminal_count_open [of "job_conditions j"]
    by (intro cluster_write.job_end [of j]) (simp_all add: terminal_count_def)
  then show ?thesis using assms(1) by (rule cluster_write_inv)
qed

lemma cmdCancel_inv:
  assumes "cmdCancel (connect ac) args c = (r, c')" and "cluster_inv (objs_of (cl_mem c))"
  shows "cluster_inv (objs_of (cl_mem c'))"
proof (cases "fst (parseArgs args)")
  case Nil
  with assms show ?thesis by (auto simp: cmdCancel_def split: prod.splits)
next
  case (Cons name others)
  then obtain ns where a: "parseArgs args = (name # others, ns)" by (cases "parseArgs args") auto
  obtain g c1 where g: "k_get_job cluster_kube ns name c = (g, c1)" by (cases "k_get_job cluster_kube ns name c")
  have inv1: "cluster_inv (objs_of (cl_mem c1))" using cluster_get_job(1,2) [OF g] assms(2) by simp
  show ?thesis
  proof (cases g)
    case (Inl e)
    with assms(1) a g inv1 show ?thesis by (simp add: cmdCancel_def)
  next
    case (Inr job)
    show ?thesis
    proof (cases "open_job job")
      case False
      then have "c' = c1" using assms(1) a g Inr cancel_refuses_iff [of "job_conditions job"]
        by (simp add: cmdCancel_def Let_def)
      with inv1 show ?thesis by simp
    next
      case True
      have mem: "job \<in> set (jobs_of c1)" using find_SomeD [OF cluster_get_job(3) [OF g Inr]] cluster_get_job(1) [OF g] by simp
      obtain u c2 where u: "k_update_job_status cluster_kube (cancelled (ac_clock ac) job) c1 = (u, c2)"
        by (cases "k_update_job_status cluster_kube (cancelled (ac_clock ac) job) c1")
      have inv2: "cluster_inv (objs_of (cl_mem c2))"
        using cluster_update_job(1,2) [OF u] inv1 cancel_write [OF inv1 mem True] by auto
      have "c' = c2 \<or> (\<exists>active d. delete_active_pod (connect ac) ns active c2 = (d, c'))"
        using assms(1) a g Inr u True cancel_refuses_iff [of "job_conditions job"]
        by (auto simp: cmdCancel_def Let_def split: sum.splits prod.splits)
      with inv2 show ?thesis by (auto dest: delete_active_pod_objects)
    qed
  qed
qed

lemma cmdGet_inv:
  assumes "cmdGet (connect ac) args c = (r, c')" and "cluster_inv (objs_of (cl_mem c))"
  shows "cluster_inv (objs_of (cl_mem c'))"
proof -
  have "\<exists>q. api_call (\<lambda>m. (Inr (filter (\<lambda>j. om_namespace (j_meta j) = snd (parseArgs args)) (m_jobs m)), m)) c = (q, c')"
    using assms(1) by (auto simp: cmdGet_def split: sum.splits prod.splits)
  then show ?thesis using assms(2) by (auto dest: api_call_inv)
qed

lemma cmdDescribe_inv:
  assumes "cmdDescribe (connect ac) args c = (r, c')" and "cluster_inv (objs_of (cl_mem c))"
  shows "cluster_inv (objs_of (cl_mem c'))"
proof (cases "fst (parseArgs args)")
  case Nil
  with assms show ?thesis by (auto simp: cmdDescribe_def split: prod.splits)
next
  case (Cons name others)
  then obtain ns where a: "parseArgs args = (name # others, ns)" by (cases "parseArgs args") auto
  obtain g c1 where g: "k_get_job cluster_kube ns name c = (g, c1)" by (cases "k_get_job cluster_kube ns name c")
  obtain l c2 where l: "k_list_attempts cluster_kube ns [] c1 = (l, c2)" by (cases "k_list_attempts cluster_kube ns [] c1")
  have "c' = c1 \<or> c' = c2" using assms(1) a g l by (auto simp: cmdDescribe_def split: sum.splits)
  with cluster_get_job(1,2) [OF g] cluster_list_attempts(1,2) [OF l] assms(2) show ?thesis by auto
qed

lemma agentctl_main_inv:
  assumes "cluster_inv (objs_of (cl_mem c))" and "event_ok (Command ac args ts)"
  shows "cluster_inv (objs_of (cl_mem (snd (agentctl_main (connect ac) args c))))"
proof -
  note cmds = cmdSubmit_inv [OF prod.collapse [symmetric] assms(1), of ac] cmdGet_inv [OF prod.collapse [symmetric] assms(1)]
    cmdDescribe_inv [OF prod.collapse [symmetric] assms(1)] cmdDelete_inv [OF prod.collapse [symmetric] assms(1)]
    cmdCancel_inv [OF prod.collapse [symmetric] assms(1)]
  have "event_ok (Command ac rest ts)" for rest using assms(2) by simp
  with cmds assms(1) show ?thesis
    by (auto simp: agentctl_main_def split: list.split option.split)
qed

lemma edit_inv:
  assumes "cluster_inv (js, as)" and "spec_ok spec"
  shows "cluster_inv (map (\<lambda>j. if has_key ns name (j_meta j) then j\<lparr>j_spec := spec\<rparr> else j) js, as)"
proof -
  note inv = cluster_invD [OF assms(1)]
  define g :: "AgentJob \<Rightarrow> AgentJob" where "g = (\<lambda>j. if has_key ns name (j_meta j) then j\<lparr>j_spec := spec\<rparr> else j)"
  have sel: "j_meta (g j) = j_meta j" "j_status (g j) = j_status j" "spec_ok (j_spec j) \<Longrightarrow> spec_ok (j_spec (g j))" for j
    using assms(2) by (simp_all add: g_def)
  have att: "attempts_of_job (g j) as = attempts_of_job j as" for j by (rule attempts_of_job_cong) (rule sel)
  have "next_attempt_name (g j) = next_attempt_name j" for j
    by (simp add: next_attempt_name_def next_ordinal_def sel)
  then have "job_ok (g j) xs" if "job_ok j xs" for j xs
    using that by (auto simp: job_ok_def open_ok_def active_is_next_def attempt_of_def sel)
  then have "cluster_inv (map g js, as)"
    using inv att sel(1) by (auto simp: cluster_inv_def comp_def)
  then show ?thesis by (simp add: g_def)
qed

lemma cluster_step_inv:
  assumes "cluster_inv (objs_of m)" and "event_ok e"
  shows "cluster_inv (objs_of (cluster_step m e))"
proof (cases e)
  case (ReconcilePass now recording ns name ts)
  let ?s = "(\<lparr>cl_mem = m, cl_turns = ts\<rparr>, []) :: cluster world"
  obtain q s' where r: "Reconcile cluster_kube recording now ns name ?s = (q, s')"
    by (cases "Reconcile cluster_kube recording now ns name ?s")
  from assms(1) have inv: "cluster_inv (w_objs ?s)" by simp
  from cluster_writes_inv [OF Reconcile_writes [OF r inv] inv] r ReconcilePass show ?thesis by simp
next
  case (Command ac args ts)
  with assms agentctl_main_inv [of "\<lparr>cl_mem = m, cl_turns = ts\<rparr>" ac args ts] show ?thesis by simp
next
  case (EditSpec ns name spec)
  with assms edit_inv show ?thesis by simp
next
  case (PodsChange ps)
  with assms(1) show ?thesis by simp
qed

definition guarded_step :: "mem \<Rightarrow> cluster_event \<Rightarrow> mem" where
  "guarded_step m e = (if event_ok e then cluster_step m e else m)"

lemma guarded_run: "list_all event_ok es \<Longrightarrow> foldl guarded_step m es = foldl cluster_step m es"
  by (induction es arbitrary: m) (simp_all add: guarded_step_def)

interpretation cluster: invariant_machine guarded_step "\<lambda>m. cluster_inv (objs_of m)"
  by unfold_locales (simp add: guarded_step_def cluster_step_inv)

lemma cluster_run_inv:
  assumes "cluster_inv (objs_of m)" and "list_all event_ok es"
  shows "cluster_inv (objs_of (foldl cluster_step m es))"
  using cluster.run_inv [OF assms(1), of es] by (simp add: guarded_run [OF assms(2)])

lemma empty_cluster_inv: "cluster_inv (objs_of empty_cluster)"
  by (simp add: cluster_inv_def empty_cluster_def)

text \<open>What the controller and the Pods do on their own.\<close>

fun unattended :: "cluster_event \<Rightarrow> bool" where
  "unattended (ReconcilePass now recording ns name ts) \<longleftrightarrow> True"
| "unattended (PodsChange ps) \<longleftrightarrow> True"
| "unattended e \<longleftrightarrow> False"

lemma unattended_step:
  assumes "unattended e" and "cluster_inv (objs_of m)"
  shows "cluster_writes (objs_of m) (objs_of (cluster_step m e))"
proof (cases e)
  case (ReconcilePass now recording ns name ts)
  let ?s = "(\<lparr>cl_mem = m, cl_turns = ts\<rparr>, []) :: cluster world"
  obtain q s' where r: "Reconcile cluster_kube recording now ns name ?s = (q, s')"
    by (cases "Reconcile cluster_kube recording now ns name ?s")
  with Reconcile_writes [OF r] assms(2) ReconcilePass show ?thesis by simp
qed (use assms in auto)

lemma unattended_run:
  assumes "list_all unattended es" and "cluster_inv (objs_of m)"
  shows "cluster_writes (objs_of m) (objs_of (foldl cluster_step m es))"
  using assms
proof (induction es arbitrary: m)
  case (Cons e es)
  then have step: "cluster_writes (objs_of m) (objs_of (cluster_step m e))" by (simp add: unattended_step)
  with Cons have "cluster_writes (objs_of (cluster_step m e)) (objs_of (foldl cluster_step (cluster_step m e) es))"
    by (intro Cons.IH) (auto intro: cluster_writes_inv)
  with step show ?case by simp
qed simp

end
