(* ===== verification/ScenarioChecks.thy ===== *)
theory ScenarioChecks
  imports ClusterInvariant
begin

text \<open>
  The invariant checks of the end-to-end framework (\<open>test/e2e/invariant_evaluator.go\<close>), as
  predicates: whether a check passes on the objects it lists. A failing list call fails the
  check and is left out. The groups of \<open>MonotonicOrdinals\<close> are taken in some order of a Go
  map, which does not matter for whether a group fails. \<open>TerminalImmutability\<close> reconciles
  as it goes, so it is a function of the cluster.
\<close>

definition SingleActiveAttemptInvariant :: "AgentAttempt list \<Rightarrow> bool" where
  "SingleActiveAttemptInvariant as \<longleftrightarrow> length (filter open_attempt as) \<le> 1"

definition group_key :: "AgentAttempt \<Rightarrow> string \<times> string" where
  "group_key a = (om_namespace (a_meta a), or_name (as_job_ref (a_spec a)))"

fun increasing :: "int list \<Rightarrow> bool" where
  "increasing (x # y # zs) \<longleftrightarrow> x < y \<and> increasing (y # zs)"
| "increasing _ \<longleftrightarrow> True"

definition MonotonicOrdinalsInvariant :: "AgentAttempt list \<Rightarrow> bool" where
  "MonotonicOrdinalsInvariant as \<longleftrightarrow>
     list_all (\<lambda>k. increasing (map attempt_ordinal (filter (\<lambda>a. group_key a = k) as))) (remdups (map group_key as))"

text \<open>The UIDs are kept by job name: a later job of the list replaces an earlier one.\<close>

definition job_uids :: "AgentJob list \<Rightarrow> string \<Rightarrow> string option" where
  "job_uids js = map_of (rev (map (\<lambda>j. (job_name j, job_uid j)) js))"

definition UIDConsistencyInvariant :: "AgentJob list \<Rightarrow> AgentAttempt list \<Rightarrow> bool" where
  "UIDConsistencyInvariant js as \<longleftrightarrow>
     list_all (\<lambda>a. case job_uids js (or_name (as_job_ref (a_spec a))) of
                     None \<Rightarrow> True | Some u \<Rightarrow> or_uid (as_job_ref (a_spec a)) = u) as"

definition AtMostOneTerminalInvariant :: "AgentJob list \<Rightarrow> bool" where
  "AtMostOneTerminalInvariant js \<longleftrightarrow> list_all (\<lambda>j. terminal_count (job_conditions j) \<le> 1) js"

text \<open>Two passes without faults, and the job as it is read afterwards.\<close>

definition reconcile_once :: "instant \<Rightarrow> AgentJob \<Rightarrow> mem \<Rightarrow> mem" where
  "reconcile_once now j m = cluster_step m (ReconcilePass now True (om_namespace (j_meta j)) (job_name j) [])"

definition stays_terminal :: "AgentJob \<Rightarrow> mem \<Rightarrow> bool" where
  "stays_terminal j m \<longleftrightarrow>
     (case find (\<lambda>i. has_key (om_namespace (j_meta j)) (job_name j) (j_meta i)) (m_jobs m) of
        None \<Rightarrow> False
      | Some i \<Rightarrow> holds JobConditionComplete (job_conditions i) = holds JobConditionComplete (job_conditions j) \<and>
                  holds JobConditionFailed (job_conditions i) = holds JobConditionFailed (job_conditions j))"

fun TerminalImmutabilityInvariant :: "instant \<Rightarrow> AgentJob list \<Rightarrow> mem \<Rightarrow> bool" where
  "TerminalImmutabilityInvariant now [] m \<longleftrightarrow> True"
| "TerminalImmutabilityInvariant now (j # js) m \<longleftrightarrow>
     (if open_job j then TerminalImmutabilityInvariant now js m
      else let m = reconcile_once now j (reconcile_once now j m)
        in stays_terminal j m \<and> TerminalImmutabilityInvariant now js m)"

subsection \<open>The checks on clusters that keep the invariant\<close>

lemma inv_single_job:
  assumes "cluster_inv ([j], as)"
  shows "SingleActiveAttemptInvariant as"
proof -
  have "attempts_of_job j as = as"
    using cluster_invD(3) [OF assms] unfolding attempts_of_job_def by (intro filter_True) (auto simp: attempts_of_job_def)
  with cluster_invD(4) [OF assms, of j] show ?thesis by (simp add: SingleActiveAttemptInvariant_def job_ok_def single_active_def)
qed

lemma inv_uids:
  assumes "cluster_inv (js, as)" and "distinct (map job_name js)"
  shows "UIDConsistencyInvariant js as"
proof -
  have "or_uid (as_job_ref (a_spec a)) = u"
    if a: "a \<in> set as" and u: "job_uids js (or_name (as_job_ref (a_spec a))) = Some u" for a u
  proof -
    obtain j where j: "j \<in> set js" "a \<in> set (attempts_of_job j as)" using cluster_invD(3) [OF assms(1) a] by blast
    then have at: "attempt_of j a" using cluster_invD(4) [OF assms(1) j(1)] by (simp add: job_ok_def)
    obtain i where i: "i \<in> set js" "job_name i = or_name (as_job_ref (a_spec a))" "u = job_uid i"
      using map_of_SomeD [OF u [unfolded job_uids_def]] by auto
    with at have "i = j" using distinct_keyD [OF assms(2) i(1) j(1)] by (simp add: attempt_of_def)
    with at i show ?thesis by (simp add: attempt_of_def)
  qed
  then show ?thesis by (auto simp: UIDConsistencyInvariant_def list_all_iff split: option.split)
qed

lemma inv_terminal_once: "cluster_inv (js, as) \<Longrightarrow> AtMostOneTerminalInvariant js"
  using cluster_invD(4) [of js as] by (auto simp: AtMostOneTerminalInvariant_def list_all_iff job_ok_def)

lemma reconcile_once_writes: "cluster_inv (objs_of m) \<Longrightarrow> cluster_writes (objs_of m) (objs_of (reconcile_once now j m))"
  unfolding reconcile_once_def by (rule unattended_step) simp_all

lemma inv_terminal_immutable:
  assumes "cluster_inv (objs_of m)" and "\<And>j. j \<in> set js \<Longrightarrow> \<not> open_job j \<Longrightarrow> j \<in> set (m_jobs m)"
  shows "TerminalImmutabilityInvariant now js m"
  using assms
proof (induction now js m rule: TerminalImmutabilityInvariant.induct)
  case (2 now j js m)
  show ?case
  proof (cases "open_job j")
    case True
    with 2 show ?thesis by simp
  next
    case False
    define m' where "m' = reconcile_once now j (reconcile_once now j m)"
    have w: "cluster_writes (objs_of m) (objs_of m')"
      unfolding m'_def using reconcile_once_writes [OF "2.prems"(1)] cluster_writes_inv [OF _ "2.prems"(1)]
      by (blast intro: reconcile_once_writes rtranclp_trans)
    have inv': "cluster_inv (objs_of m')" by (rule cluster_writes_inv [OF w "2.prems"(1)])
    have keep: "i \<in> set (m_jobs m')" if "i \<in> set (j # js)" "\<not> open_job i" for i
      using cluster_writes_frozen [OF w "2.prems"(1), of i "attempts_of_job i (m_attempts m)"] "2.prems"(2) [OF that] that(2)
      by (simp add: frozen_def)
    then have j: "j \<in> set (m_jobs m')" using False by simp
    have "find (\<lambda>i. has_key (om_namespace (j_meta j)) (job_name j) (j_meta i)) (m_jobs m') = Some j"
    proof -
      obtain i where i: "find (\<lambda>i. has_key (om_namespace (j_meta j)) (job_name j) (j_meta i)) (m_jobs m') = Some i"
        using j by (metis (no_types, lifting) find_None_iff has_key_def not_None_eq)
      with find_SomeD [OF i] j have "i = j"
        using distinct_keyD [OF cluster_invD(1) [OF inv'], of i j] by (simp add: has_key_def)
      with i show ?thesis by simp
    qed
    then have "stays_terminal j m'" by (simp add: stays_terminal_def)
    moreover have "TerminalImmutabilityInvariant now js m'"
      using "2.IH"(2) [OF _ m'_def] False inv' keep by simp
    ultimately show ?thesis using False by (simp add: Let_def m'_def)
  qed
qed simp

end
