(* ===== verification/Scenarios.thy ===== *)
theory Scenarios
  imports ScenarioChecks
begin

text \<open>
  The scenarios of the end-to-end framework (\<open>test/e2e\<close>): the objects of the fake client, the
  helpers that reconcile, and the faults that are injected. The fake client keeps the objects it is
  given; \<open>Update\<close> keeps the stored status of a job and answers with it, since the status is a
  subresource. What follows relates the faults to the cluster of the other theories: all but one
  keep its invariant, so the checks of the framework pass after them.
\<close>

datatype fault_error = Fault gerr | Message string

type_synonym scenario_op = "mem \<Rightarrow> fault_error option \<times> mem"

abbreviation wrapped_fault :: "string \<Rightarrow> api_error \<Rightarrow> fault_error option" where
  "wrapped_fault what e \<equiv> Some (Fault (Wrapped what (ApiErr e)))"

subsection \<open>The fake client\<close>

definition read_job :: "string \<Rightarrow> string \<Rightarrow> mem \<Rightarrow> api_error + AgentJob" where
  "read_job ns name m = (case find (\<lambda>j. has_key ns name (j_meta j)) (m_jobs m) of None \<Rightarrow> Inl NotFound | Some j \<Rightarrow> Inr j)"

definition read_pod :: "string \<Rightarrow> string \<Rightarrow> mem \<Rightarrow> api_error + pod" where
  "read_pod ns name m = (case find (\<lambda>p. has_key ns name (p_meta p)) (m_pods m) of None \<Rightarrow> Inl NotFound | Some p \<Rightarrow> Inr p)"

definition put_pod :: "pod \<Rightarrow> pod list \<Rightarrow> pod list" where
  "put_pod p ps = map (\<lambda>q. if same_key (p_meta p) (p_meta q) then p else q) ps"

text \<open>\<open>Status().Update\<close> of a Pod or a job that was just read.\<close>

definition update_pod :: "pod \<Rightarrow> scenario_op" where
  "update_pod p m =
     (if list_ex (\<lambda>q. same_key (p_meta p) (p_meta q)) (m_pods m) then (None, m\<lparr>m_pods := put_pod p (m_pods m)\<rparr>)
      else (Some (Fault (ApiErr NotFound)), m))"

definition update_job_state :: "AgentJob \<Rightarrow> scenario_op" where
  "update_job_state j m =
     (if list_ex (\<lambda>i. same_key (j_meta j) (j_meta i)) (m_jobs m)
      then (None, m\<lparr>m_jobs := map (\<lambda>i. if same_key (j_meta j) (j_meta i) then i\<lparr>j_status := j_status j\<rparr> else i) (m_jobs m)\<rparr>)
      else (Some (Fault (ApiErr NotFound)), m))"

text \<open>\<open>Update\<close> of a job: the answer carries the status that is stored.\<close>

definition update_job :: "AgentJob \<Rightarrow> mem \<Rightarrow> (api_error + AgentJob) \<times> mem" where
  "update_job j m =
     (case find (\<lambda>i. same_key (j_meta j) (j_meta i)) (m_jobs m) of
        None \<Rightarrow> (Inl NotFound, m)
      | Some i \<Rightarrow> (Inr (j\<lparr>j_status := j_status i\<rparr>), m\<lparr>m_jobs := put_job (j\<lparr>j_status := j_status i\<rparr>) (m_jobs m)\<rparr>))"

definition add_attempt :: "AgentAttempt \<Rightarrow> mem \<Rightarrow> api_error option \<times> mem" where
  "add_attempt a m =
     (if list_ex (\<lambda>b. same_key (a_meta a) (a_meta b)) (m_attempts m) then (Some AlreadyExists, m)
      else (None, m\<lparr>m_attempts := m_attempts m @ [a]\<rparr>))"

definition add_pod :: "pod \<Rightarrow> mem \<Rightarrow> api_error option \<times> mem" where
  "add_pod p m =
     (if list_ex (\<lambda>q. same_key (p_meta p) (p_meta q)) (m_pods m) then (Some AlreadyExists, m)
      else (None, m\<lparr>m_pods := m_pods m @ [p]\<rparr>))"

subsection \<open>scenario.go\<close>

definition NewJob :: "string \<Rightarrow> string \<Rightarrow> int \<Rightarrow> AgentJob" where
  "NewJob name ns maxAttempts =
     \<lparr>j_meta = \<lparr>om_name = name, om_generate_name = [], om_namespace = ns, om_uid = ''uid-'' @ name, om_labels = Map.empty,
        om_annotations = Map.empty, om_owners = [], om_finalizers = [], om_deletion = None\<rparr>,
      j_spec = \<lparr>js_runtime = \<lparr>rt_image = ''agent:latest'', rt_command = [''/bin/agent''], rt_args = [], rt_env = [],
          rt_resources = \<lparr>rr_requests = Map.empty, rr_limits = Map.empty\<rparr>\<rparr>,
        js_execution = \<lparr>ex_timeout = None, ex_max_attempts = maxAttempts, ex_backoff_limit = None,
          ex_active_deadline = None, ex_ttl = None\<rparr>,
        js_checkpoint = \<lparr>cp_enabled = False, cp_interval = 0, cp_storage = []\<rparr>\<rparr>,
      j_status = fresh_status\<rparr>"

definition ReconcileOnce :: "instant \<Rightarrow> string \<Rightarrow> string \<Rightarrow> mem \<Rightarrow> reconcile_result \<times> mem" where
  "ReconcileOnce now name ns m =
     (case Reconcile cluster_kube True now ns name (\<lparr>cl_mem = m, cl_turns = []\<rparr>, []) of (r, s) \<Rightarrow> (r, cl_mem (fst s)))"

text \<open>The loop of \<open>ReconcileN\<close> from iteration \<open>i\<close>, \<open>n\<close> iterations left.\<close>

fun reconcile_from :: "instant \<Rightarrow> string \<Rightarrow> string \<Rightarrow> nat \<Rightarrow> nat \<Rightarrow> scenario_op" where
  "reconcile_from now name ns i 0 m = (None, m)"
| "reconcile_from now name ns i (Suc n) m =
     (case ReconcileOnce now name ns m of
        ((res, Some e), m) \<Rightarrow> (Some (Fault (Wrapped (''reconcile iteration '' @ show_nat i) e)), m)
      | ((res, None), m) \<Rightarrow>
          if res = Finished \<or> res = RequeueAfter 0 then (None, m) else reconcile_from now name ns (Suc i) n m)"

definition ReconcileN :: "instant \<Rightarrow> string \<Rightarrow> string \<Rightarrow> nat \<Rightarrow> scenario_op" where
  "ReconcileN now name ns n = reconcile_from now name ns 0 n"

text \<open>The loop of \<open>ReconcileUntilPhase\<close>; the names of phases have no character that \<open>%q\<close> escapes.\<close>

fun until_phase :: "instant \<Rightarrow> string \<Rightarrow> string \<Rightarrow> string \<Rightarrow> nat \<Rightarrow> nat \<Rightarrow> nat \<Rightarrow> scenario_op" where
  "until_phase now name ns phase maxIter i 0 m =
     (Some (Message (''job '' @ name @ '' did not reach phase '' @ [CHR 0x22] @ phase @ [CHR 0x22] @ '' within '' @
        show_nat maxIter @ '' iterations'')), m)"
| "until_phase now name ns phase maxIter i (Suc n) m =
     (case read_job ns name m of
        Inl e \<Rightarrow> (wrapped_fault ''get job'' e, m)
      | Inr job \<Rightarrow>
          if JobPhaseFromConditions (job_conditions job) = phase then (None, m)
          else (case ReconcileOnce now name ns m of
                  ((res, Some e), m) \<Rightarrow> (Some (Fault (Wrapped (''reconcile iteration '' @ show_nat i) e)), m)
                | ((res, None), m) \<Rightarrow> until_phase now name ns phase maxIter (Suc i) n m))"

definition ReconcileUntilPhase :: "instant \<Rightarrow> string \<Rightarrow> string \<Rightarrow> string \<Rightarrow> nat \<Rightarrow> scenario_op" where
  "ReconcileUntilPhase now name ns phase maxIter = until_phase now name ns phase maxIter 0 maxIter"

definition terminated :: "int \<Rightarrow> string \<Rightarrow> container_status" where
  "terminated code reason = \<lparr>cst_terminated = Some (code, reason), cst_last_terminated = None\<rparr>"

definition running_container :: container_status where
  "running_container = \<lparr>cst_terminated = None, cst_last_terminated = None\<rparr>"

definition with_pod :: "string \<Rightarrow> string \<Rightarrow> string \<Rightarrow> (pod_status \<Rightarrow> pod_status) \<Rightarrow> scenario_op" where
  "with_pod what ns name f m =
     (case read_pod ns name m of
        Inl e \<Rightarrow> (wrapped_fault what e, m)
      | Inr p \<Rightarrow> update_pod (p\<lparr>p_status := f (p_status p)\<rparr>) m)"

definition SetPodPhase :: "string \<Rightarrow> string \<Rightarrow> pod_phase \<Rightarrow> scenario_op" where
  "SetPodPhase podName ns phase =
     with_pod (''get pod '' @ podName) ns podName
       (\<lambda>st. st\<lparr>pst_phase := phase,
          pst_containers := (if phase = PodSucceeded then [terminated 0 ''Completed'']
                             else if phase = PodRunning then [running_container] else pst_containers st)\<rparr>)"

subsection \<open>fault_drivers.go\<close>

text \<open>The faults on the Pod of the active attempt, whose name the attempt gives.\<close>

definition on_active :: "string \<Rightarrow> (string \<Rightarrow> scenario_op) \<Rightarrow> scenario_op" where
  "on_active jobName f m =
     (case read_job ''default'' jobName m of
        Inl e \<Rightarrow> (wrapped_fault ''get job'' e, m)
      | Inr job \<Rightarrow>
          (case st_active (j_status job) of
             None \<Rightarrow> (Some (Message (''no active attempt on job '' @ jobName)), m)
           | Some ref \<Rightarrow> f (ar_name ref) m))"

definition delete_pod_object :: "pod \<Rightarrow> scenario_op" where
  "delete_pod_object p m = (None, m\<lparr>m_pods := filter (\<lambda>q. \<not> same_key (p_meta p) (p_meta q)) (m_pods m)\<rparr>)"

definition PodDeleteFault :: "string \<Rightarrow> scenario_op" where
  "PodDeleteFault jobName =
     on_active jobName (\<lambda>podName m.
       case read_pod ''default'' podName m of
         Inl e \<Rightarrow> (wrapped_fault (''get pod '' @ podName) e, m)
       | Inr p \<Rightarrow> delete_pod_object p m)"

definition PodOOMFault :: "string \<Rightarrow> scenario_op" where
  "PodOOMFault jobName =
     on_active jobName (\<lambda>podName. with_pod (''get pod '' @ podName) ''default'' podName
       (\<lambda>st. st\<lparr>pst_phase := PodFailed, pst_containers := [terminated 137 ''OOMKilled'']\<rparr>))"

definition NodeLossFault :: "string \<Rightarrow> scenario_op" where
  "NodeLossFault jobName =
     on_active jobName (\<lambda>podName. with_pod (''get pod '' @ podName) ''default'' podName
       (\<lambda>st. st\<lparr>pst_phase := PodFailed, pst_reason := ''NodeLost'',
          pst_conditions := [\<lparr>pc_type = ''DisruptionTarget'', pc_status = CTrue, pc_reason = ''DeletionByTaintManager''\<rparr>,
            \<lparr>pc_type = ''Ready'', pc_status = CFalse, pc_reason = ''NodeLost''\<rparr>]\<rparr>))"

text \<open>The faults on the job itself. Adding zero to the count of failures leaves the job as it was read.\<close>

definition on_job :: "string \<Rightarrow> (AgentJob \<Rightarrow> scenario_op) \<Rightarrow> scenario_op" where
  "on_job jobName f m =
     (case read_job ''default'' jobName m of
        Inl e \<Rightarrow> (wrapped_fault ''get job'' e, m)
      | Inr job \<Rightarrow> f job m)"

definition StatusConflictFault :: "string \<Rightarrow> scenario_op" where
  "StatusConflictFault jobName =
     on_job jobName update_job_state"

definition CancelFault :: "string \<Rightarrow> scenario_op" where
  "CancelFault jobName =
     on_job jobName (\<lambda>job m.
       case update_job (job\<lparr>j_meta := (j_meta job)\<lparr>om_annotations := (om_annotations (j_meta job))(''durarun.io/cancel'' \<mapsto> ''true'')\<rparr>\<rparr>) m of
         (Inl e, m) \<Rightarrow> (Some (Fault (ApiErr e)), m)
       | (Inr j, m) \<Rightarrow> (None, m))"

definition TimeoutFault :: "instant \<Rightarrow> string \<Rightarrow> scenario_op" where
  "TimeoutFault now jobName =
     on_job jobName (\<lambda>job m.
       let job = job\<lparr>j_spec := (j_spec job)\<lparr>js_execution := (job_exec job)\<lparr>ex_active_deadline := Some 1\<rparr>\<rparr>,
                 j_status := (j_status job)\<lparr>st_start := Some (now - 10 * second)\<rparr>\<rparr>
       in case update_job job m of
            (Inl e, m) \<Rightarrow> (wrapped_fault ''update job spec'' e, m)
          | (Inr job, m) \<Rightarrow> update_job_state job m)"

definition extra_meta :: "string \<Rightarrow> string \<Rightarrow> (string \<rightharpoonup> string) \<Rightarrow> object_meta" where
  "extra_meta name u labels =
     \<lparr>om_name = name, om_generate_name = [], om_namespace = ''default'', om_uid = u, om_labels = labels,
      om_annotations = Map.empty, om_owners = [], om_finalizers = [], om_deletion = None\<rparr>"

definition extra_attempt :: "string \<Rightarrow> AgentJob \<Rightarrow> AgentAttempt" where
  "extra_attempt jobName job =
     \<lparr>a_meta = extra_meta (jobName @ ''-extra'') (''uid-'' @ jobName @ ''-extra'') [''durarun.io/job'' \<mapsto> jobName],
      a_spec = \<lparr>as_job_ref = \<lparr>or_name = jobName, or_namespace = ''default'', or_uid = job_uid job\<rparr>,
        as_ordinal = 99, as_deadline = None\<rparr>,
      a_status = \<lparr>at_conditions = [], at_pod_name = [], at_pod_uid = [], at_start = None, at_completion = None,
        at_exit_code = None, at_signal = None, at_error_category = [], at_artifact_ref = None\<rparr>\<rparr>"

definition succeeded_pod :: "string \<Rightarrow> string \<Rightarrow> string \<Rightarrow> pod" where
  "succeeded_pod jobName name u =
     \<lparr>p_meta = extra_meta name u [''durarun.io/job'' \<mapsto> jobName, ''durarun.io/attempt'' \<mapsto> name],
      p_spec = \<lparr>sp_restart_never = False, sp_init = [],
        sp_containers = [\<lparr>co_name = ''agent'', co_image = ''agent:latest'', co_command = [], co_args = [], co_env = [],
          co_resources = None, co_security = None, co_mounts = []\<rparr>], sp_volumes = [], sp_security = None,
        sp_automount_token = None, sp_runtime_class = None\<rparr>,
      p_status = \<lparr>pst_phase = PodSucceeded, pst_reason = [], pst_conditions = [], pst_containers = []\<rparr>\<rparr>"

definition DoubleCompleteFault :: "string \<Rightarrow> scenario_op" where
  "DoubleCompleteFault jobName =
     on_job jobName (\<lambda>job m.
       case add_attempt (extra_attempt jobName job) m of
         (Some e, m) \<Rightarrow> (wrapped_fault ''create extra attempt'' e, m)
       | (None, m) \<Rightarrow>
           (case add_pod (succeeded_pod jobName (jobName @ ''-extra'') (''uid-pod-'' @ jobName @ ''-extra'')) m of
              (Some e, m) \<Rightarrow> (Some (Fault (ApiErr e)), m)
            | (None, m) \<Rightarrow> (None, m)))"

text \<open>The second half of \<open>StaleResult\<close>: the old Pod succeeds, or comes back succeeded.\<close>

definition stale_success :: "string \<Rightarrow> string \<Rightarrow> scenario_op" where
  "stale_success jobName podName m =
     (case read_pod ''default'' podName m of
        Inl e \<Rightarrow>
          (case add_pod (succeeded_pod jobName podName (''uid-pod-'' @ podName @ ''-stale'')) m of
             (Some e, m) \<Rightarrow> (Some (Fault (ApiErr e)), m)
           | (None, m) \<Rightarrow> (None, m))
      | Inr p \<Rightarrow>
          update_pod (p\<lparr>p_status := (p_status p)\<lparr>pst_phase := PodSucceeded, pst_containers := [terminated 0 ''Completed'']\<rparr>\<rparr>) m)"

definition and_then :: "string \<Rightarrow> scenario_op \<Rightarrow> scenario_op \<Rightarrow> scenario_op" where
  "and_then what f g m =
     (case f m of
        (Some (Fault e), m) \<Rightarrow> (Some (Fault (if what = [] then e else Wrapped what e)), m)
      | (Some (Message t), m) \<Rightarrow> (Some (Message (if what = [] then t else what @ '': '' @ t)), m)
      | (None, m) \<Rightarrow> g m)"

text \<open>Reading the Pod is wrapped on its own; \<open>with_pod\<close> only fails in reading it.\<close>

definition StaleResultFault :: "instant \<Rightarrow> string \<Rightarrow> scenario_op" where
  "StaleResultFault now jobName =
     on_active jobName (\<lambda>podName.
       and_then [] (with_pod ''get pod'' ''default'' podName
           (\<lambda>st. st\<lparr>pst_phase := PodFailed, pst_containers := [terminated 1 ''Error'']\<rparr>))
         (and_then ''reconcile after failure'' (ReconcileN now jobName ''default'' 5) (stale_success jobName podName)))"

subsection \<open>ValidateSnapshotInvariant\<close>

definition attempt_snapshot :: "AgentAttempt \<Rightarrow> AttemptSnapshot" where
  "attempt_snapshot a =
     \<lparr>sn_uid = attempt_uid a, sn_ordinal = attempt_ordinal a, sn_job_ref_uid = or_uid (as_job_ref (a_spec a)),
      sn_terminal = IsAttemptTerminal (attempt_conditions a)\<rparr>"

definition state_snapshot :: "AgentJob \<Rightarrow> AgentAttempt list \<Rightarrow> StateSnapshot" where
  "state_snapshot j as =
     \<lparr>ss_job_uid = job_uid j, ss_conditions = job_conditions j, ss_active = st_active (j_status j),
      ss_attempts = map attempt_snapshot (filter (\<lambda>a. or_name (as_job_ref (a_spec a)) = job_name j) as)\<rparr>"

definition ValidateSnapshotInvariant :: "AgentJob list \<Rightarrow> AgentAttempt list \<Rightarrow> bool" where
  "ValidateSnapshotInvariant js as \<longleftrightarrow> list_all (\<lambda>j. ValidateSnapshot (state_snapshot j as) = None) js"

subsection \<open>e2e_test.go\<close>

text \<open>Setting up a job whose first attempt runs, and the outcome of a scenario: its state, when no step failed.\<close>

definition create_step :: "AgentJob \<Rightarrow> scenario_op" where
  "create_step j m = (case create_job j m of (Inl e, m) \<Rightarrow> (Some (Fault (ApiErr e)), m) | (Inr i, m) \<Rightarrow> (None, m))"

fun scenario_steps :: "scenario_op list \<Rightarrow> mem \<Rightarrow> mem option" where
  "scenario_steps [] m = Some m"
| "scenario_steps (f # fs) m = (case f m of (None, m) \<Rightarrow> scenario_steps fs m | (Some e, m) \<Rightarrow> None)"

definition setupRunningJob :: "instant \<Rightarrow> string \<Rightarrow> int \<Rightarrow> scenario_op list" where
  "setupRunningJob now jobName maxAttempts =
     [create_step (NewJob jobName ''default'' maxAttempts), ReconcileN now jobName ''default'' 5,
      ReconcileN now jobName ''default'' 5, SetPodPhase (jobName @ ''-1'') ''default'' PodRunning,
      ReconcileN now jobName ''default'' 5]"

definition failPod :: "string \<Rightarrow> string \<Rightarrow> scenario_op" where
  "failPod podName ns =
     with_pod (''get pod '' @ podName) ns podName (\<lambda>st. st\<lparr>pst_phase := PodFailed, pst_containers := [terminated 1 ''Error'']\<rparr>)"

definition succeedPod :: "string \<Rightarrow> string \<Rightarrow> scenario_op" where
  "succeedPod podName ns = SetPodPhase podName ns PodSucceeded"

text \<open>A fault is injected and followed by ten reconciles; then the standard invariants are checked.\<close>

definition fault_scenario :: "instant \<Rightarrow> string \<Rightarrow> scenario_op \<Rightarrow> mem option" where
  "fault_scenario now jobName fault =
     scenario_steps (setupRunningJob now jobName 3 @ [fault, ReconcileN now jobName ''default'' 10]) empty_cluster"

definition StandardInvariants :: "instant \<Rightarrow> mem \<Rightarrow> bool" where
  "StandardInvariants now m \<longleftrightarrow>
     SingleActiveAttemptInvariant (m_attempts m) \<and> MonotonicOrdinalsInvariant (m_attempts m) \<and>
     UIDConsistencyInvariant (m_jobs m) (m_attempts m) \<and> TerminalImmutabilityInvariant now (m_jobs m) m \<and>
     AtMostOneTerminalInvariant (m_jobs m)"

definition retries :: "instant \<Rightarrow> string \<Rightarrow> int \<Rightarrow> scenario_op \<Rightarrow> mem option" where
  "retries now jobName maxAttempts second_pod =
     scenario_steps [create_step (NewJob jobName ''default'' maxAttempts), ReconcileN now jobName ''default'' 5,
       failPod (jobName @ ''-1'') ''default'', ReconcileN now jobName ''default'' 5, second_pod,
       ReconcileN now jobName ''default'' 5] empty_cluster"

end
