(* ===== verification/ClusterProgress.thy ===== *)
theory ClusterProgress
  imports ClusterInvariant
begin

text \<open>
  Progress: on a cluster whose Pods have all ended, a pass without faults brings an open job
  nearer to its end. The measure counts the failures left and, within one attempt, whether it is
  named in the job's status and whether it knows its Pod.
\<close>

subsection \<open>Calls without faults\<close>

definition idle :: "mem \<Rightarrow> cluster" where
  "idle m = \<lparr>cl_mem = m, cl_turns = []\<rparr>"

lemma idle_mem [simp]: "cl_mem (idle m) = m"
  by (simp add: idle_def)

lemma idle_call: "api_call f (idle m) = (case f m of (r, m) \<Rightarrow> (r, idle m))"
  by (simp add: api_call_def idle_def)

lemma idle_lookup: "api_call (lookup_object P xs) (idle m) = (case find P xs of None \<Rightarrow> Inl NotFound | Some x \<Rightarrow> Inr x, idle m)"
  by (simp add: idle_call lookup_object_def split: option.split)

lemma idle_get_job:
  "read_world (k_get_job cluster_kube ns n) (idle m, l) =
     (case find (\<lambda>j. has_key ns n (j_meta j)) (m_jobs m) of None \<Rightarrow> Inl NotFound | Some j \<Rightarrow> Inr j, (idle m, l))"
  by (simp add: read_world_def cluster_kube_def idle_call lookup_object_def split: option.split)

lemma idle_get_attempt:
  "read_world (k_get_attempt cluster_kube ns n) (idle m, l) =
     (case find (\<lambda>a. has_key ns n (a_meta a)) (m_attempts m) of None \<Rightarrow> Inl NotFound | Some a \<Rightarrow> Inr a, (idle m, l))"
  by (simp add: read_world_def cluster_kube_def idle_call lookup_object_def split: option.split)

lemma idle_get_pod:
  "read_world (k_get_pod cluster_kube ns n) (idle m, l) =
     (case find (\<lambda>p. has_key ns n (p_meta p)) (m_pods m) of None \<Rightarrow> Inl NotFound | Some p \<Rightarrow> Inr p, (idle m, l))"
  by (simp add: read_world_def cluster_kube_def idle_call lookup_object_def split: option.split)

lemma idle_list_attempts:
  "read_world (k_list_attempts cluster_kube ns sel) (idle m, l) =
     (Inr (filter (\<lambda>a. selected ns sel (a_meta a)) (m_attempts m)), (idle m, l))"
  by (simp add: read_world_def cluster_kube_def idle_call)

lemma idle_list_pods:
  "read_world (k_list_pods cluster_kube ns sel) (idle m, l) =
     (Inr (filter (\<lambda>p. selected ns sel (p_meta p)) (m_pods m)), (idle m, l))"
  by (simp add: read_world_def cluster_kube_def idle_call)

lemma idle_update_job:
  "update_job_status cluster_kube j (idle m, l) = (Inr j, (idle (m\<lparr>m_jobs := put_job j (m_jobs m)\<rparr>), l @ [EJobStatus j]))"
  by (simp add: update_job_status_def cluster_kube_def idle_call put_job_def)

lemma idle_update_attempt:
  "update_attempt_status cluster_kube a (idle m, l) =
     (Inr a, (idle (m\<lparr>m_attempts := put_attempt a (m_attempts m)\<rparr>), l @ [EAttemptStatus a]))"
  by (simp add: update_attempt_status_def cluster_kube_def idle_call put_attempt_def)

lemma idle_create_attempt:
  "key_free (a_meta a) (m_attempts m) \<Longrightarrow> create_attempt cluster_kube a (idle m, l) =
     (Inr (stamped a), (idle (m\<lparr>m_attempts := m_attempts m @ [stamped a]\<rparr>), l @ [ECreateAttempt a]))"
  by (auto simp: create_attempt_def cluster_kube_def idle_call Let_def stamped_def key_free_def list_ex_iff)

lemma idle_create_pod:
  "\<forall>q\<in>set (m_pods m). \<not> same_key (p_meta p) (p_meta q) \<Longrightarrow> create_pod cluster_kube p (idle m, l) =
     (Inr (p\<lparr>p_meta := stamp (p_meta p)\<rparr>),
      (idle (m\<lparr>m_pods := m_pods m @ [p\<lparr>p_meta := stamp (p_meta p)\<rparr>]\<rparr>), l @ [ECreatePod p]))"
  by (auto simp: create_pod_def cluster_kube_def idle_call Let_def list_ex_iff)

lemma idle_commit_attempt:
  "commit_attempt cluster_kube msg t q a (idle m, l) =
     (\<lparr>ar_terminal = t, ar_requeue = q, ar_error = None, ar_attempt = a\<rparr>,
      (idle (m\<lparr>m_attempts := put_attempt a (m_attempts m)\<rparr>), l @ [EAttemptStatus a]))"
  by (simp add: commit_attempt_def idle_update_attempt)

lemma idle_commit_job:
  "\<exists>l'. commit_job cluster_kube recording what et rs text res job (idle m, l) =
     ((res, None), (idle (m\<lparr>m_jobs := put_job job (m_jobs m)\<rparr>), l'))"
  by (simp add: commit_job_def idle_update_job record_event_def emit_event_def)

subsection \<open>Names\<close>

text \<open>
  Object names end with a letter or a digit, so the name of an attempt determines the name of
  its job.
\<close>

definition plain_name :: "string \<Rightarrow> bool" where
  "plain_name n \<longleftrightarrow> n = [] \<or> last n \<noteq> CHR ''-''"

lemma split_last_sep: "c \<notin> set u \<Longrightarrow> c \<notin> set v \<Longrightarrow> a @ c # u = b @ c # v \<Longrightarrow> a = b"
proof -
  assume u: "c \<notin> set u" and v: "c \<notin> set v" and eq: "a @ c # u = b @ c # v"
  have "takeWhile (\<lambda>x. x \<noteq> c) (rev w @ c # rev x) = rev w" if "c \<notin> set w" for w x
    using that by (subst takeWhile_append2) auto
  then have "rev u = rev v" using u v arg_cong [OF eq, of "\<lambda>s. takeWhile (\<lambda>x. x \<noteq> c) (rev s)"] by simp
  with eq show "a = b" by simp
qed

lemma attempt_name_job:
  assumes "plain_name nj" and "0 \<le> y" and "ni @ CHR ''-'' # show_int x = nj @ CHR ''-'' # show_int y"
  shows "ni = nj"
proof -
  have no: "CHR ''-'' \<notin> set (show_nat n)" for n using set_show_nat [of n] by auto
  have y: "show_int y = show_nat (nat y)" using assms(2) by (simp add: show_int_def)
  show ?thesis
  proof (cases "x < 0")
    case True
    then have "(ni @ ''-'') @ CHR ''-'' # show_nat (nat (- x)) = nj @ CHR ''-'' # show_nat (nat y)"
      using assms(3) y by (simp add: show_int_def)
    from split_last_sep [OF no no this] assms(1) show ?thesis by (auto simp: plain_name_def)
  next
    case False
    then have "ni @ CHR ''-'' # show_nat (nat x) = nj @ CHR ''-'' # show_nat (nat y)"
      using assms(3) y by (simp add: show_int_def)
    from split_last_sep [OF no no this] show ?thesis .
  qed
qed

subsection \<open>Creating an attempt\<close>

lemma idle_createAttempt:
  assumes "cluster_inv (objs_of m)" and "j \<in> set (m_jobs m)" and "plain_name (job_name j)"
    and "j_meta job = j_meta j" and "0 \<le> next_ordinal job"
  shows "\<exists>b m' l'. createAttempt cluster_kube job (idle m, l) = (Inr b, (idle m', l')) \<and> m_jobs m' = m_jobs m \<and>
    attempt_name b = next_attempt_name job \<and> b \<in> set (attempts_of_job j (m_attempts m')) \<and>
    set (m_attempts m) \<subseteq> set (m_attempts m')"
proof -
  note inv = cluster_invD [OF assms(1)]
  let ?P = "\<lambda>a. has_key (om_namespace (j_meta job)) (next_attempt_name job) (a_meta a)"
  show ?thesis
  proof (cases "find ?P (m_attempts m)")
    case (Some a)
    then have a: "a \<in> set (m_attempts m)" "om_namespace (a_meta a) = om_namespace (j_meta j)" "attempt_name a = next_attempt_name job"
      using find_SomeD [OF Some] assms(4) by (auto simp: has_key_def)
    obtain i where i: "i \<in> set (m_jobs m)" "a \<in> set (attempts_of_job i (m_attempts m))" using inv(3) [OF a(1)] by blast
    then have "attempt_of i a" using inv(4) [OF i(1)] by (simp add: job_ok_def)
    then have "job_name i @ CHR ''-'' # show_int (attempt_ordinal a) = job_name j @ CHR ''-'' # show_int (next_ordinal job)"
      using a(3) assms(4) by (simp add: attempt_of_def next_attempt_name_def)
    from attempt_name_job [OF assms(3,5) this] i(2) a(2) have "object_key (j_meta i) = object_key (j_meta j)"
      by (simp add: mem_attempts_of_job)
    from distinct_keyD [OF inv(1) i(1) assms(2) this] i(2) a Some show ?thesis
      by (auto simp: createAttempt_def idle_get_attempt)
  next
    case None
    obtain a where own: "k_own_attempt cluster_kube job (new_attempt job) = Inr a" by (simp add: cluster_own_attempt)
    note b = owned_new_attempt [OF own]
    have "key_free (a_meta a) (m_attempts m)"
      using None b(1) by (auto simp: key_free_def find_None_iff same_key_def has_key_def launched_def stamped_def stamp_def)
    from idle_create_attempt [OF this] have
      "createAttempt cluster_kube job (idle m, l) =
         (Inr (stamped a), (idle (m\<lparr>m_attempts := m_attempts m @ [stamped a]\<rparr>), l @ [ECreateAttempt a]))"
      using None own by (simp add: createAttempt_def idle_get_attempt)
    moreover have "stamped a \<in> set (attempts_of_job j (m_attempts m @ [stamped a]))"
      using b(1) assms(4) by (simp add: mem_attempts_of_job launched_def)
    ultimately show ?thesis using b(3) by (intro exI) auto
  qed
qed

subsection \<open>Advancing an attempt\<close>

definition ended_pods :: "pod list \<Rightarrow> bool" where
  "ended_pods ps \<longleftrightarrow> list_all (\<lambda>p. pst_phase (p_status p) \<in> {PodSucceeded, PodFailed} \<and> pod_name p \<noteq> []) ps"

definition snapshot_of :: "JobSnapshot \<Rightarrow> mem \<Rightarrow> bool" where
  "snapshot_of snap m \<longleftrightarrow> set (js_pods snap) \<subseteq> set (m_pods m)"

lemma ended_podsD: "ended_pods ps \<Longrightarrow> p \<in> set ps \<Longrightarrow>
    (pst_phase (p_status p) = PodSucceeded \<or> pst_phase (p_status p) = PodFailed) \<and> pod_name p \<noteq> []"
  by (auto simp: ended_pods_def list_all_iff)

lemma built_pod:
  assumes "k_own_pod cluster_kube a (BuildPod job a []) = Inr p"
  shows "pod_name p \<noteq> []"
  using assms by (auto simp: cluster_kube_def BuildPod_name attempt_object_name_def)

lemma cluster_own_pod: "\<exists>p. k_own_pod cluster_kube a p0 = Inr p"
  by (simp add: cluster_kube_def)

text \<open>Without faults an attempt that knows no Pod gets one with a name.\<close>

lemma idle_ensure_pod:
  "\<exists>p m' l'. ensure_pod cluster_kube snap a (idle m, l) = (PodFound p, (idle m', l')) \<and>
     m_jobs m' = m_jobs m \<and> m_attempts m' = m_attempts m \<and> (pod_name p \<noteq> [] \<or> p \<in> set (m_pods m))"
proof -
  obtain p where own: "k_own_pod cluster_kube a (BuildPod (js_job snap) a []) = Inr p"
    using cluster_own_pod by blast
  let ?P = "\<lambda>q. has_key (om_namespace (p_meta p)) (pod_name p) (p_meta q)"
  show ?thesis
  proof (cases "find ?P (m_pods m)")
    case (Some q)
    with own find_SomeD [OF Some] show ?thesis by (auto simp: ensure_pod_def idle_get_pod)
  next
    case None
    then have "\<forall>q\<in>set (m_pods m). \<not> same_key (p_meta p) (p_meta q)" by (simp add: find_None_iff same_key_def)
    from idle_create_pod [OF this] None own built_pod [OF own] show ?thesis
      by (auto simp: ensure_pod_def idle_get_pod stamp_def)
  qed
qed

abbreviation unbound :: "AgentAttempt \<Rightarrow> bool" where "unbound a \<equiv> open_attempt a \<and> at_pod_name (a_status a) = []"

lemma idle_lookup_pod:
  assumes "ended_pods (m_pods m)" and "snapshot_of snap m"
  shows "\<exists>r m' l'. lookup_pod cluster_kube snap a (idle m, l) = (r, (idle m', l')) \<and>
     m_jobs m' = m_jobs m \<and> m_attempts m' = m_attempts m \<and>
     (r = PodGone \<and> at_pod_name (a_status a) \<noteq> [] \<or>
      (\<exists>p. r = PodFound p \<and> (p \<in> set (m_pods m) \<or> at_pod_name (a_status a) = [] \<and> pod_name p \<noteq> [])))"
proof (cases "PodForAttempt snap (attempt_name a)")
  case (Some p)
  with assms(2) show ?thesis by (auto simp: lookup_pod_def PodForAttempt_def snapshot_of_def dest!: find_SomeD)
next
  case None
  show ?thesis
  proof (cases "at_pod_name (a_status a) = []")
    case True
    obtain p m' l' where "ensure_pod cluster_kube snap a (idle m, l) = (PodFound p, (idle m', l'))"
      "m_jobs m' = m_jobs m" "m_attempts m' = m_attempts m" "pod_name p \<noteq> [] \<or> p \<in> set (m_pods m)"
      using idle_ensure_pod by blast
    with True None show ?thesis by (auto simp: lookup_pod_def)
  next
    case False
    with None show ?thesis by (auto simp: lookup_pod_def idle_get_pod split: option.split dest!: find_SomeD)
  qed
qed

text \<open>Without faults and with every Pod ended, an attempt is bound to a Pod or ends.\<close>

lemma idle_settle_attempt:
  assumes "p \<in> set (m_pods m) \<and> ended_pods (m_pods m) \<or> at_pod_name (a_status a) = [] \<and> pod_name p \<noteq> []"
  shows "\<exists>b t q l'. settle_attempt cluster_kube now a p (idle m', l) =
       (\<lparr>ar_terminal = t, ar_requeue = q, ar_error = None, ar_attempt = b\<rparr>,
        (idle (m'\<lparr>m_attempts := put_attempt b (m_attempts m')\<rparr>), l')) \<and>
     same_attempt b a \<and> \<not> unbound b \<and> (t \<longrightarrow> \<not> open_attempt b) \<and> (t \<or> at_pod_name (a_status a) = [])"
proof (cases "at_pod_name (a_status a) = []")
  case True
  with assms have "pod_name p \<noteq> []" by (auto dest: ended_podsD)
  then have "\<not> unbound (bind_pod (k_ssc cluster_kube) now a p)" by (simp add: bind_pod_def)
  with True show ?thesis by (auto simp: settle_attempt_def idle_commit_attempt)
next
  case False
  with assms have over: "pst_phase (p_status p) = PodSucceeded \<or> pst_phase (p_status p) = PodFailed"
    by (auto dest: ended_podsD)
  have failed: "\<not> open_attempt (markAttemptFailed (k_ssc cluster_kube) now x c)" for x c
    using markAttemptFailed_conditions(1) [OF cluster_ssc(2)] by (simp add: IsAttemptTerminal_iff)
  have succeeded: "\<not> open_attempt (mark_succeeded (k_ssc cluster_kube) now a)"
    using mark_succeeded_conditions(1) [OF cluster_ssc(2)] by (simp add: IsAttemptTerminal_iff)
  from False over failed succeeded show ?thesis
    by (cases "at_pod_uid (a_status a) \<noteq> [] \<and> pod_uid p \<noteq> at_pod_uid (a_status a)")
      (auto simp: settle_attempt_def observe_pod_def idle_commit_attempt)
qed

lemma idle_ReconcileAttempt:
  assumes "ended_pods (m_pods m)" and "snapshot_of snap m" and "a \<in> set (m_attempts m)"
    and "distinct (map (\<lambda>a. object_key (a_meta a)) (m_attempts m))"
  shows "\<exists>b t q m' l'. ReconcileAttempt cluster_kube now snap a (idle m, l) =
       (\<lparr>ar_terminal = t, ar_requeue = q, ar_error = None, ar_attempt = b\<rparr>, (idle m', l')) \<and>
     same_attempt b a \<and> \<not> unbound b \<and> (t \<longrightarrow> \<not> open_attempt b) \<and> (t \<or> unbound a) \<and>
     m_jobs m' = m_jobs m \<and> m_attempts m' = put_attempt b (m_attempts m)"
proof (cases "open_attempt a")
  case False
  with put_attempt_self [OF assms(4,3)] show ?thesis by (auto simp: ReconcileAttempt_def)
next
  case True
  obtain r m1 l1 where r: "lookup_pod cluster_kube snap a (idle m, l) = (r, (idle m1, l1))"
      "m_jobs m1 = m_jobs m" "m_attempts m1 = m_attempts m"
    and pod: "r = PodGone \<and> at_pod_name (a_status a) \<noteq> [] \<or>
      (\<exists>p. r = PodFound p \<and> (p \<in> set (m_pods m) \<or> at_pod_name (a_status a) = [] \<and> pod_name p \<noteq> []))"
    using idle_lookup_pod [OF assms(1,2)] by metis
  from pod show ?thesis
  proof (elim disjE exE)
    let ?b = "markAttemptFailed (k_ssc cluster_kube) now a None"
    assume "r = PodGone \<and> at_pod_name (a_status a) \<noteq> []"
    then have "ReconcileAttempt cluster_kube now snap a (idle m, l) =
        (\<lparr>ar_terminal = True, ar_requeue = Finished, ar_error = None, ar_attempt = ?b\<rparr>,
         (idle (m1\<lparr>m_attempts := put_attempt ?b (m_attempts m1)\<rparr>), l1 @ [EAttemptStatus ?b]))"
      using True r(1) by (simp add: ReconcileAttempt_def idle_commit_attempt del: cluster_ssc(1))
    moreover have "\<not> open_attempt ?b"
      using markAttemptFailed_conditions(1) [OF cluster_ssc(2)] by (simp add: IsAttemptTerminal_iff)
    ultimately show ?thesis using r(2,3) by (intro exI conjI) (assumption | simp)+
  next
    fix p
    assume p: "r = PodFound p \<and> (p \<in> set (m_pods m) \<or> at_pod_name (a_status a) = [] \<and> pod_name p \<noteq> [])"
    with assms(1) obtain b t q l' where "settle_attempt cluster_kube now a p (idle m1, l1) =
        (\<lparr>ar_terminal = t, ar_requeue = q, ar_error = None, ar_attempt = b\<rparr>,
         (idle (m1\<lparr>m_attempts := put_attempt b (m_attempts m1)\<rparr>), l'))"
      "same_attempt b a" "\<not> unbound b" "t \<longrightarrow> \<not> open_attempt b" "t \<or> unbound a"
      using idle_settle_attempt [of p m a now m1 l1] True by blast
    with True r p show ?thesis by (auto simp: ReconcileAttempt_def)
  qed
qed

subsection \<open>The distance from the end\<close>

definition named_attempts :: "AgentJob \<Rightarrow> AgentAttempt list \<Rightarrow> AgentAttempt list" where
  "named_attempts j as =
     filter (\<lambda>a. case st_active (j_status j) of None \<Rightarrow> False | Some ref \<Rightarrow> attempt_name a = ar_name ref) (attempts_of_job j as)"

definition failures_left :: "AgentJob \<Rightarrow> nat" where
  "failures_left j = nat (ex_max_attempts (job_exec j) - st_failed (j_status j))"

definition distance :: "AgentJob \<Rightarrow> AgentAttempt list \<Rightarrow> nat" where
  "distance j as =
     3 * failures_left j + (if named_attempts j as = [] then 2 else if list_ex unbound (named_attempts j as) then 1 else 0)"

definition nearer :: "AgentJob \<Rightarrow> AgentAttempt list \<Rightarrow> AgentJob \<Rightarrow> AgentAttempt list \<Rightarrow> bool" where
  "nearer j as j' as' \<longleftrightarrow> j_meta j' = j_meta j \<and> j_spec j' = j_spec j \<and> (open_job j' \<longrightarrow> distance j' as' < distance j as)"

definition brings_nearer :: "AgentJob \<Rightarrow> AgentAttempt list \<Rightarrow> cluster world \<Rightarrow> bool" where
  "brings_nearer j as s \<longleftrightarrow> (\<exists>j'\<in>set (w_jobs s). nearer j as j' (w_atts s))"

lemma mem_named_attempts:
  "a \<in> set (named_attempts j as) \<longleftrightarrow>
     a \<in> set (attempts_of_job j as) \<and> (\<exists>ref. st_active (j_status j) = Some ref \<and> attempt_name a = ar_name ref)"
  by (auto simp: named_attempts_def split: option.splits)

lemma distance_named: "a \<in> set (named_attempts j as) \<Longrightarrow> distance j as \<le> 3 * failures_left j + 1"
  by (auto simp: distance_def)

lemma distance_bound: "distance j as \<le> 3 * failures_left j + 2"
  by (simp add: distance_def)

lemma commit_nearer:
  assumes "j \<in> set (m_jobs m)" and "nearer j as job (m_attempts m)"
  shows "brings_nearer j as (snd (commit_job cluster_kube recording what et rs msgf res job (idle m, l)))"
proof -
  have "job \<in> set (put_job job (m_jobs m))"
    using assms by (force simp: put_job_def same_key_iff nearer_def)
  moreover obtain l' where "commit_job cluster_kube recording what et rs msgf res job (idle m, l) =
      ((res, None), (idle (m\<lparr>m_jobs := put_job job (m_jobs m)\<rparr>), l'))"
    using idle_commit_job by blast
  ultimately show ?thesis using assms(2) by (auto simp: brings_nearer_def)
qed

subsection \<open>One pass\<close>

lemma start_nearer:
  assumes "cluster_inv (objs_of m)" and "j \<in> set (m_jobs m)" and "open_job j" and "plain_name (job_name j)"
    and "job = store_spec_hash k j" and "named_attempts j (m_attempts m) = []"
  shows "brings_nearer j (m_attempts m) (snd (start_attempt cluster_kube recording now job (idle m, l)))"
proof -
  have ok: "open_ok j (attempts_of_job j (m_attempts m))"
    using cluster_invD(4) [OF assms(1,2)] assms(3) by (simp add: job_ok_def)
  then have "0 \<le> next_ordinal job" using next_ordinal_open [OF ok] assms(5) by (simp add: open_ok_def)
  then obtain b m' l' where c: "createAttempt cluster_kube job (idle m, l) = (Inr b, (idle m', l'))"
      "m_jobs m' = m_jobs m" "attempt_name b = next_attempt_name job" "b \<in> set (attempts_of_job j (m_attempts m'))"
    using idle_createAttempt [OF assms(1,2,4), of job l] assms(5) by auto
  define job' where "job' = with_status job (\<lambda>st. st
               \<lparr>st_active := Some (attempt_reference b),
                st_conditions := SetJobCondition (k_ssc cluster_kube) now (st_conditions st)
                  JobConditionScheduled CTrue ''AttemptCreated'' (created_text b)\<rparr>)"
  have sel: "j_meta job' = j_meta j" "j_spec job' = j_spec j" "st_active (j_status job') = Some (attempt_reference b)"
    "st_failed (j_status job') = st_failed (j_status j)"
    using assms(5) by (simp_all add: job'_def)
  have "b \<in> set (named_attempts job' (m_attempts m'))"
    using c(4) sel attempts_of_job_cong [OF sel(1)] by (simp add: mem_named_attempts attempt_reference_def)
  from distance_named [OF this] assms(6) sel(2,4) have "distance job' (m_attempts m') < distance j (m_attempts m)"
    by (simp add: distance_def failures_left_def)
  with sel have "nearer j (m_attempts m) job' (m_attempts m')" by (simp add: nearer_def)
  from commit_nearer [OF _ this] assms(2) c(2) have
    "brings_nearer j (m_attempts m) (snd (commit_job cluster_kube recording ''update job status to Scheduling'' ''Normal'' ''AttemptCreated''
            (\<lambda>_. created_text b) Requeue job' (idle m', l')))" by simp
  with c(1) show ?thesis by (simp add: start_attempt_def job'_def)
qed

lemma closed_nearer: "j_meta j' = j_meta j \<Longrightarrow> j_spec j' = j_spec j \<Longrightarrow> \<not> open_job j' \<Longrightarrow> nearer j as j' as'"
  by (simp add: nearer_def)

lemma retry_nearer:
  assumes "cluster_inv (objs_of m)" and "j \<in> set (m_jobs m)" and "open_job j" and "plain_name (job_name j)"
    and "job = store_spec_hash k j" and "retry_left j"
  shows "brings_nearer j as (snd (retry_job cluster_kube recording now (count_failure job) a (idle m, l)))"
proof -
  have ok: "open_ok j (attempts_of_job j (m_attempts m))" and spec: "spec_ok (j_spec j)"
    using cluster_invD(4) [OF assms(1,2)] assms(3) by (simp_all add: job_ok_def)
  note ord = next_ordinal_retry [OF ok assms(6) spec]
  have "next_ordinal (count_failure job) = next_ordinal (count_failure j)"
    using assms(5) by (simp add: next_ordinal_def)
  with ord(1) ok have "0 \<le> next_ordinal (count_failure job)" by (simp add: open_ok_def)
  then obtain b m' l' where c: "createAttempt cluster_kube (count_failure job) (idle m, l) = (Inr b, (idle m', l'))"
      "m_jobs m' = m_jobs m" "b \<in> set (attempts_of_job j (m_attempts m'))"
    using idle_createAttempt [OF assms(1,2,4), of "count_failure job" l] assms(5) by auto
  define job' where "job' = with_status (count_failure job) (\<lambda>st. st
               \<lparr>st_active := Some (attempt_reference b),
                st_conditions := SetJobCondition (k_ssc cluster_kube) now
                  (SetJobCondition (k_ssc cluster_kube) now (st_conditions st)
                     JobConditionRunning CFalse ''Retrying'' ''Attempt failed, retrying'')
                  JobConditionScheduled CTrue ''Retrying'' (retry_text a b)\<rparr>)"
  have sel: "j_meta job' = j_meta j" "j_spec job' = j_spec j" "st_active (j_status job') = Some (attempt_reference b)"
    "st_failed (j_status job') = st_failed (j_status j) + 1"
    using assms(5) ord(2) by (simp_all add: job'_def)
  have "b \<in> set (named_attempts job' (m_attempts m'))"
    using c(3) sel attempts_of_job_cong [OF sel(1)] by (simp add: mem_named_attempts attempt_reference_def)
  then have "distance job' (m_attempts m') \<le> 3 * failures_left job' + 1" by (rule distance_named)
  moreover have "failures_left j = Suc (failures_left job')"
    using assms(6) ord(2) sel(2,4) by (simp add: failures_left_def retry_left_def)
  ultimately have "distance job' (m_attempts m') < distance j as" by (simp add: distance_def)
  with sel have "nearer j as job' (m_attempts m')" by (simp add: nearer_def)
  from commit_nearer [OF _ this] assms(2) c(2) have
    "brings_nearer j as (snd (commit_job cluster_kube recording ''update job for retry'' ''Warning'' ''Retrying''
            (\<lambda>_. retry_text a b) Requeue job' (idle m', l')))" by simp
  with c(1) show ?thesis by (simp add: retry_job_def job'_def)
qed

lemma settle_nearer:
  assumes "cluster_inv (objs_of m)" and "j \<in> set (m_jobs m)" and "open_job j" and "plain_name (job_name j)"
    and "job = store_spec_hash k j"
  shows "brings_nearer j as (snd (settle_job cluster_kube recording now job a (idle m, l)))"
proof -
  have over: "nearer j as (with_status job' f) (m_attempts m)"
    if "j_meta job' = j_meta j" "j_spec job' = j_spec j" "IsJobTerminal (st_conditions (f (j_status job')))" for job' f
    using that by (intro closed_nearer) simp_all
  have ended: "IsJobTerminal (fst (TrySetJobTerminal (k_ssc cluster_kube) now cs t CTrue r msg))"
    if "t = JobConditionComplete \<or> t = JobConditionFailed" for cs t r msg
    by (rule TrySetJobTerminal_sets [OF cluster_ssc(2) that])
  consider "IsAttemptSucceeded (attempt_conditions a)"
    | "\<not> IsAttemptSucceeded (attempt_conditions a)" "retry_left j"
    | "\<not> IsAttemptSucceeded (attempt_conditions a)" "\<not> retry_left j" by blast
  then show ?thesis
  proof cases
    case 1
    with assms(2,5) ended show ?thesis
      by (simp add: settle_job_def succeed_job_def del: cluster_ssc(1)) (intro commit_nearer over; simp)
  next
    case 2
    with retry_nearer [OF assms(1-5)] assms(5) show ?thesis by (simp add: settle_job_def retry_left_def)
  next
    case 3
    with assms(2,5) ended show ?thesis
      by (simp add: settle_job_def exhaust_job_def retry_left_def Let_def del: cluster_ssc(1)) (intro commit_nearer over; simp)
  qed
qed

text \<open>A followed attempt is bound to its Pod now.\<close>

lemma follow_nearer:
  assumes "cluster_inv (objs_of m)" and "j \<in> set (m_jobs m)" and "job = store_spec_hash k j"
    and "a \<in> set (named_attempts j as)" and "unbound a"
    and "same_attempt b a" and "\<not> unbound b" and "m_attempts m = put_attempt b as"
  shows "brings_nearer j as (snd (follow_attempt cluster_kube recording now job x res (idle m, l)))"
proof -
  have b: "b \<in> set (m_attempts m)"
    using assms(4,6,8) put_attempt_mem [of a as b] by (simp add: mem_named_attempts mem_attempts_of_job same_attempt_def)
  have near: "nearer j as job' (m_attempts m)"
    if job': "j_meta job' = j_meta j" "j_spec job' = j_spec j" "st_active (j_status job') = st_active (j_status j)"
      "st_failed (j_status job') = st_failed (j_status j)" for job'
  proof -
    have sub: "named_attempts job' = named_attempts j"
      using job'(3) attempts_of_job_cong [OF job'(1)] by (simp add: named_attempts_def fun_eq_iff)
    have only: "c = b" if "c \<in> set (named_attempts j (m_attempts m))" for c
    proof (rule distinct_keyD [OF cluster_invD(2) [OF assms(1)]])
      show "c \<in> set (m_attempts m)" using that by (simp add: mem_named_attempts mem_attempts_of_job)
      show "object_key (a_meta c) = object_key (a_meta b)"
        using that assms(4,6) by (auto simp: mem_named_attempts mem_attempts_of_job same_attempt_def)
    qed (rule b)
    have mem: "b \<in> set (named_attempts j (m_attempts m))"
      using b assms(4,6) by (simp add: mem_named_attempts mem_attempts_of_job same_attempt_def)
    have "\<not> list_ex unbound (named_attempts j (m_attempts m))" using only assms(7) by (auto simp: list_ex_iff)
    moreover have "named_attempts j (m_attempts m) \<noteq> []" using mem by auto
    moreover have "list_ex unbound (named_attempts j as)" using assms(4,5) by (auto simp: list_ex_iff)
    ultimately have "distance job' (m_attempts m) < distance j as"
      using job'(2,4) sub by (auto simp: distance_def failures_left_def)
    with job' show ?thesis by (simp add: nearer_def)
  qed
  show ?thesis
  proof (cases "at_start (a_status x) = None")
    case True
    have "brings_nearer j as (idle m, l)" using near [of j] assms(2) by (auto simp: brings_nearer_def)
    with True show ?thesis by (simp add: follow_attempt_def)
  next
    case False
    then have eq: "(at_start (a_status x) = None) = False" by simp
    show ?thesis unfolding follow_attempt_def eq if_False
      by (intro commit_nearer near assms(2)) (simp_all add: assms(3))
  qed
qed

lemma advance_nearer:
  assumes "cluster_inv (objs_of m)" and "j \<in> set (m_jobs m)" and "open_job j" and "plain_name (job_name j)"
    and "js_job snap = store_spec_hash k j" and "ended_pods (m_pods m)" and "snapshot_of snap m"
    and "a \<in> set (named_attempts j (m_attempts m))"
  shows "brings_nearer j (m_attempts m) (snd (advance_attempt cluster_kube recording now snap a (idle m, l)))"
proof -
  have a: "a \<in> set (attempts_of_job j (m_attempts m))" "a \<in> set (m_attempts m)"
    using assms(8) by (simp_all add: mem_named_attempts mem_attempts_of_job)
  obtain b t q m' l' where r: "ReconcileAttempt cluster_kube now snap a (idle m, l) =
       (\<lparr>ar_terminal = t, ar_requeue = q, ar_error = None, ar_attempt = b\<rparr>, (idle m', l'))"
    and b: "same_attempt b a" "\<not> unbound b" "t \<longrightarrow> \<not> open_attempt b" "t \<or> unbound a"
    and m': "m_jobs m' = m_jobs m" "m_attempts m' = put_attempt b (m_attempts m)"
    using idle_ReconcileAttempt [OF assms(6,7) a(2) cluster_invD(2) [OF assms(1)]] by metis
  have inv: "cluster_inv (objs_of m')"
  proof (cases "open_attempt a")
    case True
    from cluster_write_inv [OF cluster_write.attempt_status [OF assms(2,3) a(1) True b(1)] assms(1)] m' show ?thesis by simp
  next
    case False
    then have "b = a" using r by (simp add: ReconcileAttempt_def)
    with put_attempt_self [OF cluster_invD(2) [OF assms(1)] a(2)] m' assms(1) show ?thesis by simp
  qed
  show ?thesis
  proof (cases t)
    case True
    with r settle_nearer [OF inv _ assms(3,4,5)] assms(2) m'(1) show ?thesis by (simp add: advance_attempt_def)
  next
    case False
    with r b follow_nearer [OF inv _ assms(5,8) _ b(1,2) m'(2)] assms(2) m'(1) show ?thesis
      by (simp add: advance_attempt_def)
  qed
qed

lemma find_job_by_key:
  assumes "distinct (map (\<lambda>j. object_key (j_meta j)) js)" and "j \<in> set js"
  shows "find (\<lambda>i. has_key (om_namespace (j_meta j)) (job_name j) (j_meta i)) js = Some j"
proof (cases "find (\<lambda>i. has_key (om_namespace (j_meta j)) (job_name j) (j_meta i)) js")
  case None
  with assms(2) show ?thesis by (auto simp: find_None_iff has_key_def)
next
  case (Some i)
  with find_SomeD [OF Some] distinct_keyD [OF assms(1) _ assms(2), of i] show ?thesis by (auto simp: has_key_def)
qed

lemma idle_LoadJobSnapshot:
  assumes "cluster_inv (objs_of m)" and "j \<in> set (m_jobs m)"
  shows "\<exists>snap. LoadJobSnapshot cluster_kube (om_namespace (j_meta j)) (job_name j) (idle m, l) = (Inr (Some snap), (idle m, l)) \<and>
    js_job snap = j \<and> set (js_attempts snap) = set (attempts_of_job j (m_attempts m)) \<and> snapshot_of snap m"
  using find_job_by_key [OF cluster_invD(1) [OF assms(1)] assms(2)]
  by (auto simp: LoadJobSnapshot_def idle_get_job idle_list_attempts idle_list_pods snapshot_of_def attempts_of_job_def
      belongs_to_def)

lemma active_named:
  assumes "set (js_attempts snap) = set (attempts_of_job j as)" and "j_status (js_job snap) = st"
    and "st_active st = st_active (j_status j)"
  shows "ActiveAttempt snap = None \<Longrightarrow> named_attempts j as = []"
    and "ActiveAttempt snap = Some a \<Longrightarrow> a \<in> set (named_attempts j as)"
  using assms
  by (auto simp: ActiveAttempt_def named_attempts_def filter_empty_conv find_None_iff split: option.splits dest!: find_SomeD)

lemma ownership_nearer:
  assumes "j \<in> set (m_jobs m)" and "open_job j" and "job = store_spec_hash k j"
  shows "brings_nearer j as (snd (fail_ownership cluster_kube recording now job e (idle m, l)))"
proof -
  obtain cs where t: "TrySetJobTerminal (k_ssc cluster_kube) now (job_conditions job) JobConditionFailed CTrue
        ''OwnershipViolation'' (''stale attempt detected: '' @ ownership_text e) = (cs, True)"
    using assms(2,3) by (simp add: TrySetJobTerminal_def)
  have "IsJobTerminal (fst (TrySetJobTerminal (k_ssc cluster_kube) now (job_conditions job) JobConditionFailed CTrue
        ''OwnershipViolation'' (''stale attempt detected: '' @ ownership_text e)))"
    by (rule TrySetJobTerminal_sets [OF cluster_ssc(2)]) simp
  with t have "IsJobTerminal cs" by simp
  then have "brings_nearer j as (snd (commit_job cluster_kube recording ''update job status after ownership violation'' ''Warning''
            ''OwnershipViolation'' (\<lambda>_. ownership_text e) Finished
            (with_status job (\<lambda>st. st\<lparr>st_conditions := cs, st_completion := Some now\<rparr>)) (idle m, l)))"
    using assms(3) by (intro commit_nearer closed_nearer assms(1)) simp_all
  with t show ?thesis by (simp add: fail_ownership_def del: cluster_ssc(1))
qed

lemma pass_nearer:
  assumes "cluster_inv (objs_of m)" and "j \<in> set (m_jobs m)" and "open_job j" and "plain_name (job_name j)"
    and "ended_pods (m_pods m)"
    and "m' = cluster_step m (ReconcilePass now recording (om_namespace (j_meta j)) (job_name j) [])"
  shows "\<exists>j'\<in>set (m_jobs m'). nearer j (m_attempts m) j' (m_attempts m')"
proof -
  obtain snap where snap: "LoadJobSnapshot cluster_kube (om_namespace (j_meta j)) (job_name j) (idle m, []) =
        (Inr (Some snap), (idle m, []))"
    "js_job snap = j" "set (js_attempts snap) = set (attempts_of_job j (m_attempts m))" "snapshot_of snap m"
    using idle_LoadJobSnapshot [OF assms(1,2)] by blast
  define job where "job = store_spec_hash cluster_kube j"
  define snap' where "snap' = snap\<lparr>js_job := job\<rparr>"
  have s': "js_job snap' = store_spec_hash cluster_kube j" "snapshot_of snap' m" "js_attempts snap' = js_attempts snap"
    using snap(4) by (simp_all add: snap'_def snapshot_of_def job_def)
  note act = active_named [of snap' j "m_attempts m", OF _ refl]
  have st: "st_active (j_status (js_job snap')) = st_active (j_status j)" by (simp add: s'(1))
  define r where "r = (case first_violation job (js_attempts snap') of
             Some err \<Rightarrow> fail_ownership cluster_kube recording now job err (idle m, [])
           | None \<Rightarrow>
               (case ActiveAttempt snap' of
                  None \<Rightarrow> start_attempt cluster_kube recording now job (idle m, [])
                | Some attempt \<Rightarrow> advance_attempt cluster_kube recording now snap' attempt (idle m, [])))"
  have "Reconcile cluster_kube recording now (om_namespace (j_meta j)) (job_name j) (idle m, []) = r"
    using snap(1,2) assms(3)
    unfolding r_def snap'_def job_def by (simp add: Reconcile_def reconcile_snapshot_def Let_def)
  then have "m' = cl_mem (fst (snd r))" using assms(6) by (simp add: idle_def)
  moreover have "brings_nearer j (m_attempts m) (snd r)"
    using ownership_nearer [OF assms(2,3) job_def] start_nearer [OF assms(1-4) job_def]
      advance_nearer [OF assms(1-4) s'(1) assms(5) s'(2)] act snap(3) s'(3) st
    by (auto simp: r_def split: option.split)
  ultimately show ?thesis by (simp add: brings_nearer_def)
qed

subsection \<open>Every job ends\<close>

text \<open>A round: all Pods end in some way, then the controller passes over the job.\<close>

type_synonym round = "pod list \<times> instant \<times> bool"

fun round_events :: "string \<Rightarrow> string \<Rightarrow> round \<Rightarrow> cluster_event list" where
  "round_events ns name (ps, now, recording) = [PodsChange ps, ReconcilePass now recording ns name []]"

abbreviation rounds :: "string \<Rightarrow> string \<Rightarrow> round list \<Rightarrow> cluster_event list" where
  "rounds ns name rs \<equiv> concat (map (round_events ns name) rs)"

lemma rounds_unattended: "list_all unattended (rounds ns name rs)"
  by (induction rs) auto

definition ended_job :: "object_meta \<Rightarrow> mem \<Rightarrow> bool" where
  "ended_job om m \<longleftrightarrow> (\<exists>j\<in>set (m_jobs m). j_meta j = om \<and> \<not> open_job j)"

lemma ended_stays:
  assumes "ended_job om m" and "cluster_inv (objs_of m)" and "list_all unattended es"
  shows "ended_job om (foldl cluster_step m es)"
proof -
  obtain j where j: "j \<in> set (m_jobs m)" "j_meta j = om" "\<not> open_job j" using assms(1) by (auto simp: ended_job_def)
  from cluster_writes_frozen [OF unattended_run [OF assms(3,2)] assms(2) _ j(3), of "attempts_of_job j (m_attempts m)"] j
  show ?thesis by (auto simp: ended_job_def frozen_def)
qed

lemma rounds_end:
  assumes "cluster_inv (objs_of m)" and "j \<in> set (m_jobs m)" and "plain_name (job_name j)"
    and "\<forall>(ps, r)\<in>set rs. ended_pods ps" and "distance j (m_attempts m) < length rs"
  shows "ended_job (j_meta j) (foldl cluster_step m (rounds (om_namespace (j_meta j)) (job_name j) rs))"
  using assms
proof (induction rs arbitrary: m j)
  case (Cons r rs)
  obtain ps now recording where r: "r = (ps, now, recording)" by (cases r)
  let ?ns = "om_namespace (j_meta j)" and ?n = "job_name j"
  define m1 where "m1 = m\<lparr>m_pods := ps\<rparr>"
  define m2 where "m2 = cluster_step m1 (ReconcilePass now recording ?ns ?n [])"
  have inv1: "cluster_inv (objs_of m1)" using Cons.prems(1) by (simp add: m1_def)
  have inv2: "cluster_inv (objs_of m2)" using cluster_step_inv [OF inv1, of "ReconcilePass now recording ?ns ?n []"]
    by (simp add: m2_def)
  have run: "foldl cluster_step m (rounds ?ns ?n (r # rs)) = foldl cluster_step m2 (rounds ?ns ?n rs)"
    by (simp add: r m1_def m2_def)
  show ?case
  proof (cases "open_job j")
    case False
    with Cons.prems(2) have "ended_job (j_meta j) m" by (auto simp: ended_job_def)
    from ended_stays [OF this Cons.prems(1) rounds_unattended] show ?thesis .
  next
    case True
    have "\<exists>j'\<in>set (m_jobs m2). nearer j (m_attempts m1) j' (m_attempts m2)"
      by (rule pass_nearer [OF inv1 _ True Cons.prems(3) _ m2_def]) (use Cons.prems(2,4) r in \<open>auto simp: m1_def\<close>)
    then obtain j' where j': "j' \<in> set (m_jobs m2)" "j_meta j' = j_meta j"
      "open_job j' \<Longrightarrow> distance j' (m_attempts m2) < distance j (m_attempts m1)" by (auto simp: nearer_def)
    show ?thesis
    proof (cases "open_job j'")
      case True
      with j'(3) Cons.prems(5) have "distance j' (m_attempts m2) < length rs" by (simp add: m1_def)
      with Cons.IH [OF inv2 j'(1)] j'(2) Cons.prems(3,4) show ?thesis unfolding run by simp
    next
      case False
      with j'(1,2) have "ended_job (j_meta j) m2" by (auto simp: ended_job_def)
      from ended_stays [OF this inv2 rounds_unattended] show ?thesis unfolding run .
    qed
  qed
qed simp

end
