(* ===== verification/Supervisor.thy ===== *)
theory Supervisor
  imports Runner Protocol
begin

text \<open>
  The process supervisor (\<open>internal/runner/supervisor.go\<close>, \<open>signals_unix.go\<close>,
  \<open>termination.go\<close>) and the life of the hook server (\<open>hookserver.go\<close>). Starting a process
  and waiting for it are the operating system's; what happens meanwhile is a list of events:
  a signal taken from the channel, the end of the context, the end of the child.
\<close>

subsection \<open>Supervising a child\<close>

record supervisor =
  sv_argv :: "string list"
  sv_work_dir :: string
  sv_env :: "string list"

datatype sup_event = GotSignal int | ContextDone | ChildEnds "wait_error option"

text \<open>A signal goes to the group of the child; the end of the context kills the child alone.\<close>

datatype sup_action = SignalGroup int int | KillChild int

definition SIGINT :: int where "SIGINT = 2"
definition SIGTERM :: int where "SIGTERM = 15"

text \<open>\<open>forward\<close> holds until the context ends, which also ends the forwarding.\<close>

fun supervise :: "int \<Rightarrow> bool \<Rightarrow> sup_event list \<Rightarrow> ProcessResult option \<times> sup_action list" where
  "supervise pid forward [] = (None, [])"
| "supervise pid forward (GotSignal s # es) =
     (let (r, as) = supervise pid forward es
      in (r, if forward \<and> (s = SIGTERM \<or> s = SIGINT) then SignalGroup pid s # as else as))"
| "supervise pid forward (ContextDone # es) =
     (let (r, as) = supervise pid False es in (r, if forward then KillChild pid # as else as))"
| "supervise pid forward (ChildEnds e # es) = (Some (ExitToResult e), [])"

datatype sup_outcome = SupError string | SupResult ProcessResult | SupWaiting

definition Supervisor_Run ::
  "(supervisor \<Rightarrow> string + int) \<Rightarrow> sup_event list \<Rightarrow> supervisor \<Rightarrow> sup_outcome \<times> sup_action list" where
  "Supervisor_Run start es sv =
     (if sv_argv sv = [] then (SupError ''supervisor: argv must not be empty'', [])
      else case start sv of
        Inl e \<Rightarrow>
          (SupResult \<lparr>pr_exit_code = -1, pr_signal = 0, pr_oom_killed = False, pr_error = ''exec start: '' @ e\<rparr>, [])
      | Inr pid \<Rightarrow>
          (case supervise pid True es of
             (None, as) \<Rightarrow> (SupWaiting, as)
           | (Some r, as) \<Rightarrow> (SupResult r, as)))"

text \<open>The termination message: JSON encoding and the file system are arguments, each may fail.\<close>

definition WriteTerminationMessage ::
  "(ProcessResult \<Rightarrow> string + string) \<Rightarrow> (string \<Rightarrow> string \<Rightarrow> string option) \<Rightarrow> ProcessResult \<Rightarrow> string option" where
  "WriteTerminationMessage marshal write_file r =
     (case marshal r of
        Inl e \<Rightarrow> Some (''marshal termination message: '' @ e)
      | Inr data \<Rightarrow> map_option (\<lambda>e. ''write termination log: '' @ e) (write_file ''/dev/termination-log'' data))"

text \<open>The events up to the end of the child, and whether the context ended before.\<close>

definition while_running :: "sup_event list \<Rightarrow> sup_event list" where
  "while_running es = takeWhile (\<lambda>e. \<forall>w. e \<noteq> ChildEnds w) es"

lemma supervise_result:
  "fst (supervise pid f es) =
     (case dropWhile (\<lambda>e. \<forall>w. e \<noteq> ChildEnds w) es of [] \<Rightarrow> None | e # _ \<Rightarrow> (case e of ChildEnds w \<Rightarrow> Some (ExitToResult w) | _ \<Rightarrow> None))"
  by (induction pid f es rule: supervise.induct) (simp_all add: split_beta)

text \<open>Once the context has ended nothing is sent; before, every signal reaches the group, in order.\<close>

definition forwarded :: "int \<Rightarrow> sup_event list \<Rightarrow> sup_action list" where
  "forwarded pid es =
     concat (map (\<lambda>e. case e of GotSignal s \<Rightarrow> if s = SIGTERM \<or> s = SIGINT then [SignalGroup pid s] else [] | _ \<Rightarrow> []) es)"

lemma supervise_off [simp]: "snd (supervise pid False es) = []"
proof (induction es)
  case (Cons e es)
  then show ?case by (cases e) (simp_all add: split_beta)
qed simp

lemma supervise_forwards:
  "snd (supervise pid True es) =
     forwarded pid (takeWhile (\<lambda>e. e \<noteq> ContextDone) (while_running es)) @
     (if ContextDone \<in> set (while_running es) then [KillChild pid] else [])"
proof (induction es)
  case (Cons e es)
  then show ?case by (cases e) (simp_all add: while_running_def forwarded_def split_beta)
qed (simp add: while_running_def forwarded_def)

subsection \<open>The life of the hook server\<close>

text \<open>
  \<open>Start\<close> removes the socket's file, listens and accepts; \<open>Stop\<close> closes the listener once,
  waits for the connections that are being served and removes the file. An accept error before
  \<open>Stop\<close> is retried. Connections are counted from their acceptance to their end.
\<close>

record hook_server =
  hv_listening :: bool
  hv_stopped :: bool
  hv_socket :: bool
  hv_open :: nat

definition NewHookServer :: "bool \<Rightarrow> hook_server" where
  "NewHookServer socket_exists = \<lparr>hv_listening = False, hv_stopped = False, hv_socket = socket_exists, hv_open = 0\<rparr>"

definition hook_Start :: "string option \<Rightarrow> hook_server \<Rightarrow> string option \<times> hook_server" where
  "hook_Start listen_error h =
     (let h = h\<lparr>hv_socket := False\<rparr> in
      case listen_error of
        Some e \<Rightarrow> (Some (''hookserver: listen: '' @ e), h)
      | None \<Rightarrow> (None, h\<lparr>hv_listening := True, hv_socket := True\<rparr>))"

text \<open>One turn of the accept loop; the loop runs while the listener is open or \<open>done\<close> is not closed.\<close>

definition accept_conn :: "hook_server \<Rightarrow> hook_server" where
  "accept_conn h = (if hv_listening h then h\<lparr>hv_open := Suc (hv_open h)\<rparr> else h)"

text \<open>Serving a connection that was accepted.\<close>

definition serve_conn :: "hook_codec \<Rightarrow> hook_env \<times> string \<Rightarrow> hook_server \<times> runner \<Rightarrow> hook_server \<times> runner" where
  "serve_conn hc c st =
     (case hv_open (fst st) of
        0 \<Rightarrow> st
      | Suc n \<Rightarrow> ((fst st)\<lparr>hv_open := n\<rparr>, serve hc (snd st) c))"

text \<open>\<open>Stop\<close>: the connections still open are served while it waits.\<close>

definition hook_Stop :: "hook_codec \<Rightarrow> (hook_env \<times> string) list \<Rightarrow> hook_server \<times> runner \<Rightarrow> hook_server \<times> runner" where
  "hook_Stop hc cs st =
     (if hv_stopped (fst st) then st
      else let (h, r) = foldl (\<lambda>st c. serve_conn hc c st) ((fst st)\<lparr>hv_listening := False, hv_stopped := True\<rparr>, snd st) cs
        in (h\<lparr>hv_socket := False\<rparr>, r))"

datatype hook_event = HookAccept | HookServe "hook_env \<times> string" | HookStop "(hook_env \<times> string) list"

fun hook_step :: "hook_codec \<Rightarrow> hook_server \<times> runner \<Rightarrow> hook_event \<Rightarrow> hook_server \<times> runner" where
  "hook_step hc (h, r) HookAccept = (accept_conn h, r)"
| "hook_step hc (h, r) (HookServe c) = serve_conn hc c (h, r)"
| "hook_step hc (h, r) (HookStop cs) = hook_Stop hc cs (h, r)"

text \<open>\<open>Stop\<close> returns when every connection has been served.\<close>

definition drained :: "hook_server \<times> runner \<Rightarrow> bool" where
  "drained st \<longleftrightarrow> hv_stopped (fst st) \<and> \<not> hv_listening (fst st) \<and> hv_open (fst st) = 0"

lemma serve_conn_open: "hv_open (fst (serve_conn hc c st)) = hv_open (fst st) - 1"
  "hv_stopped (fst (serve_conn hc c st)) = hv_stopped (fst st)"
  "hv_listening (fst (serve_conn hc c st)) = hv_listening (fst st)"
  by (auto simp: serve_conn_def split: nat.split)

lemma serve_conns_open:
  "hv_open (fst (foldl (\<lambda>st c. serve_conn hc c st) st cs)) = hv_open (fst st) - length cs"
  "hv_stopped (fst (foldl (\<lambda>st c. serve_conn hc c st) st cs)) = hv_stopped (fst st)"
  "hv_listening (fst (foldl (\<lambda>st c. serve_conn hc c st) st cs)) = hv_listening (fst st)"
  by (induction cs arbitrary: st) (simp_all add: serve_conn_open)

lemma hook_Stop_drains:
  assumes "\<not> hv_stopped (fst st)" and "length cs = hv_open (fst st)"
  shows "drained (hook_Stop hc cs st)"
  using assms
  by (simp add: hook_Stop_def drained_def split_beta serve_conns_open)

lemma drained_step: "drained st \<Longrightarrow> hook_step hc st e = st"
  by (cases st; cases e) (simp_all add: drained_def accept_conn_def serve_conn_def hook_Stop_def)

interpretation hook_latch: latch_machine "hook_step hc" drained "\<lambda>st. st" for hc
  by unfold_locales (simp_all add: drained_step)

text \<open>The server journals what its connections say, until it is drained.\<close>

lemma stopped_server_journals_nothing: "drained st \<Longrightarrow> foldl (hook_step hc) st es = st"
  by (rule hook_latch.run_obs)

end
