(* ===== verification/JsonTree.thy ===== *)
theory JsonTree
  imports GoStd
begin

text \<open>
  JSON documents as trees, and what Go reads from one: into a map, a slice of maps, a slice of
  strings or a string field of a struct, where a value of another type is an error the callers
  ignore and leaves the zero value; the text of a decoded value under the verb \<open>%v\<close>; padding.
  A number is the \<open>float64\<close> the decoder makes of it. Strings are the UTF-8 the decoder yields.
\<close>

datatype jval = JNull | JBool bool | JNum rat | JText string | JArr "jval list" | JObj "(string \<times> jval) list"

subsection \<open>Reading\<close>

text \<open>A later member of the same name replaces an earlier one; what is missing is nil.\<close>

definition member :: "jval \<Rightarrow> string \<Rightarrow> jval" where
  "member v k = (case v of JObj ms \<Rightarrow> (case map_of (rev ms) k of None \<Rightarrow> JNull | Some x \<Rightarrow> x) | _ \<Rightarrow> JNull)"

definition elements :: "jval \<Rightarrow> jval list" where
  "elements v = (case v of JArr vs \<Rightarrow> vs | _ \<Rightarrow> [])"

definition is_obj :: "jval \<Rightarrow> bool" where
  "is_obj v \<longleftrightarrow> (case v of JObj _ \<Rightarrow> True | _ \<Rightarrow> False)"

definition texts_of :: "jval \<Rightarrow> string list" where
  "texts_of v = map (\<lambda>x. case x of JText s \<Rightarrow> s | _ \<Rightarrow> []) (elements v)"

text \<open>A struct with one string field: names match without regard to case, each match assigns.\<close>

definition fold_case :: "char \<Rightarrow> char" where
  "fold_case c = (let n = of_char c :: nat in if 65 \<le> n \<and> n \<le> 90 then char_of (n + 32) else c)"

definition text_field :: "string \<Rightarrow> jval \<Rightarrow> string" where
  "text_field k v =
     (case v of
        JObj ms \<Rightarrow>
          foldl (\<lambda>s (k', x). if map fold_case k' = map fold_case k then (case x of JText t \<Rightarrow> t | _ \<Rightarrow> s) else s) [] ms
      | _ \<Rightarrow> [])"

subsection \<open>Printing\<close>

text \<open>
  The text of a value under \<open>%v\<close>; that of a number is an argument. The keys of a map are
  sorted.
\<close>

definition spaced :: "string list \<Rightarrow> string" where
  "spaced xs = tl (concat (map (\<lambda>x. CHR '' '' # x) xs))"

definition map_text :: "(string \<times> string) list \<Rightarrow> string" where
  "map_text ms =
     ''map['' @ spaced (map (\<lambda>k. k @ '':'' @ (case map_of (rev ms) k of None \<Rightarrow> [] | Some t \<Rightarrow> t))
       (sort (remdups (map fst ms)))) @ '']''"

fun value_text :: "(rat \<Rightarrow> string) \<Rightarrow> jval \<Rightarrow> string"
  and value_texts :: "(rat \<Rightarrow> string) \<Rightarrow> jval list \<Rightarrow> string list"
  and member_texts :: "(rat \<Rightarrow> string) \<Rightarrow> (string \<times> jval) list \<Rightarrow> (string \<times> string) list" where
  "value_text f JNull = ''<nil>''"
| "value_text f (JBool b) = (if b then ''true'' else ''false'')"
| "value_text f (JNum x) = f x"
| "value_text f (JText s) = s"
| "value_text f (JArr vs) = ''['' @ spaced (value_texts f vs) @ '']''"
| "value_text f (JObj ms) = map_text (member_texts f ms)"
| "value_texts f [] = []"
| "value_texts f (v # vs) = value_text f v # value_texts f vs"
| "member_texts f [] = []"
| "member_texts f ((k, v) # ms) = (k, value_text f v) # member_texts f ms"

text \<open>\<open>%-ns\<close> pads to a number of runes; every byte but a continuation byte starts one.\<close>

definition rune_count :: "string \<Rightarrow> nat" where
  "rune_count s = length (filter (\<lambda>c. let n = of_char c :: nat in n < 128 \<or> 192 \<le> n) s)"

definition pad :: "nat \<Rightarrow> string \<Rightarrow> string" where
  "pad n s = s @ replicate (n - rune_count s) CHR '' ''"

subsection \<open>Facts\<close>

lemma member_Cons_skip [simp]: "map_of (rev ms) k \<noteq> None \<Longrightarrow> member (JObj (m # ms)) k = member (JObj ms) k"
  by (auto simp: member_def map_add_def split: option.splits)

lemma member_distinct: "distinct (map fst ms) \<Longrightarrow> (k, v) \<in> set ms \<Longrightarrow> member (JObj ms) k = v"
  by (simp add: member_def rev_map [symmetric])

lemma elements_JArr [simp]: "elements (JArr vs) = vs"
  by (simp add: elements_def)

lemma texts_of_JArr [simp]: "texts_of (JArr (map JText xs)) = xs"
  by (simp add: texts_of_def comp_def)

lemma is_obj_JObj [simp]: "is_obj (JObj ms)"
  by (simp add: is_obj_def)

lemma text_field_single [simp]: "text_field k (JObj [(k, JText s)]) = s"
  by (simp add: text_field_def)

end
