(* ===== verification/ApiJson.thy ===== *)
theory ApiJson
  imports JsonTree JobApi
begin

text \<open>
  What the API server writes (\<open>writeJSON\<close> in \<open>internal/api/server.go\<close>): the value of a
  response as the tree its struct tags give (\<open>internal/model/model.go\<close>,
  \<open>internal/pool/pool.go\<close>). Times are texts: \<open>tf_seconds\<close> formats RFC 3339,
  \<open>tf_nanos\<close> is the encoding of a \<open>time.Time\<close>. A nil slice, which the model does not
  separate from an empty one, is null where the code can have one.
\<close>

record time_format =
  tf_seconds :: "instant \<Rightarrow> string"
  tf_nanos :: "instant \<Rightarrow> string"

definition num_json :: "int \<Rightarrow> jval" where
  "num_json n = JNum (of_int n)"

definition text_list :: "string list \<Rightarrow> jval" where
  "text_list xs = JArr (map JText xs)"

definition optional :: "string \<Rightarrow> ('a \<Rightarrow> jval) \<Rightarrow> 'a option \<Rightarrow> (string \<times> jval) list" where
  "optional k f x = (case x of None \<Rightarrow> [] | Some v \<Rightarrow> [(k, f v)])"

definition omit_empty :: "string \<Rightarrow> string \<Rightarrow> (string \<times> jval) list" where
  "omit_empty k s = (if s = [] then [] else [(k, JText s)])"

subsection \<open>Jobs and attempts\<close>

definition spec_json :: "JobSpec \<Rightarrow> jval" where
  "spec_json sp = JObj
     ([(''name'', JText (sp_name sp)), (''image'', JText (sp_image sp)), (''prompt'', JText (sp_prompt sp)),
       (''timeout'', JText (sp_timeout sp)),
       (''resources'', JObj [(''cpuLimit'', JText (sp_cpu sp)), (''memoryLimit'', JText (sp_memory sp))]),
       (''artifacts'', if sp_artifacts sp = [] then JNull else text_list (sp_artifacts sp))] @
      (if sp_env sp = [] then []
       else [(''env'', JObj (map (\<lambda>(k, v). (k, JText v)) (sort_key fst (sp_env sp))))]) @
      [(''maxRetries'', num_json (sp_max_retries sp)), (''isolation'', JObj [(''level'', JText (sp_isolation sp))]),
       (''stepTracking'', JObj [(''enabled'', JBool (sp_step_enabled sp)), (''protocol'', JText (sp_step_protocol sp))])] @
      omit_empty ''poolRef'' (sp_pool_ref sp))"

definition job_members :: "time_format \<Rightarrow> job_row \<Rightarrow> (string \<times> jval) list" where
  "job_members tf r =
     [(''id'', JText (jr_id r)), (''spec'', spec_json (jr_spec r)), (''state'', JText (job_state_text (jr_state r))),
      (''createdAt'', JText (tf_seconds tf (jr_created r))), (''updatedAt'', JText (tf_seconds tf (jr_updated r)))]"

fun attempt_state_text :: "attempt_state \<Rightarrow> string" where
  "attempt_state_text AttemptNew = ''New''"
| "attempt_state_text AttemptExecuting = ''Executing''"
| "attempt_state_text AttemptCompleted = ''Completed''"
| "attempt_state_text AttemptFailed = ''Failed''"
| "attempt_state_text AttemptTimedOut = ''TimedOut''"

definition attempt_json :: "time_format \<Rightarrow> attempt_row \<Rightarrow> jval" where
  "attempt_json tf r = JObj
     ([(''id'', JText (ar_id r)), (''jobId'', JText (ar_job r)), (''number'', num_json (ar_number r)),
       (''workerId'', JText (ar_worker r)), (''state'', JText (attempt_state_text (ar_state r))),
       (''startedAt'', JText (tf_seconds tf (ar_started r)))] @
      optional ''finishedAt'' (\<lambda>t. JText (tf_seconds tf t)) (ar_finished r) @
      [(''lastHeartbeat'', JText (tf_seconds tf (ar_heartbeat r)))] @
      optional ''checkpointId'' JText (ar_checkpoint r))"

text \<open>The job is embedded, so its members stand beside the attempts.\<close>

definition job_detail_json :: "time_format \<Rightarrow> job_row \<Rightarrow> attempt_row list \<Rightarrow> jval" where
  "job_detail_json tf r as = JObj (job_members tf r @ [(''attempts'', JArr (map (attempt_json tf) as))])"

fun any_state_text :: "any_state \<Rightarrow> string" where
  "any_state_text (JobS s) = job_state_text s"
| "any_state_text (AttemptS s) = attempt_state_text s"

definition transition_json :: "time_format \<Rightarrow> transition_row \<Rightarrow> jval" where
  "transition_json tf r = JObj
     [(''id'', JText (tn_id r)),
      (''entityType'', JText (case tn_entity r of JobEntity \<Rightarrow> ''job'' | AttemptEntity \<Rightarrow> ''attempt'')),
      (''entityId'', JText (tn_entity_id r)), (''fromState'', JText (any_state_text (tn_from r))),
      (''toState'', JText (any_state_text (tn_to r))), (''trigger'', JText (tn_trigger r)),
      (''createdAt'', JText (tf_seconds tf (tn_created r)))]"

subsection \<open>Pools and policies\<close>

definition pool_config_json :: "pool_config \<Rightarrow> jval" where
  "pool_config_json c = JObj
     [(''name'', JText (cf_name c)), (''minSize'', num_json (cf_min c)), (''maxSize'', num_json (cf_max c)),
      (''scaleUpThreshold'', JNum (cf_up c)), (''scaleDownThreshold'', JNum (cf_down c)),
      (''scaleUpStep'', num_json (cf_step c)), (''cooldownSeconds'', num_json (cf_cooldown c)),
      (''image'', JText (cf_image c)), (''runtimeClass'', JText (cf_runtime c))]"

definition zero_config :: pool_config where
  "zero_config = \<lparr>cf_name = [], cf_min = 0, cf_max = 0, cf_up = 0, cf_down = 0, cf_step = 0, cf_cooldown = 0,
     cf_image = [], cf_runtime = []\<rparr>"

definition pool_status_json :: "time_format \<Rightarrow> pool_status \<Rightarrow> jval" where
  "pool_status_json tf s = JObj
     ([(''totalPods'', num_json (int (ps_total s))), (''idlePods'', num_json (int (ps_idle s))),
       (''claimedPods'', num_json (int (ps_claimed s)))] @
      optional ''lastScaleTime'' (\<lambda>t. JText (tf_nanos tf t)) (ps_last_scale s) @
      [(''ready'', JBool (ps_ready s))])"

text \<open>The list has every member; a single pool only those that are known, as a sorted map.\<close>

definition pool_entry_json :: "time_format \<Rightarrow> pool_info \<Rightarrow> jval" where
  "pool_entry_json tf p = JObj
     [(''name'', JText (pf_name p)),
      (''config'', pool_config_json (case pf_config p of None \<Rightarrow> zero_config | Some c \<Rightarrow> c)),
      (''status'', pool_status_json tf (pf_status p)),
      (''createdAt'', JText (case pf_created p of None \<Rightarrow> [] | Some t \<Rightarrow> tf_seconds tf t))]"

definition pool_json :: "time_format \<Rightarrow> pool_info \<Rightarrow> jval" where
  "pool_json tf p = JObj
     (optional ''config'' pool_config_json (pf_config p) @
      optional ''createdAt'' (\<lambda>t. JText (tf_seconds tf t)) (pf_created p) @
      [(''name'', JText (pf_name p)), (''status'', pool_status_json tf (pf_status p))])"

definition policy_json :: "time_format \<Rightarrow> policy_entry \<Rightarrow> jval" where
  "policy_json tf p = JObj
     [(''allowedLevels'', if pe_allowed p = [] then JNull else text_list (pe_allowed p)),
      (''createdAt'', JText (tf_seconds tf (pe_created p))), (''defaultLevel'', JText (pe_default p)),
      (''maxConcurrentJobs'', num_json (pe_max p)), (''name'', JText (pe_name p)), (''namespace'', JText (pe_namespace p))]"

subsection \<open>Steps, recovery and metrics\<close>

definition step_entry_json :: "step_entry \<Rightarrow> jval" where
  "step_entry_json x = JObj
     ([(''stepId'', JText (se_step x)), (''type'', JText (se_type x)), (''seq'', num_json (se_seq x))] @
      optional ''exitCode'' num_json (se_exit x) @ omit_empty ''outputRef'' (se_output x))"

definition job_steps_json :: "job_steps \<Rightarrow> jval" where
  "job_steps_json x = JObj
     [(''jobId'', JText (js_job x)), (''steps'', JArr (map step_entry_json (js_steps x))),
      (''lastCompletedStep'', JText (js_last x)), (''completedCount'', num_json (int (js_count x)))]"

definition recovery_json :: "recovery_info \<Rightarrow> jval" where
  "recovery_json x = JObj
     [(''jobId'', JText (rf_job x)), (''recoveryMode'', JBool (rf_recovery x)),
      (''completedSteps'', text_list (rf_completed x)), (''lastCompletedStep'', JText (rf_last x)),
      (''recoveredFromStep'', JText (rf_from x))]"

text \<open>The section of the log is never filled.\<close>

definition metrics_json :: "api_metrics \<Rightarrow> jval" where
  "metrics_json x = JObj
     [(''pool'', JObj [(''totalPods'', num_json (int (mx_total x))), (''idlePods'', num_json (int (mx_idle x))),
        (''claimedPods'', num_json (int (mx_claimed x))), (''claimTotal'', num_json (mx_claims x)), (''missTotal'', num_json (mx_misses x))]),
      (''wal'', JObj [(''totalSteps'', num_json 0), (''completedSteps'', num_json 0), (''skippedSteps'', num_json 0)]),
      (''isolation'', JObj (zip [''L0'', ''L1'', ''L2'', ''L3''] (map num_json (mx_levels x))))]"

subsection \<open>Responses\<close>

text \<open>The bytes of an artifact and an empty body are no documents of the server's.\<close>

definition body_json :: "time_format \<Rightarrow> api_body \<Rightarrow> jval option" where
  "body_json tf b =
     (case b of
        NoBody \<Rightarrow> None
      | ErrorBody x \<Rightarrow> Some (JObj [(''error'', JText x)])
      | JobIdBody i \<Rightarrow> Some (JObj [(''jobId'', JText i)])
      | JobsBody rs \<Rightarrow> Some (JArr (map (\<lambda>r. JObj (job_members tf r)) rs))
      | JobBody r as \<Rightarrow> Some (job_detail_json tf r as)
      | TextsBody xs \<Rightarrow> Some (text_list xs)
      | DataBody d \<Rightarrow> None
      | TransitionsBody rs \<Rightarrow> Some (JArr (map (transition_json tf) rs))
      | PoolsBody ps \<Rightarrow> Some (JArr (map (pool_entry_json tf) ps))
      | PoolBody p \<Rightarrow> Some (pool_json tf p)
      | PolicyBody p \<Rightarrow> Some (policy_json tf p)
      | StepsBody x \<Rightarrow> Some (job_steps_json x)
      | RecoveryBody x \<Rightarrow> Some (recovery_json x)
      | MetricsBody x \<Rightarrow> Some (metrics_json x))"

end
