(* ===== verification/Fab.thy ===== *)
theory Fab
  imports ApiJson
begin

text \<open>
  The command \<open>fab\<close> (\<open>cmd/fab/main.go\<close>), the client of the API server. What it prints is
  the exact text on each stream. The environment, YAML, HTTP and the texts of numbers are fields
  of \<open>fab\<close>; a response carries its bytes and what the JSON decoder reads from them, if it
  can. Transport, decoder and number errors the command ignores are ignored here too.
\<close>

record fab_response =
  fr_status :: int
  fr_body :: string
  fr_json :: "jval option"

record 'w fab =
  fb_api_url :: string
  fb_read_file :: "string \<Rightarrow> string + string"
  fb_yaml :: "string \<Rightarrow> string + JobSpec"
  fb_get :: "string \<Rightarrow> 'w \<Rightarrow> (string + fab_response) \<times> 'w"
  fb_post :: "string \<Rightarrow> jval \<Rightarrow> 'w \<Rightarrow> (string + fab_response) \<times> 'w"
  fb_number :: "rat \<Rightarrow> string"
  fb_fixed0 :: "jval \<Rightarrow> string"

record fab_result =
  fx_exit :: nat
  fx_out :: string
  fx_err :: string

definition as_lines :: "string list \<Rightarrow> string" where
  "as_lines xs = concat (map (\<lambda>x. x @ [CHR 0x0A]) xs)"

definition fab_ok :: "string \<Rightarrow> fab_result" where
  "fab_ok out = \<lparr>fx_exit = 0, fx_out = out, fx_err = []\<rparr>"

definition fab_fail :: "string list \<Rightarrow> fab_result" where
  "fab_fail err = \<lparr>fx_exit = 1, fx_out = [], fx_err = as_lines err\<rparr>"

definition envOr :: "string \<Rightarrow> string \<Rightarrow> string" where
  "envOr v def = (if v \<noteq> [] then v else def)"

definition decoded :: "fab_response \<Rightarrow> jval" where
  "decoded r = (case fr_json r of None \<Rightarrow> JNull | Some v \<Rightarrow> v)"

definition str :: "(rat \<Rightarrow> string) \<Rightarrow> jval \<Rightarrow> string" where
  "str f v = (if v = JNull then [] else value_text f v)"

definition printErrResponse :: "fab_response \<Rightarrow> string" where
  "printErrResponse r =
     (let e = text_field ''error'' (decoded r)
      in if e \<noteq> [] then ''error (HTTP '' @ show_int (fr_status r) @ ''): '' @ e
         else ''error: HTTP '' @ show_int (fr_status r))"

text \<open>A GET, the check of its status, and what is printed on success.\<close>

definition fab_fetch :: "'w fab \<Rightarrow> string \<Rightarrow> (fab_response \<Rightarrow> string) \<Rightarrow> 'w \<Rightarrow> fab_result \<times> 'w" where
  "fab_fetch fb path out w =
     (case fb_get fb (envOr (fb_api_url fb) ''http://localhost:8080'' @ path) w of
        (Inl e, w) \<Rightarrow> (fab_fail [''http get: '' @ e], w)
      | (Inr r, w) \<Rightarrow>
          (if fr_status r \<noteq> 200 then fab_fail [printErrResponse r] else fab_ok (out r), w))"

subsection \<open>Jobs\<close>

definition fabSubmit :: "'w fab \<Rightarrow> string \<Rightarrow> 'w \<Rightarrow> fab_result \<times> 'w" where
  "fabSubmit fb path w =
     (case fb_read_file fb path of
        Inl e \<Rightarrow> (fab_fail [''read file: '' @ e], w)
      | Inr data \<Rightarrow>
          (case fb_yaml fb data of
             Inl e \<Rightarrow> (fab_fail [''parse YAML: '' @ e], w)
           | Inr spec \<Rightarrow>
               (case fb_post fb (envOr (fb_api_url fb) ''http://localhost:8080'' @ ''/api/v1/jobs'') (spec_json spec) w of
                  (Inl e, w) \<Rightarrow> (fab_fail [''http post: '' @ e], w)
                | (Inr r, w) \<Rightarrow>
                    (if fr_status r \<noteq> 201 then fab_fail [printErrResponse r]
                     else fab_ok (as_lines [''Job submitted: '' @ text_field ''jobId'' (decoded r)]), w))))"

definition attempt_line :: "'w fab \<Rightarrow> jval \<Rightarrow> string list" where
  "attempt_line fb a =
     (if is_obj a
      then [''  #'' @ fb_fixed0 fb (member a ''number'') @ ''  state='' @ pad 12 (str (fb_number fb) (member a ''state'')) @
            ''  worker='' @ str (fb_number fb) (member a ''workerId'') @ ''  started='' @ str (fb_number fb) (member a ''startedAt'')]
      else [])"

definition status_lines :: "'w fab \<Rightarrow> jval \<Rightarrow> string list" where
  "status_lines fb v =
     (let st = str (fb_number fb); spec = member v ''spec''; attempts = elements (member v ''attempts'')
      in [''ID:        '' @ st (member v ''id''), ''State:     '' @ st (member v ''state''),
          ''Created:   '' @ st (member v ''createdAt''), ''Updated:   '' @ st (member v ''updatedAt'')] @
         (if is_obj spec then [''Name:      '' @ st (member spec ''name''), ''Image:     '' @ st (member spec ''image'')] else []) @
         (if attempts = [] then [] else [[], ''Attempts:''] @ concat (map (attempt_line fb) attempts)))"

definition fabStatus :: "'w fab \<Rightarrow> string \<Rightarrow> 'w \<Rightarrow> fab_result \<times> 'w" where
  "fabStatus fb i = fab_fetch fb (''/api/v1/jobs/'' @ i) (\<lambda>r. as_lines (status_lines fb (decoded r)))"

definition fabLogs :: "'w fab \<Rightarrow> string \<Rightarrow> 'w \<Rightarrow> fab_result \<times> 'w" where
  "fabLogs fb i = fab_fetch fb (''/api/v1/jobs/'' @ i @ ''/logs'') (\<lambda>r. as_lines (texts_of (decoded r)))"

definition fabArtifacts :: "'w fab \<Rightarrow> string \<Rightarrow> 'w \<Rightarrow> fab_result \<times> 'w" where
  "fabArtifacts fb i = fab_fetch fb (''/api/v1/jobs/'' @ i @ ''/artifacts'')
     (\<lambda>r. let names = texts_of (decoded r) in as_lines (if names = [] then [''(no artifacts)''] else names))"

definition fabGetArtifact :: "'w fab \<Rightarrow> string \<Rightarrow> string \<Rightarrow> 'w \<Rightarrow> fab_result \<times> 'w" where
  "fabGetArtifact fb i name = fab_fetch fb (''/api/v1/jobs/'' @ i @ ''/artifacts/'' @ name) fr_body"

text \<open>A table row: all cells but the last are padded.\<close>

definition table_row :: "(nat \<times> string) list \<Rightarrow> string \<Rightarrow> string" where
  "table_row cells l = concat (map (\<lambda>(n, s). pad n s @ ''  '') cells) @ l"

definition job_line :: "'w fab \<Rightarrow> jval \<Rightarrow> string" where
  "job_line fb j =
     (let st = str (fb_number fb); spec = member j ''spec''
      in table_row [(38, st (member j ''id'')), (12, st (member j ''state'')), (20, st (member j ''createdAt''))]
           (if is_obj spec then st (member spec ''name'') else []))"

definition list_lines :: "'w fab \<Rightarrow> jval list \<Rightarrow> string list" where
  "list_lines fb jobs =
     (if jobs = [] then [''(no jobs)'']
      else [table_row [(38, ''ID''), (12, ''STATE''), (20, ''CREATED'')] ''NAME'',
            table_row [(38, ''------''), (12, ''-----''), (20, ''-------'')] ''----''] @ map (job_line fb) jobs)"

definition fabList :: "'w fab \<Rightarrow> 'w \<Rightarrow> fab_result \<times> 'w" where
  "fabList fb = fab_fetch fb ''/api/v1/jobs'' (\<lambda>r. as_lines (list_lines fb (elements (decoded r))))"

subsection \<open>Pools\<close>

definition ready_text :: "'w fab \<Rightarrow> jval \<Rightarrow> string" where
  "ready_text fb v = (case v of JBool b \<Rightarrow> if b then ''true'' else ''false'' | _ \<Rightarrow> str (fb_number fb) v)"

definition pool_line :: "'w fab \<Rightarrow> jval \<Rightarrow> string" where
  "pool_line fb p =
     (let st = str (fb_number fb); status = member p ''status''; cell = (\<lambda>k. if is_obj status then st (member status k) else [])
      in table_row [(20, st (member p ''name'')), (8, cell ''totalPods''), (8, cell ''idlePods''), (8, cell ''claimedPods''),
            (6, if is_obj status then ready_text fb (member status ''ready'') else [])] (st (member p ''createdAt'')))"

definition pool_lines :: "'w fab \<Rightarrow> jval list \<Rightarrow> string list" where
  "pool_lines fb ps =
     (if ps = [] then [''(no pools)'']
      else [table_row [(20, ''NAME''), (8, ''TOTAL''), (8, ''IDLE''), (8, ''CLAIMED''), (6, ''READY'')] ''CREATED'',
            table_row [(20, ''----''), (8, ''-----''), (8, ''----''), (8, ''-------''), (6, ''-----'')] ''-------''] @
           map (pool_line fb) ps)"

definition fabPoolList :: "'w fab \<Rightarrow> 'w \<Rightarrow> fab_result \<times> 'w" where
  "fabPoolList fb = fab_fetch fb ''/api/v2/pools'' (\<lambda>r. as_lines (pool_lines fb (elements (decoded r))))"

definition pool_detail_lines :: "'w fab \<Rightarrow> jval \<Rightarrow> string list" where
  "pool_detail_lines fb v =
     (let st = str (fb_number fb); config = member v ''config''; status = member v ''status'';
          scaled = st (member status ''lastScaleTime'')
      in [''Name:        '' @ st (member v ''name''), ''Created:     '' @ st (member v ''createdAt'')] @
         (if is_obj config then
            [[], ''Config:'',
             ''  MinSize:            '' @ st (member config ''minSize''),
             ''  MaxSize:            '' @ st (member config ''maxSize''),
             ''  ScaleUpThreshold:   '' @ st (member config ''scaleUpThreshold''),
             ''  ScaleDownThreshold: '' @ st (member config ''scaleDownThreshold''),
             ''  ScaleUpStep:        '' @ st (member config ''scaleUpStep''),
             ''  CooldownSeconds:    '' @ st (member config ''cooldownSeconds''),
             ''  Image:              '' @ st (member config ''image''),
             ''  RuntimeClass:       '' @ st (member config ''runtimeClass'')]
          else []) @
         (if is_obj status then
            [[], ''Status:'',
             ''  TotalPods:    '' @ st (member status ''totalPods''),
             ''  IdlePods:     '' @ st (member status ''idlePods''),
             ''  ClaimedPods:  '' @ st (member status ''claimedPods''),
             ''  Ready:        '' @ st (member status ''ready'')] @
            (if scaled \<noteq> [] \<and> scaled \<noteq> ''<nil>'' then [''  LastScaleTime: '' @ scaled] else [])
          else []))"

definition fabPoolDescribe :: "'w fab \<Rightarrow> string \<Rightarrow> 'w \<Rightarrow> fab_result \<times> 'w" where
  "fabPoolDescribe fb name = fab_fetch fb (''/api/v2/pools/'' @ name) (\<lambda>r. as_lines (pool_detail_lines fb (decoded r)))"

subsection \<open>Steps and recovery\<close>

definition step_line :: "'w fab \<Rightarrow> jval \<Rightarrow> string list" where
  "step_line fb x =
     (let st = str (fb_number fb)
      in if is_obj x
         then [''  '' @ table_row [(20, st (member x ''stepId'')), (12, st (member x ''type'')), (8, st (member x ''seq'')),
                 (8, st (member x ''exitCode''))] (st (member x ''outputRef''))]
         else [])"

definition steps_lines :: "'w fab \<Rightarrow> jval \<Rightarrow> string list" where
  "steps_lines fb v =
     (let st = str (fb_number fb); steps = elements (member v ''steps'')
      in [''Job ID:             '' @ st (member v ''jobId''), ''Completed Count:    '' @ st (member v ''completedCount''),
          ''Last Completed:     '' @ st (member v ''lastCompletedStep'')] @
         (if steps = [] then [[], ''(no steps)'']
          else [[], ''Steps:'',
                ''  '' @ table_row [(20, ''STEP_ID''), (12, ''TYPE''), (8, ''SEQ''), (8, ''EXIT'')] ''OUTPUT_REF'',
                ''  '' @ table_row [(20, ''-------''), (12, ''----''), (8, ''---''), (8, ''----'')] ''----------''] @
               concat (map (step_line fb) steps)))"

definition fabDescribeSteps :: "'w fab \<Rightarrow> string \<Rightarrow> 'w \<Rightarrow> fab_result \<times> 'w" where
  "fabDescribeSteps fb i = fab_fetch fb (''/api/v2/jobs/'' @ i @ ''/steps'') (\<lambda>r. as_lines (steps_lines fb (decoded r)))"

definition recovery_lines :: "'w fab \<Rightarrow> jval \<Rightarrow> string list" where
  "recovery_lines fb v =
     (let st = str (fb_number fb); steps = elements (member v ''completedSteps'')
      in [''Job ID:             '' @ st (member v ''jobId''), ''Recovery Mode:      '' @ st (member v ''recoveryMode''),
          ''Last Completed:     '' @ st (member v ''lastCompletedStep''),
          ''Recovered From:     '' @ st (member v ''recoveredFromStep'')] @
         (if steps = [] then [[], ''(no completed steps)'']
          else [[], ''Completed Steps:''] @ map (\<lambda>x. ''  - '' @ st x) steps))"

definition fabDescribeRecovery :: "'w fab \<Rightarrow> string \<Rightarrow> 'w \<Rightarrow> fab_result \<times> 'w" where
  "fabDescribeRecovery fb i =
     fab_fetch fb (''/api/v2/jobs/'' @ i @ ''/recovery'') (\<lambda>r. as_lines (recovery_lines fb (decoded r)))"

subsection \<open>main\<close>

definition fab_usage :: "string list" where
  "fab_usage =
     [''usage: fab <command> [args]'', ''commands:'',
      ''  submit <file.yaml>              submit a job'',
      ''  status <job-id>                 show job status'',
      ''  logs <job-id>                   show job logs'',
      ''  artifacts <job-id>              list artifacts'',
      ''  get-artifact <job-id> <name>    download artifact to stdout'',
      ''  list                            list all jobs'',
      ''  pool list                       list all sandbox pools'',
      ''  pool describe <name>            show pool details'',
      ''  describe <job-id> [--steps]     show job step progress'',
      ''  describe <job-id> [--recovery]  show job recovery info'']"

definition hasFlag :: "string \<Rightarrow> string list \<Rightarrow> bool" where
  "hasFlag flag args \<longleftrightarrow> flag \<in> set (drop 2 args)"

text \<open>A command that wants one argument, and its usage line.\<close>

definition one_arg :: "string \<Rightarrow> string list \<Rightarrow> (string \<Rightarrow> 'w \<Rightarrow> fab_result \<times> 'w) \<Rightarrow> 'w \<Rightarrow> fab_result \<times> 'w" where
  "one_arg usage rest f w = (case rest of [] \<Rightarrow> (fab_fail [''usage: fab '' @ usage], w) | a # _ \<Rightarrow> f a w)"

definition fab_pool :: "'w fab \<Rightarrow> string list \<Rightarrow> 'w \<Rightarrow> fab_result \<times> 'w" where
  "fab_pool fb rest w =
     (case rest of
        [] \<Rightarrow> (fab_fail [''usage: fab pool <list|describe> [args]''], w)
      | sub # args \<Rightarrow>
          if sub = ''list'' then fabPoolList fb w
          else if sub = ''describe'' then one_arg ''pool describe <name>'' args (fabPoolDescribe fb) w
          else (fab_fail [''unknown pool subcommand: '' @ sub], w))"

definition fab_describe :: "'w fab \<Rightarrow> string list \<Rightarrow> string \<Rightarrow> 'w \<Rightarrow> fab_result \<times> 'w" where
  "fab_describe fb args i =
     (if hasFlag ''--steps'' args then fabDescribeSteps fb i
      else if hasFlag ''--recovery'' args then fabDescribeRecovery fb i
      else fabStatus fb i)"

definition fab_main :: "'w fab \<Rightarrow> string list \<Rightarrow> 'w \<Rightarrow> fab_result \<times> 'w" where
  "fab_main fb args w =
     (case args of
        [] \<Rightarrow> (fab_fail fab_usage, w)
      | cmd # rest \<Rightarrow>
          if cmd = ''submit'' then one_arg ''submit <file.yaml>'' rest (fabSubmit fb) w
          else if cmd = ''status'' then one_arg ''status <job-id>'' rest (fabStatus fb) w
          else if cmd = ''logs'' then one_arg ''logs <job-id>'' rest (fabLogs fb) w
          else if cmd = ''artifacts'' then one_arg ''artifacts <job-id>'' rest (fabArtifacts fb) w
          else if cmd = ''get-artifact'' then
            (case rest of
               i # name # _ \<Rightarrow> fabGetArtifact fb i name w
             | _ \<Rightarrow> (fab_fail [''usage: fab get-artifact <job-id> <name>''], w))
          else if cmd = ''list'' then fabList fb w
          else if cmd = ''pool'' then fab_pool fb rest w
          else if cmd = ''describe'' then one_arg ''describe <job-id> [--steps|--recovery]'' rest (fab_describe fb args) w
          else (fab_fail ((''unknown command: '' @ cmd) # fab_usage), w))"

end
