(* ===== verification/FabProperties.thy ===== *)
theory FabProperties
  imports Fab DbProperties
begin

text \<open>
  \<open>fab\<close> against the API server: the transport that routes a request of the client, with
  the document it sends, through \<open>serve_api\<close>, and what a user sees of the store through it.
  Paths are split at slashes without unescaping, so the statements speak of identifiers without
  a slash.
\<close>

subsection \<open>The transport\<close>

record api_link =
  lk_env :: api_env
  lk_times :: time_format
  lk_encode :: "jval \<Rightarrow> string"
  lk_spec :: "jval \<Rightarrow> string + JobSpec"

definition answer :: "api_link \<Rightarrow> api_response \<Rightarrow> fab_response" where
  "answer l r =
     \<lparr>fr_status = int (fst r),
      fr_body = (case snd r of DataBody d \<Rightarrow> d | b \<Rightarrow> (case body_json (lk_times l) b of None \<Rightarrow> [] | Some v \<Rightarrow> lk_encode l v)),
      fr_json = body_json (lk_times l) (snd r)\<rparr>"

definition request_path :: "string \<Rightarrow> string \<Rightarrow> string list" where
  "request_path base url = Split (drop (length base + 1) url) (CHR ''/'')"

definition link_call ::
  "api_link \<Rightarrow> string \<Rightarrow> string \<Rightarrow> string \<Rightarrow> jval \<Rightarrow> api_server \<Rightarrow> (string + fab_response) \<times> api_server" where
  "link_call l base meth url v s =
     (case serve_api (lk_env l) meth (request_path base url)
             \<lparr>ab_job = lk_spec l v, ab_pool = Inl [], ab_policy = Inl []\<rparr> s of
        (r, s) \<Rightarrow> (Inr (answer l r), s))"

definition fab_base :: "'w fab \<Rightarrow> string" where
  "fab_base fb = envOr (fb_api_url fb) ''http://localhost:8080''"

definition linked :: "api_link \<Rightarrow> api_server fab \<Rightarrow> api_server fab" where
  "linked l fb =
     fb\<lparr>fb_get := (\<lambda>url. link_call l (fab_base fb) ''GET'' url JNull), fb_post := link_call l (fab_base fb) ''POST''\<rparr>"

lemma linked_sel [simp]:
  "fb_api_url (linked l fb) = fb_api_url fb" "fb_read_file (linked l fb) = fb_read_file fb"
  "fb_yaml (linked l fb) = fb_yaml fb" "fb_number (linked l fb) = fb_number fb"
  by (simp_all add: linked_def)

lemma Split_last: "CHR ''/'' \<notin> set p \<Longrightarrow> Split p (CHR ''/'') = [p]"
  using cut_None [of "CHR ''/''" p] by (simp add: Split.simps)

lemma Split_step: "c \<notin> set a \<Longrightarrow> Split (a @ c # b) c = a # Split b c"
  by (simp add: Split.simps [of "a @ c # b"] cut_append)

lemma request_path_jobs:
  "request_path base (base @ ''/api/v1/jobs'') = [''api'', ''v1'', ''jobs'']"
  "CHR ''/'' \<notin> set i \<Longrightarrow> request_path base (base @ ''/api/v1/jobs/'' @ i) = [''api'', ''v1'', ''jobs'', i]"
  using Split_step [of "CHR ''/''" "''api''"] Split_step [of "CHR ''/''" "''v1''"] Split_step [of "CHR ''/''" "''jobs''" i]
  by (simp_all add: request_path_def Split_last)

lemma serve_create:
  "serve_api e ''POST'' [''api'', ''v1'', ''jobs''] b s = handleCreateJob e (ab_job b) s"
  by (simp add: serve_api_def routes_def Let_def path_matches_def segment_matches_def endpoint_request_def handle_def)

lemma serve_list: "serve_api e ''GET'' [''api'', ''v1'', ''jobs''] b s = handleListJobs e s"
  by (simp add: serve_api_def routes_def Let_def path_matches_def segment_matches_def endpoint_request_def handle_def)

lemma serve_get_job: "i \<noteq> [] \<Longrightarrow> serve_api e ''GET'' [''api'', ''v1'', ''jobs'', i] b s = handleGetJob e i s"
  by (simp add: serve_api_def routes_def Let_def path_matches_def segment_matches_def endpoint_request_def handle_def)

subsection \<open>What the client prints\<close>

text \<open>A command that fetches succeeds exactly when the server answers 200.\<close>

lemma fab_fetch_exit:
  "fb_get fb (envOr (fb_api_url fb) ''http://localhost:8080'' @ path) w = (a, w') \<Longrightarrow>
     fx_exit (fst (fab_fetch fb path out w)) = 0 \<longleftrightarrow> (\<exists>r. a = Inr r \<and> fr_status r = 200)"
  by (cases a) (auto simp: fab_fetch_def fab_fail_def fab_ok_def)

lemma linked_fetch:
  assumes "serve_api (lk_env l) ''GET'' (request_path (fab_base fb) (fab_base fb @ path))
      \<lparr>ab_job = lk_spec l JNull, ab_pool = Inl [], ab_policy = Inl []\<rparr> s = ((200, b), s')"
  shows "fab_fetch (linked l fb) path out s = (fab_ok (out (answer l (200, b))), s')"
  using assms by (simp add: fab_fetch_def linked_def link_call_def fab_base_def answer_def)

lemma str_text [simp]: "str f (JText s) = s"
  by (simp add: str_def)

lemma job_members_member [simp]:
  "member (JObj (job_members tf r @ ms)) ''id'' = (case map_of (rev ms) ''id'' of None \<Rightarrow> JText (jr_id r) | Some x \<Rightarrow> x)"
  "member (JObj (job_members tf r @ ms)) ''state'' =
     (case map_of (rev ms) ''state'' of None \<Rightarrow> JText (job_state_text (jr_state r)) | Some x \<Rightarrow> x)"
  "member (JObj (job_members tf r @ ms)) ''createdAt'' =
     (case map_of (rev ms) ''createdAt'' of None \<Rightarrow> JText (tf_seconds tf (jr_created r)) | Some x \<Rightarrow> x)"
  "member (JObj (job_members tf r @ ms)) ''updatedAt'' =
     (case map_of (rev ms) ''updatedAt'' of None \<Rightarrow> JText (tf_seconds tf (jr_updated r)) | Some x \<Rightarrow> x)"
  "member (JObj (job_members tf r @ ms)) ''spec'' = (case map_of (rev ms) ''spec'' of None \<Rightarrow> spec_json (jr_spec r) | Some x \<Rightarrow> x)"
  by (auto simp: member_def job_members_def map_add_def split: option.splits)

lemma spec_json_member [simp]:
  "is_obj (spec_json sp)" "member (spec_json sp) ''name'' = JText (sp_name sp)"
  "member (spec_json sp) ''image'' = JText (sp_image sp)"
  by (auto simp: spec_json_def member_def omit_empty_def map_add_def split: option.splits)

text \<open>The lines of a job without attempts, and its row in the list.\<close>

definition shown_job :: "time_format \<Rightarrow> job_row \<Rightarrow> string list" where
  "shown_job tf r =
     [''ID:        '' @ jr_id r, ''State:     '' @ job_state_text (jr_state r),
      ''Created:   '' @ tf_seconds tf (jr_created r), ''Updated:   '' @ tf_seconds tf (jr_updated r),
      ''Name:      '' @ sp_name (jr_spec r), ''Image:     '' @ sp_image (jr_spec r)]"

definition shown_row :: "time_format \<Rightarrow> job_row \<Rightarrow> string" where
  "shown_row tf r =
     table_row [(38, jr_id r), (12, job_state_text (jr_state r)), (20, tf_seconds tf (jr_created r))] (sp_name (jr_spec r))"

lemma status_lines_job: "status_lines fb (job_detail_json tf r []) = shown_job tf r"
  by (simp add: status_lines_def job_detail_json_def shown_job_def Let_def)
     (simp add: member_def)

lemma job_line_row: "job_line fb (JObj (job_members tf r)) = shown_row tf r"
  using job_members_member [of tf r "[]"] by (simp add: job_line_def shown_row_def Let_def)

subsection \<open>Submitting and looking\<close>

definition submitted_row :: "db_call \<Rightarrow> JobSpec \<Rightarrow> job_row" where
  "submitted_row c spec = \<lparr>jr_id = dc_id c, jr_spec = spec, jr_state = JobPending, jr_created = dc_now c, jr_updated = dc_now c\<rparr>"

lemma calm_create:
  assumes "calm (ae_db e)" and "c = or_call (ae_db e) (wd_calls (ap_world s))" and "\<not> has_job (wd_db (ap_world s)) (dc_id c)"
  shows "handleCreateJob e (Inr spec) s =
    (case ValidateJobSpec spec of
       Inl x \<Rightarrow> ((400, ErrorBody x), s)
     | Inr spec \<Rightarrow> ((201, JobIdBody (dc_id c)), s\<lparr>ap_world := \<lparr>wd_db = (wd_db (ap_world s))\<lparr>db_jobs := db_jobs (wd_db (ap_world s)) @ [submitted_row c spec]\<rparr>,
         wd_calls = wd_calls (ap_world s) + 1\<rparr>\<rparr>))"
  using assms(3)
  by (auto simp: handleCreateJob_def store_job_def acall_def calm_dbc [OF assms(1)] CreateJob_def
      calm_exec [OF assms(1), of "wd_calls (ap_world s)", folded assms(2)]
      insert_unique_def has_job_def submitted_row_def assms(2) [symmetric] Let_def split: sum.split)

lemma find_snoc: "(\<And>y. y \<in> set xs \<Longrightarrow> \<not> P y) \<Longrightarrow> P x \<Longrightarrow> find P (xs @ [x]) = Some x"
  by (induction xs) auto

lemma calm_get:
  assumes "calm (ae_db e)" and "find_job (wd_db (ap_world s)) i = Some r"
  shows "\<exists>s'. handleGetJob e i s = ((200, JobBody r (sort_key ar_number (attempts_of (wd_db (ap_world s)) i))), s')"
  using assms(2)
  by (simp add: handleGetJob_def reply_def acall_def calm_dbc [OF assms(1)] GetJob_def GetAttempts_def calm_query [OF assms(1)])

text \<open>C13: What was submitted is shown. On a database nothing else touches and that answers, fab submit prints the
  identifier the store gave the job, and fab status with that identifier then prints the job: Pending, with the
  times of its creation and the name and image of the file, and no attempts.\<close>

theorem submit_then_status:
  assumes "calm (ae_db (lk_env l))" and "c = or_call (ae_db (lk_env l)) (wd_calls (ap_world s))"
    and "\<not> has_job (wd_db (ap_world s)) (dc_id c)" and "db_typed (wd_db (ap_world s))"
    and "dc_id c \<noteq> []" and "CHR ''/'' \<notin> set (dc_id c)"
    and "fb_read_file fb path = Inr data" and "fb_yaml fb data = Inr spec"
    and "lk_spec l (spec_json spec) = Inr spec" and "ValidateJobSpec spec = Inr checked"
    and "fab_main (linked l fb) [''submit'', path] s = (r, s')"
  shows "r = fab_ok (as_lines [''Job submitted: '' @ dc_id c]) \<and>
    fst (fab_main (linked l fb) [''status'', dc_id c] s') = fab_ok (as_lines (shown_job (lk_times l) (submitted_row c checked)))"
proof -
  let ?d = "wd_db (ap_world s)" and ?r = "submitted_row c checked"
  let ?t = "s\<lparr>ap_world := \<lparr>wd_db = ?d\<lparr>db_jobs := db_jobs ?d @ [?r]\<rparr>, wd_calls = wd_calls (ap_world s) + 1\<rparr>\<rparr>"
  have base: "envOr (fb_api_url fb) ''http://localhost:8080'' = fab_base fb" by (simp add: fab_base_def)
  have "fab_main (linked l fb) [''submit'', path] s = (fab_ok (as_lines [''Job submitted: '' @ dc_id c]), ?t)"
    using assms(7-10)
    by (simp add: fab_main_def one_arg_def fabSubmit_def base) (simp add: linked_def link_call_def request_path_jobs serve_create
        calm_create [OF assms(1-3)] answer_def body_json_def decoded_def)
  with assms(11) have r: "r = fab_ok (as_lines [''Job submitted: '' @ dc_id c])" "s' = ?t" by simp_all
  have "attempts_of ?d (dc_id c) = []" using assms(3,4) by (auto simp: db_typed_def attempts_of_def filter_empty_conv)
  then have none: "attempts_of (wd_db (ap_world ?t)) (dc_id c) = []" by (simp add: attempts_of_def)
  have "find_job (wd_db (ap_world ?t)) (dc_id c) = Some ?r"
    using assms(3) unfolding find_job_def has_job_def by (simp, intro find_snoc) (auto simp: submitted_row_def image_iff)
  from calm_get [OF assms(1) this] none obtain t' where
    get: "handleGetJob (lk_env l) (dc_id c) ?t = ((200, JobBody ?r []), t')" by auto
  have "serve_api (lk_env l) ''GET'' (request_path (fab_base fb) (fab_base fb @ ''/api/v1/jobs/'' @ dc_id c))
      \<lparr>ab_job = lk_spec l JNull, ab_pool = Inl [], ab_policy = Inl []\<rparr> ?t = ((200, JobBody ?r []), t')"
    by (simp only: request_path_jobs(2) [OF assms(6)] serve_get_job [OF assms(5)] get)
  from linked_fetch [OF this]
  have "fst (fab_main (linked l fb) [''status'', dc_id c] ?t) = fab_ok (as_lines (shown_job (lk_times l) ?r))"
    by (simp add: fab_main_def one_arg_def fabStatus_def answer_def body_json_def decoded_def status_lines_job)
  with r show ?thesis by simp
qed

definition ex_link :: api_link where
  "ex_link = \<lparr>lk_env = ex_api, lk_times = \<lparr>tf_seconds = show_int, tf_nanos = show_int\<rparr>, lk_encode = (\<lambda>v. []),
     lk_spec = (\<lambda>v. Inr ex_spec)\<rparr>"

definition ex_fab :: "api_server fab" where
  "ex_fab = \<lparr>fb_api_url = [], fb_read_file = (\<lambda>p. Inr []), fb_yaml = (\<lambda>d. Inr ex_spec), fb_get = (\<lambda>u s. (Inl [], s)),
     fb_post = (\<lambda>u v s. (Inl [], s)), fb_number = (\<lambda>x. []), fb_fixed0 = (\<lambda>v. [])\<rparr>"

theorem submit_then_status_witness:
  "fst (fab_main (linked ex_link ex_fab) [''status'', ''x'']
      (snd (fab_main (linked ex_link ex_fab) [''submit'', ''f''] ((ex_server empty_db)\<lparr>ap_world := \<lparr>wd_db = empty_db, wd_calls = 1\<rparr>\<rparr>)))) =
    fab_ok (as_lines [''ID:        x'', ''State:     Pending'', ''Created:   1'', ''Updated:   1'', ''Name:      n'', ''Image:     i''])"
proof -
  let ?s = "(ex_server empty_db)\<lparr>ap_world := \<lparr>wd_db = empty_db, wd_calls = 1\<rparr>\<rparr>"
  have c: "or_call (ae_db (lk_env ex_link)) (wd_calls (ap_world ?s)) = ex_call 1"
    by (simp add: ex_link_def ex_api_def sole_oracle_def)
  have "ValidateJobSpec ex_spec = Inr ex_spec" by code_simp
  moreover have "calm (ae_db (lk_env ex_link))" by (simp add: ex_link_def ex_api_def ex_calm)
  ultimately have "fst (fab_main (linked ex_link ex_fab) [''status'', dc_id (ex_call 1)] (snd (fab_main (linked ex_link ex_fab) [''submit'', ''f''] ?s))) =
      fab_ok (as_lines (shown_job (lk_times ex_link) (submitted_row (ex_call 1) ex_spec)))"
    using submit_then_status [OF _ c [symmetric] _ _ _ _ _ _ _ _ surjective_pairing, of ex_fab "''f''" "[]" ex_spec ex_spec]
    by (simp add: ex_call_def has_job_def empty_db_def ex_fab_def ex_link_def ex_server_def)
       (simp add: empty_db_def [symmetric])
  moreover have "shown_job (lk_times ex_link) (submitted_row (ex_call 1) ex_spec) =
      [''ID:        x'', ''State:     Pending'', ''Created:   1'', ''Updated:   1'', ''Name:      n'', ''Image:     i'']" by code_simp
  moreover have "dc_id (ex_call 1) = ''x''" by code_simp
  ultimately show ?thesis by simp
qed

text \<open>The list shows every job the server returns, in its order.\<close>

lemma list_shows_jobs:
  assumes "calm (ae_db (lk_env l))"
  shows "\<exists>s'. fab_main (linked l fb) [''list''] s =
    (fab_ok (as_lines (case sort_key (\<lambda>r. - jr_created r) (db_jobs (wd_db (ap_world s))) of
        [] \<Rightarrow> [''(no jobs)'']
      | rs \<Rightarrow> [table_row [(38, ''ID''), (12, ''STATE''), (20, ''CREATED'')] ''NAME'',
               table_row [(38, ''------''), (12, ''-----''), (20, ''-------'')] ''----''] @ map (shown_row (lk_times l)) rs)), s')"
proof -
  let ?rs = "sort_key (\<lambda>r. - jr_created r) (db_jobs (wd_db (ap_world s)))"
  obtain s' where "handleListJobs (lk_env l) s = ((200, JobsBody ?rs), s')"
    by (simp add: handleListJobs_def reply_def acall_def calm_dbc [OF assms] ListJobs_def calm_query [OF assms])
  then have "serve_api (lk_env l) ''GET'' (request_path (fab_base fb) (fab_base fb @ ''/api/v1/jobs''))
      \<lparr>ab_job = lk_spec l JNull, ab_pool = Inl [], ab_policy = Inl []\<rparr> s = ((200, JobsBody ?rs), s')"
    by (simp only: request_path_jobs(1) serve_list)
  from linked_fetch [OF this] show ?thesis
    by (auto simp: fab_main_def fabList_def answer_def body_json_def decoded_def list_lines_def job_line_row comp_def split: list.split)
qed

end
