(* ===== verification/Spec2Isabelle.thy ===== *)
theory Spec2Isabelle
  imports JobProperties ControlProperties StorageProperties RuntimeProperties CheckpointProperties DbProperties
    ScenarioProperties Supervisor FabProperties Wiring
begin

text \<open>
  A verification library for the durarun operator: a Kubernetes operator that runs agent jobs
  as attempts in Pods, keeps their results in an artifact store, and lets an agent resume
  after a crash from a write-ahead log and from checkpoints of its workspace. The repository
  also holds the older, database-backed system the operator replaces: an API server, a
  scheduler and workers around one PostgreSQL database.

  \<^bold>\<open>Parts and how they interact.\<close> A user creates an AgentJob; the admission webhook
  (\<open>internal/webhook\<close>) checks it. The job controller (\<open>internal/controller\<close>) takes a
  snapshot of the job, its attempts and its Pods, creates attempts, builds the Pod of an
  attempt (\<open>internal/executor\<close>), follows the Pod and writes the job's status. The pool
  controller keeps warm Pods. Inside the Pod the runner (\<open>internal/runner\<close>,
  \<open>cmd/agent-runner\<close>) restores the workspace, journals the agent's steps in the
  write-ahead log (\<open>wal\<close>, \<open>runtime\<close>, \<open>protect\<close>) and checkpoints the workspace
  (\<open>internal/checkpoint\<close>). Results are committed to the artifact store
  (\<open>internal/artifact\<close>) directly or through the artifact gateway (\<open>internal/gateway\<close>).

  \<^bold>\<open>Foundations.\<close> \<open>Prelude\<close>: fixed-width integers, the theorem collections, and the
  locales \<open>invariant_machine\<close> and \<open>latch_machine\<close> for sequences of operations.
  \<open>GoStd\<close>: \<open>strings\<close>, \<open>strconv\<close>, \<open>time\<close> and \<open>float64\<close> division.
  \<open>Json\<close> and \<open>JsonIndent\<close>: flat JSON documents byte by byte, with the lemma that no
  proper prefix of a document is one. \<open>Paths\<close>: cleaning and joining of paths.
  \<open>Http\<close>: requests, responses and escaping.

  \<^bold>\<open>Kubernetes side.\<close> \<open>ApiTypes\<close> (\<open>api/v1alpha1\<close>): the custom resources as records,
  defaults and validation. \<open>Conditions\<close> (\<open>internal/state\<close>): condition lists, the
  terminal-once rule. \<open>Protocol\<close> (\<open>internal/protocol\<close>). \<open>Decisions\<close>: retry, backoff,
  loss, deadline and time-to-live. \<open>Fencing\<close>: ownership and result fencing.
  \<open>PodBuilder\<close>: Pods, secrets and network policies. \<open>KubeClient\<close>: the API client as a
  record of operations over an arbitrary state; \<open>MemKube\<close>: a concrete one, for witnesses.
  \<open>Snapshots\<close>, \<open>AttemptReconciler\<close>, \<open>JobController\<close>: one reconcile, function by
  function, with every failing call as a branch; the last one also states the abstract life
  of a job. \<open>Finalizer\<close>, \<open>Webhook\<close>, \<open>PoolController\<close>. \<open>JobProperties\<close> and
  \<open>ControlProperties\<close> hold the properties: a reconcile is a step of the abstract life, the
  retry budget, what a Complete job needs, terminal jobs are final, pool scaling bounds,
  finalization, fencing, capacity, backoff.

  \<^bold>\<open>Artifacts.\<close> \<open>ArtifactStore\<close>: keys, the locale \<open>artifact_store\<close> (what a store
  promises: the visible objects), its interpretation by the in-memory store, the S3 store and
  the gateway client as HTTP programs. \<open>ArtifactCommit\<close>: the manifest-last commit and its
  validation. \<open>Gateway\<close>: sessions, scopes and handlers. \<open>StorageProperties\<close>: manifest
  last, commit and validate, scope safety over any request sequence.

  \<^bold>\<open>Durable execution.\<close> \<open>Wal\<close>: the log's files with a fault at every system call.
  \<open>WalLog\<close>: a directory holding given records; appending, rotating and resuming.
  \<open>StepLog\<close>: the history automaton the log refines, and the locale \<open>event_log\<close> with its
  interpretation by the log. \<open>Protect\<close>: the retry loop, a function with its measure.
  \<open>Runtime\<close>, \<open>Runner\<close>: steps of a local agent and of an agent behind the hook socket.
  \<open>RuntimeProperties\<close>: the log is the history, a restart runs exactly the unfinished
  steps, and the crashes after which it cannot.

  \<^bold>\<open>Checkpoints.\<close> \<open>Archive\<close>: walking, archiving and extracting over a file tree; an
  extraction restores the walk and stays in its directory. \<open>Checkpoints\<close>: checkpoints in an
  artifact store. \<open>FsCheckpoint\<close>: the filesystem store, step by step with faults.
  \<open>AgentRunner\<close>: the command's flags, its restore run and its sidecar loop.
  \<open>CheckpointProperties\<close>: what a sidecar leaves for the next Pod, the latest checkpoint,
  and the crashes that lose one.

  \<^bold>\<open>Database-backed system.\<close> Three kinds of process share the store: the API server
  creates jobs and asks for their termination, the scheduler makes attempts of pending jobs
  and retries failed ones, a worker claims an attempt, runs it in a sandbox and records the
  outcome. \<open>JobModel\<close> (\<open>internal/model\<close>): the rows as records and the transition
  tables. \<open>JobStore\<close> (\<open>internal/store\<close>): each transaction of the store as a function on
  the tables with its rollback; any statement may fail. \<open>JobSystem\<close>: the abstract machine
  \<open>db_step\<close> all processes obey, its invariants (every row typed, the audit log replays), and
  the oracle that says, before each transaction, what the other processes did meanwhile;
  \<open>calm\<close> and \<open>alone\<close> name the oracles in which they did little or nothing. \<open>WarmPool\<close>
  (\<open>internal/pool\<close>): the pool manager, its claims and its sizes. \<open>Isolation\<close>
  (\<open>internal/isolation\<close>, \<open>internal/sandbox\<close>): levels, latencies and the two runtimes.
  \<open>Scheduler\<close>, \<open>Worker\<close>, \<open>JobApi\<close>: the three processes. \<open>DbProcesses\<close>: any
  interleaving of them is a run of the abstract machine. \<open>DbProperties\<close>: the properties,
  among them which answers an interfering process can cause.

  \<^bold>\<open>Commands.\<close> \<open>Agentctl\<close> (\<open>cmd/agentctl\<close>): the user's command for the
  operator, its arguments, subcommands and output over the API client. \<open>JsonTree\<close>: JSON
  documents as trees, what Go reads from one and prints of it. \<open>ApiJson\<close>: the documents the
  API server writes. \<open>Fab\<close> (\<open>cmd/fab\<close>): the client of the API server. \<open>FabProperties\<close>
  links the two: what was submitted is what is shown. \<open>Supervisor\<close>
  (\<open>internal/runner/supervisor.go\<close>): a child process with the signals it is sent, and the
  life of the hook server with its connections, a latch. \<open>Wiring\<close> (\<open>cmd/apiserver\<close>,
  \<open>cmd/scheduler\<close>, \<open>cmd/worker\<close>): what these processes read from their environment and
  start from; and the status patches of \<open>internal/controller/status_patch.go\<close>.

  \<^bold>\<open>The whole cluster.\<close> \<open>Cluster\<close>: an API server that may refuse a call, lose its answer
  or let Pods change before it, and the events of a cluster: the user's commands, edits, passes of
  the controller and changes of Pods. \<open>cluster_write\<close> is the abstract specification, the
  writes a controller may make; every stage of a reconcile refines it. Deleting a job removes
  its attempts with it, as the garbage collector does for owned objects. \<open>ClusterInvariant\<close>:
  what the writes and the commands keep (names, owners and ordinals of attempts, at most one
  active attempt, one terminal condition), and the jobs they leave alone. \<open>ClusterProgress\<close>:
  a measure that every pass without faults brings down once the Pods have ended, so that every
  job ends. \<open>ScenarioChecks\<close>
  (\<open>test/e2e/invariant_evaluator.go\<close>): the checks of the end-to-end framework, which hold or
  fail on such clusters; \<open>Scenarios\<close>: its faults and helpers. \<open>ClusterProperties\<close> and
  \<open>ScenarioProperties\<close> hold the properties.

  \<^bold>\<open>Parameters.\<close> Code outside the repository is an argument: the API server's answers,
  \<open>SetStatusCondition\<close>, resource quantities, SHA-256, randomness, HTTP transport, XML, tar
  and gzip, the JSON of nested documents, \<open>sort.Slice\<close>, the user's job function,
  \<open>time.ParseDuration\<close>, \<open>strconv.ParseFloat\<close>, the database's faults and generated
  identifiers, the answers of the Docker daemon and of a sandbox, YAML decoding, file reading,
  creation timestamps, the texts of instants, durations and \<open>float64\<close> numbers. Where a
  property needs more of one than its type, the documented law is a hypothesis and the
  property's witness instantiates it.

  \<^bold>\<open>Bounds.\<close> Integers are unbounded \<open>int\<close>s with \<open>i32\<close> and \<open>i64\<close> written where the
  code can wrap. The log's file names have four digits, so its lemmas stop at 10000 files; a
  line has at most 1 MiB, the scanner's buffer. No definition needs fuel: loops are structural,
  or carry a measure, and loops that only the environment ends take the list of what happens.

  \<^bold>\<open>Not modelled.\<close> Logging, metrics and tracing; file modes and symbolic links in
  an extraction target; the durability of directory entries; goroutine interleaving inside one
  handler (each holds a mutex) and between the attempts of one worker on its pool and runtime
  managers; the tickers and random delays between passes; the database's connection and
  schema migration; the flags and the manager of \<open>cmd/operator\<close>, signals, and the benchmarks.
\<close>

end
